(* ===== verification/Prelude.thy ===== *)
theory Prelude
  imports Main "HOL-Library.Char_ord" "HOL-Library.List_Lexorder"
begin

section \<open>Shared vocabulary of the development\<close>

text \<open>
  What the components share: the result of a database operation, tables as lists of rows
  (select by key, update where, insert with a uniqueness check), the rule collections the
  component proofs use, and the two interfaces that several components provide: a status
  machine with terminal states, and a table whose rows carry a unique key.
\<close>

named_theorems store_defs \<open>definitions of the database operations\<close>
named_theorems row_simps \<open>row accessors after a table update\<close>

subsection \<open>Results of operations\<close>

text \<open>
  A database operation returns the state it leaves and either an error or a value. A
  transaction that is rolled back leaves the state it found; one that commits and still
  reports an error (the stale approval of \<open>decideApproval\<close>) leaves the committed state.
\<close>

type_synonym ('s, 'e, 'a) outcome = "'s \<times> ('e + 'a)"

abbreviation fail :: "'s \<Rightarrow> 'e \<Rightarrow> ('s, 'e, 'a) outcome" where
  "fail s e \<equiv> (s, Inl e)"

abbreviation commit :: "'s \<Rightarrow> 'a \<Rightarrow> ('s, 'e, 'a) outcome" where
  "commit s x \<equiv> (s, Inr x)"

definition is_ok :: "'e + 'a \<Rightarrow> bool" where
  "is_ok r = (case r of Inl _ \<Rightarrow> False | Inr _ \<Rightarrow> True)"

lemma is_ok_simps [simp]: "is_ok (Inr x)" "\<not> is_ok (Inl e)"
  by (simp_all add: is_ok_def)

lemma is_ok_conv: "is_ok r \<longleftrightarrow> (\<exists>x. r = Inr x)"
  by (cases r) auto

subsection \<open>Tables\<close>

text \<open>
  A table is the list of its rows in insertion order. \<open>select_key\<close> is a query by primary
  key (the first row; the key is unique), \<open>update_where\<close> an UPDATE with a WHERE clause and
  \<open>affected\<close> the number of rows it touches.
\<close>

fun select_key :: "('r \<Rightarrow> 'k) \<Rightarrow> 'r list \<Rightarrow> 'k \<Rightarrow> 'r option" where
  "select_key key [] k = None"
| "select_key key (r # rs) k = (if key r = k then Some r else select_key key rs k)"

definition update_where :: "('r \<Rightarrow> bool) \<Rightarrow> ('r \<Rightarrow> 'r) \<Rightarrow> 'r list \<Rightarrow> 'r list" where
  "update_where p f rs = map (\<lambda>r. if p r then f r else r) rs"

definition affected :: "('r \<Rightarrow> bool) \<Rightarrow> 'r list \<Rightarrow> nat" where
  "affected p rs = length (filter p rs)"

lemma select_key_SomeD: "select_key key rs k = Some r \<Longrightarrow> r \<in> set rs \<and> key r = k"
  by (induction rs) (auto split: if_splits)

lemma select_key_None: "select_key key rs k = None \<longleftrightarrow> k \<notin> key ` set rs"
  by (induction rs) auto

lemma select_key_unique:
  "distinct (map key rs) \<Longrightarrow> r \<in> set rs \<Longrightarrow> select_key key rs (key r) = Some r"
  by (induction rs) (auto simp: image_iff split: if_splits)

lemma select_key_append:
  "select_key key (rs @ ss) k =
     (case select_key key rs k of None \<Rightarrow> select_key key ss k | Some r \<Rightarrow> Some r)"
  by (induction rs) auto

lemma update_where_Nil [simp]: "update_where p f [] = []"
  by (simp add: update_where_def)

lemma update_where_Cons [simp]:
  "update_where p f (r # rs) = (if p r then f r else r) # update_where p f rs"
  by (simp add: update_where_def)

lemma length_update_where [simp]: "length (update_where p f rs) = length rs"
  by (simp add: update_where_def)

lemma set_update_where: "set (update_where p f rs) = (\<lambda>r. if p r then f r else r) ` set rs"
  by (simp add: update_where_def)

lemma bex_update_where:
  "(\<exists>r \<in> set (update_where p f rs). q r) \<longleftrightarrow> (\<exists>r \<in> set rs. q (if p r then f r else r))"
  by (simp only: set_update_where image_iff bex_simps)

lemma in_update_where:
  "r \<in> set (update_where p f rs) \<longleftrightarrow> (\<exists>q \<in> set rs. r = (if p q then f q else q))"
  by (auto simp: set_update_where)

lemma map_key_update_where:
  "(\<And>r. key (f r) = key r) \<Longrightarrow> map key (update_where p f rs) = map key rs"
  by (induction rs) auto

lemma select_key_update_where:
  "(\<And>r. key (f r) = key r) \<Longrightarrow>
     select_key key (update_where p f rs) k =
       map_option (\<lambda>r. if p r then f r else r) (select_key key rs k)"
  by (induction rs) auto

lemma affected_pos: "affected p rs > 0 \<longleftrightarrow> (\<exists>r \<in> set rs. p r)"
  by (induction rs) (auto simp: affected_def)

lemma affected_zero: "affected p rs = 0 \<longleftrightarrow> (\<forall>r \<in> set rs. \<not> p r)"
  by (auto simp: affected_def filter_empty_conv)

lemma affected_key_le:
  "distinct (map key rs) \<Longrightarrow> (\<And>r. p r \<Longrightarrow> key r = k) \<Longrightarrow> affected p rs \<le> 1"
proof (induction rs)
  case Nil
  then show ?case by (simp add: affected_def)
next
  case (Cons r rs)
  show ?case
  proof (cases "p r")
    case True
    with Cons.prems have "\<forall>q \<in> set rs. \<not> p q" by (auto simp: image_iff)
    then show ?thesis by (simp add: affected_def filter_empty_conv)
  next
    case False
    with Cons show ?thesis by (simp add: affected_def)
  qed
qed

lemma affected_key_one:
  assumes "distinct (map key rs)" and "r \<in> set rs" and "p r" and "\<And>q. p q \<Longrightarrow> key q = k"
  shows "affected p rs = 1"
proof -
  have "affected p rs \<le> 1" by (rule affected_key_le [OF assms(1,4)])
  moreover have "0 < affected p rs" using assms(2,3) by (auto simp: affected_pos)
  ultimately show ?thesis by simp
qed

lemma sort_key_Nil: "sort_key f xs = [] \<longleftrightarrow> xs = []"
  by (metis length_0_conv length_sort)

lemma sort_key_head:
  "sort_key f xs = y # ys \<Longrightarrow> y \<in> set xs \<and> (\<forall>x \<in> set xs. f y \<le> f x)"
proof -
  assume h: "sort_key f xs = y # ys"
  have "sorted (map f (y # ys))" by (metis h sorted_sort_key)
  moreover have "set xs = set (y # ys)" by (metis h set_sort)
  ultimately show ?thesis by auto
qed

subsection \<open>The interface of a keyed table\<close>

text \<open>
  Every table of the store has a primary key that no update of the code changes. The
  locale states that contract of a row update and gives what its clients use: the row
  under a key after an UPDATE and after an INSERT, and that keys stay distinct.
\<close>

locale keyed_update =
  fixes key :: "'r \<Rightarrow> 'k" and upd :: "'r \<Rightarrow> 'r"
  assumes key_upd: "key (upd r) = key r"
begin

lemma keys_kept: "map key (update_where p upd rs) = map key rs"
  by (rule map_key_update_where) (rule key_upd)

lemma distinct_kept: "distinct (map key rs) \<Longrightarrow> distinct (map key (update_where p upd rs))"
  by (simp add: keys_kept)

lemma select_after:
  "select_key key (update_where p upd rs) k =
     map_option (\<lambda>r. if p r then upd r else r) (select_key key rs k)"
  by (rule select_key_update_where) (rule key_upd)

end

subsection \<open>The interface of a status machine\<close>

text \<open>
  Runs, plan cycles, memory indexes and knowledge generations are all driven by a table of
  permitted status changes with some statuses that are final. The locale's parameters are
  the permission test and the final statuses; its one law is that a final status permits
  nothing. Whatever follows a final status in a history is that status.
\<close>

locale status_machine =
  fixes allowed :: "'s \<Rightarrow> 's \<Rightarrow> bool" and final :: "'s \<Rightarrow> bool"
  assumes final_stuck: "final s \<Longrightarrow> \<not> allowed s t"
begin

lemma final_absorbing: "allowed\<^sup>*\<^sup>* s t \<Longrightarrow> final s \<Longrightarrow> t = s"
  by (erule converse_rtranclpE) (auto simp: final_stuck)

lemma final_no_later: "allowed\<^sup>+\<^sup>+ s t \<Longrightarrow> \<not> final s"
  by (erule tranclp_induct) (auto dest: final_stuck)

lemma closed_reach:
  assumes "\<And>s t. s \<in> S \<Longrightarrow> allowed s t \<Longrightarrow> t \<in> S"
  shows "allowed\<^sup>*\<^sup>* s t \<Longrightarrow> s \<in> S \<Longrightarrow> t \<in> S"
  by (induction rule: rtranclp_induct) (auto intro: assms)

end

subsection \<open>The interface of a row history\<close>

text \<open>
  No row of the store is deleted by the run lifecycle: an operation changes rows in place and
  appends new ones. \<open>rows_evolve\<close> says that of two versions of a table, for a relation between
  the old and the new version of one row. The locale asks of the relation that it is a
  preorder that keeps the key, and gives that every update and insert respects it and that a
  row found before is found after.
\<close>

definition rows_evolve :: "('r \<Rightarrow> 'r \<Rightarrow> bool) \<Rightarrow> 'r list \<Rightarrow> 'r list \<Rightarrow> bool" where
  "rows_evolve R xs ys \<longleftrightarrow> length xs \<le> length ys \<and> list_all2 R xs (take (length xs) ys)"

lemma list_all2_update_where:
  "(\<And>r. R r r) \<Longrightarrow> (\<And>r. r \<in> set rs \<Longrightarrow> p r \<Longrightarrow> R r (f r)) \<Longrightarrow> list_all2 R rs (update_where p f rs)"
  by (induction rs) auto

locale row_history =
  fixes key :: "'r \<Rightarrow> 'k" and step :: "'r \<Rightarrow> 'r \<Rightarrow> bool"
  assumes step_refl: "step r r"
    and step_trans: "step r1 r2 \<Longrightarrow> step r2 r3 \<Longrightarrow> step r1 r3"
    and step_key: "step r1 r2 \<Longrightarrow> key r2 = key r1"
begin

lemma evolve_refl: "rows_evolve step rs rs"
  by (simp add: rows_evolve_def list_all2_refl step_refl)

lemma evolve_trans:
  assumes "rows_evolve step xs ys" and "rows_evolve step ys zs" shows "rows_evolve step xs zs"
proof -
  have a: "list_all2 step (take (length xs) ys) (take (length xs) zs)"
    using assms list_all2_takeI [of step ys "take (length ys) zs" "length xs"]
    by (simp add: rows_evolve_def min_def)
  have b: "list_all2 step xs (take (length xs) ys)"
    using assms by (simp add: rows_evolve_def)
  have "list_all2 step xs (take (length xs) zs)"
    by (rule list_all2_trans [OF _ b a]) (rule step_trans)
  then show ?thesis using assms by (simp add: rows_evolve_def)
qed

lemma evolve_update:
  "(\<And>r. r \<in> set rs \<Longrightarrow> p r \<Longrightarrow> step r (f r)) \<Longrightarrow> rows_evolve step rs (update_where p f rs)"
  by (simp add: rows_evolve_def list_all2_update_where step_refl)

lemma evolve_append: "rows_evolve step rs (rs @ ss)"
  by (simp add: rows_evolve_def list_all2_refl step_refl)

lemma keys_prefix: "list_all2 step rs ss \<Longrightarrow> map key ss = map key rs"
  by (induction rule: list_all2_induct) (simp_all add: step_key)

lemma select_all2:
  "list_all2 step rs ss \<Longrightarrow> select_key key rs k = Some r \<Longrightarrow>
     \<exists>r'. select_key key ss k = Some r' \<and> step r r'"
  by (induction rule: list_all2_induct) (auto simp: step_key split: if_splits)

lemma select_later:
  assumes "rows_evolve step rs ss" and "select_key key rs k = Some r"
  shows "\<exists>r'. select_key key ss k = Some r' \<and> step r r'"
proof -
  have "list_all2 step rs (take (length rs) ss)" using assms(1) by (simp add: rows_evolve_def)
  then obtain r' where "select_key key (take (length rs) ss) k = Some r'" "step r r'"
    using select_all2 assms(2) by blast
  moreover have "select_key key ss k =
      select_key key (take (length rs) ss @ drop (length rs) ss) k" by simp
  ultimately show ?thesis by (simp only: select_key_append) simp
qed

lemma member_later:
  assumes "rows_evolve step rs ss" and "r \<in> set rs"
  shows "\<exists>r' \<in> set ss. key r' = key r \<and> step r r'"
proof -
  have "list_all2 step rs (take (length rs) ss)" using assms(1) by (simp add: rows_evolve_def)
  then obtain r' where "r' \<in> set (take (length rs) ss)" "step r r'"
    using assms(2) by (induction rule: list_all2_induct) auto
  then show ?thesis by (auto dest: in_set_takeD step_key)
qed

end

subsection \<open>Duplicate detection in a loop\<close>

text \<open>
  The validators walk a list once and keep the set of identities already seen; the walk
  stops at the first repetition. \<open>first_dup\<close> is that walk over a list of keys.
\<close>

fun first_dup :: "'k list \<Rightarrow> 'k list \<Rightarrow> 'k option" where
  "first_dup seen [] = None"
| "first_dup seen (k # ks) = (if k \<in> set seen then Some k else first_dup (k # seen) ks)"

lemma first_dup_None:
  "first_dup seen ks = None \<longleftrightarrow> distinct ks \<and> set ks \<inter> set seen = {}"
  by (induction ks arbitrary: seen) auto

end
