(* ===== verification/Go_Time.thy ===== *)
theory Go_Time
  imports Prelude
begin

section \<open>Instants and their textual forms\<close>

text \<open>
  A Go \<open>time.Time\<close> in UTC as its calendar fields. The chronological order is the
  lexicographic order of the fields. Two renderings are modelled: \<open>formatTime\<close> of
  \<^verbatim>\<open>internal/store/db.go\<close>, the RFC 3339 form with a fraction that drops trailing zeros,
  which every store table keeps; and \<open>CanonicalKnowledgeTime\<close> of
  \<^verbatim>\<open>internal/core/knowledge_time.go\<close>, which is of fixed width.
\<close>

record gotime =
  t_year :: nat
  t_month :: nat
  t_day :: nat
  t_hour :: nat
  t_min :: nat
  t_sec :: nat
  t_nano :: nat

definition valid_time :: "gotime \<Rightarrow> bool" where
  "valid_time t \<longleftrightarrow> t_year t < 10000 \<and> 1 \<le> t_month t \<and> t_month t \<le> 12 \<and> 1 \<le> t_day t \<and>
     t_day t \<le> 31 \<and> t_hour t < 24 \<and> t_min t < 60 \<and> t_sec t < 60 \<and> t_nano t < 1000000000"

definition time_key :: "gotime \<Rightarrow> nat list" where
  "time_key t = [t_year t, t_month t, t_day t, t_hour t, t_min t, t_sec t, t_nano t]"

definition time_before :: "gotime \<Rightarrow> gotime \<Rightarrow> bool" where
  "time_before t u \<longleftrightarrow> time_key t < time_key u"

lemma time_before_irrefl [simp]: "\<not> time_before t t"
  by (simp add: time_before_def)

lemma time_before_trans: "time_before t u \<Longrightarrow> time_before u v \<Longrightarrow> time_before t v"
  by (simp add: time_before_def)

lemma time_key_eq: "time_key t = time_key u \<longleftrightarrow> t = u"
  by (cases t; cases u) (simp add: time_key_def)

lemma time_before_total: "t = u \<or> time_before t u \<or> time_before u t"
  unfolding time_before_def using less_linear [of "time_key t" "time_key u"]
  by (auto simp: time_key_eq)

subsection \<open>Decimal fields\<close>

definition digit_char :: "nat \<Rightarrow> char" where
  "digit_char n = char_of (48 + n)"

lemma digit_char_code [code]: "digit_char n = (if n < 10 then ''0123456789'' ! n else char_of (48 + n))"
proof -
  have "\<forall>n \<in> set [0..<10]. digit_char n = ''0123456789'' ! n" by code_simp
  then show ?thesis by (simp add: digit_char_def)
qed

fun pad :: "nat \<Rightarrow> nat \<Rightarrow> string" where
  "pad 0 n = []"
| "pad (Suc w) n = pad w (n div 10) @ [digit_char (n mod 10)]"

definition rstrip_zeros :: "string \<Rightarrow> string" where
  "rstrip_zeros s = rev (dropWhile (\<lambda>c. c = CHR ''0'') (rev s))"

definition date_clock :: "gotime \<Rightarrow> string" where
  "date_clock t = pad 4 (t_year t) @ ''-'' @ pad 2 (t_month t) @ ''-'' @ pad 2 (t_day t) @ ''T'' @
     pad 2 (t_hour t) @ '':'' @ pad 2 (t_min t) @ '':'' @ pad 2 (t_sec t)"

definition format_time :: "gotime \<Rightarrow> string" where
  "format_time t = date_clock t @
     (if t_nano t = 0 then [] else CHR ''.'' # rstrip_zeros (pad 9 (t_nano t))) @ ''Z''"

definition canonical_knowledge_time :: "gotime \<Rightarrow> string" where
  "canonical_knowledge_time t = date_clock t @ ''.'' @ pad 9 (t_nano t) @ ''Z''"

lemma length_pad [simp]: "length (pad w n) = w"
  by (induction w n rule: pad.induct) auto

lemma less_append_same_length:
  "length a = length c \<Longrightarrow> (a @ b < c @ d) = (a < c \<or> a = c \<and> b < (d :: 'a :: linorder list))"
  by (induction a c rule: list_induct2) auto

lemma digit_char_less: "i < 10 \<Longrightarrow> j < 10 \<Longrightarrow> digit_char i < digit_char j \<longleftrightarrow> i < j"
  by (simp add: digit_char_def less_char_def)

lemma digit_char_inj: "i < 10 \<Longrightarrow> j < 10 \<Longrightarrow> digit_char i = digit_char j \<longleftrightarrow> i = j"
  by (metis digit_char_less less_irrefl linorder_neqE_nat)

lemma decimal_less:
  "(b::nat) < 10 \<Longrightarrow> d < 10 \<Longrightarrow> a < c \<or> a = c \<and> b < d \<longleftrightarrow> 10 * a + b < 10 * c + d"
  by arith

lemma div_mod_less_iff:
  "(m::nat) div 10 < n div 10 \<or> m div 10 = n div 10 \<and> m mod 10 < n mod 10 \<longleftrightarrow> m < n"
  using decimal_less [of "m mod 10" "n mod 10" "m div 10" "n div 10"] by simp

lemma div_mod_eq_iff: "(m::nat) div 10 = n div 10 \<and> m mod 10 = n mod 10 \<longleftrightarrow> m = n"
  by (metis div_mod_decomp)

lemma pad_eq_iff: "m < 10 ^ w \<Longrightarrow> n < 10 ^ w \<Longrightarrow> pad w m = pad w n \<longleftrightarrow> m = n"
proof (induction w arbitrary: m n)
  case 0
  then show ?case by simp
next
  case (Suc w)
  then have "m div 10 < 10 ^ w" "n div 10 < 10 ^ w" by auto
  then show ?case
    using div_mod_eq_iff [of m n] by (simp add: Suc.IH digit_char_inj)
qed

lemma pad_less_iff: "m < 10 ^ w \<Longrightarrow> n < 10 ^ w \<Longrightarrow> pad w m < pad w n \<longleftrightarrow> m < n"
proof (induction w arbitrary: m n)
  case 0
  then show ?case by simp
next
  case (Suc w)
  then have b: "m div 10 < 10 ^ w" "n div 10 < 10 ^ w" by auto
  have "pad (Suc w) m < pad (Suc w) n \<longleftrightarrow>
      m div 10 < n div 10 \<or> m div 10 = n div 10 \<and> m mod 10 < n mod 10"
    using b by (simp add: less_append_same_length Suc.IH pad_eq_iff digit_char_less)
  then show ?case by (simp only: div_mod_less_iff)
qed

declare pad.simps [simp del]

text \<open>Each field fits its width, so comparing the texts compares the fields in order.\<close>

lemma pad2: "m < 100 \<Longrightarrow> n < 100 \<Longrightarrow> pad 2 m < pad 2 n \<longleftrightarrow> m < n"
  "m < 100 \<Longrightarrow> n < 100 \<Longrightarrow> pad 2 m = pad 2 n \<longleftrightarrow> m = n"
  using pad_less_iff [of m 2 n] pad_eq_iff [of m 2 n] by simp_all

lemma pad4: "m < 10000 \<Longrightarrow> n < 10000 \<Longrightarrow> pad 4 m < pad 4 n \<longleftrightarrow> m < n"
  "m < 10000 \<Longrightarrow> n < 10000 \<Longrightarrow> pad 4 m = pad 4 n \<longleftrightarrow> m = n"
  using pad_less_iff [of m 4 n] pad_eq_iff [of m 4 n] by simp_all

lemma pad9: "m < 1000000000 \<Longrightarrow> n < 1000000000 \<Longrightarrow> pad 9 m < pad 9 n \<longleftrightarrow> m < n"
  "m < 1000000000 \<Longrightarrow> n < 1000000000 \<Longrightarrow> pad 9 m = pad 9 n \<longleftrightarrow> m = n"
  using pad_less_iff [of m 9 n] pad_eq_iff [of m 9 n] by simp_all

lemma valid_time_bounds:
  assumes "valid_time t"
  shows "t_year t < 10000" "t_month t < 100" "t_day t < 100" "t_hour t < 100"
    "t_min t < 100" "t_sec t < 100" "t_nano t < 1000000000"
  using assms by (simp_all add: valid_time_def)

lemmas field_order = less_append_same_length pad2 pad4 pad9 valid_time_bounds

subsection \<open>The fixed-width form orders as time does\<close>

lemma canonical_time_order:
  assumes "valid_time t" and "valid_time u"
  shows "canonical_knowledge_time t < canonical_knowledge_time u \<longleftrightarrow> time_before t u"
  using assms
  by (simp add: canonical_knowledge_time_def date_clock_def time_before_def time_key_def field_order)

end
