(* ===== verification/Run_State.thy ===== *)
theory Run_State
  imports Prelude
begin

section \<open>The research run state machine\<close>

text \<open>
  \<^verbatim>\<open>internal/core/state.go\<close>: the thirteen run statuses of \<^verbatim>\<open>internal/core/types.go\<close>, the
  table of permitted transitions, the terminal statuses, the status a run gets when the
  application restarts, and the status in which a run works on a stage
  (\<open>activeRunStatusForStage\<close> of \<^verbatim>\<open>internal/store/repository.go\<close>).
\<close>

datatype run_status =
  RunQueued | RunPlanning | RunCollecting | RunSynthesizing | RunReviewing | RunRevising
| RunWaitingApproval | RunSucceeded | RunQualityFailed | RunFailed | RunCancelled
| RunInterrupted | RunUncertain

text \<open>A stage is a Go string; \<open>StageOther\<close> is any text that names no stage.\<close>

datatype stage =
  StagePlan | StageCollect | StageSynthesize | StageReview | StageRevise | StageOther string

fun status_text :: "run_status \<Rightarrow> string" where
  "status_text RunQueued = ''queued''"
| "status_text RunPlanning = ''planning''"
| "status_text RunCollecting = ''collecting''"
| "status_text RunSynthesizing = ''synthesizing''"
| "status_text RunReviewing = ''reviewing''"
| "status_text RunRevising = ''revising''"
| "status_text RunWaitingApproval = ''waiting_approval''"
| "status_text RunSucceeded = ''succeeded''"
| "status_text RunQualityFailed = ''quality_failed''"
| "status_text RunFailed = ''failed''"
| "status_text RunCancelled = ''cancelled''"
| "status_text RunInterrupted = ''interrupted''"
| "status_text RunUncertain = ''uncertain''"

fun stage_text :: "stage \<Rightarrow> string" where
  "stage_text StagePlan = ''plan''"
| "stage_text StageCollect = ''collect''"
| "stage_text StageSynthesize = ''synthesize''"
| "stage_text StageReview = ''review''"
| "stage_text StageRevise = ''revise''"
| "stage_text (StageOther s) = s"

fun allowed_transitions :: "run_status \<Rightarrow> run_status list" where
  "allowed_transitions RunQueued = [RunPlanning, RunFailed, RunCancelled]"
| "allowed_transitions RunPlanning =
     [RunCollecting, RunWaitingApproval, RunFailed, RunCancelled, RunInterrupted, RunUncertain]"
| "allowed_transitions RunCollecting =
     [RunSynthesizing, RunWaitingApproval, RunFailed, RunCancelled, RunInterrupted, RunUncertain]"
| "allowed_transitions RunSynthesizing =
     [RunReviewing, RunWaitingApproval, RunFailed, RunCancelled, RunInterrupted, RunUncertain]"
| "allowed_transitions RunReviewing =
     [RunSucceeded, RunRevising, RunPlanning, RunQualityFailed,
      RunFailed, RunCancelled, RunInterrupted, RunUncertain]"
| "allowed_transitions RunRevising =
     [RunReviewing, RunWaitingApproval, RunFailed, RunCancelled, RunInterrupted, RunUncertain]"
| "allowed_transitions RunWaitingApproval =
     [RunPlanning, RunCollecting, RunSynthesizing, RunReviewing, RunRevising, RunFailed,
      RunCancelled, RunInterrupted, RunUncertain]"
| "allowed_transitions RunInterrupted =
     [RunPlanning, RunCollecting, RunSynthesizing, RunReviewing, RunRevising, RunCancelled]"
| "allowed_transitions RunUncertain = [RunCancelled, RunFailed]"
| "allowed_transitions _ = []"

definition can_transition :: "run_status \<Rightarrow> run_status \<Rightarrow> bool" where
  "can_transition from to \<longleftrightarrow> to \<in> set (allowed_transitions from)"

definition require_transition :: "run_status \<Rightarrow> run_status \<Rightarrow> string option" where
  "require_transition from to =
     (if \<not> can_transition from to
      then Some (''invalid run transition '' @ status_text from @ '' -> '' @ status_text to)
      else None)"

fun is_terminal :: "run_status \<Rightarrow> bool" where
  "is_terminal RunSucceeded = True"
| "is_terminal RunQualityFailed = True"
| "is_terminal RunFailed = True"
| "is_terminal RunCancelled = True"
| "is_terminal _ = False"

definition recovery_status :: "stage \<Rightarrow> bool \<Rightarrow> run_status" where
  "recovery_status st externalSideEffects =
     (if externalSideEffects then RunUncertain else RunInterrupted)"

fun active_run_status_for_stage :: "stage \<Rightarrow> run_status option" where
  "active_run_status_for_stage StagePlan = Some RunPlanning"
| "active_run_status_for_stage StageCollect = Some RunCollecting"
| "active_run_status_for_stage StageSynthesize = Some RunSynthesizing"
| "active_run_status_for_stage StageReview = Some RunReviewing"
| "active_run_status_for_stage StageRevise = Some RunRevising"
| "active_run_status_for_stage (StageOther s) = None"

subsection \<open>Facts of the table\<close>

lemma terminal_stuck: "is_terminal s \<Longrightarrow> \<not> can_transition s t"
  by (cases s) (simp_all add: can_transition_def)

interpretation run_machine: status_machine can_transition is_terminal
  by unfold_locales (rule terminal_stuck)

lemma stuck_iff_terminal: "(\<forall>t. \<not> can_transition s t) \<longleftrightarrow> is_terminal s"
  by (cases s) (auto simp: can_transition_def)

lemma to_succeeded: "can_transition s RunSucceeded \<longleftrightarrow> s = RunReviewing"
  by (cases s) (auto simp: can_transition_def)

lemma to_queued: "\<not> can_transition s RunQueued"
  by (cases s) (auto simp: can_transition_def)

lemma to_planning_from:
  "can_transition s RunPlanning \<Longrightarrow> s \<in> {RunQueued, RunReviewing, RunWaitingApproval, RunInterrupted}"
  by (cases s) (auto simp: can_transition_def)

lemma cancel_always: "\<not> is_terminal s \<Longrightarrow> can_transition s RunCancelled"
  by (cases s) (auto simp: can_transition_def)

lemma waiting_resumes_stage:
  "active_run_status_for_stage st = Some s \<Longrightarrow> can_transition RunWaitingApproval s"
  by (cases st) (auto simp: can_transition_def)

lemma uncertain_next: "can_transition RunUncertain t \<Longrightarrow> t = RunCancelled \<or> t = RunFailed"
  by (auto simp: can_transition_def)

lemma require_transition_None: "require_transition s t = None \<longleftrightarrow> can_transition s t"
  by (simp add: require_transition_def)

subsection \<open>Properties\<close>

text \<open>
  What the transition table promises of every history of a run: a terminal status is
  never left and every other status can be left (it can be cancelled in one step); a run
  succeeds only from review; a run whose external side effects are uncertain is never
  resumed, it can only be cancelled or failed.
\<close>

lemma run_history:
  "(can_transition\<^sup>*\<^sup>* s t \<and> is_terminal s \<longrightarrow> t = s) \<and>
   (\<not> is_terminal s \<longrightarrow> can_transition s RunCancelled) \<and>
   (can_transition\<^sup>*\<^sup>* RunUncertain t \<longrightarrow> t \<in> {RunUncertain, RunCancelled, RunFailed}) \<and>
   (can_transition\<^sup>*\<^sup>* s RunSucceeded \<and> s \<noteq> RunSucceeded \<longrightarrow>
      can_transition\<^sup>*\<^sup>* s RunReviewing)"
proof (intro conjI impI)
  assume "can_transition\<^sup>*\<^sup>* s t \<and> is_terminal s"
  then show "t = s" by (auto dest: run_machine.final_absorbing)
next
  assume "\<not> is_terminal s"
  then show "can_transition s RunCancelled" by (rule cancel_always)
next
  assume "can_transition\<^sup>*\<^sup>* RunUncertain t"
  then show "t \<in> {RunUncertain, RunCancelled, RunFailed}"
    by (rule run_machine.closed_reach [rotated]) (auto simp: can_transition_def)
next
  assume "can_transition\<^sup>*\<^sup>* s RunSucceeded \<and> s \<noteq> RunSucceeded"
  then show "can_transition\<^sup>*\<^sup>* s RunReviewing"
    by (auto elim!: rtranclp.cases [of _ s RunSucceeded] simp: to_succeeded)
qed

end
