(* ===== verification/Store_Tables.thy ===== *)
theory Store_Tables
  imports Go_Time Run_State "HOL-Library.Product_Lexorder"
begin

section \<open>The tables of the store\<close>

text \<open>
  The SQLite tables of \<^verbatim>\<open>internal/store/migrations.go\<close> that the run lifecycle uses, one
  record per row type with the columns in the schema's order and the CHECK, UNIQUE and
  trigger guards that the code relies on. Text columns with a closed set of values are
  datatypes, timestamps are the texts \<open>formatTime\<close> writes, identifiers are the texts the
  code generates and are arguments of the operations. Writers are serialised by the
  store (\<^verbatim>\<open>_txlock=immediate\<close>), so an operation is a function of the whole state.
\<close>

datatype store_error =
  NoRows
| Constraint string
| Errorf string
| RevisionConflict int int
| ErrApprovalNotActive
| ErrResearchRemediationLimit
| ErrPlanCycleNotActive
| ErrPlanCycleNotReady
| ErrPlanCycleSuperseded
| ErrMemoryRunInProgress
| ErrMemoryReindexInProgress
| ErrMemoryMutationBlocked
| ErrXFOILScreeningOwner int

record build_binding =
  bb_version :: string
  bb_executable :: string
  bb_manifest :: string
  bb_sidecar :: string

record run_row =
  r_id :: string
  r_project :: string
  r_session :: string
  r_schedule :: string
  r_question :: string
  r_status :: run_status
  r_revision :: int
  r_cycle :: int
  r_thread :: string
  r_profile :: string
  r_retrieval :: string
  r_generation :: string
  r_model :: string
  r_effort :: string
  r_tier :: string
  r_build :: build_binding
  r_report :: string
  r_error :: string
  r_created :: string
  r_updated :: string

datatype attempt_status =
  InProgress | Completed | AttemptFailed | AttemptInterrupted | AttemptUncertain | Superseded

record attempt_row =
  a_id :: string
  a_run :: string
  a_stage :: stage
  a_ordinal :: int
  a_logical :: int
  a_status :: attempt_status
  a_thread :: string
  a_turn :: string
  a_input :: string
  a_output :: string
  a_external :: bool
  a_error :: string
  a_created :: string
  a_updated :: string

datatype approval_status = Pending | Authorizing | Approved | Denied | Expired

record approval_row =
  p_id :: string
  p_run :: string
  p_attempt :: string
  p_thread :: string
  p_turn :: string
  p_item :: string
  p_kind :: string
  p_summary :: string
  p_server :: string
  p_tool :: string
  p_command :: string
  p_args :: string
  p_args_sha :: string
  p_risk :: string
  p_external :: bool
  p_status :: approval_status
  p_created :: string
  p_updated :: string

text \<open>An event payload is a JSON object with string, number, boolean and build binding members.\<close>

datatype jval = JStr string | JInt int | JBool bool | JBuild build_binding

record event_row =
  e_run :: string
  e_kind :: string
  e_payload :: "(string \<times> jval) list"
  e_created :: string

record blob_row =
  b_hash :: string
  b_size :: int
  b_media :: string
  b_created :: string

record artifact_row =
  f_id :: string
  f_run :: string
  f_attempt :: string
  f_kind :: string
  f_blob :: string
  f_adopted :: bool
  f_created :: string

record evidence_row =
  v_id :: string
  v_run :: string
  v_attempt :: string
  v_url :: string
  v_title :: string
  v_publisher :: string
  v_blob :: string
  v_captured :: string
  v_adopted :: bool

datatype remediation_action =
  RemNone | RemReportRevision | RemAdditionalResearch | RemReplan | RemOther string

record remediation_task =
  k_objective :: string
  k_required :: "string list"
  k_engineering :: bool
  k_solver :: bool

record remediation_row =
  m_run :: string
  m_cycle :: int
  m_action :: remediation_action
  m_review :: string
  m_hash :: string
  m_summary :: string
  m_requests :: "string list"
  m_tasks :: "remediation_task list"
  m_created :: string

record receipt_row =
  x_attempt :: string
  x_run :: string
  x_profile :: string
  x_model :: string
  x_effort :: string
  x_tier :: string
  x_thread :: string
  x_turn :: string
  x_input :: string
  x_output :: string
  x_contract :: string
  x_build :: build_binding
  x_completed :: string

datatype cycle_status = CycleActive | CycleReady | CycleConsumed | CycleSuperseded

record cycle_row =
  c_id :: string
  c_session :: string
  c_objective :: string
  c_status :: cycle_status
  c_plan :: string
  c_run :: "string option"
  c_created :: string
  c_updated :: string
  c_ready :: "string option"
  c_consumed :: "string option"
  c_superseded :: "string option"

record session_row =
  s_id :: string
  s_project :: string
  s_thread :: string
  s_created :: string
  s_deleted :: bool

text \<open>The project's knowledge head and the state of the generation it points to.\<close>

record khead_row =
  h_project :: string
  h_generation :: string
  h_status :: string
  h_generation_state :: string
  h_error :: string
  h_revision :: int
  h_updated :: string

datatype job_status = JobRunning | JobSucceeded | JobFailed | JobUncertain

record job_row =
  j_id :: string
  j_project :: string
  j_run :: string
  j_attempt :: string
  j_operation :: string
  j_spec :: string
  j_spec_sha :: string
  j_tool :: string
  j_tool_version :: string
  j_approval :: string
  j_scope :: string
  j_status :: job_status
  j_receipt :: string
  j_error :: string
  j_created :: string
  j_started :: "string option"
  j_completed :: "string option"
  j_updated :: string

record job_artifact_row =
  ja_job :: string
  ja_artifact :: string
  ja_role :: string
  ja_file :: string
  ja_media :: string
  ja_blob :: string

record reuse_row =
  u_run :: string
  u_attempt :: string
  u_job :: string
  u_receipt :: string
  u_created :: string

record eng_tables =
  jobs :: "job_row list"
  job_artifacts :: "job_artifact_row list"
  reuses :: "reuse_row list"

datatype index_state = IxBuilding | IxActive | IxRetired | IxFailed

record index_row =
  i_id :: string
  i_project :: string
  i_state :: index_state
  i_error :: string
  i_created :: string
  i_completed :: "string option"

datatype mhead_state = MemEmpty | MemReady | MemReindexing | MemFailed

record mhead_row =
  d_project :: string
  d_active :: "string option"
  d_shadow :: "string option"
  d_revision :: int
  d_state :: mhead_state
  d_error :: string
  d_updated :: string

text \<open>The portable tool tables: packages, installations, stage grants, invocations, audit.\<close>

datatype install_state =
  Downloading | Verifying | Installing | Probing | InstallReady | InstallFailed
| InstallInterrupted | Quarantined

record package_row =
  tp_id :: string
  tp_project :: string
  tp_sha :: string
  tp_kind :: string
  tp_state :: string

record install_row =
  n_id :: string
  n_package :: string
  n_project :: string
  n_sha :: string
  n_approval :: string
  n_expected :: string
  n_payload :: string
  n_payload_size :: int
  n_tree :: string
  n_entrypoint :: string
  n_probe :: string
  n_state :: install_state
  n_error :: string
  n_created :: string
  n_updated :: string
  n_completed :: "string option"

record grant_row =
  g_id :: string
  g_project :: string
  g_run :: string
  g_attempt :: string
  g_package :: string
  g_install :: string
  g_sha :: string
  g_approval :: string
  g_created :: string

datatype invocation_state = CallRunning | CallSucceeded | CallFailed | CallUncertain

record invocation_row =
  q_id :: string
  q_key :: string
  q_project :: string
  q_run :: string
  q_attempt :: string
  q_package :: string
  q_install :: string
  q_grant :: string
  q_tool :: string
  q_args :: string
  q_adapter :: string
  q_state :: invocation_state
  q_stdout :: string
  q_stderr :: string
  q_exit :: "int option"
  q_error :: string
  q_created :: string
  q_updated :: string
  q_started :: string
  q_completed :: "string option"

text \<open>The detail of an audit event: a document the caller gave, or the encoded error.\<close>

datatype event_detail = RawJson string | ErrorDetail string

record install_event =
  ie_install :: string
  ie_package :: string
  ie_project :: string
  ie_action :: string
  ie_approval :: string
  ie_detail :: event_detail
  ie_created :: string

record tool_tables =
  packages :: "package_row list"
  installs :: "install_row list"
  grants :: "grant_row list"
  invocations :: "invocation_row list"
  install_events :: "install_event list"

record db =
  projects :: "string list"
  sessions :: "session_row list"
  runs :: "run_row list"
  attempts :: "attempt_row list"
  approvals :: "approval_row list"
  events :: "event_row list"
  blobs :: "blob_row list"
  artifacts :: "artifact_row list"
  evidence :: "evidence_row list"
  remediations :: "remediation_row list"
  receipts :: "receipt_row list"
  cycles :: "cycle_row list"
  kheads :: "khead_row list"
  eng :: eng_tables
  indexes :: "index_row list"
  mheads :: "mhead_row list"
  tools :: tool_tables

type_synonym 'a store = "(db, store_error, 'a) outcome"

subsection \<open>Transactions\<close>

text \<open>
  \<open>and_then\<close> runs the next statement of a transaction; \<open>transaction\<close> is the deferred
  rollback: on an error the state is the one the transaction began with.
\<close>

fun and_then :: "'a store \<Rightarrow> (db \<Rightarrow> 'a \<Rightarrow> 'b store) \<Rightarrow> 'b store" where
  "and_then (s, Inl e) f = (s, Inl e)"
| "and_then (s, Inr x) f = f s x"

fun transaction :: "db \<Rightarrow> 'a store \<Rightarrow> 'a store" where
  "transaction s0 (s, Inl e) = (s0, Inl e)"
| "transaction s0 (s, Inr x) = (s, Inr x)"

lemma and_then_Inr:
  "and_then m f = (s', Inr y) \<longleftrightarrow> (\<exists>s x. m = (s, Inr x) \<and> f s x = (s', Inr y))"
  by (cases "(m, f)" rule: and_then.cases) auto

lemma transaction_Inr: "transaction s0 m = (s', Inr y) \<longleftrightarrow> m = (s', Inr y)"
  by (cases "(s0, m)" rule: transaction.cases) auto

lemma transaction_Inl: "transaction s0 m = (s', Inl e) \<Longrightarrow> s' = s0"
  by (cases "(s0, m)" rule: transaction.cases) auto

lemmas store_results = and_then_Inr transaction_Inr

text \<open>
  The interface of what a whole operation inherits from its statements: a reflexive and
  transitive relation between states. A transaction composed of steps that respect the
  relation respects it, whichever statement fails.
\<close>

locale state_preorder =
  fixes R :: "db \<Rightarrow> db \<Rightarrow> bool"
  assumes same: "R s s" and steps: "R s t \<Longrightarrow> R t u \<Longrightarrow> R s u"
begin

lemma bind:
  assumes "R s (fst m)" and "\<And>t x. m = (t, Inr x) \<Longrightarrow> R t (fst (f t x))"
  shows "R s (fst (and_then m f))"
  using assms by (cases "(m, f)" rule: and_then.cases) (auto intro: steps)

lemma rollback: "R s (fst m) \<Longrightarrow> R s (fst (transaction s m))"
  by (cases "(s, m)" rule: transaction.cases) (auto intro: same)

text \<open>A transaction need only respect the relation where it commits.\<close>

lemma commit_only: "(\<And>t x. m = (t, Inr x) \<Longrightarrow> R s t) \<Longrightarrow> R s (fst (transaction s m))"
  by (cases "(s, m)" rule: transaction.cases) (auto intro: same)

lemma both: "R s (fst m1) \<Longrightarrow> R s (fst m2) \<Longrightarrow> R s (fst (if b then m1 else m2))"
  by simp

end

subsection \<open>Statements\<close>

definition find_run :: "db \<Rightarrow> string \<Rightarrow> run_row option" where
  "find_run s rid = select_key r_id (runs s) rid"

definition find_attempt :: "db \<Rightarrow> string \<Rightarrow> attempt_row option" where
  "find_attempt s aid = select_key a_id (attempts s) aid"

definition find_approval :: "db \<Rightarrow> string \<Rightarrow> approval_row option" where
  "find_approval s pid = select_key p_id (approvals s) pid"

text \<open>An UPDATE of one table that must touch exactly one row, or the given error.\<close>

definition update_one_run ::
    "(run_row \<Rightarrow> bool) \<Rightarrow> (run_row \<Rightarrow> run_row) \<Rightarrow> store_error \<Rightarrow> db \<Rightarrow> unit store" where
  "update_one_run p f e s =
     (if affected p (runs s) \<noteq> 1 then fail s e
      else commit (s\<lparr>runs := update_where p f (runs s)\<rparr>) ())"

text \<open>The uniqueness key of an attempt: UNIQUE(run_id, stage, ordinal).\<close>

definition a_slot :: "attempt_row \<Rightarrow> string \<times> stage \<times> int" where
  "a_slot a = (a_run a, a_stage a, a_ordinal a)"

definition update_one_attempt ::
    "(attempt_row \<Rightarrow> bool) \<Rightarrow> (attempt_row \<Rightarrow> attempt_row) \<Rightarrow> store_error \<Rightarrow> db \<Rightarrow> unit store" where
  "update_one_attempt p f e s =
     (let rows = update_where p f (attempts s) in
      if \<not> distinct (map a_slot rows) then fail s (Constraint ''stage_attempts'')
      else if affected p (attempts s) \<noteq> 1 then fail s e
      else commit (s\<lparr>attempts := rows\<rparr>) ())"

definition update_one_approval ::
    "(approval_row \<Rightarrow> bool) \<Rightarrow> (approval_row \<Rightarrow> approval_row) \<Rightarrow> store_error \<Rightarrow> db \<Rightarrow> unit store" where
  "update_one_approval p f e s =
     (if affected p (approvals s) \<noteq> 1 then fail s e
      else commit (s\<lparr>approvals := update_where p f (approvals s)\<rparr>) ())"

definition append_event ::
    "db \<Rightarrow> string \<Rightarrow> string \<Rightarrow> (string \<times> jval) list \<Rightarrow> gotime \<Rightarrow> db" where
  "append_event s rid kind payload now =
     s\<lparr>events := events s @ [\<lparr>e_run = rid, e_kind = kind, e_payload = payload,
                                  e_created = format_time now\<rparr>]\<rparr>"

text \<open>\<open>INSERT INTO blobs ... ON CONFLICT(hash) DO NOTHING\<close> and the readback that follows it.\<close>

definition insert_blob :: "db \<Rightarrow> string \<Rightarrow> int \<Rightarrow> string \<Rightarrow> gotime \<Rightarrow> db" where
  "insert_blob s hash sz media now =
     (if select_key b_hash (blobs s) hash \<noteq> None then s
      else s\<lparr>blobs := blobs s @ [\<lparr>b_hash = hash, b_size = sz, b_media = media,
                                    b_created = format_time now\<rparr>]\<rparr>)"

definition blob_matches :: "db \<Rightarrow> string \<Rightarrow> int \<Rightarrow> string \<Rightarrow> bool" where
  "blob_matches s hash sz media =
     (case select_key b_hash (blobs s) hash of
        None \<Rightarrow> False
      | Some b \<Rightarrow> b_size b = sz \<and> b_media b = media)"

lemma append_event_simps [simp]:
  "runs (append_event s rid k p now) = runs s"
  "attempts (append_event s rid k p now) = attempts s"
  "approvals (append_event s rid k p now) = approvals s"
  "remediations (append_event s rid k p now) = remediations s"
  "cycles (append_event s rid k p now) = cycles s"
  "receipts (append_event s rid k p now) = receipts s"
  "artifacts (append_event s rid k p now) = artifacts s"
  "evidence (append_event s rid k p now) = evidence s"
  "blobs (append_event s rid k p now) = blobs s"
  "kheads (append_event s rid k p now) = kheads s"
  "eng (append_event s rid k p now) = eng s"
  "indexes (append_event s rid k p now) = indexes s"
  "mheads (append_event s rid k p now) = mheads s"
  "projects (append_event s rid k p now) = projects s"
  "sessions (append_event s rid k p now) = sessions s"
  "tools (append_event s rid k p now) = tools s"
  by (simp_all add: append_event_def)

lemma insert_blob_simps [simp]:
  "runs (insert_blob s h n m now) = runs s"
  "attempts (insert_blob s h n m now) = attempts s"
  "approvals (insert_blob s h n m now) = approvals s"
  "remediations (insert_blob s h n m now) = remediations s"
  "artifacts (insert_blob s h n m now) = artifacts s"
  "evidence (insert_blob s h n m now) = evidence s"
  "kheads (insert_blob s h n m now) = kheads s"
  "events (insert_blob s h n m now) = events s"
  "receipts (insert_blob s h n m now) = receipts s"
  "cycles (insert_blob s h n m now) = cycles s"
  "sessions (insert_blob s h n m now) = sessions s"
  "projects (insert_blob s h n m now) = projects s"
  "eng (insert_blob s h n m now) = eng s"
  "indexes (insert_blob s h n m now) = indexes s"
  "mheads (insert_blob s h n m now) = mheads s"
  "tools (insert_blob s h n m now) = tools s"
  by (simp_all add: insert_blob_def)

end
