(* ===== verification/Store_Approvals.thy ===== *)
theory Store_Approvals
  imports Store_Tables
begin

section \<open>Approvals in the store\<close>

text \<open>
  \<^verbatim>\<open>internal/store/repository.go\<close>: retiring the pending approvals of a run, requesting an
  approval and deciding one, and the external side-effect boundary of a stage
  (\<open>MarkActiveStageExternalSideEffects\<close>). SHA-256, JSON validity and the decoding of the
  argument document belong to the Go standard library's codecs and are arguments of the
  operations that use them, as is the screening duplicate check of
  \<^verbatim>\<open>internal/store/engineering.go\<close>.
\<close>

subsection \<open>Retiring pending approvals\<close>

definition retires_pending_approvals :: "run_status \<Rightarrow> bool" where
  "retires_pending_approvals st \<longleftrightarrow>
     is_terminal st \<or> st = RunInterrupted \<or> st = RunUncertain"

definition deny_row :: "gotime \<Rightarrow> approval_row \<Rightarrow> approval_row" where
  "deny_row now p = p\<lparr>p_status := Denied, p_updated := format_time now\<rparr>"

text \<open>The query of the pending approvals of a run, ordered by creation text and id.\<close>

definition pending_ids :: "db \<Rightarrow> string \<Rightarrow> string list" where
  "pending_ids s rid =
     map p_id (sort_key (\<lambda>p. (p_created p, p_id p))
       (filter (\<lambda>p. p_run p = rid \<and> p_status p = Pending) (approvals s)))"

fun retire_each :: "string \<Rightarrow> string \<Rightarrow> gotime \<Rightarrow> string list \<Rightarrow> db \<Rightarrow> unit store" where
  "retire_each rid reason now [] s = commit s ()"
| "retire_each rid reason now (i # is) s =
     and_then
       (update_one_approval (\<lambda>p. p_id p = i \<and> p_run p = rid \<and> p_status p = Pending)
          (deny_row now) (Errorf ''approval retirement lost concurrency race'') s)
       (\<lambda>s1 _. retire_each rid reason now is
          (append_event s1 rid ''approval.retired''
             [(''approval_id'', JStr i), (''reason'', JStr reason)] now))"

definition retire_pending_approvals :: "string \<Rightarrow> string \<Rightarrow> gotime \<Rightarrow> db \<Rightarrow> unit store" where
  "retire_pending_approvals rid reason now s = retire_each rid reason now (pending_ids s rid) s"

text \<open>
  The loop of single-row updates is one update of every pending row of the run, and its
  race check never fires: the ids it lists are pending and distinct.
\<close>

definition pending_of :: "string \<Rightarrow> approval_row \<Rightarrow> bool" where
  "pending_of rid p \<longleftrightarrow> p_run p = rid \<and> p_status p = Pending"

lemma deny_row_simps [simp]:
  "p_id (deny_row now p) = p_id p" "p_run (deny_row now p) = p_run p"
  "p_status (deny_row now p) = Denied" "p_attempt (deny_row now p) = p_attempt p"
  "p_external (deny_row now p) = p_external p"
  by (simp_all add: deny_row_def)

interpretation deny: keyed_update p_id "deny_row now" for now
  by unfold_locales simp

lemma retire_each_ok:
  assumes "distinct is" and "distinct (map p_id (approvals s))"
    and "\<And>i. i \<in> set is \<Longrightarrow> \<exists>p \<in> set (approvals s). p_id p = i \<and> pending_of rid p"
  shows "\<exists>ev. retire_each rid reason now is s =
    (s\<lparr>approvals := update_where (\<lambda>p. pending_of rid p \<and> p_id p \<in> set is) (deny_row now) (approvals s),
       events := events s @ ev\<rparr>, Inr ())"
  using assms
proof (induction "is" arbitrary: s)
  case Nil
  have "update_where (\<lambda>p. False) (deny_row now) (approvals s) = approvals s"
    by (simp add: update_where_def)
  then show ?case by (auto intro: exI [of _ "[]"])
next
  case (Cons i "is")
  let ?p = "\<lambda>p. p_id p = i \<and> p_run p = rid \<and> p_status p = Pending"
  let ?s1 = "s\<lparr>approvals := update_where ?p (deny_row now) (approvals s)\<rparr>"
  let ?s2 = "append_event ?s1 rid ''approval.retired''
     [(''approval_id'', JStr i), (''reason'', JStr reason)] now"
  obtain q where q: "q \<in> set (approvals s)" "p_id q = i" "pending_of rid q"
    using Cons.prems(3) [of i] by auto
  have one: "affected ?p (approvals s) = 1"
    by (rule affected_key_one [where key = p_id and r = q and k = i])
      (use q Cons.prems(2) in \<open>auto simp: pending_of_def\<close>)
  have "\<exists>ev. retire_each rid reason now is ?s2 =
    (?s2\<lparr>approvals := update_where (\<lambda>p. pending_of rid p \<and> p_id p \<in> set is) (deny_row now) (approvals ?s2),
       events := events ?s2 @ ev\<rparr>, Inr ())"
  proof (rule Cons.IH)
    show "distinct is" using Cons.prems(1) by simp
    show "distinct (map p_id (approvals ?s2))"
      using Cons.prems(2) by (simp add: deny.keys_kept)
    fix k assume k: "k \<in> set is"
    then obtain p where p: "p \<in> set (approvals s)" "p_id p = k" "pending_of rid p"
      using Cons.prems(3) [of k] by auto
    moreover have "k \<noteq> i" using k Cons.prems(1) by auto
    ultimately show "\<exists>p \<in> set (approvals ?s2). p_id p = k \<and> pending_of rid p"
      by (auto simp: in_update_where intro!: bexI [of _ p] exI [of _ p])
  qed
  then obtain ev where ev: "retire_each rid reason now is ?s2 =
    (?s2\<lparr>approvals := update_where (\<lambda>p. pending_of rid p \<and> p_id p \<in> set is) (deny_row now) (approvals ?s2),
       events := events ?s2 @ ev\<rparr>, Inr ())" by blast
  have merge: "update_where (\<lambda>p. pending_of rid p \<and> p_id p \<in> set is) (deny_row now)
      (update_where ?p (deny_row now) (approvals s)) =
    update_where (\<lambda>p. pending_of rid p \<and> p_id p \<in> set (i # is)) (deny_row now) (approvals s)"
    by (auto simp: update_where_def pending_of_def)
  show ?case
    using ev merge by (auto simp: update_one_approval_def one append_event_def)
qed

lemma retire_pending_ok:
  assumes "distinct (map p_id (approvals s))"
  shows "\<exists>ev. retire_pending_approvals rid reason now s =
    (s\<lparr>approvals := update_where (pending_of rid) (deny_row now) (approvals s),
       events := events s @ ev\<rparr>, Inr ())"
proof -
  let ?is = "pending_ids s rid"
  have set_is: "set ?is = p_id ` {p \<in> set (approvals s). pending_of rid p}"
    by (auto simp: pending_ids_def pending_of_def)
  have "distinct (map p_id (filter (\<lambda>p. p_run p = rid \<and> p_status p = Pending) (approvals s)))"
    using assms by (induction "approvals s" arbitrary: s) (simp_all add: distinct_map_filter assms)
  then have "distinct ?is"
    by (simp add: pending_ids_def distinct_map)
  then obtain ev where "retire_each rid reason now ?is s =
    (s\<lparr>approvals := update_where (\<lambda>p. pending_of rid p \<and> p_id p \<in> set ?is) (deny_row now) (approvals s),
       events := events s @ ev\<rparr>, Inr ())"
    using retire_each_ok [of ?is s rid reason now] assms set_is by auto
  moreover have "update_where (\<lambda>p. pending_of rid p \<and> p_id p \<in> set ?is) (deny_row now) (approvals s) =
    update_where (pending_of rid) (deny_row now) (approvals s)"
    by (auto simp: update_where_def set_is)
  ultimately show ?thesis by (auto simp: retire_pending_approvals_def)
qed

subsection \<open>The approval scope of a stage\<close>

text \<open>
  The queries that join an attempt with its run: by attempt id alone, and by attempt id and
  run id together.
\<close>

definition attempt_run :: "db \<Rightarrow> string \<Rightarrow> (attempt_row \<times> run_row) option" where
  "attempt_run s aid =
     (case find_attempt s aid of
        None \<Rightarrow> None
      | Some a \<Rightarrow> (case find_run s (a_run a) of None \<Rightarrow> None | Some r \<Rightarrow> Some (a, r)))"

definition attempt_of_run :: "db \<Rightarrow> string \<Rightarrow> string \<Rightarrow> (attempt_row \<times> run_row) option" where
  "attempt_of_run s aid rid =
     (case attempt_run s aid of
        None \<Rightarrow> None
      | Some (a, r) \<Rightarrow> if a_run a = rid then Some (a, r) else None)"

definition failed_collector :: "db \<Rightarrow> string \<Rightarrow> bool" where
  "failed_collector s rid \<longleftrightarrow>
     (\<exists>a \<in> set (attempts s). a_run a = rid \<and> a_stage a = StageCollect \<and> a_status a = AttemptFailed)"

definition set_external :: "gotime \<Rightarrow> attempt_row \<Rightarrow> attempt_row" where
  "set_external now a = a\<lparr>a_external := True, a_updated := format_time now\<rparr>"

definition mark_stage_external_side_effects :: "string \<Rightarrow> gotime \<Rightarrow> db \<Rightarrow> unit store" where
  "mark_stage_external_side_effects aid now s =
     update_one_attempt (\<lambda>a. a_id a = aid \<and> a_status a = InProgress) (set_external now) NoRows s"

definition mark_active_stage_external_side_effects :: "string \<Rightarrow> gotime \<Rightarrow> db \<Rightarrow> unit store" where
  "mark_active_stage_external_side_effects aid now s =
     transaction s
     (case attempt_run s aid of
        None \<Rightarrow> fail s ErrApprovalNotActive
      | Some (a, r) \<Rightarrow>
         (case active_run_status_for_stage (a_stage a) of
            None \<Rightarrow> fail s ErrApprovalNotActive
          | Some expected \<Rightarrow>
              if a_status a \<noteq> InProgress \<or> failed_collector s (a_run a) \<or>
                 (r_status r \<noteq> expected \<and> r_status r \<noteq> RunWaitingApproval)
              then fail s ErrApprovalNotActive
              else update_one_attempt (\<lambda>a. a_id a = aid \<and> a_status a = InProgress)
                     (set_external now) ErrApprovalNotActive s))"

subsection \<open>Screening approvals\<close>

text \<open>
  What the code reads of an argument document. \<open>args_of\<close> decodes it into the Go struct of
  \<^verbatim>\<open>requireXFOILScreeningApprovalOwner\<close>, \<open>map_of_args\<close> into a generic object together with
  the SHA-256 of what is left of it once the two capability members are deleted; both are
  \<open>None\<close> when \<^verbatim>\<open>json.Unmarshal\<close> fails. They, JSON validity and SHA-256 are arguments.
\<close>

record screening_args =
  ga_run :: string
  ga_attempt :: string
  ga_purpose :: string

record codec =
  json_valid :: "string \<Rightarrow> bool"
  sha256_hex :: "string \<Rightarrow> string"
  args_of :: "string \<Rightarrow> screening_args option"
  map_of_args :: "string \<Rightarrow> (screening_args \<times> string) option"
  spec_args_of :: "string \<Rightarrow> screening_args option"

definition MaxCollectors :: int where
  "MaxCollectors = 3"

definition EngineeringVerificationOrdinal :: int where
  "EngineeringVerificationOrdinal = MaxCollectors"

definition EngineeringScreeningOwnerOrdinal :: int where
  "EngineeringScreeningOwnerOrdinal = 0"

definition xfoil_request :: "approval_row \<Rightarrow> bool" where
  "xfoil_request p \<longleftrightarrow> p_kind p = ''item/mcpToolCall/requestApproval'' \<and>
     p_server p = ''aetherops_engineering'' \<and> p_tool p = ''xfoil_polar'' \<and>
     p_external p \<and> p_args p \<noteq> []"

definition require_screening_approval_owner ::
    "codec \<Rightarrow> approval_row \<Rightarrow> int \<Rightarrow> store_error option" where
  "require_screening_approval_owner cx p logical =
     (if \<not> xfoil_request p then None
      else case args_of cx (p_args p) of
        None \<Rightarrow> Some (Errorf ''decode XFOIL screening owner approval arguments'')
      | Some g \<Rightarrow>
          if ga_purpose g \<noteq> ''screening'' then None
          else if ga_run g \<noteq> p_run p \<or> ga_attempt g \<noteq> p_attempt p
          then Some (Errorf ''XFOIL screening approval capability does not match its run or stage attempt'')
          else if logical \<noteq> EngineeringScreeningOwnerOrdinal
          then Some (ErrXFOILScreeningOwner logical)
          else None)"

text \<open>\<open>Inr None\<close>: not a screening request; \<open>Inr (Some h)\<close>: its identity.\<close>

definition screening_identity :: "codec \<Rightarrow> approval_row \<Rightarrow> store_error + string option" where
  "screening_identity cx p =
     (if \<not> xfoil_request p then Inr None
      else case map_of_args cx (p_args p) of
        None \<Rightarrow> Inl (Errorf ''decode XFOIL screening approval arguments'')
      | Some (g, h) \<Rightarrow>
          if ga_purpose g \<noteq> ''screening'' then Inr None
          else if ga_run g \<noteq> p_run p \<or> ga_attempt g \<noteq> p_attempt p
          then Inl (Errorf ''XFOIL screening approval capability does not match its run or stage attempt'')
          else Inr (Some h))"

definition duplicate_candidates :: "db \<Rightarrow> string \<Rightarrow> approval_row list" where
  "duplicate_candidates s rid =
     sort_key (\<lambda>a. (p_created a, p_id a))
       (filter (\<lambda>a. p_run a = rid \<and> p_kind a = ''item/mcpToolCall/requestApproval'' \<and>
            p_server a = ''aetherops_engineering'' \<and> p_tool a = ''xfoil_polar'' \<and>
            (p_status a = Pending \<or> p_status a = Approved) \<and>
            (case find_attempt s (p_attempt a) of
               None \<Rightarrow> False
             | Some t \<Rightarrow> a_run t = p_run a \<and> a_stage t = StageCollect \<and> a_status t \<noteq> Superseded \<and>
                 0 \<le> a_logical t \<and> a_logical t < EngineeringVerificationOrdinal))
          (approvals s))"

definition approval_jobs :: "db \<Rightarrow> approval_row \<Rightarrow> job_status list" where
  "approval_jobs s a =
     map j_status (filter (\<lambda>j. j_approval j = p_id a \<and> j_run j = p_run a \<and>
       j_operation j = ''xfoil_polar'') (jobs (eng s)))"

fun duplicate_in :: "codec \<Rightarrow> db \<Rightarrow> string \<Rightarrow> approval_row list \<Rightarrow> store_error option" where
  "duplicate_in cx s identity [] = None"
| "duplicate_in cx s identity (a # as) =
     (case screening_identity cx (a\<lparr>p_external := True\<rparr>) of
        Inl e \<Rightarrow> Some e
      | Inr found \<Rightarrow>
          if found \<noteq> Some identity then duplicate_in cx s identity as
          else if p_status a = Pending \<or> approval_jobs s a = []
          then Some (Errorf ''duplicate XFOIL screening approval'')
          else if \<exists>st \<in> set (approval_jobs s a). st \<noteq> JobFailed
          then Some (Errorf ''duplicate XFOIL screening approval has a non-failed engineering job'')
          else duplicate_in cx s identity as)"

definition reject_duplicate_screening :: "codec \<Rightarrow> db \<Rightarrow> approval_row \<Rightarrow> store_error option" where
  "reject_duplicate_screening cx s p =
     (case screening_identity cx p of
        Inl e \<Rightarrow> Some e
      | Inr None \<Rightarrow> None
      | Inr (Some identity) \<Rightarrow> duplicate_in cx s identity (duplicate_candidates s (p_run p)))"

subsection \<open>Requesting an approval\<close>

text \<open>The checks of \<open>CreateApproval\<close> before its transaction, in their order.\<close>

definition approval_request_error :: "codec \<Rightarrow> approval_row \<Rightarrow> store_error option" where
  "approval_request_error cx p =
     (if p_run p = [] \<or> p_attempt p = [] \<or> p_thread p = [] \<or> p_turn p = [] \<or> p_kind p = []
      then Some (Errorf ''approval run, thread, turn, and kind are required'')
      else if (p_args p = []) \<noteq> (p_args_sha p = [])
      then Some (Errorf ''approval arguments JSON and SHA-256 must be provided together'')
      else if p_args p \<noteq> [] \<and> \<not> json_valid cx (p_args p)
      then Some (Errorf ''approval arguments must be valid JSON'')
      else if p_args p \<noteq> [] \<and> p_args_sha p \<noteq> sha256_hex cx (p_args p)
      then Some (Errorf ''approval arguments SHA-256 does not match the exact stored JSON'')
      else None)"

definition pending_row :: "string \<Rightarrow> gotime \<Rightarrow> approval_row \<Rightarrow> approval_row" where
  "pending_row fresh now p =
     p\<lparr>p_id := (if p_id p = [] then fresh else p_id p),
        p_risk := (if p_risk p = [] then ''unclassified'' else p_risk p),
        p_status := Pending, p_created := format_time now, p_updated := format_time now\<rparr>"

definition screening_error :: "codec \<Rightarrow> db \<Rightarrow> approval_row \<Rightarrow> attempt_row \<Rightarrow> store_error option" where
  "screening_error cx s p a =
     (if a_stage a = StageCollect \<and> 0 \<le> a_logical a \<and> a_logical a < EngineeringVerificationOrdinal
      then (case require_screening_approval_owner cx p (a_logical a) of
              Some e \<Rightarrow> Some e
            | None \<Rightarrow> reject_duplicate_screening cx s p)
      else None)"

definition create_approval ::
    "codec \<Rightarrow> string \<Rightarrow> approval_row \<Rightarrow> gotime \<Rightarrow> db \<Rightarrow> approval_row store" where
  "create_approval cx fresh request now s =
     (case approval_request_error cx request of
        Some e \<Rightarrow> fail s e
      | None \<Rightarrow>
          (let p = pending_row fresh now request in
           case attempt_of_run s (p_attempt p) (p_run p) of
             None \<Rightarrow> fail s NoRows
           | Some (a, r) \<Rightarrow>
               if a_status a \<noteq> InProgress \<or>
                  (r_status r \<noteq> RunWaitingApproval \<and> \<not> can_transition (r_status r) RunWaitingApproval)
               then fail s ErrApprovalNotActive
               else case screening_error cx s p a of
                 Some e \<Rightarrow> fail s e
               | None \<Rightarrow>
                   if p_id p \<in> p_id ` set (approvals s) then fail s (Constraint ''approvals'')
                   else commit
                     (append_event (s\<lparr>approvals := approvals s @ [p]\<rparr>) (p_run p) ''approval.requested''
                        [(''approval_id'', JStr (p_id p)), (''kind'', JStr (p_kind p)),
                         (''summary'', JStr (p_summary p))] now)
                     p))"

definition list_pending_approvals :: "db \<Rightarrow> approval_row list" where
  "list_pending_approvals s =
     sort_key p_created (filter (\<lambda>p. p_status p = Pending) (approvals s))"

subsection \<open>Deciding an approval\<close>

definition engineering_service_owns_external_boundary :: "approval_row \<Rightarrow> bool" where
  "engineering_service_owns_external_boundary p \<longleftrightarrow>
     p_external p \<and> p_kind p = ''item/mcpToolCall/requestApproval'' \<and>
     p_server p = ''aetherops_engineering'' \<and>
     p_tool p \<in> set [''openvsp_wing_aero'', ''openvsp_modify_wing'', ''gmsh_wing_mesh'',
                      ''xfoil_polar'', ''su2_cfd'']"

definition decision_status :: "string \<Rightarrow> approval_status" where
  "decision_status d = (if d = ''approved'' then Approved else Denied)"

definition set_decision :: "approval_status \<Rightarrow> gotime \<Rightarrow> approval_row \<Rightarrow> approval_row" where
  "set_decision st now p = p\<lparr>p_status := st, p_updated := format_time now\<rparr>"

text \<open>The last part of \<open>decideApproval\<close>: the decision itself and its event.\<close>

definition record_decision :: "approval_row \<Rightarrow> string \<Rightarrow> gotime \<Rightarrow> db \<Rightarrow> approval_row store" where
  "record_decision p decision now s =
     and_then
       (update_one_approval (\<lambda>q. p_id q = p_id p \<and> p_status q = Pending)
          (set_decision (decision_status decision) now)
          (Errorf ''approval decision lost concurrency race'') s)
     (\<lambda>s1 _. commit
       (append_event s1 (p_run p) ''approval.decided''
          [(''approval_id'', JStr (p_id p)), (''decision'', JStr decision)] now)
       (set_decision (decision_status decision) now p))"

text \<open>
  A stale approval is denied in a committed transaction and the caller still gets
  \<open>ErrApprovalNotActive\<close>: the one operation that reports an error and changes the state.
\<close>

definition retire_stale :: "approval_row \<Rightarrow> string \<Rightarrow> gotime \<Rightarrow> db \<Rightarrow> approval_row store" where
  "retire_stale p reason now s =
     (case update_one_approval (\<lambda>q. p_id q = p_id p \<and> p_status q = Pending) (deny_row now)
             (Errorf ''stale approval retirement lost concurrency race'') s of
        (s1, Inl e) \<Rightarrow> fail s e
      | (s1, Inr _) \<Rightarrow>
          fail (append_event s1 (p_run p) ''approval.retired''
                  [(''approval_id'', JStr (p_id p)), (''reason'', JStr reason)] now)
               ErrApprovalNotActive)"

definition decide_approval ::
    "string \<Rightarrow> string \<Rightarrow> bool \<Rightarrow> gotime \<Rightarrow> db \<Rightarrow> approval_row store" where
  "decide_approval pid decision requireActive now s =
     (if decision \<noteq> ''approved'' \<and> decision \<noteq> ''denied''
      then fail s (Errorf ''approval decision must be approved or denied'')
      else case find_approval s pid of
        None \<Rightarrow> fail s NoRows
      | Some p \<Rightarrow>
          if p_status p \<noteq> Pending
          then fail s (if requireActive then ErrApprovalNotActive
                       else Errorf ''approval is no longer pending'')
          else if \<not> requireActive then transaction s (record_decision p decision now s)
          else case attempt_of_run s (p_attempt p) (p_run p) of
            None \<Rightarrow> fail s NoRows
          | Some (a, r) \<Rightarrow>
              if a_status a \<noteq> InProgress \<or> r_status r \<noteq> RunWaitingApproval \<or>
                 failed_collector s (p_run p)
              then retire_stale p
                     (if failed_collector s (p_run p) then ''collect_failed''
                      else ''stage_or_run_inactive'') now s
              else transaction s
                (and_then
                  (if decision = ''approved'' \<and> p_external p \<and>
                      \<not> engineering_service_owns_external_boundary p
                   then update_one_attempt
                          (\<lambda>q. a_id q = p_attempt p \<and> a_run q = p_run p \<and> a_status q = InProgress)
                          (set_external now) ErrApprovalNotActive s
                   else commit s ())
                (\<lambda>s1 _. record_decision p decision now s1)))"

end
