(* ===== verification/Store_Runs.thy ===== *)
theory Store_Runs
  imports Store_Approvals
begin

section \<open>Runs in the store\<close>

text \<open>
  \<^verbatim>\<open>internal/store/repository.go\<close>: the operations that change the row of a run. Each takes
  the instant \<open>now\<close> and the identifiers the code generates as arguments and is a function
  of the whole state: \<open>TransitionRun\<close>, \<open>QuiesceRun\<close>, \<open>ResumeRunAfterApproval\<close>,
  \<open>SetRunCycle\<close>, \<open>succeedRun\<close>, the creation of a run with its plan cycle
  (\<open>createConversationRunConfigured\<close>) and the FIFO query \<open>EarlierUnresolvedRun\<close>.
\<close>

subsection \<open>Changing the status of a run\<close>

definition set_status :: "run_status \<Rightarrow> string \<Rightarrow> gotime \<Rightarrow> run_row \<Rightarrow> run_row" where
  "set_status next msg now r =
     r\<lparr>r_status := next, r_revision := r_revision r + 1, r_error := msg, r_updated := format_time now\<rparr>"

definition transition_payload :: "run_status \<Rightarrow> run_status \<Rightarrow> int \<Rightarrow> string \<Rightarrow> (string \<times> jval) list" where
  "transition_payload from to rv msg =
     [(''from'', JStr (status_text from)), (''to'', JStr (status_text to)),
      (''revision'', JInt rv), (''error'', JStr msg)]"

definition transition_run ::
    "string \<Rightarrow> int \<Rightarrow> run_status \<Rightarrow> string \<Rightarrow> gotime \<Rightarrow> db \<Rightarrow> run_row store" where
  "transition_run rid expected next msg now s =
     transaction s
     (case find_run s rid of
        None \<Rightarrow> fail s NoRows
      | Some current \<Rightarrow>
          if r_revision current \<noteq> expected
          then fail s (RevisionConflict expected (r_revision current))
          else case require_transition (r_status current) next of
            Some e \<Rightarrow> fail s (Errorf e)
          | None \<Rightarrow>
              and_then
                (update_one_run (\<lambda>r. r_id r = rid \<and> r_revision r = expected)
                   (set_status next msg now)
                   (Errorf ''run transition lost optimistic concurrency race'') s)
              (\<lambda>s1 _. and_then
                (if retires_pending_approvals next
                 then retire_pending_approvals rid (''run_'' @ status_text next) now s1
                 else commit s1 ())
              (\<lambda>s2 _. commit
                (append_event s2 rid ''run.transition''
                   (transition_payload (r_status current) next (expected + 1) msg) now)
                (set_status next msg now current))))"

text \<open>
  The quiescence boundary: an attempt that is not completed and carries the external
  side-effect marker turns a requested cancellation or failure into \<open>uncertain\<close>.
\<close>

definition open_side_effect :: "string \<Rightarrow> attempt_row \<Rightarrow> bool" where
  "open_side_effect rid a \<longleftrightarrow> a_run a = rid \<and> a_external a \<and> a_status a \<noteq> Completed"

definition quiesce_run_transaction ::
    "run_row \<Rightarrow> run_status \<Rightarrow> string \<Rightarrow> gotime \<Rightarrow> db \<Rightarrow> run_row store" where
  "quiesce_run_transaction current requested msg now s =
     (let next = (if affected (open_side_effect (r_id current)) (attempts s) > 0
                  then RunUncertain else requested)
      in case require_transition (r_status current) next of
           Some e \<Rightarrow> fail s (Errorf e)
         | None \<Rightarrow>
             and_then
               (update_one_run (\<lambda>r. r_id r = r_id current \<and> r_revision r = r_revision current)
                  (set_status next msg now)
                  (Errorf ''run quiescence lost optimistic concurrency race'') s)
             (\<lambda>s1 _. and_then
               (retire_pending_approvals (r_id current) (''run_'' @ status_text next) now s1)
             (\<lambda>s2 _. commit
               (append_event s2 (r_id current) ''run.transition''
                  (transition_payload (r_status current) next (r_revision current + 1) msg @
                   (if next \<noteq> requested
                    then [(''requested'', JStr (status_text requested)),
                          (''external_side_effects'', JBool True)]
                    else []))
                  now)
               (set_status next msg now current))))"

definition quiesce_run :: "string \<Rightarrow> run_status \<Rightarrow> string \<Rightarrow> gotime \<Rightarrow> db \<Rightarrow> run_row store" where
  "quiesce_run rid requested msg now s =
     (if requested \<noteq> RunCancelled \<and> requested \<noteq> RunFailed
      then fail s (Errorf ''run quiescence requires cancelled or failed status'')
      else transaction s
       (case find_run s rid of
          None \<Rightarrow> fail s NoRows
        | Some current \<Rightarrow>
            if is_terminal (r_status current) \<or> r_status current = RunUncertain
            then commit s current
            else quiesce_run_transaction current requested msg now s))"

text \<open>
  \<open>ResumeRunAfterApproval\<close> returns the run it read together with \<open>ErrApprovalNotActive\<close>
  when there is nothing to resume; only the error is modelled there.
\<close>

definition resume_run_after_approval :: "string \<Rightarrow> run_status \<Rightarrow> gotime \<Rightarrow> db \<Rightarrow> run_row store" where
  "resume_run_after_approval rid prior now s =
     transaction s
     (case find_run s rid of
        None \<Rightarrow> fail s NoRows
      | Some current \<Rightarrow>
          if r_status current \<noteq> RunWaitingApproval then fail s ErrApprovalNotActive
          else if affected (\<lambda>p. p_run p = rid \<and> p_status p = Pending) (approvals s) > 0
          then commit s current
          else if affected (\<lambda>a. a_run a = rid \<and> a_status a = InProgress) (attempts s) = 0
          then fail s ErrApprovalNotActive
          else case require_transition (r_status current) prior of
            Some e \<Rightarrow> fail s (Errorf e)
          | None \<Rightarrow>
              and_then
                (update_one_run (\<lambda>r. r_id r = rid \<and> r_revision r = r_revision current)
                   (set_status prior [] now)
                   (Errorf ''approval resume lost optimistic concurrency race'') s)
              (\<lambda>s1 _. commit
                (append_event s1 rid ''run.transition''
                   (transition_payload (r_status current) prior (r_revision current + 1) []) now)
                (set_status prior [] now current)))"

definition MaxRevisions :: int where
  "MaxRevisions = 3"

definition set_run_cycle :: "string \<Rightarrow> int \<Rightarrow> int \<Rightarrow> gotime \<Rightarrow> db \<Rightarrow> run_row store" where
  "set_run_cycle rid expected cycle now s =
     (if cycle < 0 \<or> cycle > MaxRevisions
      then fail s (Errorf ''revision cycle outside allowed range'')
      else and_then
        (update_one_run (\<lambda>r. r_id r = rid \<and> r_revision r = expected)
           (\<lambda>r. r\<lparr>r_cycle := cycle, r_revision := r_revision r + 1, r_updated := format_time now\<rparr>)
           (Errorf ''run cycle update lost optimistic concurrency race'') s)
        (\<lambda>s1 _. case find_run s1 rid of None \<Rightarrow> fail s1 NoRows | Some r \<Rightarrow> commit s1 r))"

subsection \<open>Project FIFO\<close>

definition unresolved :: "run_status \<Rightarrow> bool" where
  "unresolved st \<longleftrightarrow> st \<in> set [RunQueued, RunPlanning, RunCollecting, RunSynthesizing,
     RunReviewing, RunRevising, RunWaitingApproval, RunInterrupted, RunUncertain]"

text \<open>The candidates of the query, in its order; timestamps and ids compare as texts.\<close>

definition earlier_unresolved :: "run_row \<Rightarrow> run_row \<Rightarrow> bool" where
  "earlier_unresolved r q \<longleftrightarrow> r_project q = r_project r \<and> r_id q \<noteq> r_id r \<and>
     (r_created q < r_created r \<or> r_created q = r_created r \<and> r_id q < r_id r) \<and>
     unresolved (r_status q)"

definition earlier_unresolved_run :: "db \<Rightarrow> string \<Rightarrow> store_error + run_row option" where
  "earlier_unresolved_run s rid =
     (case find_run s rid of
        None \<Rightarrow> Inl NoRows
      | Some r \<Rightarrow>
          Inr (case sort_key (\<lambda>q. (r_created q, r_id q)) (filter (earlier_unresolved r) (runs s)) of
                 [] \<Rightarrow> None
               | q # _ \<Rightarrow> Some q))"

definition has_earlier_unresolved_run :: "db \<Rightarrow> string \<Rightarrow> store_error + bool" where
  "has_earlier_unresolved_run s rid =
     (case earlier_unresolved_run s rid of
        Inl e \<Rightarrow> Inl e
      | Inr b \<Rightarrow> Inr (b \<noteq> None))"

lemma unresolved_iff: "unresolved st \<longleftrightarrow> \<not> is_terminal st"
  by (cases st) (simp_all add: unresolved_def)

lemma earlier_unresolved_run_None:
  "find_run s rid = Some r \<Longrightarrow>
     earlier_unresolved_run s rid = Inr None \<longleftrightarrow> (\<forall>q \<in> set (runs s). \<not> earlier_unresolved r q)"
  by (simp add: earlier_unresolved_run_def sort_key_Nil filter_empty_conv split: list.split)
    (metis (no_types, lifting) filter_empty_conv list.distinct(1) sort_key_Nil)

lemma has_earlier_unresolved_run_iff:
  assumes "find_run s rid = Some r"
  shows "has_earlier_unresolved_run s rid = Inr (\<exists>q \<in> set (runs s). earlier_unresolved r q)"
proof (cases "\<exists>q \<in> set (runs s). earlier_unresolved r q")
  case False
  then have "earlier_unresolved_run s rid = Inr None"
    using assms by (simp add: earlier_unresolved_run_None)
  with False show ?thesis by (simp add: has_earlier_unresolved_run_def)
next
  case True
  then have "earlier_unresolved_run s rid \<noteq> Inr None"
    using assms by (simp add: earlier_unresolved_run_None)
  with True assms show ?thesis
    by (auto simp: has_earlier_unresolved_run_def earlier_unresolved_run_def split: list.splits)
qed

subsection \<open>Success\<close>

definition docx_media :: string where
  "docx_media = ''application/vnd.openxmlformats-officedocument.wordprocessingml.document''"

text \<open>The rendered companion: its artifact id and CAS receipt (hash and size).\<close>

record report_document =
  o_artifact :: string
  o_hash :: string
  o_size :: int

text \<open>The final report artifact: the newest published one of the run's current cycle.\<close>

definition final_report :: "db \<Rightarrow> run_row \<Rightarrow> artifact_row \<Rightarrow> bool" where
  "final_report s r f \<longleftrightarrow> f_run f = r_id r \<and>
     (case find_attempt s (f_attempt f) of
        None \<Rightarrow> False
      | Some a \<Rightarrow> a_status a = Completed \<and>
          (a_stage a = StageSynthesize \<and> a_logical a = 0 \<and> r_cycle r = 0 \<and>
             f_kind f = ''research.report'' \<or>
           a_stage a = StageRevise \<and> a_logical a = r_cycle r \<and>
             f_kind f = ''research.report.revision''))"

definition newest_artifact :: "artifact_row list \<Rightarrow> artifact_row option" where
  "newest_artifact fs =
     (case rev (sort_key (\<lambda>f. (f_created f, f_id f)) fs) of [] \<Rightarrow> None | f # _ \<Rightarrow> Some f)"

definition publish_document ::
    "string \<Rightarrow> string \<Rightarrow> report_document option \<Rightarrow> gotime \<Rightarrow> db \<Rightarrow> unit store" where
  "publish_document rid aid doc now s =
     (case doc of
        None \<Rightarrow> commit s ()
      | Some d \<Rightarrow>
          let s1 = insert_blob s (o_hash d) (o_size d) docx_media now in
          if \<not> blob_matches s1 (o_hash d) (o_size d) docx_media
          then fail s (Errorf ''report document blob metadata conflicts with CAS receipt'')
          else if o_artifact d \<in> f_id ` set (artifacts s1) then fail s (Constraint ''artifacts'')
          else commit
            (append_event
               (s1\<lparr>artifacts := artifacts s1 @
                  [\<lparr>f_id = o_artifact d, f_run = rid, f_attempt = aid,
                    f_kind = ''research.report.document'', f_blob = o_hash d, f_adopted = True,
                    f_created = format_time now\<rparr>]\<rparr>)
               rid ''artifact.published''
               [(''artifact_id'', JStr (o_artifact d)), (''attempt_id'', JStr aid),
                (''kind'', JStr ''research.report.document''), (''blob_hash'', JStr (o_hash d))] now)
            ())"

definition attempt_ids :: "db \<Rightarrow> (attempt_row \<Rightarrow> bool) \<Rightarrow> string list" where
  "attempt_ids s p = map a_id (filter p (attempts s))"

definition adopt_artifact :: "db \<Rightarrow> string \<Rightarrow> string \<Rightarrow> artifact_row \<Rightarrow> bool" where
  "adopt_artifact s rid report f \<longleftrightarrow> f_id f = report \<or>
     f_run f = rid \<and> f_attempt f \<in>
       set (attempt_ids s (\<lambda>a. a_run a = rid \<and> a_stage a = StageCollect \<and> a_status a = Completed))"

definition adopt_evidence :: "db \<Rightarrow> string \<Rightarrow> evidence_row \<Rightarrow> bool" where
  "adopt_evidence s rid v \<longleftrightarrow> v_run v = rid \<and> v_attempt v \<in>
     set (attempt_ids s (\<lambda>a. a_run a = rid \<and> a_status a = Completed))"

definition stale_head :: "gotime \<Rightarrow> khead_row \<Rightarrow> khead_row" where
  "stale_head now h =
     h\<lparr>h_status := ''stale'', h_error := ''successful run adoption is pending'',
        h_revision := h_revision h + 1, h_updated := format_time now\<rparr>"

definition set_succeeded :: "string \<Rightarrow> gotime \<Rightarrow> run_row \<Rightarrow> run_row" where
  "set_succeeded report now r =
     r\<lparr>r_status := RunSucceeded, r_revision := r_revision r + 1, r_report := report,
        r_error := [], r_updated := format_time now\<rparr>"

definition adopt_results :: "run_row \<Rightarrow> string \<Rightarrow> gotime \<Rightarrow> db \<Rightarrow> unit store" where
  "adopt_results current report now s =
     (let s1 = s\<lparr>artifacts := update_where (adopt_artifact s (r_id current) report)
                   (\<lambda>f. f\<lparr>f_adopted := True\<rparr>) (artifacts s),
                 evidence := update_where (adopt_evidence s (r_id current))
                   (\<lambda>v. v\<lparr>v_adopted := True\<rparr>) (evidence s)\<rparr>
      in if affected (\<lambda>h. h_project h = r_project current) (kheads s1) \<noteq> 1
         then fail s (Errorf ''successful run could not invalidate its knowledge head'')
         else commit (s1\<lparr>kheads := update_where (\<lambda>h. h_project h = r_project current)
                                     (stale_head now) (kheads s1)\<rparr>) ())"

definition succeed_run ::
    "string \<Rightarrow> int \<Rightarrow> report_document option \<Rightarrow> gotime \<Rightarrow> db \<Rightarrow> run_row store" where
  "succeed_run rid expected doc now s =
     transaction s
     (case find_run s rid of
        None \<Rightarrow> fail s NoRows
      | Some current \<Rightarrow>
          if r_revision current \<noteq> expected
          then fail s (RevisionConflict expected (r_revision current))
          else case require_transition (r_status current) RunSucceeded of
            Some e \<Rightarrow> fail s (Errorf e)
          | None \<Rightarrow>
            (case newest_artifact (filter (final_report s current) (artifacts s)) of
               None \<Rightarrow> fail s NoRows
             | Some report \<Rightarrow>
                 and_then (publish_document rid (f_attempt report) doc now s)
                 (\<lambda>s1 _. and_then
                   (update_one_run (\<lambda>r. r_id r = rid \<and> r_revision r = expected)
                      (set_succeeded (f_id report) now)
                      (Errorf ''run success transition lost optimistic concurrency race'') s1)
                 (\<lambda>s2 _. and_then (adopt_results current (f_id report) now s2)
                 (\<lambda>s3 _. and_then
                   (retire_pending_approvals rid (''run_'' @ status_text RunSucceeded) now s3)
                 (\<lambda>s4 _. commit
                   (append_event s4 rid ''run.transition''
                      [(''from'', JStr (status_text (r_status current))),
                       (''to'', JStr (status_text RunSucceeded)),
                       (''revision'', JInt (expected + 1)),
                       (''report_artifact_id'', JStr (f_id report))] now)
                   (set_succeeded (f_id report) now current)))))))"

definition succeed_run_with_report_document ::
    "string \<Rightarrow> int \<Rightarrow> report_document \<Rightarrow> gotime \<Rightarrow> db \<Rightarrow> run_row store" where
  "succeed_run_with_report_document rid expected doc now s =
     (if o_hash doc = [] \<or> o_size doc \<le> 0
      then fail s (Errorf ''report document CAS receipt is invalid'')
      else succeed_run rid expected (Some doc) now s)"

end
