(* ===== verification/Go_Strings.thy ===== *)
theory Go_Strings
  imports Prelude
begin

section \<open>Go strings\<close>

text \<open>
  A Go string is a sequence of bytes and a HOL \<open>string\<close> a list of 8-bit characters, so the
  standard library's functions are written over the bytes: \<open>strings.TrimSpace\<close> with the
  UTF-8 encodings of the Unicode white space, the ASCII part of \<open>strings.ToLower\<close>, hexadecimal
  digests, prefix, suffix and substring tests.
\<close>

subsection \<open>White space\<close>

definition ascii_space :: "char \<Rightarrow> bool" where
  "ascii_space c \<longleftrightarrow> c = CHR '' '' \<or> c = CHR 0x09 \<or> c = CHR 0x0A \<or> c = CHR 0x0B \<or>
     c = CHR 0x0C \<or> c = CHR 0x0D"

definition space2 :: "char \<Rightarrow> char \<Rightarrow> bool" where
  "space2 a b \<longleftrightarrow> a = CHR 0xC2 \<and> (b = CHR 0x85 \<or> b = CHR 0xA0)"

definition space3 :: "char \<Rightarrow> char \<Rightarrow> char \<Rightarrow> bool" where
  "space3 a b c \<longleftrightarrow>
     a = CHR 0xE1 \<and> b = CHR 0x9A \<and> c = CHR 0x80 \<or>
     a = CHR 0xE2 \<and> b = CHR 0x80 \<and>
       (CHR 0x80 \<le> c \<and> c \<le> CHR 0x8A \<or> c = CHR 0xA8 \<or> c = CHR 0xA9 \<or> c = CHR 0xAF) \<or>
     a = CHR 0xE2 \<and> b = CHR 0x81 \<and> c = CHR 0x9F \<or>
     a = CHR 0xE3 \<and> b = CHR 0x80 \<and> c = CHR 0x80"

text \<open>The width of the white space a string begins with, zero if it begins with none.\<close>

fun lead_space :: "string \<Rightarrow> nat" where
  "lead_space [] = 0"
| "lead_space [a] = (if ascii_space a then 1 else 0)"
| "lead_space [a, b] = (if ascii_space a then 1 else if space2 a b then 2 else 0)"
| "lead_space (a # b # c # s) =
     (if ascii_space a then 1 else if space2 a b then 2 else if space3 a b c then 3 else 0)"

text \<open>The same at the end, on the reversed string.\<close>

fun last_space :: "string \<Rightarrow> nat" where
  "last_space [] = 0"
| "last_space [a] = (if ascii_space a then 1 else 0)"
| "last_space [a, b] = (if ascii_space a then 1 else if space2 b a then 2 else 0)"
| "last_space (a # b # c # s) =
     (if ascii_space a then 1 else if space2 b a then 2 else if space3 c b a then 3 else 0)"

function skip_space :: "(string \<Rightarrow> nat) \<Rightarrow> string \<Rightarrow> string" where
  "skip_space w s = (if w s = 0 \<or> s = [] then s else skip_space w (drop (w s) s))"
  by auto
termination
  by (relation "measure (\<lambda>(w, s). length s)") (auto simp: length_greater_0_conv)

declare skip_space.simps [simp del]

definition trim_space :: "string \<Rightarrow> string" where
  "trim_space s = rev (skip_space last_space (rev (skip_space lead_space s)))"

definition blank :: "string \<Rightarrow> bool" where
  "blank s \<longleftrightarrow> trim_space s = []"

lemma skip_space_Nil [simp]: "skip_space w [] = []"
  by (simp add: skip_space.simps)

lemma trim_space_Nil [simp]: "trim_space [] = []"
  by (simp add: trim_space_def)

lemma blank_Nil [simp]: "blank []"
  by (simp add: blank_def)

lemma skip_space_stop: "w s = 0 \<Longrightarrow> skip_space w s = s"
  by (simp add: skip_space.simps)

lemma skip_space_done: "w (skip_space w s) = 0 \<or> skip_space w s = []"
  by (induction w s rule: skip_space.induct) (subst (1 2) skip_space.simps, auto)

lemma skip_space_idem: "skip_space w (skip_space w s) = skip_space w s"
  using skip_space_done [of w s] by (auto simp: skip_space_stop)

lemma skip_space_suffix: "\<exists>p. s = p @ skip_space w s"
proof (induction w s rule: skip_space.induct)
  case (1 w s)
  show ?case
  proof (cases "w s = 0 \<or> s = []")
    case True
    then show ?thesis by (subst skip_space.simps) simp
  next
    case False
    then obtain p where "drop (w s) s = p @ skip_space w (drop (w s) s)" using 1 by blast
    moreover have "skip_space w s = skip_space w (drop (w s) s)"
      using False by (subst skip_space.simps) simp
    ultimately have "s = (take (w s) s @ p) @ skip_space w s"
      by (metis append.assoc append_take_drop_id)
    then show ?thesis by blast
  qed
qed

lemma nonblank_Cons:
  assumes "\<not> ascii_space a" and "of_char a < (0x80 :: nat)" shows "lead_space (a # s) = 0"
proof -
  have "\<not> space2 a b" "\<not> space3 a b c" for b c
    using assms(2) by (auto simp: space2_def space3_def)
  with assms(1) show ?thesis by (cases "a # s" rule: lead_space.cases) simp_all
qed

lemma not_blank_nonempty: "\<not> blank s \<Longrightarrow> s \<noteq> []"
  by auto

subsection \<open>Letters and digits\<close>

definition lower_ascii :: "char \<Rightarrow> char" where
  "lower_ascii c =
     (if CHR ''A'' \<le> c \<and> c \<le> CHR ''Z'' then char_of (of_char c + 32 :: nat) else c)"

text \<open>
  \<open>strings.ToLower\<close> of a text that is only compared with ASCII texts: besides the ASCII letters, two
  characters have an ASCII lower case, U+0130 (i) and the Kelvin sign U+212A (k); every other
  character outside ASCII stays outside.
\<close>

fun go_lower :: "string \<Rightarrow> string" where
  "go_lower [] = []"
| "go_lower (a # s) =
     (if a = CHR 0xC4 \<and> take 1 s = [CHR 0xB0] then CHR ''i'' # go_lower (drop 1 s)
      else if a = CHR 0xE2 \<and> take 2 s = [CHR 0x84, CHR 0xAA] then CHR ''k'' # go_lower (drop 2 s)
      else lower_ascii a # go_lower s)"

definition is_digit :: "char \<Rightarrow> bool" where
  "is_digit c \<longleftrightarrow> CHR ''0'' \<le> c \<and> c \<le> CHR ''9''"

definition is_lower_hex :: "char \<Rightarrow> bool" where
  "is_lower_hex c \<longleftrightarrow> is_digit c \<or> CHR ''a'' \<le> c \<and> c \<le> CHR ''f''"

definition is_hex :: "char \<Rightarrow> bool" where
  "is_hex c \<longleftrightarrow> is_lower_hex c \<or> CHR ''A'' \<le> c \<and> c \<le> CHR ''F''"

text \<open>\<open>hex.DecodeString\<close>: the number of bytes decoded, \<open>None\<close> for a malformed text.\<close>

definition hex_decoded :: "string \<Rightarrow> nat option" where
  "hex_decoded s =
     (if list_all is_hex s \<and> even (length s) then Some (length s div 2) else None)"

lemma map_fixed: "map f s = s \<Longrightarrow> x \<in> set s \<Longrightarrow> f x = x"
  by (induction s) auto

lemma lower_hex_fixed: "is_lower_hex c \<Longrightarrow> lower_ascii c = c"
  by (auto simp: is_lower_hex_def is_digit_def lower_ascii_def less_eq_char_def)

lemma upper_changed:
  assumes "CHR ''A'' \<le> c" and "c \<le> CHR ''F''" shows "lower_ascii c \<noteq> c"
proof -
  have b: "(of_char c :: nat) \<le> 70"
    using assms by (simp add: less_eq_char_def)
  have "(of_char (char_of (of_char c + 32 :: nat)) :: nat) = of_char c + 32"
    using b by (simp add: of_char_of)
  moreover have "lower_ascii c = char_of (of_char c + 32 :: nat)"
    using assms by (auto simp: lower_ascii_def less_eq_char_def)
  ultimately show ?thesis by (metis add_cancel_left_right zero_neq_numeral)
qed

lemma lower_hex_iff: "is_hex c \<Longrightarrow> lower_ascii c = c \<longleftrightarrow> is_lower_hex c"
  using upper_changed lower_hex_fixed by (auto simp: is_hex_def)

lemma digest_canonical:
  "hex_decoded s = Some 32 \<and> map lower_ascii s = s \<longleftrightarrow> length s = 64 \<and> list_all is_lower_hex s"
  (is "?l \<longleftrightarrow> ?r")
proof
  assume l: ?l
  then have h: "\<And>c. c \<in> set s \<Longrightarrow> is_hex c" and n: "length s = 64"
    by (auto simp: hex_decoded_def list_all_iff split: if_splits)
  have "\<And>c. c \<in> set s \<Longrightarrow> lower_ascii c = c"
    using l by (auto dest: map_fixed)
  with h n show ?r by (auto simp: list_all_iff lower_hex_iff)
next
  assume r: ?r
  then have "map lower_ascii s = s"
    by (intro map_idI) (auto simp: list_all_iff lower_hex_fixed)
  with r show ?l by (auto simp: hex_decoded_def list_all_iff is_hex_def)
qed

subsection \<open>Substrings\<close>

definition has_prefix :: "string \<Rightarrow> string \<Rightarrow> bool" where
  "has_prefix s p \<longleftrightarrow> take (length p) s = p"

definition has_suffix :: "string \<Rightarrow> string \<Rightarrow> bool" where
  "has_suffix s p \<longleftrightarrow> has_prefix (rev s) (rev p)"

fun contains_text :: "string \<Rightarrow> string \<Rightarrow> bool" where
  "contains_text [] p = (p = [])"
| "contains_text (c # s) p = (has_prefix (c # s) p \<or> contains_text s p)"

lemma has_prefix_iff: "has_prefix s p \<longleftrightarrow> (\<exists>t. s = p @ t)"
  by (auto simp: has_prefix_def) (metis append_take_drop_id)

lemma contains_text_iff: "contains_text s p \<longleftrightarrow> (\<exists>a b. s = a @ p @ b)"
proof (induction s)
  case Nil
  then show ?case by auto
next
  case (Cons c s)
  have "(\<exists>a b. c # s = a @ p @ b) \<longleftrightarrow> (\<exists>b. c # s = p @ b) \<or> (\<exists>a b. s = a @ p @ b)"
    by (auto simp: Cons_eq_append_conv)
  then show ?case using Cons.IH by (simp add: has_prefix_iff)
qed

subsection \<open>UTF-8\<close>

definition in_bytes :: "nat \<Rightarrow> nat \<Rightarrow> char \<Rightarrow> bool" where
  "in_bytes lo hi c \<longleftrightarrow> lo \<le> of_char c \<and> of_char c \<le> hi"

definition cont_byte :: "char \<Rightarrow> bool" where
  "cont_byte c \<longleftrightarrow> in_bytes 0x80 0xBF c"

text \<open>\<open>utf8.ValidString\<close>: shortest encodings, no surrogates, nothing above U+10FFFF.\<close>

fun utf8_valid :: "string \<Rightarrow> bool" where
  "utf8_valid [] = True"
| "utf8_valid (a # s) =
     (if in_bytes 0 0x7F a then utf8_valid s
      else case s of
        [] \<Rightarrow> False
      | b # s2 \<Rightarrow>
          if in_bytes 0xC2 0xDF a then cont_byte b \<and> utf8_valid s2
          else case s2 of
            [] \<Rightarrow> False
          | c # s3 \<Rightarrow>
              if in_bytes 0xE0 0xEF a
              then (if in_bytes 0xE0 0xE0 a then in_bytes 0xA0 0xBF b
                    else if in_bytes 0xED 0xED a then in_bytes 0x80 0x9F b else cont_byte b) \<and>
                   cont_byte c \<and> utf8_valid s3
              else case s3 of
                [] \<Rightarrow> False
              | d # s4 \<Rightarrow>
                  in_bytes 0xF0 0xF4 a \<and>
                  (if in_bytes 0xF0 0xF0 a then in_bytes 0x90 0xBF b
                   else if in_bytes 0xF4 0xF4 a then in_bytes 0x80 0x8F b else cont_byte b) \<and>
                  cont_byte c \<and> cont_byte d \<and> utf8_valid s4)"

definition rune_error :: string where
  "rune_error = [CHR 0xEF, CHR 0xBF, CHR 0xBD]"

text \<open>The test the code makes of a text it stores: valid UTF-8 without U+FFFD.\<close>

definition clean_utf8 :: "string \<Rightarrow> bool" where
  "clean_utf8 s \<longleftrightarrow> utf8_valid s \<and> \<not> contains_text s rune_error"

lemma utf8_valid_ascii: "list_all (in_bytes 0 0x7F) s \<Longrightarrow> utf8_valid s"
  by (induction s) simp_all

end
