(* ===== verification/Store_Stages.thy ===== *)
theory Store_Stages
  imports Store_Runs Go_Strings
begin

section \<open>Stage attempts in the store\<close>

text \<open>
  \<^verbatim>\<open>internal/store/repository.go\<close>: beginning and completing a stage attempt, the model
  execution receipt, the collector failure that closes its run, publishing artifacts and
  evidence under a stage capability, and the two operations that archive attempts so that a
  stage can be tried again.
\<close>

subsection \<open>Beginning a stage\<close>

definition new_attempt ::
    "string \<Rightarrow> string \<Rightarrow> stage \<Rightarrow> int \<Rightarrow> string \<Rightarrow> string \<Rightarrow> gotime \<Rightarrow> attempt_row" where
  "new_attempt fresh rid st ordinal thread input now =
     \<lparr>a_id = fresh, a_run = rid, a_stage = st, a_ordinal = ordinal, a_logical = ordinal,
      a_status = InProgress, a_thread = thread, a_turn = [], a_input = input, a_output = [],
      a_external = False, a_error = [], a_created = format_time now, a_updated = format_time now\<rparr>"

definition begin_stage ::
    "string \<Rightarrow> string \<Rightarrow> stage \<Rightarrow> int \<Rightarrow> string \<Rightarrow> string \<Rightarrow> gotime \<Rightarrow> db \<Rightarrow> attempt_row store" where
  "begin_stage fresh rid st ordinal thread input now s =
     (let a = new_attempt fresh rid st ordinal thread input now in
      if find_run s rid = None \<or> fresh \<in> a_id ` set (attempts s) \<or> a_slot a \<in> a_slot ` set (attempts s)
      then fail s (Constraint ''stage_attempts'')
      else commit
        (append_event (s\<lparr>attempts := attempts s @ [a]\<rparr>) rid ''stage.started''
           [(''attempt_id'', JStr fresh), (''stage'', JStr (stage_text st)),
            (''ordinal'', JInt ordinal)] now)
        a)"

definition set_stage_turn :: "string \<Rightarrow> string \<Rightarrow> string \<Rightarrow> gotime \<Rightarrow> db \<Rightarrow> unit store" where
  "set_stage_turn aid thread turn now s =
     update_one_attempt (\<lambda>a. a_id a = aid \<and> a_status a = InProgress)
       (\<lambda>a. a\<lparr>a_thread := thread, a_turn := turn, a_updated := format_time now\<rparr>) NoRows s"

subsection \<open>Completing a stage\<close>

definition close_attempt ::
    "attempt_status \<Rightarrow> string \<Rightarrow> string \<Rightarrow> gotime \<Rightarrow> attempt_row \<Rightarrow> attempt_row" where
  "close_attempt st out err now a =
     a\<lparr>a_status := st, a_output := out, a_error := err, a_updated := format_time now\<rparr>"

definition complete_stage :: "string \<Rightarrow> string \<Rightarrow> string \<Rightarrow> gotime \<Rightarrow> db \<Rightarrow> unit store" where
  "complete_stage aid out err now s =
     update_one_attempt (\<lambda>a. a_id a = aid \<and> a_status a = InProgress)
       (close_attempt (if err \<noteq> [] then AttemptFailed else Completed) out err now)
       (Errorf ''stage was not active'') s"

definition fail_collect_stage_and_quiesce_run ::
    "string \<Rightarrow> string \<Rightarrow> string \<Rightarrow> gotime \<Rightarrow> db \<Rightarrow> run_row store" where
  "fail_collect_stage_and_quiesce_run aid out err now s =
     (if blank aid \<or> blank err
      then fail s (Errorf ''collector attempt and failure are required'')
      else transaction s
       (case find_attempt s aid of
          None \<Rightarrow> fail s NoRows
        | Some a \<Rightarrow>
            if a_stage a \<noteq> StageCollect
            then fail s (Errorf ''only a collect attempt can quiesce collection'')
            else if a_status a \<noteq> InProgress then fail s (Errorf ''stage was not active'')
            else case find_run s (a_run a) of
              None \<Rightarrow> fail s NoRows
            | Some current \<Rightarrow>
                and_then
                  (update_one_attempt (\<lambda>q. a_id q = aid \<and> a_status q = InProgress)
                     (close_attempt AttemptFailed out err now) (Errorf ''stage was not active'') s)
                (\<lambda>s1 _.
                   if is_terminal (r_status current) \<or> r_status current = RunInterrupted \<or>
                      r_status current = RunUncertain
                   then commit s1 current
                   else quiesce_run_transaction current RunFailed err now s1)))"

subsection \<open>Execution receipts\<close>

definition ReleaseProductVersion :: string where
  "ReleaseProductVersion = ''0.1.0-alpha.1''"

definition StageExecutionContractSHA256 :: string where
  "StageExecutionContractSHA256 =
     ''a361ade9786215b112c97650ee01fb51de0a43cc2643acf134c164332933e1a2''"

definition zero_build :: build_binding where
  "zero_build = \<lparr>bb_version = [], bb_executable = [], bb_manifest = [], bb_sidecar = []\<rparr>"

definition valid_digest :: "string \<Rightarrow> bool" where
  "valid_digest d \<longleftrightarrow> hex_decoded d = Some 32 \<and> map lower_ascii d = d"

definition validate_build :: "build_binding \<Rightarrow> string option" where
  "validate_build b =
     (if bb_version b \<noteq> ReleaseProductVersion then Some ''version''
      else if \<not> (valid_digest (bb_executable b) \<and> valid_digest (bb_manifest b) \<and>
                 valid_digest (bb_sidecar b))
      then Some ''digest is invalid''
      else None)"

text \<open>
  The guards of the INSERT: the CHECKs on the digests, the primary key, and the two triggers
  that tie the receipt to its active attempt and to the build of its run.
\<close>

definition receipt_guard :: "db \<Rightarrow> receipt_row \<Rightarrow> bool" where
  "receipt_guard s x \<longleftrightarrow>
     length (x_input x) = 64 \<and> length (x_output x) = 64 \<and> length (x_contract x) = 64 \<and>
     x_attempt x \<notin> x_attempt ` set (receipts s) \<and>
     (case attempt_of_run s (x_attempt x) (x_run x) of
        None \<Rightarrow> False
      | Some (a, r) \<Rightarrow>
          a_status a = InProgress \<and> a_thread a = x_thread x \<and> a_turn a = x_turn x \<and>
          a_input a = x_input x \<and> r_profile r = x_profile x \<and> r_build r = x_build x)"

definition receipt_complete :: "string \<Rightarrow> string \<Rightarrow> receipt_row \<Rightarrow> bool" where
  "receipt_complete aid out x \<longleftrightarrow>
     aid \<noteq> [] \<and> x_attempt x = aid \<and> x_run x \<noteq> [] \<and> x_profile x \<noteq> [] \<and> x_model x \<noteq> [] \<and>
     x_effort x \<noteq> [] \<and> x_tier x \<noteq> [] \<and> x_thread x \<noteq> [] \<and> x_turn x \<noteq> [] \<and> x_input x \<noteq> [] \<and>
     out \<noteq> [] \<and> x_output x = out \<and> x_contract x = StageExecutionContractSHA256"

definition complete_stage_with_execution ::
    "string \<Rightarrow> string \<Rightarrow> receipt_row \<Rightarrow> gotime \<Rightarrow> db \<Rightarrow> unit store" where
  "complete_stage_with_execution aid out receipt now s =
     (if \<not> receipt_complete aid out receipt
      then fail s (Errorf ''complete stage execution receipt is incomplete or inconsistent'')
      else if x_build receipt \<noteq> zero_build \<and> validate_build (x_build receipt) \<noteq> None
      then fail s (Errorf ''complete stage execution product build'')
      else if \<not> receipt_guard s receipt then fail s (Constraint ''stage_execution_receipts'')
      else transaction s
        (update_one_attempt (\<lambda>a. a_id a = aid \<and> a_status a = InProgress)
           (close_attempt Completed out [] now) (Errorf ''stage was not active'')
           (s\<lparr>receipts := receipts s @ [receipt\<lparr>x_completed := format_time now\<rparr>]\<rparr>)))"

subsection \<open>Artifacts and evidence under a stage capability\<close>

definition publish_artifact ::
    "string \<Rightarrow> string \<Rightarrow> string \<Rightarrow> string \<Rightarrow> string \<Rightarrow> string \<Rightarrow> int \<Rightarrow> gotime \<Rightarrow> db \<Rightarrow> artifact_row store" where
  "publish_artifact fresh rid aid kind media hash sz now s =
     (case find_attempt s aid of
        None \<Rightarrow> fail s NoRows
      | Some a \<Rightarrow>
          if a_run a \<noteq> rid \<or> a_status a \<noteq> InProgress
          then fail s (Errorf ''artifact stage capability is not active for this run'')
          else let s1 = insert_blob s hash sz media now in
            if \<not> blob_matches s1 hash sz media
            then fail s (Errorf ''blob metadata conflicts with CAS receipt'')
            else if fresh \<in> f_id ` set (artifacts s1) then fail s (Constraint ''artifacts'')
            else let f = \<lparr>f_id = fresh, f_run = rid, f_attempt = aid, f_kind = kind, f_blob = hash,
                          f_adopted = False, f_created = format_time now\<rparr>
              in commit (append_event (s1\<lparr>artifacts := artifacts s1 @ [f]\<rparr>) rid ''artifact.published''
                   [(''artifact_id'', JStr fresh), (''attempt_id'', JStr aid), (''kind'', JStr kind),
                    (''blob_hash'', JStr hash)] now) f)"

definition validate_stage_capability :: "db \<Rightarrow> string \<Rightarrow> string \<Rightarrow> store_error + string" where
  "validate_stage_capability s rid aid =
     (case attempt_run s aid of
        None \<Rightarrow> Inl NoRows
      | Some (a, r) \<Rightarrow>
          if a_run a \<noteq> rid \<or> a_status a \<noteq> InProgress \<or> is_terminal (r_status r)
          then Inl (Errorf ''stage capability is not active for this run'')
          else Inr (r_project r))"

definition capture_evidence ::
    "string \<Rightarrow> string \<Rightarrow> string \<Rightarrow> string \<Rightarrow> string \<Rightarrow> string \<Rightarrow> string \<Rightarrow> string \<Rightarrow> int \<Rightarrow> string \<Rightarrow> gotime \<Rightarrow>
     db \<Rightarrow> evidence_row store" where
  "capture_evidence fresh rid aid url title publisher media hash sz origin now s =
     (if url = [] \<or> title = [] \<or> hash = []
      then fail s (Errorf ''evidence URL, title, and blob are required'')
      else case find_attempt s aid of
        None \<Rightarrow> fail s NoRows
      | Some a \<Rightarrow>
          if a_run a \<noteq> rid \<or> a_status a \<noteq> InProgress
          then fail s (Errorf ''evidence stage capability is not active for this run'')
          else let s1 = insert_blob s hash sz media now in
            if \<not> blob_matches s1 hash sz media
            then fail s (Errorf ''blob metadata conflicts with CAS receipt'')
            else if fresh \<in> v_id ` set (evidence s1) then fail s (Constraint ''evidence'')
            else let v = \<lparr>v_id = fresh, v_run = rid, v_attempt = aid, v_url = url, v_title = title,
                          v_publisher = publisher, v_blob = hash, v_captured = format_time now,
                          v_adopted = False\<rparr>
              in commit (append_event (s1\<lparr>evidence := evidence s1 @ [v]\<rparr>) rid ''evidence.captured''
                   ([(''evidence_id'', JStr fresh), (''attempt_id'', JStr aid),
                     (''source_url'', JStr url), (''blob_hash'', JStr hash)] @
                    (if origin \<noteq> [] then [(''origin'', JStr origin)] else [])) now) v)"

subsection \<open>Archiving attempts\<close>

text \<open>
  \<^verbatim>\<open>COALESCE(MIN(ordinal), 0)\<close> over a stage of a run, and the physical ordinal an archived
  attempt moves to: one below the minimum, but never above -1.
\<close>

definition min_ordinal :: "db \<Rightarrow> string \<Rightarrow> stage \<Rightarrow> int" where
  "min_ordinal s rid st =
     (case filter (\<lambda>a. a_run a = rid \<and> a_stage a = st) (attempts s) of
        [] \<Rightarrow> 0
      | a # as \<Rightarrow> foldl (\<lambda>m b. min m (a_ordinal b)) (a_ordinal a) as)"

definition archived_ordinal :: "int \<Rightarrow> int" where
  "archived_ordinal minimum = (if minimum > 0 then -1 else minimum - 1)"

definition incomplete_attempt :: "string \<Rightarrow> attempt_row \<Rightarrow> bool" where
  "incomplete_attempt rid a \<longleftrightarrow>
     a_run a = rid \<and> (a_status a = InProgress \<or> a_status a = AttemptInterrupted)"

definition supersede_attempt :: "int \<Rightarrow> string \<Rightarrow> gotime \<Rightarrow> attempt_row \<Rightarrow> attempt_row" where
  "supersede_attempt ordinal err now a =
     a\<lparr>a_ordinal := ordinal, a_status := Superseded, a_error := err, a_updated := format_time now\<rparr>"

definition archive_note :: "string \<Rightarrow> string" where
  "archive_note err = (if err = [] then ''archived by explicit resume''
                       else err @ ''; archived by explicit resume'')"

fun archive_each :: "string \<Rightarrow> gotime \<Rightarrow> attempt_row list \<Rightarrow> db \<Rightarrow> unit store" where
  "archive_each rid now [] s = commit s ()"
| "archive_each rid now (a # as) s =
     (if a_external a
      then fail s (Errorf ''interrupted attempt with external side effects cannot be resumed'')
      else and_then
        (update_one_attempt
           (\<lambda>q. a_id q = a_id a \<and> incomplete_attempt rid q \<and> \<not> a_external q)
           (\<lambda>q. supersede_attempt (archived_ordinal (min_ordinal s rid (a_stage a)))
                  (archive_note (a_error q)) now q)
           (Errorf ''interrupted attempt changed while preparing resume'') s)
        (\<lambda>s1 _. archive_each rid now as
           (append_event s1 rid ''stage.retry_authorized''
              [(''attempt_id'', JStr (a_id a)), (''stage'', JStr (stage_text (a_stage a))),
               (''ordinal'', JInt (a_logical a))] now)))"

definition prepare_interrupted_run_for_resume :: "string \<Rightarrow> gotime \<Rightarrow> db \<Rightarrow> unit store" where
  "prepare_interrupted_run_for_resume rid now s =
     transaction s
     (case find_run s rid of
        None \<Rightarrow> fail s NoRows
      | Some r \<Rightarrow>
          if r_status r \<noteq> RunInterrupted
          then fail s (Errorf ''only interrupted runs can be prepared for resume'')
          else archive_each rid now
            (sort_key (\<lambda>a. (a_created a, a_id a)) (filter (incomplete_attempt rid) (attempts s))) s)"

definition retryable_plan :: "string \<Rightarrow> string \<Rightarrow> attempt_row \<Rightarrow> bool" where
  "retryable_plan aid rid a \<longleftrightarrow> a_id a = aid \<and> a_run a = rid \<and> a_stage a = StagePlan \<and>
     a_ordinal a = 0 \<and> a_logical a = 0 \<and> a_status a = AttemptFailed \<and> \<not> a_external a"

definition prepare_plan_contract_retry :: "string \<Rightarrow> string \<Rightarrow> gotime \<Rightarrow> db \<Rightarrow> unit store" where
  "prepare_plan_contract_retry rid aid now s =
     transaction s
     (case find_run s rid of
        None \<Rightarrow> fail s NoRows
      | Some r \<Rightarrow>
          if r_status r \<noteq> RunPlanning
          then fail s (Errorf ''PLAN contract retry requires a planning run'')
          else case find_attempt s aid of
            None \<Rightarrow> fail s NoRows
          | Some a \<Rightarrow>
              if a_run a \<noteq> rid then fail s NoRows
              else if a_stage a \<noteq> StagePlan \<or> a_status a \<noteq> AttemptFailed \<or> a_logical a \<noteq> 0 \<or>
                      a_ordinal a \<noteq> 0 \<or> a_external a
              then fail s (Errorf ''only a failed side-effect-free logical PLAN attempt can be retried'')
              else and_then
                (update_one_attempt (retryable_plan aid rid)
                   (\<lambda>q. supersede_attempt (archived_ordinal (min_ordinal s rid (a_stage a)))
                          (a_error q) now q)
                   (Errorf ''PLAN attempt changed while preparing contract retry'') s)
                (\<lambda>s1 _. commit
                   (append_event s1 rid ''stage.retry_authorized''
                      [(''attempt_id'', JStr aid), (''stage'', JStr (stage_text StagePlan)),
                       (''ordinal'', JInt (a_logical a)),
                       (''reason'', JStr ''deterministic_contract_recovery'')] now) ()))"

end
