(* ===== verification/Tool_Work.thy ===== *)
theory Tool_Work
  imports Store_Stages
begin

section \<open>Native tool installations and invocations\<close>

text \<open>
  \<^verbatim>\<open>internal/store/tool_installations.go\<close> with the guards of migration 18: the life of a
  portable tool installation, the exact grant that lets a stage use it, and the invocation
  reservation that gives one normalised call at most one execution.
\<close>

definition valid_tool_sha256 :: "string \<Rightarrow> bool" where
  "valid_tool_sha256 v \<longleftrightarrow> length v = 64 \<and> list_all is_lower_hex v"

lemma valid_digest_tool: "valid_digest v \<longleftrightarrow> valid_tool_sha256 v"
  by (simp add: valid_digest_def valid_tool_sha256_def digest_canonical)

subsection \<open>The guards of the installation table\<close>

definition install_working :: "install_state \<Rightarrow> bool" where
  "install_working st \<longleftrightarrow> st \<in> set [Downloading, Verifying, Installing, Probing]"

definition install_live :: "install_state \<Rightarrow> bool" where
  "install_live st \<longleftrightarrow> install_working st \<or> st = InstallReady"

definition install_terminal :: "install_state \<Rightarrow> bool" where
  "install_terminal st \<longleftrightarrow> st \<in> set [InstallReady, InstallFailed, InstallInterrupted, Quarantined]"

fun install_next :: "install_state \<Rightarrow> install_state list" where
  "install_next Downloading = [Verifying, InstallFailed, InstallInterrupted, Quarantined]"
| "install_next Verifying = [Installing, InstallFailed, InstallInterrupted, Quarantined]"
| "install_next Installing = [Probing, InstallFailed, InstallInterrupted, Quarantined]"
| "install_next Probing = [InstallReady, InstallFailed, InstallInterrupted, Quarantined]"
| "install_next _ = []"

text \<open>The state guard and the guard that freezes a terminal row, together.\<close>

definition install_change :: "install_state \<Rightarrow> install_state \<Rightarrow> bool" where
  "install_change old new \<longleftrightarrow> \<not> install_terminal old \<and> (new = old \<or> new \<in> set (install_next old))"

definition known_blob :: "db \<Rightarrow> string \<Rightarrow> bool" where
  "known_blob s h \<longleftrightarrow> h = [] \<or> h \<in> b_hash ` set (blobs s)"

definition install_checks :: "db \<Rightarrow> install_row \<Rightarrow> bool" where
  "install_checks s n \<longleftrightarrow>
     0 \<le> n_payload_size n \<and> (n_tree n = [] \<or> length (n_tree n) = 64) \<and>
     known_blob s (n_payload n) \<and> known_blob s (n_probe n) \<and>
     (n_payload n = [] \<or> n_payload n = n_expected n) \<and>
     (n_state n = InstallReady \<longrightarrow>
        n_payload n \<noteq> [] \<and> n_tree n \<noteq> [] \<and> n_entrypoint n \<noteq> [] \<and> n_completed n \<noteq> None \<and>
        n_error n = [])"

definition one_live :: "install_row list \<Rightarrow> bool" where
  "one_live ns = distinct (map n_package (filter (\<lambda>n. install_live (n_state n)) ns))"

definition update_installs ::
    "(install_row \<Rightarrow> bool) \<Rightarrow> (install_row \<Rightarrow> install_row) \<Rightarrow> db \<Rightarrow> nat store" where
  "update_installs p f s =
     (let rows = installs (tools s); rows' = update_where p f rows in
      if list_ex (\<lambda>n. p n \<and> \<not> (install_change (n_state n) (n_state (f n)) \<and> install_checks s (f n))) rows
         \<or> \<not> one_live rows'
      then fail s (Constraint ''portable_tool_installations'')
      else commit (s\<lparr>tools := (tools s)\<lparr>installs := rows'\<rparr>\<rparr>) (affected p rows))"

definition find_install :: "db \<Rightarrow> string \<Rightarrow> install_row option" where
  "find_install s nid = select_key n_id (installs (tools s)) nid"

definition append_install_event ::
    "db \<Rightarrow> install_row \<Rightarrow> string \<Rightarrow> event_detail \<Rightarrow> gotime \<Rightarrow> db" where
  "append_install_event s n action detail now =
     s\<lparr>tools := (tools s)\<lparr>install_events := install_events (tools s) @
        [\<lparr>ie_install = n_id n, ie_package = n_package n, ie_project = n_project n,
          ie_action = action, ie_approval = n_approval n, ie_detail = detail,
          ie_created = format_time now\<rparr>]\<rparr>\<rparr>"

text \<open>A row update that must touch exactly one row, followed by its audit event.\<close>

definition change_install ::
    "(install_row \<Rightarrow> bool) \<Rightarrow> (install_row \<Rightarrow> install_row) \<Rightarrow> string \<Rightarrow> install_row \<Rightarrow> string \<Rightarrow>
     event_detail \<Rightarrow> gotime \<Rightarrow> db \<Rightarrow> install_row store" where
  "change_install p f lost current action detail now s =
     transaction s
       (and_then (update_installs p f s)
         (\<lambda>s1 n. if n \<noteq> 1 then fail s1 (Errorf lost)
                 else commit (append_install_event s1 (f current) action detail now) (f current)))"

subsection \<open>Installing a tool\<close>

definition install_state_text :: "install_state \<Rightarrow> string" where
  "install_state_text st =
     (case st of Downloading \<Rightarrow> ''downloading'' | Verifying \<Rightarrow> ''verifying''
      | Installing \<Rightarrow> ''installing'' | Probing \<Rightarrow> ''probing'' | InstallReady \<Rightarrow> ''ready''
      | InstallFailed \<Rightarrow> ''failed'' | InstallInterrupted \<Rightarrow> ''interrupted''
      | Quarantined \<Rightarrow> ''quarantined'')"

definition latest_live_install :: "db \<Rightarrow> string \<Rightarrow> install_row option" where
  "latest_live_install s pkg =
     (case rev (sort_key (\<lambda>n. (n_created n, n_id n))
             (filter (\<lambda>n. n_package n = pkg \<and> install_live (n_state n)) (installs (tools s)))) of
        [] \<Rightarrow> None | n # _ \<Rightarrow> Some n)"

definition matching_package :: "db \<Rightarrow> install_row \<Rightarrow> bool" where
  "matching_package s n \<longleftrightarrow>
     (\<exists>p \<in> set (packages (tools s)). tp_id p = n_package n \<and> tp_project p = n_project n \<and>
        tp_sha p = n_sha n \<and> tp_kind p = ''mcp'')"

definition fresh_install :: "string \<Rightarrow> gotime \<Rightarrow> install_row \<Rightarrow> install_row" where
  "fresh_install fresh now n =
     n\<lparr>n_id := (if n_id n = [] then fresh else n_id n), n_state := Downloading, n_payload := [],
        n_payload_size := 0, n_tree := [], n_entrypoint := [], n_probe := [], n_error := [],
        n_created := format_time now, n_updated := format_time now, n_completed := None\<rparr>"

definition begin_tool_installation ::
    "string \<Rightarrow> install_row \<Rightarrow> gotime \<Rightarrow> db \<Rightarrow> (install_row \<times> bool) store" where
  "begin_tool_installation fresh request now s =
     (if n_package request = [] \<or> n_project request = [] \<or> \<not> valid_tool_sha256 (n_sha request) \<or>
         \<not> valid_tool_sha256 (n_approval request) \<or> \<not> valid_tool_sha256 (n_expected request)
      then fail s (Errorf ''tool installation package and exact approval hashes are required'')
      else case latest_live_install s (n_package request) of
        Some existing \<Rightarrow>
          if n_project existing \<noteq> n_project request \<or> n_sha existing \<noteq> n_sha request \<or>
             n_approval existing \<noteq> n_approval request \<or> n_expected existing \<noteq> n_expected request
          then fail s (Errorf ''a different approved installation is already live for this package'')
          else commit s (existing, False)
      | None \<Rightarrow>
          (let n = fresh_install fresh now request;
               rows = installs (tools s) @ [n]
           in if n_id n \<in> n_id ` set (installs (tools s)) \<or> \<not> matching_package s n \<or> \<not> one_live rows
              then fail s (Constraint ''portable_tool_installations'')
              else commit
                (append_install_event (s\<lparr>tools := (tools s)\<lparr>installs := rows\<rparr>\<rparr>) n ''begun''
                   (RawJson ''{}'') now)
                (n, True)))"

record install_update =
  iu_state :: install_state
  iu_payload :: string
  iu_size :: "int option"
  iu_tree :: string
  iu_entrypoint :: string
  iu_probe :: string
  iu_detail :: string

text \<open>Empty members keep the stored value.\<close>

definition or_keep :: "string \<Rightarrow> string \<Rightarrow> string" where
  "or_keep new old = (if new \<noteq> [] then new else old)"

definition merge_update :: "install_update \<Rightarrow> gotime \<Rightarrow> install_row \<Rightarrow> install_row" where
  "merge_update u now n =
     n\<lparr>n_state := iu_state u, n_payload := or_keep (iu_payload u) (n_payload n),
        n_payload_size := (case iu_size u of None \<Rightarrow> n_payload_size n | Some k \<Rightarrow> k),
        n_tree := or_keep (iu_tree u) (n_tree n),
        n_entrypoint := or_keep (iu_entrypoint u) (n_entrypoint n),
        n_probe := or_keep (iu_probe u) (n_probe n), n_error := [], n_updated := format_time now\<rparr>"

definition bad_hash :: "string \<Rightarrow> bool" where
  "bad_hash h \<longleftrightarrow> h \<noteq> [] \<and> \<not> valid_tool_sha256 h"

definition update_tool_installation ::
    "codec \<Rightarrow> string \<Rightarrow> install_state \<Rightarrow> install_update \<Rightarrow> gotime \<Rightarrow> db \<Rightarrow> install_row store" where
  "update_tool_installation cx nid expected u now s =
     (if nid = [] then fail s (Errorf ''tool installation id and state transition are required'')
      else if iu_state u \<noteq> Verifying \<and> iu_state u \<noteq> Installing \<and> iu_state u \<noteq> Probing
      then fail s (Errorf ''use completion, failure, or recovery for a terminal installation state'')
      else let detail = (if iu_detail u = [] then ''{}'' else iu_detail u) in
        if \<not> json_valid cx detail
        then fail s (Errorf ''tool installation event detail must be valid JSON'')
        else case find_install s nid of
          None \<Rightarrow> fail s NoRows
        | Some current \<Rightarrow>
            if n_state current \<noteq> expected then fail s (Errorf ''tool installation is in another state'')
            else if (\<exists>k. iu_size u = Some k \<and> k < 0)
            then fail s (Errorf ''tool payload size cannot be negative'')
            else let merged = merge_update u now current in
              if bad_hash (n_payload merged) \<or> bad_hash (n_tree merged) \<or> bad_hash (n_probe merged)
              then fail s (Errorf ''tool installation contains an invalid CAS or tree hash'')
              else change_install (\<lambda>n. n_id n = nid \<and> n_state n = expected) (merge_update u now)
                     ''tool installation transition lost concurrency race'' current
                     (install_state_text (iu_state u)) (RawJson detail) now s)"

definition ready_row :: "string \<Rightarrow> string \<Rightarrow> string \<Rightarrow> gotime \<Rightarrow> install_row \<Rightarrow> install_row" where
  "ready_row tree entrypoint probe now n =
     n\<lparr>n_state := InstallReady, n_tree := tree, n_entrypoint := entrypoint, n_probe := probe,
        n_error := [], n_updated := format_time now, n_completed := Some (format_time now)\<rparr>"

definition complete_tool_installation ::
    "string \<Rightarrow> string \<Rightarrow> string \<Rightarrow> string \<Rightarrow> gotime \<Rightarrow> db \<Rightarrow> install_row store" where
  "complete_tool_installation nid tree entrypoint probe now s =
     (if \<not> valid_tool_sha256 tree \<or> blank entrypoint
      then fail s (Errorf ''ready installation requires a tree hash and entrypoint'')
      else if bad_hash probe then fail s (Errorf ''probe output CAS hash is invalid'')
      else case find_install s nid of
        None \<Rightarrow> fail s NoRows
      | Some current \<Rightarrow>
          if n_state current = InstallReady
          then (if n_tree current = tree \<and> n_entrypoint current = entrypoint \<and> n_probe current = probe
                then commit s current
                else fail s (Errorf ''ready installation completion identity differs''))
          else if n_state current \<noteq> Probing then fail s (Errorf ''tool installation is not probing'')
          else if n_payload current = []
          then fail s (Errorf ''tool installation payload was not verified'')
          else change_install (\<lambda>n. n_id n = nid \<and> n_state n = Probing)
                 (ready_row tree entrypoint probe now)
                 ''tool installation completion lost concurrency race'' current ''ready''
                 (RawJson ''{}'') now s)"

text \<open>A missing or blank cause is replaced by a default text.\<close>

definition cause_message :: "string \<Rightarrow> string option \<Rightarrow> string" where
  "cause_message dflt cause =
     (case cause of None \<Rightarrow> dflt | Some c \<Rightarrow> if blank c then dflt else c)"

definition closed_install :: "install_state \<Rightarrow> string \<Rightarrow> gotime \<Rightarrow> install_row \<Rightarrow> install_row" where
  "closed_install st msg now n =
     n\<lparr>n_state := st, n_error := msg, n_updated := format_time now,
        n_completed := Some (format_time now)\<rparr>"

definition fail_tool_installation ::
    "string \<Rightarrow> string option \<Rightarrow> gotime \<Rightarrow> db \<Rightarrow> install_row store" where
  "fail_tool_installation nid cause now s =
     (let msg = cause_message ''tool installation failed'' cause in
      case find_install s nid of
        None \<Rightarrow> fail s NoRows
      | Some current \<Rightarrow>
          if n_state current = InstallFailed
          then (if n_error current = msg then commit s current
                else fail s (Errorf ''failed installation has a different terminal error''))
          else if n_state current = InstallReady \<or> n_state current = InstallInterrupted \<or>
                  n_state current = Quarantined
          then fail s (Errorf ''tool installation is terminal'')
          else change_install (\<lambda>n. n_id n = nid \<and> install_working (n_state n))
                 (closed_install InstallFailed msg now)
                 ''tool installation failure lost concurrency race'' current ''failed''
                 (ErrorDetail msg) now s)"

subsection \<open>Stage grants\<close>

definition exact_grant :: "grant_row \<Rightarrow> grant_row \<Rightarrow> bool" where
  "exact_grant g h \<longleftrightarrow> g_project g = g_project h \<and> g_run g = g_run h \<and> g_attempt g = g_attempt h \<and>
     g_package g = g_package h \<and> g_install g = g_install h \<and> g_sha g = g_sha h \<and>
     g_approval g = g_approval h"

definition grant_slot :: "grant_row \<Rightarrow> string \<times> string \<times> string" where
  "grant_slot g = (g_attempt g, g_package g, g_install g)"

definition ready_package :: "db \<Rightarrow> string \<Rightarrow> string \<Rightarrow> package_row option" where
  "ready_package s pkg prj =
     (case select_key tp_id (packages (tools s)) pkg of
        None \<Rightarrow> None
      | Some p \<Rightarrow> if tp_project p = prj \<and> tp_state p = ''active'' then Some p else None)"

definition ready_install :: "db \<Rightarrow> string \<Rightarrow> string \<Rightarrow> install_row option" where
  "ready_install s nid prj =
     (case find_install s nid of
        None \<Rightarrow> None
      | Some n \<Rightarrow> if n_project n = prj \<and> n_state n = InstallReady then Some n else None)"

definition grant_guard :: "db \<Rightarrow> grant_row \<Rightarrow> bool" where
  "grant_guard s g \<longleftrightarrow>
     (case attempt_of_run s (g_attempt g) (g_run g) of
        None \<Rightarrow> False
      | Some (a, r) \<Rightarrow> r_project r = g_project g) \<and>
     (case (ready_package s (g_package g) (g_project g), ready_install s (g_install g) (g_project g)) of
        (Some p, Some n) \<Rightarrow> tp_sha p = g_sha g \<and> n_package n = g_package g \<and>
          n_sha n = g_sha g \<and> n_approval n = g_approval g
      | _ \<Rightarrow> False)"

definition create_tool_stage_grant :: "string \<Rightarrow> grant_row \<Rightarrow> gotime \<Rightarrow> db \<Rightarrow> grant_row store" where
  "create_tool_stage_grant fresh request now s =
     (if g_project request = [] \<or> g_run request = [] \<or> g_attempt request = [] \<or>
         g_package request = [] \<or> g_install request = [] \<or>
         \<not> valid_tool_sha256 (g_sha request) \<or> \<not> valid_tool_sha256 (g_approval request)
      then fail s (Errorf ''exact tool stage grant identity is required'')
      else case select_key grant_slot (grants (tools s)) (grant_slot request) of
        Some existing \<Rightarrow>
          if exact_grant existing request then commit s existing
          else fail s (Errorf ''existing tool stage grant identity differs'')
      | None \<Rightarrow>
          (case attempt_of_run s (g_attempt request) (g_run request) of
             None \<Rightarrow> fail s NoRows
           | Some (a, r) \<Rightarrow>
               if r_project r \<noteq> g_project request then fail s NoRows
               else if a_status a \<noteq> InProgress \<or> is_terminal (r_status r)
               then fail s (Errorf ''tool stage grant target is not active'')
               else let g = request\<lparr>g_id := (if g_id request = [] then fresh else g_id request),
                                     g_created := format_time now\<rparr> in
                 if g_id g \<in> g_id ` set (grants (tools s)) \<or> \<not> grant_guard s g
                 then fail s (Constraint ''tool_stage_grants'')
                 else commit (s\<lparr>tools := (tools s)\<lparr>grants := grants (tools s) @ [g]\<rparr>\<rparr>) g))"

definition tool_stage_grant :: "db \<Rightarrow> grant_row \<Rightarrow> grant_row option" where
  "tool_stage_grant s request = List.find (\<lambda>g. exact_grant g request) (grants (tools s))"

definition has_exact_tool_stage_grant :: "db \<Rightarrow> grant_row \<Rightarrow> bool" where
  "has_exact_tool_stage_grant s request \<longleftrightarrow> tool_stage_grant s request \<noteq> None"

subsection \<open>Reserving an invocation\<close>

definition call_key :: "invocation_row \<Rightarrow> string \<times> string" where
  "call_key q = (q_attempt q, q_key q)"

text \<open>The normalised contract of a call, without the identifier the model chose for it.\<close>

definition call_contract ::
    "invocation_row \<Rightarrow> string \<times> string \<times> string \<times> string \<times> string \<times> string" where
  "call_contract q = (q_attempt q, q_package q, q_install q, q_tool q, q_args q, q_adapter q)"

definition same_tool_invocation_identity :: "invocation_row \<Rightarrow> invocation_row \<Rightarrow> bool" where
  "same_tool_invocation_identity l r \<longleftrightarrow>
     q_key l = q_key r \<and> q_project l = q_project r \<and> q_run l = q_run r \<and>
     q_attempt l = q_attempt r \<and> q_package l = q_package r \<and> q_install l = q_install r \<and>
     q_grant l = q_grant r \<and> q_tool l = q_tool r \<and> q_args l = q_args r \<and> q_adapter l = q_adapter r"

definition invocation_scope :: "db \<Rightarrow> invocation_row \<Rightarrow> (attempt_row \<times> run_row) option" where
  "invocation_scope s q =
     (case attempt_of_run s (q_attempt q) (q_run q) of
        None \<Rightarrow> None
      | Some (a, r) \<Rightarrow>
          if r_project r = q_project q \<and>
             (case select_key g_id (grants (tools s)) (q_grant q) of
                None \<Rightarrow> False
              | Some g \<Rightarrow> g_project g = r_project r \<and> g_run g = r_id r \<and> g_attempt g = a_id a \<and>
                  g_package g = q_package q \<and> g_install g = q_install q) \<and>
             ready_package s (q_package q) (r_project r) \<noteq> None \<and>
             ready_install s (q_install q) (r_project r) \<noteq> None
          then Some (a, r) else None)"

definition running_row :: "string \<Rightarrow> gotime \<Rightarrow> invocation_row \<Rightarrow> invocation_row" where
  "running_row fresh now q =
     q\<lparr>q_id := (if q_id q = [] then fresh else q_id q), q_state := CallRunning, q_stdout := [],
        q_stderr := [], q_exit := None, q_error := [], q_created := format_time now,
        q_updated := format_time now, q_started := format_time now, q_completed := None\<rparr>"

definition invocation_guard :: "db \<Rightarrow> invocation_row \<Rightarrow> bool" where
  "invocation_guard s q \<longleftrightarrow>
     q_id q \<notin> q_id ` set (invocations (tools s)) \<and>
     call_key q \<notin> call_key ` set (invocations (tools s)) \<and>
     call_contract q \<notin> call_contract ` set (invocations (tools s)) \<and>
     length (q_args q) = 64 \<and> length (q_adapter q) = 64 \<and>
     (case select_key g_id (grants (tools s)) (q_grant q) of
        None \<Rightarrow> False
      | Some g \<Rightarrow> g_project g = q_project q \<and> g_run g = q_run q \<and> g_attempt g = q_attempt q \<and>
          g_package g = q_package q \<and> g_install g = q_install q) \<and>
     ready_package s (q_package q) (q_project q) \<noteq> None \<and>
     ready_install s (q_install q) (q_project q) \<noteq> None"

definition reserve_tool_invocation ::
    "string \<Rightarrow> invocation_row \<Rightarrow> gotime \<Rightarrow> db \<Rightarrow> (invocation_row \<times> bool) store" where
  "reserve_tool_invocation fresh request now s =
     (if q_key request = [] \<or> q_project request = [] \<or> q_run request = [] \<or> q_attempt request = [] \<or>
         q_package request = [] \<or> q_install request = [] \<or> q_grant request = [] \<or> q_tool request = [] \<or>
         \<not> valid_tool_sha256 (q_args request) \<or> \<not> valid_tool_sha256 (q_adapter request)
      then fail s (Errorf ''tool invocation identity, grant, and hashes are required'')
      else case select_key call_key (invocations (tools s)) (call_key request) of
        Some existing \<Rightarrow>
          if same_tool_invocation_identity existing request then commit s (existing, False)
          else fail s (Errorf ''tool invocation idempotency key was reused with different input'')
      | None \<Rightarrow>
         (case select_key call_contract (invocations (tools s)) (call_contract request) of
            Some existing \<Rightarrow> commit s (existing, False)
          | None \<Rightarrow>
             (case invocation_scope s request of
                None \<Rightarrow> fail s NoRows
              | Some (a, r) \<Rightarrow>
                  if a_status a \<noteq> InProgress \<or> is_terminal (r_status r)
                  then fail s (Errorf ''tool invocation stage is not active'')
                  else let q = running_row fresh now request in
                    transaction s
                     (and_then
                       (update_one_attempt
                          (\<lambda>b. a_id b = q_attempt q \<and> a_run b = q_run q \<and> a_status b = InProgress)
                          (set_external now)
                          (Errorf ''tool invocation stage changed before reservation'') s)
                       (\<lambda>s1 _.
                          if \<not> invocation_guard s1 q then fail s1 (Constraint ''tool_invocations'')
                          else commit
                            (append_event
                               (s1\<lparr>tools := (tools s1)\<lparr>invocations := invocations (tools s1) @ [q]\<rparr>\<rparr>)
                               (q_run q) ''tool.invocation.started''
                               [(''invocation_id'', JStr (q_id q)),
                                (''stage_attempt_id'', JStr (q_attempt q)),
                                (''package_id'', JStr (q_package q)), (''tool'', JStr (q_tool q))] now)
                            (q, True))))))"

subsection \<open>Closing an invocation\<close>

definition find_invocation :: "db \<Rightarrow> string \<Rightarrow> invocation_row option" where
  "find_invocation s qid = select_key q_id (invocations (tools s)) qid"

text \<open>The state guard, the freeze of terminal rows and the CHECK on the closing columns.\<close>

definition call_close_ok :: "db \<Rightarrow> invocation_row \<Rightarrow> invocation_row \<Rightarrow> bool" where
  "call_close_ok s old new \<longleftrightarrow>
     q_state old = CallRunning \<and> q_state new \<noteq> CallRunning \<and> q_completed new \<noteq> None \<and>
     known_blob s (q_stdout new) \<and> known_blob s (q_stderr new) \<and>
     (if q_state new = CallSucceeded then q_exit new \<noteq> None \<and> q_error new = []
      else q_error new \<noteq> [])"

definition update_invocations ::
    "(invocation_row \<Rightarrow> bool) \<Rightarrow> (invocation_row \<Rightarrow> invocation_row) \<Rightarrow> db \<Rightarrow> nat store" where
  "update_invocations p f s =
     (let rows = invocations (tools s) in
      if list_ex (\<lambda>q. p q \<and> \<not> call_close_ok s q (f q)) rows
      then fail s (Constraint ''tool_invocations'')
      else commit (s\<lparr>tools := (tools s)\<lparr>invocations := update_where p f rows\<rparr>\<rparr>) (affected p rows))"

definition running_call :: "string \<Rightarrow> invocation_row \<Rightarrow> bool" where
  "running_call qid q \<longleftrightarrow> q_id q = qid \<and> q_state q = CallRunning"

definition close_invocation ::
    "(invocation_row \<Rightarrow> invocation_row) \<Rightarrow> string \<Rightarrow> invocation_row \<Rightarrow> string \<Rightarrow>
     (string \<times> jval) list \<Rightarrow> gotime \<Rightarrow> db \<Rightarrow> invocation_row store" where
  "close_invocation f lost current kind payload now s =
     transaction s
       (and_then (update_invocations (running_call (q_id current)) f s)
         (\<lambda>s1 n. if n \<noteq> 1 then fail s1 (Errorf lost)
                 else commit (append_event s1 (q_run current) kind payload now) (f current)))"

definition succeeded_call :: "string \<Rightarrow> string \<Rightarrow> int \<Rightarrow> gotime \<Rightarrow> invocation_row \<Rightarrow> invocation_row" where
  "succeeded_call out err code now q =
     q\<lparr>q_state := CallSucceeded, q_stdout := out, q_stderr := err, q_exit := Some code,
        q_error := [], q_updated := format_time now, q_completed := Some (format_time now)\<rparr>"

definition ended_call :: "invocation_state \<Rightarrow> string \<Rightarrow> gotime \<Rightarrow> invocation_row \<Rightarrow> invocation_row" where
  "ended_call st msg now q =
     q\<lparr>q_state := st, q_error := msg, q_updated := format_time now,
        q_completed := Some (format_time now)\<rparr>"

definition complete_tool_invocation ::
    "string \<Rightarrow> string \<Rightarrow> string \<Rightarrow> int \<Rightarrow> gotime \<Rightarrow> db \<Rightarrow> invocation_row store" where
  "complete_tool_invocation qid out err code now s =
     (if bad_hash out \<or> bad_hash err
      then fail s (Errorf ''tool invocation output CAS hash is invalid'')
      else case find_invocation s qid of
        None \<Rightarrow> fail s NoRows
      | Some current \<Rightarrow>
          if q_state current = CallSucceeded
          then (if q_stdout current = out \<and> q_stderr current = err \<and> q_exit current = Some code
                then commit s current
                else fail s (Errorf ''completed tool invocation result differs''))
          else if q_state current \<noteq> CallRunning
          then fail s (Errorf ''tool invocation is terminal'')
          else close_invocation (succeeded_call out err code now)
                 ''tool invocation completion lost concurrency race'' current
                 ''tool.invocation.succeeded''
                 [(''invocation_id'', JStr (q_id current)), (''exit_code'', JInt code)] now s)"

definition fail_tool_invocation ::
    "string \<Rightarrow> string option \<Rightarrow> gotime \<Rightarrow> db \<Rightarrow> invocation_row store" where
  "fail_tool_invocation qid cause now s =
     (let msg = cause_message ''tool invocation failed'' cause in
      case find_invocation s qid of
        None \<Rightarrow> fail s NoRows
      | Some current \<Rightarrow>
          if q_state current = CallFailed
          then (if q_error current = msg then commit s current
                else fail s (Errorf ''failed tool invocation has a different terminal error''))
          else if q_state current \<noteq> CallRunning
          then fail s (Errorf ''tool invocation is terminal'')
          else close_invocation (ended_call CallFailed msg now)
                 ''tool invocation failure lost concurrency race'' current
                 ''tool.invocation.failed''
                 [(''invocation_id'', JStr (q_id current)), (''error'', JStr msg)] now s)"

subsection \<open>Recovery at startup\<close>

fun interrupt_each :: "gotime \<Rightarrow> install_row list \<Rightarrow> db \<Rightarrow> unit store" where
  "interrupt_each now [] s = commit s ()"
| "interrupt_each now (n # ns) s =
     (let msg = ''application exited while tool installation was in progress'' in
      and_then
        (update_installs (\<lambda>m. n_id m = n_id n \<and> install_working (n_state m))
           (closed_install InstallInterrupted msg now) s)
        (\<lambda>s1 _. interrupt_each now ns
           (append_install_event s1 n ''interrupted'' (RawJson ''{}'') now)))"

fun uncertain_each :: "gotime \<Rightarrow> invocation_row list \<Rightarrow> db \<Rightarrow> unit store" where
  "uncertain_each now [] s = commit s ()"
| "uncertain_each now (q # qs) s =
     and_then
       (update_invocations (running_call (q_id q))
          (ended_call CallUncertain ''application exited while native tool outcome was unknown'' now) s)
       (\<lambda>s1 _. uncertain_each now qs
          (append_event s1 (q_run q) ''tool.invocation.uncertain''
             [(''invocation_id'', JStr (q_id q)), (''stage_attempt_id'', JStr (q_attempt q))] now))"

definition working_installs :: "db \<Rightarrow> install_row list" where
  "working_installs s = sort_key (\<lambda>n. (n_created n, n_id n))
     (filter (\<lambda>n. install_working (n_state n)) (installs (tools s)))"

definition running_calls :: "db \<Rightarrow> invocation_row list" where
  "running_calls s = sort_key (\<lambda>q. (q_created q, q_id q))
     (filter (\<lambda>q. q_state q = CallRunning) (invocations (tools s)))"

definition recover_tool_work :: "gotime \<Rightarrow> db \<Rightarrow> (nat \<times> nat) store" where
  "recover_tool_work now s =
     and_then (interrupt_each now (working_installs s) s)
       (\<lambda>s1 _. and_then (uncertain_each now (running_calls s1) s1)
          (\<lambda>s2 _. commit s2 (length (working_installs s), length (running_calls s1))))"

end
