(* ===== verification/Engineering_Jobs.thy ===== *)
theory Engineering_Jobs
  imports Tool_Work
begin

section \<open>Engineering solver jobs\<close>

text \<open>
  \<^verbatim>\<open>internal/store/engineering.go\<close>, \<^verbatim>\<open>engineering_screening_owner.go\<close> and
  \<^verbatim>\<open>engineering_reuse.go\<close>: the admission of a solver job under an approved scope, its
  completion and failure, and the authorisation to read an old receipt again.
\<close>

subsection \<open>Capability of a stage\<close>

definition validate_engineering_capability :: "db \<Rightarrow> string \<Rightarrow> string \<Rightarrow> store_error + string" where
  "validate_engineering_capability s rid aid =
     (case attempt_run s aid of
        None \<Rightarrow> Inl NoRows
      | Some (a, r) \<Rightarrow>
          if a_run a \<noteq> rid \<or> a_stage a \<noteq> StageCollect \<or> a_status a \<noteq> InProgress
          then Inl (Errorf ''engineering tools require the active collect stage'')
          else if r_status r \<noteq> RunCollecting \<and> r_status r \<noteq> RunWaitingApproval
          then Inl (Errorf ''engineering tools are unavailable'')
          else Inr (r_project r))"

definition require_screening_job_owner :: "codec \<Rightarrow> db \<Rightarrow> job_row \<Rightarrow> store_error option" where
  "require_screening_job_owner cx s j =
     (if j_operation j \<noteq> ''xfoil_polar'' \<or> j_spec j = [] then None
      else case spec_args_of cx (j_spec j) of
        None \<Rightarrow> Some (Errorf ''decode XFOIL screening owner job specification'')
      | Some g \<Rightarrow>
          if ga_purpose g \<noteq> ''screening'' then None
          else if ga_run g \<noteq> j_run j \<or> ga_attempt g \<noteq> j_attempt j
          then Some (Errorf ''XFOIL screening job capability does not match its run or stage attempt'')
          else case find_attempt s (j_attempt j) of
            None \<Rightarrow> Some NoRows
          | Some a \<Rightarrow>
              if a_run a \<noteq> j_run j then Some NoRows
              else if a_stage a \<noteq> StageCollect \<or> a_logical a \<noteq> EngineeringScreeningOwnerOrdinal
              then Some (ErrXFOILScreeningOwner (a_logical a))
              else None)"

subsection \<open>Admission\<close>

definition job_key :: "job_row \<Rightarrow> string \<times> string \<times> string \<times> string" where
  "job_key j = (j_run j, j_attempt j, j_operation j, j_spec_sha j)"

definition authorizes :: "job_row \<Rightarrow> approval_row \<Rightarrow> bool" where
  "authorizes j p \<longleftrightarrow> p_run p = j_run j \<and> p_attempt p = j_attempt j \<and> p_status p = Approved \<and>
     p_args_sha p = j_scope j \<and> p_external p \<and> p_kind p = ''item/mcpToolCall/requestApproval'' \<and>
     p_server p = ''aetherops_engineering'' \<and> p_tool p = j_operation j"

text \<open>The newest authorising approval; which of two equally new ones is left open by SQL.\<close>

definition authorizing_approval :: "db \<Rightarrow> job_row \<Rightarrow> approval_row option" where
  "authorizing_approval s j =
     (case rev (sort_key p_updated (filter (authorizes j) (approvals s))) of
        [] \<Rightarrow> None | p # _ \<Rightarrow> Some p)"

definition running_jobs :: "db \<Rightarrow> nat" where
  "running_jobs s = affected (\<lambda>j. j_status j = JobRunning) (jobs (eng s))"

definition admitted_job :: "string \<Rightarrow> string \<Rightarrow> gotime \<Rightarrow> job_row \<Rightarrow> job_row" where
  "admitted_job fresh apr now j =
     j\<lparr>j_id := (if j_id j = [] then fresh else j_id j), j_approval := apr, j_status := JobRunning,
        j_receipt := [], j_error := [], j_created := format_time now,
        j_started := Some (format_time now), j_completed := None, j_updated := format_time now\<rparr>"

text \<open>The WHERE clause of the marker: the live collector of a collecting or waiting run.\<close>

definition live_collector :: "db \<Rightarrow> job_row \<Rightarrow> attempt_row \<Rightarrow> bool" where
  "live_collector s j a \<longleftrightarrow>
     a_id a = j_attempt j \<and> a_run a = j_run j \<and> a_stage a = StageCollect \<and> a_status a = InProgress \<and>
     (\<exists>r \<in> set (runs s). r_id r = j_run j \<and> r_project r = j_project j \<and>
        (r_status r = RunCollecting \<or> r_status r = RunWaitingApproval)) \<and>
     \<not> failed_collector s (j_run j)"

definition begin_engineering_job ::
    "codec \<Rightarrow> string \<Rightarrow> job_row \<Rightarrow> gotime \<Rightarrow> db \<Rightarrow> (job_row \<times> bool) store" where
  "begin_engineering_job cx fresh request now s =
     (if j_project request = [] \<or> j_run request = [] \<or> j_attempt request = [] \<or>
         j_operation request = [] \<or> j_spec request = [] \<or> j_spec_sha request = [] \<or>
         j_tool request = [] \<or> j_tool_version request = [] \<or> j_scope request = []
      then fail s (Errorf ''engineering job identity, spec, and tool are required'')
      else case require_screening_job_owner cx s request of
        Some e \<Rightarrow> fail s e
      | None \<Rightarrow>
         (case select_key job_key (jobs (eng s)) (job_key request) of
            Some existing \<Rightarrow>
              if j_status existing = JobSucceeded then commit s (existing, False)
              else fail s (Errorf ''identical engineering job will not be re-executed'')
          | None \<Rightarrow>
             (case authorizing_approval s request of
                None \<Rightarrow> fail s (Errorf ''no exact approved scope authorizes this engineering job'')
              | Some p \<Rightarrow>
                  if running_jobs s \<ge> 2
                  then fail s (Errorf ''the global engineering execution limit is reached'')
                  else let j = admitted_job fresh (p_id p) now request in
                    transaction s
                     (and_then
                       (update_one_attempt (live_collector s j) (set_external now)
                          ErrApprovalNotActive s)
                       (\<lambda>s1 _.
                          if j_id j \<in> j_id ` set (jobs (eng s1)) \<or> j_project j \<notin> set (projects s1)
                          then fail s1 (Constraint ''engineering_jobs'')
                          else commit
                            (append_event (s1\<lparr>eng := (eng s1)\<lparr>jobs := jobs (eng s1) @ [j]\<rparr>\<rparr>)
                               (j_run j) ''engineering.job.started''
                               [(''job_id'', JStr (j_id j)), (''attempt_id'', JStr (j_attempt j)),
                                (''operation'', JStr (j_operation j)),
                                (''spec_sha256'', JStr (j_spec_sha j))] now)
                            (j, True))))))"

subsection \<open>Completion and failure\<close>

definition find_job :: "db \<Rightarrow> string \<Rightarrow> job_row option" where
  "find_job s jid = select_key j_id (jobs (eng s)) jid"

definition update_one_job ::
    "(job_row \<Rightarrow> bool) \<Rightarrow> (job_row \<Rightarrow> job_row) \<Rightarrow> store_error \<Rightarrow> db \<Rightarrow> unit store" where
  "update_one_job p f e s =
     (if affected p (jobs (eng s)) \<noteq> 1 then fail s e
      else commit (s\<lparr>eng := (eng s)\<lparr>jobs := update_where p f (jobs (eng s))\<rparr>\<rparr>) ())"

definition artifact_link_free :: "db \<Rightarrow> job_artifact_row \<Rightarrow> bool" where
  "artifact_link_free s x \<longleftrightarrow>
     (\<forall>y \<in> set (job_artifacts (eng s)).
        (ja_job y, ja_artifact y) \<noteq> (ja_job x, ja_artifact x) \<and>
        (ja_job y, ja_role y, ja_file y) \<noteq> (ja_job x, ja_role x, ja_file x))"

fun link_artifacts :: "job_row \<Rightarrow> job_artifact_row list \<Rightarrow> db \<Rightarrow> unit store" where
  "link_artifacts j [] s = commit s ()"
| "link_artifacts j (x # xs) s =
     (if ja_artifact x = [] \<or> ja_role x = [] \<or> ja_file x = [] \<or> ja_media x = [] \<or> ja_blob x = []
      then fail s (Errorf ''engineering artifact metadata is incomplete'')
      else case select_key f_id (artifacts s) (ja_artifact x) of
        None \<Rightarrow> fail s NoRows
      | Some f \<Rightarrow>
          if f_run f \<noteq> j_run j \<or> f_attempt f \<noteq> j_attempt j \<or> f_blob f \<noteq> ja_blob x
          then fail s (Errorf ''engineering artifact does not belong to this job stage'')
          else let y = x\<lparr>ja_job := j_id j\<rparr> in
            if \<not> artifact_link_free s y then fail s (Constraint ''engineering_job_artifacts'')
            else link_artifacts j xs
              (s\<lparr>eng := (eng s)\<lparr>job_artifacts := job_artifacts (eng s) @ [y]\<rparr>\<rparr>))"

definition succeeded_job :: "string \<Rightarrow> gotime \<Rightarrow> job_row \<Rightarrow> job_row" where
  "succeeded_job receipt now j =
     j\<lparr>j_status := JobSucceeded, j_receipt := receipt, j_completed := Some (format_time now),
        j_updated := format_time now\<rparr>"

definition complete_engineering_job ::
    "string \<Rightarrow> string \<Rightarrow> job_artifact_row list \<Rightarrow> gotime \<Rightarrow> db \<Rightarrow> job_row store" where
  "complete_engineering_job jid receipt xs now s =
     (if jid = [] \<or> receipt = [] \<or> xs = []
      then fail s (Errorf ''engineering completion requires receipt and artifacts'')
      else case find_job s jid of
        None \<Rightarrow> fail s NoRows
      | Some j \<Rightarrow>
          if j_status j \<noteq> JobRunning then fail s (Errorf ''engineering job is not running'')
          else transaction s
            (and_then (link_artifacts j xs s)
            (\<lambda>s1 _.
               if receipt \<notin> f_id ` set (artifacts s1) then fail s1 (Constraint ''engineering_jobs'')
               else and_then
                 (update_one_job (\<lambda>q. j_id q = j_id j \<and> j_status q = JobRunning)
                    (succeeded_job receipt now)
                    (Errorf ''engineering completion lost concurrency race'') s1)
               (\<lambda>s2 _. commit
                 (append_event s2 (j_run j) ''engineering.job.succeeded''
                    [(''job_id'', JStr (j_id j)), (''receipt_artifact_id'', JStr receipt)] now)
                 (succeeded_job receipt now j)))))"

definition ended_job :: "job_status \<Rightarrow> string \<Rightarrow> gotime \<Rightarrow> job_row \<Rightarrow> job_row" where
  "ended_job st msg now j =
     j\<lparr>j_status := st, j_error := msg, j_completed := Some (format_time now),
        j_updated := format_time now\<rparr>"

definition fail_engineering_job :: "string \<Rightarrow> string option \<Rightarrow> gotime \<Rightarrow> db \<Rightarrow> unit store" where
  "fail_engineering_job jid cause now s =
     update_one_job (\<lambda>q. j_id q = jid \<and> j_status q = JobRunning)
       (ended_job JobFailed
          (case cause of None \<Rightarrow> ''engineering execution failed'' | Some c \<Rightarrow> c) now)
       (Errorf ''engineering job was not running'') s"

subsection \<open>Reading a receipt again\<close>

definition reuse_guard :: "db \<Rightarrow> reuse_row \<Rightarrow> bool" where
  "reuse_guard s u \<longleftrightarrow>
     (case (find_attempt s (u_attempt u), find_job s (u_job u)) of
        (Some a, Some j) \<Rightarrow>
          a_run a = u_run u \<and> a_stage a = StageCollect \<and> a_status a = InProgress \<and>
          j_run j = u_run u \<and> j_attempt j \<noteq> u_attempt u \<and> j_status j = JobSucceeded \<and>
          j_receipt j = u_receipt u \<and>
          (\<exists>l \<in> set (job_artifacts (eng s)). ja_job l = j_id j \<and> ja_role l = ''receipt'' \<and>
             ja_artifact l = j_receipt j \<and>
             (\<exists>f \<in> set (artifacts s). f_id f = j_receipt j \<and> f_run f = j_run j \<and>
                f_attempt f = j_attempt j \<and> f_blob f = ja_blob l))
      | _ \<Rightarrow> False)"

fun authorize_each :: "string \<Rightarrow> string \<Rightarrow> gotime \<Rightarrow> job_row list \<Rightarrow> db \<Rightarrow> unit store" where
  "authorize_each rid aid now [] s = commit s ()"
| "authorize_each rid aid now (j # js) s =
     (if j_id j = [] \<or> j_run j \<noteq> rid \<or> j_attempt j = aid \<or> j_status j \<noteq> JobSucceeded \<or> j_receipt j = []
      then fail s (Errorf ''engineering job is not an immutable prior succeeded receipt'')
      else let u = \<lparr>u_run = rid, u_attempt = aid, u_job = j_id j, u_receipt = j_receipt j,
                    u_created = format_time now\<rparr>;
               rows = reuses (eng s)
        in if \<not> reuse_guard s u then fail s (Constraint ''engineering_receipt_reuses'')
           else if (aid, j_receipt j) \<notin> (\<lambda>v. (u_attempt v, u_receipt v)) ` set rows \<and>
                   (aid, j_id j) \<in> (\<lambda>v. (u_attempt v, u_job v)) ` set rows
           then fail s (Constraint ''engineering_receipt_reuses'')
           else let rows' = (if (aid, j_receipt j) \<in> (\<lambda>v. (u_attempt v, u_receipt v)) ` set rows
                             then rows else rows @ [u]) in
             if affected (\<lambda>v. u_run v = rid \<and> u_attempt v = aid \<and> u_job v = j_id j \<and>
                              u_receipt v = j_receipt j) rows' \<noteq> 1
             then fail s (Errorf ''reuse authorization was not persisted exactly once'')
             else authorize_each rid aid now js (s\<lparr>eng := (eng s)\<lparr>reuses := rows'\<rparr>\<rparr>))"

definition authorize_engineering_receipt_reuses ::
    "string \<Rightarrow> string \<Rightarrow> job_row list \<Rightarrow> gotime \<Rightarrow> db \<Rightarrow> unit store" where
  "authorize_engineering_receipt_reuses rid aid js now s =
     (if rid = [] \<or> aid = [] \<or> js = []
      then fail s (Errorf ''engineering receipt reuse authorization is incomplete'')
      else transaction s (authorize_each rid aid now js s))"

definition engineering_receipt_readback_only :: "db \<Rightarrow> string \<Rightarrow> string \<Rightarrow> bool" where
  "engineering_receipt_readback_only s rid aid \<longleftrightarrow>
     (\<exists>u \<in> set (reuses (eng s)). u_run u = rid \<and> u_attempt u = aid \<and>
        (case find_attempt s aid of
           None \<Rightarrow> False
         | Some a \<Rightarrow> a_run a = rid \<and> a_stage a = StageCollect \<and> a_status a = InProgress))"

text \<open>The newest completed job of the scope, the smallest id among equally new ones.\<close>

definition completed_text :: "job_row \<Rightarrow> string" where
  "completed_text j = (case j_completed j of None \<Rightarrow> [] | Some c \<Rightarrow> c)"

definition newest_job :: "job_row list \<Rightarrow> job_row option" where
  "newest_job js =
     (case rev (sort_key completed_text (rev (sort_key j_id js))) of [] \<Rightarrow> None | j # _ \<Rightarrow> Some j)"

definition succeeded_job_for_scope ::
    "db \<Rightarrow> string \<Rightarrow> string \<Rightarrow> string \<Rightarrow> string \<Rightarrow> store_error + job_row option" where
  "succeeded_job_for_scope s rid aid op scope =
     (if rid = [] \<or> aid = [] \<or> op = [] \<or> scope = []
      then Inl (Errorf ''engineering replay scope is incomplete'')
      else Inr (newest_job (filter (\<lambda>j. j_run j = rid \<and> j_attempt j = aid \<and>
             j_operation j = op \<and> j_scope j = scope \<and> j_status j = JobSucceeded \<and>
             j_receipt j \<noteq> []) (jobs (eng s)))))"

definition list_run_engineering_jobs :: "db \<Rightarrow> string \<Rightarrow> string \<Rightarrow> store_error + job_row list" where
  "list_run_engineering_jobs s rid op =
     (if rid = [] \<or> op = [] then Inl (Errorf ''engineering run and operation are required'')
      else Inr (sort_key (\<lambda>j. (j_created j, j_id j))
        (filter (\<lambda>j. j_run j = rid \<and> j_operation j = op \<and>
           (\<exists>a \<in> set (attempts s). a_id a = j_attempt j \<and> a_run a = j_run j \<and>
              a_status a \<noteq> Superseded)) (jobs (eng s)))))"

definition verify_run_artifact_hashes :: "db \<Rightarrow> string \<Rightarrow> string list \<Rightarrow> bool" where
  "verify_run_artifact_hashes s rid hashes =
     list_all (\<lambda>h. affected (\<lambda>f. f_run f = rid \<and> f_blob f = h) (artifacts s) > 0) hashes"

end
