(* ===== verification/Store_Recovery.thy ===== *)
theory Store_Recovery
  imports Engineering_Jobs
begin

section \<open>Recovery at startup\<close>

text \<open>
  \<open>RecoverInFlight\<close> of \<^verbatim>\<open>internal/store/repository.go\<close>: one transaction that closes whatever a
  crashed process left open. Runs in an active status become interrupted, or uncertain when an
  unfinished attempt carries the external side-effect marker.
\<close>

definition in_flight :: "run_status \<Rightarrow> bool" where
  "in_flight st \<longleftrightarrow> st \<in> set [RunPlanning, RunCollecting, RunSynthesizing, RunReviewing,
     RunRevising, RunWaitingApproval]"

definition unfinished_side_effect :: "db \<Rightarrow> string \<Rightarrow> bool" where
  "unfinished_side_effect s rid \<longleftrightarrow>
     (\<exists>a \<in> set (attempts s). incomplete_attempt rid a \<and> a_external a)"

text \<open>One entry of the recovery list: run id, revision, side effects.\<close>

type_synonym recovery = "string \<times> int \<times> bool"

definition recoveries :: "db \<Rightarrow> recovery list" where
  "recoveries s =
     map (\<lambda>r. (r_id r, r_revision r, unfinished_side_effect s (r_id r)))
       (sort_key r_id (filter (\<lambda>r. in_flight (r_status r)) (runs s)))"

definition recovered_status :: "bool \<Rightarrow> run_status" where
  "recovered_status ext = (if ext then RunUncertain else RunInterrupted)"

text \<open>The attempt status is the text of the run status, so it has the same name.\<close>

definition recovered_attempt_status :: "bool \<Rightarrow> attempt_status" where
  "recovered_attempt_status ext = (if ext then AttemptUncertain else AttemptInterrupted)"

definition recover_run_row :: "bool \<Rightarrow> gotime \<Rightarrow> run_row \<Rightarrow> run_row" where
  "recover_run_row ext now r =
     r\<lparr>r_status := recovered_status ext, r_revision := r_revision r + 1,
        r_updated := format_time now\<rparr>"

definition recover_attempt_row :: "bool \<Rightarrow> gotime \<Rightarrow> attempt_row \<Rightarrow> attempt_row" where
  "recover_attempt_row ext now a =
     a\<lparr>a_status := recovered_attempt_status ext, a_updated := format_time now\<rparr>"

fun recover_each :: "gotime \<Rightarrow> recovery list \<Rightarrow> db \<Rightarrow> unit store" where
  "recover_each now [] s = commit s ()"
| "recover_each now ((rid, rv, ext) # items) s =
     and_then
       (update_one_run (\<lambda>r. r_id r = rid \<and> r_revision r = rv) (recover_run_row ext now)
          (Errorf ''recovery revision conflict'') s)
       (\<lambda>s1 _. recover_each now items
          (append_event
             (s1\<lparr>attempts := update_where (\<lambda>a. a_run a = rid \<and> a_status a = InProgress)
                              (recover_attempt_row ext now) (attempts s1)\<rparr>)
             rid ''run.recovered''
             [(''status'', JStr (status_text (recovered_status ext))),
              (''external_side_effects'', JBool ext)] now))"

definition expire_row :: "gotime \<Rightarrow> approval_row \<Rightarrow> approval_row" where
  "expire_row now p = p\<lparr>p_status := Expired, p_updated := format_time now\<rparr>"

definition answerable :: "approval_row \<Rightarrow> bool" where
  "answerable p \<longleftrightarrow> p_status p = Pending \<or> p_status p = Authorizing"

definition expire_approvals :: "gotime \<Rightarrow> db \<Rightarrow> db" where
  "expire_approvals now s =
     s\<lparr>approvals := update_where answerable (expire_row now) (approvals s)\<rparr>"

definition lose_jobs :: "gotime \<Rightarrow> db \<Rightarrow> db" where
  "lose_jobs now s =
     s\<lparr>eng := (eng s)\<lparr>jobs := update_where (\<lambda>j. j_status j = JobRunning)
        (ended_job JobUncertain
           ''application exited while the external solver outcome was unknown'' now)
        (jobs (eng s))\<rparr>\<rparr>"

definition recover_in_flight :: "gotime \<Rightarrow> db \<Rightarrow> nat store" where
  "recover_in_flight now s =
     transaction s
       (and_then (recover_tool_work now s)
         (\<lambda>s1 _. and_then
           (recover_each now (recoveries s) (lose_jobs now (expire_approvals now s1)))
           (\<lambda>s2 _. commit s2 (length (recoveries s)))))"

text \<open>
  Whether background verification may use the live process. The tables of knowledge
  generations, extraction batches and conversations enter as one flag each.
\<close>

definition application_idle :: "db \<Rightarrow> bool \<Rightarrow> bool \<Rightarrow> bool \<Rightarrow> bool" where
  "application_idle s graph_building extracting provisioning \<longleftrightarrow>
     \<not> ((\<exists>r \<in> set (runs s). r_status r = RunQueued \<or> in_flight (r_status r)) \<or>
        (\<exists>j \<in> set (jobs (eng s)). j_status j = JobRunning) \<or> graph_building \<or> extracting \<or>
        provisioning \<or> (\<exists>p \<in> set (approvals s). p_status p = Pending))"

end
