(* ===== verification/Review_Gate.thy ===== *)
theory Review_Gate
  imports Store_Tables Complex_Main
begin

section \<open>The review gate\<close>

text \<open>
  The review verdict of \<^verbatim>\<open>internal/core/types.go\<close>: the six scores, the integrity percentages,
  the gate \<open>Passes\<close>, the stronger gate for an engineering report, and the remediation action
  that decides whether research restarts. Scores and percentages are Go \<open>int\<close>s far from any
  bound, so they are HOL integers. The average is \<open>float64(total) / 6\<close>: the quotient of two
  small integers rounded to nearest, which is at least 4 exactly when the rational one is.
\<close>

record review_scores =
  task_fulfillment :: int
  claim_support :: int
  source_quality :: int
  completeness :: int
  reasoning_and_uncertainty :: int
  clarity_and_reproducibility :: int

definition score_values :: "review_scores \<Rightarrow> int list" where
  "score_values sc = [task_fulfillment sc, claim_support sc, source_quality sc, completeness sc,
     reasoning_and_uncertainty sc, clarity_and_reproducibility sc]"

record knowledge_integrity =
  evidence_integrity_percent :: int
  unsupported_assertions :: int

record review_verdict =
  citation_integrity_percent :: int
  knowledge_integrity_of :: "knowledge_integrity option"
  critical_errors :: "string list"
  scores :: review_scores
  revision_requests :: "string list"
  remediation_action_of :: remediation_action
  remediation_tasks :: "remediation_task list"
  verdict_summary :: string

definition effective_remediation_action :: "review_verdict \<Rightarrow> remediation_action" where
  "effective_remediation_action v =
     (if remediation_action_of v = RemOther [] then RemReportRevision else remediation_action_of v)"

definition restarts_research :: "remediation_action \<Rightarrow> bool" where
  "restarts_research a \<longleftrightarrow> a = RemAdditionalResearch \<or> a = RemReplan"

text \<open>
  The loop over the scores: an out-of-range score is an error, a score below three fails the
  gate at once, and otherwise the total is accumulated. \<open>Inr None\<close> is the early failure.
\<close>

fun sum_scores :: "int \<Rightarrow> int list \<Rightarrow> string + int option" where
  "sum_scores tot [] = Inr (Some tot)"
| "sum_scores tot (x # xs) =
     (if x < 1 \<or> x > 5 then Inl ''review scores must be between 1 and 5''
      else if x < 3 then Inr None
      else sum_scores (tot + x) xs)"

definition average_at_least_4 :: "int \<Rightarrow> nat \<Rightarrow> bool" where
  "average_at_least_4 tot n \<longleftrightarrow> (of_int tot :: rat) / of_nat n \<ge> 4"

definition passes :: "review_verdict \<Rightarrow> string + bool" where
  "passes v =
     (if citation_integrity_percent v < 0 \<or> citation_integrity_percent v > 100
      then Inl ''citation integrity must be between 0 and 100''
      else case knowledge_integrity_of v of
        None \<Rightarrow> Inl ''knowledge integrity verdict is required''
      | Some k \<Rightarrow>
          if evidence_integrity_percent k < 0 \<or> evidence_integrity_percent k > 100
          then Inl ''knowledge evidence integrity must be between 0 and 100''
          else if unsupported_assertions k < 0
          then Inl ''unsupported knowledge assertions cannot be negative''
          else case sum_scores 0 (score_values (scores v)) of
            Inl e \<Rightarrow> Inl e
          | Inr None \<Rightarrow> Inr False
          | Inr (Some tot) \<Rightarrow>
              Inr (citation_integrity_percent v = 100 \<and> evidence_integrity_percent k = 100 \<and>
                   unsupported_assertions k = 0 \<and> critical_errors v = [] \<and>
                   average_at_least_4 tot (length (score_values (scores v)))))"

text \<open>The second argument is whether the report carries an engineering assessment.\<close>

definition passes_for_report :: "review_verdict \<Rightarrow> bool \<Rightarrow> string + bool" where
  "passes_for_report v engineering =
     (case passes v of
        Inl e \<Rightarrow> Inl e
      | Inr b \<Rightarrow>
          if \<not> b \<or> \<not> engineering then Inr b
          else Inr (task_fulfillment (scores v) \<ge> 4 \<and> completeness (scores v) \<ge> 4 \<and>
                    clarity_and_reproducibility (scores v) \<ge> 4))"

lemma sum_scores_Some:
  "sum_scores t xs = Inr (Some u) \<longleftrightarrow> (\<forall>x \<in> set xs. 3 \<le> x \<and> x \<le> 5) \<and> u = t + sum_list xs"
  by (induction t xs rule: sum_scores.induct) auto

lemma sum_scores_Inl:
  "(\<exists>e. sum_scores t xs = Inl e) \<longleftrightarrow>
     (\<exists>ys x zs. xs = ys @ x # zs \<and> (\<forall>y \<in> set ys. 3 \<le> y \<and> y \<le> 5) \<and> (x < 1 \<or> 5 < x))"
proof (induction t xs rule: sum_scores.induct)
  case (1 t)
  then show ?case by simp
next
  case (2 t x xs)
  have split: "(\<exists>ys y zs. x # xs = ys @ y # zs \<and> (\<forall>y \<in> set ys. 3 \<le> y \<and> y \<le> 5) \<and> (y < 1 \<or> 5 < y)) \<longleftrightarrow>
      (x < 1 \<or> 5 < x) \<or> 3 \<le> x \<and> x \<le> 5 \<and>
      (\<exists>ys y zs. xs = ys @ y # zs \<and> (\<forall>y \<in> set ys. 3 \<le> y \<and> y \<le> 5) \<and> (y < 1 \<or> 5 < y))"
    (is "?l \<longleftrightarrow> ?r")
  proof
    assume ?l
    then obtain ys y zs where "x # xs = ys @ y # zs" "\<forall>y \<in> set ys. 3 \<le> y \<and> y \<le> 5" "y < 1 \<or> 5 < y"
      by blast
    then show ?r by (cases ys) auto
  next
    assume ?r
    then show ?l
    proof
      assume "x < 1 \<or> 5 < x"
      then show ?l by (intro exI [of _ "[]"]) auto
    next
      assume "3 \<le> x \<and> x \<le> 5 \<and>
        (\<exists>ys y zs. xs = ys @ y # zs \<and> (\<forall>y \<in> set ys. 3 \<le> y \<and> y \<le> 5) \<and> (y < 1 \<or> 5 < y))"
      then obtain ys y zs where "3 \<le> x" "x \<le> 5" "xs = ys @ y # zs"
        "\<forall>y \<in> set ys. 3 \<le> y \<and> y \<le> 5" "y < 1 \<or> 5 < y" by blast
      then show ?l by (intro exI [of _ "x # ys"] exI [of _ y] exI [of _ zs]) auto
    qed
  qed
  show ?case using 2 by (subst split) auto
qed

lemma average_24: "average_at_least_4 tot 6 \<longleftrightarrow> 24 \<le> tot"
  by (simp add: average_at_least_4_def le_divide_eq)

lemma passes_True_iff:
  "passes v = Inr True \<longleftrightarrow>
     citation_integrity_percent v = 100 \<and>
     (\<exists>k. knowledge_integrity_of v = Some k \<and> evidence_integrity_percent k = 100 \<and>
        unsupported_assertions k = 0) \<and>
     critical_errors v = [] \<and>
     (\<forall>x \<in> set (score_values (scores v)). 3 \<le> x \<and> x \<le> 5) \<and>
     24 \<le> sum_list (score_values (scores v))" (is "?l \<longleftrightarrow> ?r")
proof
  assume l: ?l
  then obtain k where k: "knowledge_integrity_of v = Some k"
    by (auto simp: passes_def split: if_splits option.splits)
  with l obtain tot where t: "sum_scores 0 (score_values (scores v)) = Inr (Some tot)"
    by (auto simp: passes_def split: if_splits sum.splits option.splits)
  have n: "length (score_values (scores v)) = 6" by (simp add: score_values_def)
  have "\<forall>x \<in> set (score_values (scores v)). 3 \<le> x \<and> x \<le> 5"
    and "tot = sum_list (score_values (scores v))"
    using t by (simp_all add: sum_scores_Some)
  with l k t show ?r
    by (simp add: passes_def n average_24 split: if_splits)
next
  assume r: ?r
  then have t: "sum_scores 0 (score_values (scores v)) = Inr (Some (sum_list (score_values (scores v))))"
    by (simp add: sum_scores_Some)
  have n: "length (score_values (scores v)) = 6" by (simp add: score_values_def)
  show ?l using r by (auto simp: passes_def t n average_24)
qed

end
