(* ===== verification/Store_Remediation.thy ===== *)
theory Store_Remediation
  imports Store_Recovery Review_Gate
begin

section \<open>Research remediation\<close>

text \<open>
  \<^verbatim>\<open>internal/store/research_remediation.go\<close>: a failed review seals every attempt of the current
  research cycle as superseded and returns the run to planning, at most three times.
\<close>

definition MaxResearchRemediations :: nat where
  "MaxResearchRemediations = 3"

definition cycle_count :: "db \<Rightarrow> string \<Rightarrow> nat" where
  "cycle_count s rid = affected (\<lambda>m. m_run m = rid) (remediations s)"

text \<open>The newest completed review attempt with the logical ordinal.\<close>

definition review_checkpoint :: "db \<Rightarrow> string \<Rightarrow> int \<Rightarrow> attempt_row option" where
  "review_checkpoint s rid ordinal =
     (case rev (sort_key (\<lambda>a. (a_created a, a_id a))
             (filter (\<lambda>a. a_run a = rid \<and> a_stage a = StageReview \<and> a_logical a = ordinal \<and>
                a_status a = Completed) (attempts s))) of
        [] \<Rightarrow> None | a # _ \<Rightarrow> Some a)"

text \<open>
  The guards of the INSERT: cycle between 1 and 3, the primary key, one remediation per
  review attempt and the known output blob.
\<close>

definition remediation_guard :: "db \<Rightarrow> remediation_row \<Rightarrow> bool" where
  "remediation_guard s m \<longleftrightarrow>
     1 \<le> m_cycle m \<and> m_cycle m \<le> 3 \<and> restarts_research (m_action m) \<and>
     (m_run m, m_cycle m) \<notin> (\<lambda>q. (m_run q, m_cycle q)) ` set (remediations s) \<and>
     m_review m \<notin> m_review ` set (remediations s) \<and>
     m_hash m \<in> b_hash ` set (blobs s)"

definition remediation_of ::
    "string \<Rightarrow> int \<Rightarrow> attempt_row \<Rightarrow> review_verdict \<Rightarrow> gotime \<Rightarrow> remediation_row" where
  "remediation_of rid cycle a v now =
     \<lparr>m_run = rid, m_cycle = cycle, m_action = effective_remediation_action v, m_review = a_id a,
      m_hash = a_output a, m_summary = verdict_summary v, m_requests = revision_requests v,
      m_tasks = remediation_tasks v, m_created = format_time now\<rparr>"

definition live_attempt :: "string \<Rightarrow> attempt_row \<Rightarrow> bool" where
  "live_attempt rid a \<longleftrightarrow> a_run a = rid \<and> a_status a \<noteq> Superseded"

definition stage_order :: "attempt_row \<Rightarrow> string \<times> int \<times> string \<times> string" where
  "stage_order a = (stage_text (a_stage a), a_ordinal a, a_created a, a_id a)"

definition seal_row :: "int \<Rightarrow> gotime \<Rightarrow> attempt_row \<Rightarrow> attempt_row" where
  "seal_row ordinal now a =
     a\<lparr>a_ordinal := ordinal, a_status := Superseded, a_updated := format_time now\<rparr>"

text \<open>
  The sealing loop: \<open>minimum\<close> holds the least ordinal of each stage over every attempt of the
  run, superseded ones included, and is decremented before each use.
\<close>

fun seal_each :: "string \<Rightarrow> gotime \<Rightarrow> (stage \<Rightarrow> int) \<Rightarrow> attempt_row list \<Rightarrow> db \<Rightarrow> unit store" where
  "seal_each rid now minimum [] s = commit s ()"
| "seal_each rid now minimum (a # as) s =
     (let next = minimum(a_stage a := minimum (a_stage a) - 1) in
      and_then
        (update_one_attempt (\<lambda>q. a_id q = a_id a \<and> live_attempt rid q)
           (seal_row (next (a_stage a)) now)
           (Errorf ''stage changed while sealing research cycle'') s)
        (\<lambda>s1 _. seal_each rid now next as s1))"

definition restart_row :: "gotime \<Rightarrow> run_row \<Rightarrow> run_row" where
  "restart_row now r =
     r\<lparr>r_status := RunPlanning, r_revision := r_revision r + 1, r_cycle := 0, r_report := [],
        r_error := [], r_updated := format_time now\<rparr>"

definition remediation_action_text :: "remediation_action \<Rightarrow> string" where
  "remediation_action_text a =
     (case a of RemNone \<Rightarrow> ''none'' | RemReportRevision \<Rightarrow> ''report_revision''
      | RemAdditionalResearch \<Rightarrow> ''additional_research'' | RemReplan \<Rightarrow> ''replan''
      | RemOther t \<Rightarrow> t)"

text \<open>The part of the transaction that follows the guards.\<close>

definition seal_and_restart ::
    "run_row \<Rightarrow> remediation_row \<Rightarrow> gotime \<Rightarrow> db \<Rightarrow> (run_row \<times> remediation_row) store" where
  "seal_and_restart current m now s =
     (let rid = r_id current;
          rows = sort_key stage_order (filter (live_attempt rid) (attempts s))
      in if rows = []
         then fail s (Errorf ''research remediation has no completed stage history'')
         else and_then (seal_each rid now (min_ordinal s rid) rows s)
         (\<lambda>s1 _. and_then
           (update_one_run (\<lambda>r. r_id r = rid \<and> r_revision r = r_revision current \<and>
                                r_status r = RunReviewing)
              (restart_row now)
              (Errorf ''research remediation lost optimistic concurrency race'') s1)
         (\<lambda>s2 _. and_then (retire_pending_approvals rid ''research_remediation'' now s2)
         (\<lambda>s3 _. commit
           (append_event s3 rid ''research.remediation_started''
              [(''cycle'', JInt (m_cycle m)),
               (''action'', JStr (remediation_action_text (m_action m))),
               (''review_stage_attempt_id'', JStr (m_review m)),
               (''review_output_hash'', JStr (m_hash m)),
               (''revision'', JInt (r_revision current + 1))] now)
           (restart_row now current, m)))))"

definition prepare_research_remediation ::
    "string \<Rightarrow> int \<Rightarrow> int \<Rightarrow> review_verdict \<Rightarrow> gotime \<Rightarrow> db \<Rightarrow> (run_row \<times> remediation_row) store" where
  "prepare_research_remediation rid expected ordinal v now s =
     (if \<not> restarts_research (effective_remediation_action v)
      then fail s (Errorf ''review does not require a new research cycle'')
      else case find_run s rid of
        None \<Rightarrow> fail s NoRows
      | Some current \<Rightarrow>
          if r_revision current \<noteq> expected
          then fail s (RevisionConflict expected (r_revision current))
          else if r_status current \<noteq> RunReviewing
          then fail s (Errorf ''research remediation requires reviewing run'')
          else case require_transition (r_status current) RunPlanning of
            Some e \<Rightarrow> fail s (Errorf e)
          | None \<Rightarrow>
              if affected (\<lambda>a. a_run a = rid \<and> a_status a = InProgress) (attempts s) \<noteq> 0
              then fail s (Errorf ''cannot replace a research cycle with an active stage'')
              else if cycle_count s rid \<ge> MaxResearchRemediations
              then fail s ErrResearchRemediationLimit
              else case review_checkpoint s rid ordinal of
                None \<Rightarrow> fail s NoRows
              | Some a \<Rightarrow>
                  if a_output a = []
                  then fail s (Errorf ''remediation review checkpoint has no output hash'')
                  else let m = remediation_of rid (int (cycle_count s rid) + 1) a v now in
                    if \<not> remediation_guard s m then fail s (Constraint ''research_remediation_cycles'')
                    else transaction s
                      (seal_and_restart current m now (s\<lparr>remediations := remediations s @ [m]\<rparr>)))"

definition latest_research_remediation :: "db \<Rightarrow> string \<Rightarrow> remediation_row option" where
  "latest_research_remediation s rid =
     (case rev (sort_key m_cycle (filter (\<lambda>m. m_run m = rid) (remediations s))) of
        [] \<Rightarrow> None | m # _ \<Rightarrow> Some m)"

end
