(* ===== verification/Store_Plan_Cycles.thy ===== *)
theory Store_Plan_Cycles
  imports Store_Remediation
begin

section \<open>Conversation plan cycles and the creation of runs\<close>

text \<open>
  \<^verbatim>\<open>internal/store/plan_cycles.go\<close> and \<open>createConversationRunConfigured\<close> of
  \<^verbatim>\<open>internal/store/repository.go\<close>. Starting a plan supersedes the open plans of the
  conversation; a final plan is attached to the latest one; a run created from a plan consumes
  it in the same transaction. A run can only be queued while no memory index of its project is
  being rebuilt.
\<close>

subsection \<open>The guards of the table\<close>

definition cycle_current :: "cycle_status \<Rightarrow> bool" where
  "cycle_current st \<longleftrightarrow> st = CycleActive \<or> st = CycleReady"

definition cycle_checks :: "cycle_row \<Rightarrow> bool" where
  "cycle_checks c =
     (case c_status c of
        CycleActive \<Rightarrow> c_plan c = [] \<and> c_run c = None \<and> c_ready c = None \<and> c_consumed c = None \<and>
          c_superseded c = None
      | CycleReady \<Rightarrow> c_plan c \<noteq> [] \<and> c_run c = None \<and> c_ready c \<noteq> None \<and> c_consumed c = None \<and>
          c_superseded c = None
      | CycleConsumed \<Rightarrow> c_plan c \<noteq> [] \<and> c_run c \<noteq> None \<and> c_ready c \<noteq> None \<and> c_consumed c \<noteq> None \<and>
          c_superseded c = None
      | CycleSuperseded \<Rightarrow> c_run c = None \<and> c_consumed c = None \<and> c_superseded c \<noteq> None)"

definition one_current :: "cycle_row list \<Rightarrow> bool" where
  "one_current cs = distinct (map c_session (filter (\<lambda>c. cycle_current (c_status c)) cs))"

definition distinct_runs :: "cycle_row list \<Rightarrow> bool" where
  "distinct_runs cs = distinct (map c_run (filter (\<lambda>c. c_run c \<noteq> None) cs))"

text \<open>A consumed or superseded cycle may not be updated, and the CHECKs hold of every new row.\<close>

definition update_cycles ::
    "(cycle_row \<Rightarrow> bool) \<Rightarrow> (cycle_row \<Rightarrow> cycle_row) \<Rightarrow> db \<Rightarrow> nat store" where
  "update_cycles p f s =
     (let rows' = update_where p f (cycles s) in
      if list_ex (\<lambda>c. p c \<and> \<not> (cycle_current (c_status c) \<and> cycle_checks (f c))) (cycles s) \<or>
         \<not> one_current rows' \<or> \<not> distinct_runs rows'
      then fail s (Constraint ''conversation_plan_cycles'')
      else commit (s\<lparr>cycles := rows'\<rparr>) (affected p (cycles s)))"

subsection \<open>Queries\<close>

definition live_session :: "db \<Rightarrow> string \<Rightarrow> session_row option" where
  "live_session s sid =
     (case select_key s_id (sessions s) sid of
        None \<Rightarrow> None
      | Some x \<Rightarrow> if s_deleted x then None else Some x)"

definition plan_cycle :: "db \<Rightarrow> string \<Rightarrow> string \<Rightarrow> cycle_row option" where
  "plan_cycle s sid cid =
     List.find (\<lambda>c. c_session c = sid \<and> c_id c = cid) (cycles s)"

definition latest_plan_cycle :: "db \<Rightarrow> string \<Rightarrow> cycle_row option" where
  "latest_plan_cycle s sid =
     (case rev (sort_key (\<lambda>c. (c_created c, c_id c)) (filter (\<lambda>c. c_session c = sid) (cycles s))) of
        [] \<Rightarrow> None | c # _ \<Rightarrow> Some c)"

definition require_active_plan_cycle :: "db \<Rightarrow> string \<Rightarrow> string \<Rightarrow> store_error + cycle_row" where
  "require_active_plan_cycle s sid cid =
     (case plan_cycle s sid cid of
        None \<Rightarrow> Inl NoRows
      | Some c \<Rightarrow>
          if c_status c \<noteq> CycleActive then Inl ErrPlanCycleNotActive
          else case latest_plan_cycle s sid of
            None \<Rightarrow> Inl NoRows
          | Some l \<Rightarrow> if c_id l \<noteq> c_id c then Inl ErrPlanCycleSuperseded else Inr c)"

subsection \<open>Beginning and completing a plan\<close>

definition supersede_cycle :: "gotime \<Rightarrow> cycle_row \<Rightarrow> cycle_row" where
  "supersede_cycle now c =
     c\<lparr>c_status := CycleSuperseded, c_updated := format_time now,
        c_superseded := Some (format_time now)\<rparr>"

definition new_cycle :: "string \<Rightarrow> string \<Rightarrow> string \<Rightarrow> gotime \<Rightarrow> cycle_row" where
  "new_cycle fresh sid objective now =
     \<lparr>c_id = fresh, c_session = sid, c_objective = objective, c_status = CycleActive, c_plan = [],
      c_run = None, c_created = format_time now, c_updated = format_time now, c_ready = None,
      c_consumed = None, c_superseded = None\<rparr>"

definition begin_plan_cycle :: "string \<Rightarrow> string \<Rightarrow> string \<Rightarrow> gotime \<Rightarrow> db \<Rightarrow> cycle_row store" where
  "begin_plan_cycle fresh sid text now s =
     (let objective = trim_space text in
      if objective = [] \<or> \<not> clean_utf8 objective \<or> length objective > 64 * 1024
      then fail s (Errorf ''plan objective must be non-empty valid UTF-8 no larger than 64KB'')
      else if live_session s sid = None then fail s NoRows
      else transaction s
        (and_then
          (update_cycles (\<lambda>c. c_session c = sid \<and> cycle_current (c_status c)) (supersede_cycle now) s)
          (\<lambda>s1 _.
             let c = new_cycle fresh sid objective now; rows = cycles s1 @ [c] in
             if fresh \<in> c_id ` set (cycles s1) \<or> \<not> one_current rows
             then fail s1 (Constraint ''conversation_plan_cycles'')
             else commit (s1\<lparr>cycles := rows\<rparr>) c)))"

definition ready_cycle :: "string \<Rightarrow> gotime \<Rightarrow> cycle_row \<Rightarrow> cycle_row" where
  "ready_cycle plan now c =
     c\<lparr>c_status := CycleReady, c_plan := plan, c_updated := format_time now,
        c_ready := Some (format_time now)\<rparr>"

definition complete_plan_cycle ::
    "string \<Rightarrow> string \<Rightarrow> string \<Rightarrow> gotime \<Rightarrow> db \<Rightarrow> cycle_row store" where
  "complete_plan_cycle sid cid text now s =
     (let plan = trim_space text in
      if plan = [] \<or> \<not> clean_utf8 plan \<or> length plan > 512 * 1024
      then fail s (Errorf ''final plan must be valid non-empty UTF-8 no larger than 512KB'')
      else case plan_cycle s sid cid of
        None \<Rightarrow> fail s NoRows
      | Some c \<Rightarrow>
          if c_status c \<noteq> CycleActive then fail s ErrPlanCycleNotActive
          else case latest_plan_cycle s sid of
            None \<Rightarrow> fail s NoRows
          | Some l \<Rightarrow>
              if c_id l \<noteq> cid then fail s ErrPlanCycleSuperseded
              else transaction s
                (and_then
                  (update_cycles (\<lambda>q. c_session q = sid \<and> c_id q = cid \<and> c_status q = CycleActive)
                     (ready_cycle plan now) s)
                  (\<lambda>s1 n. if n \<noteq> 1 then fail s1 (Errorf ''complete plan cycle'')
                          else commit s1 (ready_cycle plan now c))))"

subsection \<open>Creating a run\<close>

definition reindexing :: "db \<Rightarrow> string \<Rightarrow> bool" where
  "reindexing s prj \<longleftrightarrow> affected (\<lambda>i. i_project i = prj \<and> i_state i = IxBuilding) (indexes s) > 0"

definition CurrentResearchProfileVersion :: string where
  "CurrentResearchProfileVersion = ''research_v2''"

definition DefaultRetrievalProfile :: string where
  "DefaultRetrievalProfile = ''hybrid_graph_v1''"

text \<open>The heading put before a plan: the UTF-8 bytes of the source's Korean literal.\<close>

definition plan_heading :: string where
  "plan_heading = map (\<lambda>n. char_of (n :: nat))
     [0xEA, 0xB3, 0x84, 0xED, 0x9A, 0x8D, 0x20, 0xEB, 0xAA, 0xA8, 0xEB, 0x93, 0x9C, 0xEC, 0x97, 0x90,
      0xEC, 0x84, 0x9C, 0x20, 0xED, 0x95, 0xA9, 0xEC, 0x9D, 0x98, 0xEB, 0x90, 0x9C, 0x20, 0xEC, 0x8B,
      0xA4, 0xED, 0x96, 0x89, 0x20, 0xEA, 0xB3, 0x84, 0xED, 0x9A, 0x8D, 0x3A, 0x0A]"

record run_configuration =
  rc_model :: string
  rc_effort :: string
  rc_tier :: string
  rc_context :: string

record run_request =
  rq_session :: string
  rq_schedule :: string
  rq_question :: string
  rq_thread :: string
  rq_cycle :: string
  rq_config :: run_configuration

definition queued_run ::
    "string \<Rightarrow> run_request \<Rightarrow> session_row \<Rightarrow> khead_row \<Rightarrow> build_binding \<Rightarrow> string \<Rightarrow> gotime \<Rightarrow> run_row" where
  "queued_run fresh rq x h build question now =
     \<lparr>r_id = fresh, r_project = s_project x, r_session = s_id x, r_schedule = rq_schedule rq,
      r_question = question, r_status = RunQueued, r_revision = 0, r_cycle = 0,
      r_thread = rq_thread rq, r_profile = CurrentResearchProfileVersion,
      r_retrieval = DefaultRetrievalProfile, r_generation = h_generation h,
      r_model = rc_model (rq_config rq), r_effort = rc_effort (rq_config rq),
      r_tier = rc_tier (rq_config rq), r_build = build, r_report = [], r_error = [],
      r_created = format_time now, r_updated = format_time now\<rparr>"

text \<open>The cycle a request names, ready and the latest of its conversation; the question it gives.\<close>

definition planned_question :: "db \<Rightarrow> run_request \<Rightarrow> session_row \<Rightarrow> store_error + string" where
  "planned_question s rq x =
     (if rq_cycle rq = [] then Inr (rq_question rq)
      else case plan_cycle s (s_id x) (rq_cycle rq) of
        None \<Rightarrow> Inl NoRows
      | Some c \<Rightarrow>
          if c_status c \<noteq> CycleReady then Inl ErrPlanCycleNotReady
          else case latest_plan_cycle s (s_id x) of
            None \<Rightarrow> Inl NoRows
          | Some l \<Rightarrow> if c_id l \<noteq> c_id c then Inl ErrPlanCycleSuperseded
                       else Inr (plan_heading @ c_plan c))"

definition consume_cycle :: "string \<Rightarrow> gotime \<Rightarrow> cycle_row \<Rightarrow> cycle_row" where
  "consume_cycle rid now c =
     c\<lparr>c_status := CycleConsumed, c_run := Some rid, c_updated := format_time now,
        c_consumed := Some (format_time now)\<rparr>"

definition build_guard :: "build_binding \<Rightarrow> bool" where
  "build_guard b \<longleftrightarrow> b = zero_build \<or>
     bb_version b \<noteq> [] \<and> length (bb_executable b) = 64 \<and> length (bb_manifest b) = 64 \<and>
     length (bb_sidecar b) = 64"

definition run_created_payload :: "run_row \<Rightarrow> string \<Rightarrow> (string \<times> jval) list" where
  "run_created_payload r cid =
     [(''status'', JStr (status_text (r_status r))), (''model'', JStr (r_model r)),
      (''reasoning_effort'', JStr (r_effort r)), (''service_tier'', JStr (r_tier r)),
      (''conversation_session_id'', JStr (r_session r)),
      (''research_profile_version'', JStr (r_profile r)),
      (''retrieval_profile'', JStr (r_retrieval r)),
      (''knowledge_generation_id'', JStr (r_generation r)), (''product_build'', JBuild (r_build r)), (''plan_cycle_id'', JStr cid)]"

definition create_conversation_run ::
    "string \<Rightarrow> build_binding \<Rightarrow> run_request \<Rightarrow> gotime \<Rightarrow> db \<Rightarrow> run_row store" where
  "create_conversation_run fresh build rq now s =
     (case live_session s (rq_session rq) of
        None \<Rightarrow> fail s NoRows
      | Some x \<Rightarrow>
          if s_thread x \<noteq> rq_thread rq
          then fail s (Errorf ''conversation session thread does not match run thread'')
          else if blank (s_project x) then fail s (Errorf ''knowledge project is required'')
          else case select_key h_project (kheads s) (s_project x) of
            None \<Rightarrow> fail s (Errorf ''resolve run knowledge generation'')
          | Some h \<Rightarrow>
              if h_status h \<noteq> ''ready'' \<or> h_generation_state h \<noteq> ''ready''
              then fail s (Errorf ''hybrid_graph_v1 research is blocked'')
              else case planned_question s rq x of
                Inl e \<Rightarrow> fail s e
              | Inr question \<Rightarrow>
                  if reindexing s (s_project x) then fail s ErrMemoryReindexInProgress
                  else let r = queued_run fresh rq x h build question now in
                    if fresh \<in> r_id ` set (runs s) \<or> s_project x \<notin> set (projects s) \<or>
                       \<not> build_guard build
                    then fail s (Constraint ''runs'')
                    else let s1 = append_event (s\<lparr>runs := runs s @ [r]\<rparr>) fresh ''run.created''
                                    (run_created_payload r (rq_cycle rq)) now in
                      if rq_cycle rq = [] then commit s1 r
                      else transaction s
                        (and_then
                          (update_cycles
                             (\<lambda>c. c_session c = s_id x \<and> c_id c = rq_cycle rq \<and> c_status c = CycleReady)
                             (consume_cycle fresh now) s1)
                          (\<lambda>s2 n. if n \<noteq> 1 then fail s2 (Errorf ''consume plan cycle'')
                                  else commit s2 r)))"

definition create_planned_conversation_run ::
    "string \<Rightarrow> build_binding \<Rightarrow> run_request \<Rightarrow> gotime \<Rightarrow> db \<Rightarrow> run_row store" where
  "create_planned_conversation_run fresh build rq now s =
     (if blank (rq_cycle rq) then fail s (Errorf ''plan cycle id is required'')
      else create_conversation_run fresh build (rq\<lparr>rq_schedule := [], rq_question := []\<rparr>) now s)"

end
