(* ===== verification/Store_Invariant.thy ===== *)
theory Store_Invariant
  imports Store_Plan_Cycles
begin

section \<open>How the store evolves\<close>

text \<open>
  What every operation of the store keeps: the relation between the old and the new version
  of a run, an attempt and an approval, the invariant of the whole state, and the building
  blocks that prove both of an operation from its statements.
\<close>

subsection \<open>Attempts and approvals as status machines\<close>

fun attempt_next :: "attempt_status \<Rightarrow> attempt_status list" where
  "attempt_next InProgress =
     [Completed, AttemptFailed, AttemptInterrupted, AttemptUncertain, Superseded]"
| "attempt_next Superseded = []"
| "attempt_next _ = [Superseded]"

definition attempt_change :: "attempt_status \<Rightarrow> attempt_status \<Rightarrow> bool" where
  "attempt_change s t \<longleftrightarrow> t \<in> set (attempt_next s)"

interpretation attempt_machine: status_machine attempt_change "\<lambda>s. s = Superseded"
  by unfold_locales (simp add: attempt_change_def)

fun approval_next :: "approval_status \<Rightarrow> approval_status list" where
  "approval_next Pending = [Approved, Denied, Expired]"
| "approval_next Authorizing = [Expired]"
| "approval_next _ = []"

definition approval_change :: "approval_status \<Rightarrow> approval_status \<Rightarrow> bool" where
  "approval_change s t \<longleftrightarrow> t \<in> set (approval_next s)"

definition approval_final :: "approval_status \<Rightarrow> bool" where
  "approval_final s \<longleftrightarrow> s \<noteq> Pending \<and> s \<noteq> Authorizing"

interpretation approval_machine: status_machine approval_change approval_final
proof unfold_locales
  fix s t show "approval_final s \<Longrightarrow> \<not> approval_change s t"
    by (cases s) (simp_all add: approval_change_def approval_final_def)
qed

lemma approval_reaches_pending: "approval_change\<^sup>*\<^sup>* s Pending \<Longrightarrow> s = Pending"
proof (erule rtranclp.cases)
  fix b c assume "Pending = c" "approval_change b c"
  then show "s = Pending" by (cases b) (simp_all add: approval_change_def)
qed simp

subsection \<open>One row over time\<close>

definition run_identity :: "run_row \<Rightarrow> (string list \<times> build_binding)" where
  "run_identity r =
     ([r_id r, r_project r, r_session r, r_schedule r, r_question r, r_thread r, r_profile r,
       r_retrieval r, r_generation r, r_model r, r_effort r, r_tier r, r_created r], r_build r)"

text \<open>The contract of a run is fixed; a status changes only along the table, at a new revision.\<close>

definition run_step :: "run_row \<Rightarrow> run_row \<Rightarrow> bool" where
  "run_step r q \<longleftrightarrow> run_identity q = run_identity r \<and> r_revision r \<le> r_revision q \<and>
     can_transition\<^sup>*\<^sup>* (r_status r) (r_status q) \<and>
     (r_status q \<noteq> r_status r \<longrightarrow> r_revision r < r_revision q)"

definition attempt_step :: "attempt_row \<Rightarrow> attempt_row \<Rightarrow> bool" where
  "attempt_step a b \<longleftrightarrow> a_id b = a_id a \<and> a_run b = a_run a \<and> a_stage b = a_stage a \<and>
     a_logical b = a_logical a \<and> a_input b = a_input a \<and> a_created b = a_created a \<and>
     (a_external a \<longrightarrow> a_external b) \<and> attempt_change\<^sup>*\<^sup>* (a_status a) (a_status b) \<and>
     (a_ordinal b \<noteq> a_ordinal a \<longrightarrow> a_status b = Superseded)"

definition approval_identity :: "approval_row \<Rightarrow> string list \<times> bool" where
  "approval_identity p =
     ([p_id p, p_run p, p_attempt p, p_thread p, p_turn p, p_item p, p_kind p, p_summary p,
       p_server p, p_tool p, p_command p, p_args p, p_args_sha p, p_risk p, p_created p],
      p_external p)"

definition approval_step :: "approval_row \<Rightarrow> approval_row \<Rightarrow> bool" where
  "approval_step p q \<longleftrightarrow> approval_identity q = approval_identity p \<and>
     approval_change\<^sup>*\<^sup>* (p_status p) (p_status q)"

lemma run_step_id: "run_step r q \<Longrightarrow> r_id q = r_id r \<and> r_project q = r_project r"
  by (simp add: run_step_def run_identity_def)

lemma approval_step_id:
  "approval_step p q \<Longrightarrow> p_id q = p_id p \<and> p_run q = p_run p \<and> p_attempt q = p_attempt p"
  by (simp add: approval_step_def approval_identity_def)

lemma attempt_step_trans: "attempt_step a b \<Longrightarrow> attempt_step b c \<Longrightarrow> attempt_step a c"
  using attempt_machine.final_absorbing [of "a_status b" "a_status c"]
    rtranclp_trans [of attempt_change "a_status a" "a_status b" "a_status c"]
  by (auto simp: attempt_step_def)

interpretation run_log: row_history r_id run_step
proof unfold_locales
  fix a b c
  show "run_step a a" by (simp add: run_step_def)
  show "run_step a b \<Longrightarrow> run_step b c \<Longrightarrow> run_step a c"
    by (auto simp: run_step_def intro: rtranclp_trans)
  show "run_step a b \<Longrightarrow> r_id b = r_id a" by (simp add: run_step_id)
qed

interpretation attempt_log: row_history a_id attempt_step
proof unfold_locales
  fix a b c
  show "attempt_step a a" by (simp add: attempt_step_def)
  show "attempt_step a b \<Longrightarrow> attempt_step b c \<Longrightarrow> attempt_step a c" by (rule attempt_step_trans)
  show "attempt_step a b \<Longrightarrow> a_id b = a_id a" by (simp add: attempt_step_def)
qed

interpretation approval_log: row_history p_id approval_step
proof unfold_locales
  fix a b c
  show "approval_step a a" by (simp add: approval_step_def)
  show "approval_step a b \<Longrightarrow> approval_step b c \<Longrightarrow> approval_step a c"
    by (auto simp: approval_step_def intro: rtranclp_trans)
  show "approval_step a b \<Longrightarrow> p_id b = p_id a" by (simp add: approval_step_id)
qed

subsection \<open>The state over time\<close>

definition evolves :: "db \<Rightarrow> db \<Rightarrow> bool" where
  "evolves s t \<longleftrightarrow> rows_evolve run_step (runs s) (runs t) \<and>
     rows_evolve attempt_step (attempts s) (attempts t) \<and>
     rows_evolve approval_step (approvals s) (approvals t)"

definition owned :: "db \<Rightarrow> bool" where
  "owned s \<longleftrightarrow> (\<forall>a \<in> set (attempts s). a_run a \<in> r_id ` set (runs s)) \<and>
     (\<forall>p \<in> set (approvals s). \<exists>a \<in> set (attempts s). a_id a = p_attempt p \<and> a_run a = p_run p)"

definition distinct_keys :: "db \<Rightarrow> bool" where
  "distinct_keys s \<longleftrightarrow> distinct (map r_id (runs s)) \<and> distinct (map a_id (attempts s)) \<and>
     distinct (map a_slot (attempts s)) \<and> distinct (map p_id (approvals s))"

text \<open>A pending approval belongs to a run that is still working or waiting.\<close>

definition pending_live :: "db \<Rightarrow> bool" where
  "pending_live s \<longleftrightarrow> (\<forall>p \<in> set (approvals s). p_status p = Pending \<longrightarrow>
     (\<forall>r \<in> set (runs s). r_id r = p_run p \<longrightarrow> \<not> retires_pending_approvals (r_status r)))"

definition store_ok :: "db \<Rightarrow> bool" where
  "store_ok s \<longleftrightarrow> distinct_keys s \<and> owned s \<and> pending_live s"

definition sound :: "db \<Rightarrow> db \<Rightarrow> bool" where
  "sound s t \<longleftrightarrow> (store_ok s \<longrightarrow> store_ok t \<and> evolves s t)"

lemma evolves_refl [simp]: "evolves s s"
  by (simp add: evolves_def run_log.evolve_refl attempt_log.evolve_refl approval_log.evolve_refl)

lemma evolves_trans: "evolves s t \<Longrightarrow> evolves t u \<Longrightarrow> evolves s u"
  unfolding evolves_def
  by (blast intro: run_log.evolve_trans attempt_log.evolve_trans approval_log.evolve_trans)

lemma sound_refl [simp, intro]: "sound s s"
  by (simp add: sound_def)

lemma sound_trans: "sound s t \<Longrightarrow> sound t u \<Longrightarrow> sound s u"
  by (auto simp: sound_def intro: evolves_trans)

text \<open>A change of the other tables.\<close>

lemma sound_frame:
  assumes "runs t = runs s" and "attempts t = attempts s" and "approvals t = approvals s"
  shows "sound s t"
  using assms
  by (simp add: sound_def store_ok_def distinct_keys_def owned_def pending_live_def evolves_def
      run_log.evolve_refl attempt_log.evolve_refl approval_log.evolve_refl)

lemma sound_event [intro]: "sound s t \<Longrightarrow> sound s (append_event t rid k p now)"
  by (erule sound_trans) (simp add: sound_frame)

subsection \<open>Composition\<close>

interpretation sound_steps: state_preorder sound
  by unfold_locales (auto intro: sound_trans)

lemmas sound_and_then = sound_steps.bind
lemmas sound_transaction = sound_steps.rollback

subsection \<open>Statements on attempts\<close>

lemma attempt_update_sound:
  assumes "\<And>a. a \<in> set (attempts s) \<Longrightarrow> p a \<Longrightarrow> attempt_step a (f a)"
    and "distinct (map a_slot (update_where p f (attempts s)))"
  shows "sound s (s\<lparr>attempts := update_where p f (attempts s)\<rparr>)"
proof -
  let ?t = "s\<lparr>attempts := update_where p f (attempts s)\<rparr>"
  have all: "list_all2 attempt_step (attempts s) (attempts ?t)"
    using assms(1) by (simp add: list_all2_update_where attempt_log.step_refl)
  then have ids: "map a_id (attempts ?t) = map a_id (attempts s)" by (rule attempt_log.keys_prefix)
  have ev: "rows_evolve attempt_step (attempts s) (attempts ?t)"
    using assms(1) by (simp add: attempt_log.evolve_update)
  have row: "\<exists>b \<in> set (attempts ?t). a_id b = a_id a \<and> a_run b = a_run a"
    if "a \<in> set (attempts s)" for a
    using that assms(1) by (auto simp: set_update_where attempt_step_def)
  have "owned ?t" if o: "owned s"
    unfolding owned_def
  proof (intro conjI ballI)
    fix b assume "b \<in> set (attempts ?t)"
    then obtain a where "a \<in> set (attempts s)" "a_run b = a_run a"
      using assms(1) by (auto simp: in_update_where attempt_step_def split: if_splits)
    with o show "a_run b \<in> r_id ` set (runs ?t)" by (auto simp: owned_def)
  next
    fix q assume "q \<in> set (approvals ?t)"
    then obtain a where "a \<in> set (attempts s)" "a_id a = p_attempt q" "a_run a = p_run q"
      using o by (auto simp: owned_def)
    with row show "\<exists>b \<in> set (attempts ?t). a_id b = p_attempt q \<and> a_run b = p_run q" by metis
  qed
  with ids assms(2) ev show ?thesis
    by (auto simp: sound_def store_ok_def distinct_keys_def pending_live_def evolves_def
        run_log.evolve_refl approval_log.evolve_refl)
qed

lemma update_one_attempt_sound [intro]:
  assumes "\<And>a. a \<in> set (attempts s) \<Longrightarrow> p a \<Longrightarrow> attempt_step a (f a)"
  shows "sound s (fst (update_one_attempt p f e s))"
  using attempt_update_sound [of s p f] assms by (auto simp: update_one_attempt_def Let_def)

lemma new_attempt_sound:
  assumes "find_run s (a_run a) \<noteq> None" and "a_id a \<notin> a_id ` set (attempts s)"
    and "a_slot a \<notin> a_slot ` set (attempts s)"
  shows "sound s (s\<lparr>attempts := attempts s @ [a]\<rparr>)"
proof -
  have "a_run a \<in> r_id ` set (runs s)"
    using assms(1) by (auto simp: find_run_def select_key_None)
  with assms(2,3) show ?thesis
    by (auto simp: sound_def store_ok_def distinct_keys_def pending_live_def owned_def evolves_def
        run_log.evolve_refl approval_log.evolve_refl attempt_log.evolve_append)
qed

subsection \<open>Statements on approvals\<close>

lemma approval_update_sound:
  assumes "\<And>p. p \<in> set (approvals s) \<Longrightarrow> w p \<Longrightarrow> approval_step p (f p)"
  shows "sound s (s\<lparr>approvals := update_where w f (approvals s)\<rparr>)"
proof -
  let ?t = "s\<lparr>approvals := update_where w f (approvals s)\<rparr>"
  have all: "list_all2 approval_step (approvals s) (approvals ?t)"
    using assms by (simp add: list_all2_update_where approval_log.step_refl)
  then have ids: "map p_id (approvals ?t) = map p_id (approvals s)"
    by (rule approval_log.keys_prefix)
  have ev: "rows_evolve approval_step (approvals s) (approvals ?t)"
    using assms by (simp add: approval_log.evolve_update)
  have origin: "\<exists>p \<in> set (approvals s). p_run q = p_run p \<and> p_attempt q = p_attempt p \<and>
      (p_status q = Pending \<longrightarrow> p_status p = Pending)" if "q \<in> set (approvals ?t)" for q
  proof -
    have "q \<in> (\<lambda>p. if w p then f p else p) ` set (approvals s)"
      using that by (simp add: set_update_where)
    then obtain p where p: "p \<in> set (approvals s)" "q = (if w p then f p else p)" by blast
    then have "approval_step p q" using assms by (auto intro: approval_log.step_refl)
    with p(1) show ?thesis
      by (intro bexI [of _ p]) (auto simp: approval_step_id approval_step_def dest: approval_reaches_pending)
  qed
  have "owned ?t" if "owned s"
    unfolding owned_def
  proof (intro conjI ballI)
    fix a assume "a \<in> set (attempts ?t)"
    then show "a_run a \<in> r_id ` set (runs ?t)" using that by (auto simp: owned_def)
  next
    fix q assume "q \<in> set (approvals ?t)"
    then obtain p where "p \<in> set (approvals s)" "p_run q = p_run p" "p_attempt q = p_attempt p"
      using origin by blast
    with that show "\<exists>a \<in> set (attempts ?t). a_id a = p_attempt q \<and> a_run a = p_run q"
      by (auto simp: owned_def)
  qed
  moreover have "pending_live ?t" if "pending_live s"
    unfolding pending_live_def
  proof (intro ballI impI)
    fix q r assume q: "q \<in> set (approvals ?t)" "p_status q = Pending"
      and r: "r \<in> set (runs ?t)" "r_id r = p_run q"
    obtain p where "p \<in> set (approvals s)" "p_run q = p_run p" "p_status p = Pending"
      using origin [OF q(1)] q(2) by blast
    with that r show "\<not> retires_pending_approvals (r_status r)" by (auto simp: pending_live_def)
  qed
  ultimately show ?thesis
    using ids ev
    by (auto simp: sound_def store_ok_def distinct_keys_def evolves_def
        run_log.evolve_refl attempt_log.evolve_refl)
qed

lemma update_one_approval_sound [intro]:
  assumes "\<And>p. p \<in> set (approvals s) \<Longrightarrow> w p \<Longrightarrow> approval_step p (f p)"
  shows "sound s (fst (update_one_approval w f e s))"
  using approval_update_sound [of s w f] assms by (auto simp: update_one_approval_def)

lemma deny_step: "p_status p = Pending \<Longrightarrow> approval_step p (deny_row now p)"
  by (simp add: approval_step_def approval_identity_def deny_row_def approval_change_def r_into_rtranclp)

lemma retire_each_sound: "sound s (fst (retire_each rid reason now is s))"
proof (induction "is" arbitrary: s)
  case Nil
  then show ?case by simp
next
  case (Cons i "is")
  show ?case
    unfolding retire_each.simps
    by (intro sound_and_then update_one_approval_sound)
      (auto intro: deny_step sound_trans [OF sound_event [OF sound_refl] Cons.IH])
qed

lemma retire_pending_sound [intro]: "sound s (fst (retire_pending_approvals rid reason now s))"
  by (simp add: retire_pending_approvals_def retire_each_sound)

subsection \<open>Statements on runs\<close>

text \<open>
  Changing the status of a run to a final or interrupted one leaves the invariant open for
  that run until its pending approvals are retired. \<open>open_for\<close> is the state in between.
\<close>

definition open_for :: "string \<Rightarrow> db \<Rightarrow> bool" where
  "open_for rid s \<longleftrightarrow> distinct_keys s \<and> owned s \<and>
     (\<forall>p \<in> set (approvals s). p_status p = Pending \<longrightarrow> p_run p \<noteq> rid \<longrightarrow>
       (\<forall>r \<in> set (runs s). r_id r = p_run p \<longrightarrow> \<not> retires_pending_approvals (r_status r)))"

lemma find_run_only:
  assumes "distinct (map r_id (runs s))" and "find_run s rid = Some cur"
    and "r \<in> set (runs s)" and "r_id r = rid"
  shows "r = cur"
  using assms select_key_unique [of r_id "runs s" r] by (simp add: find_run_def)

lemma find_run_in: "find_run s rid = Some r \<Longrightarrow> r \<in> set (runs s) \<and> r_id r = rid"
  unfolding find_run_def by (rule select_key_SomeD)

lemma run_change_open:
  assumes "store_ok s" and cur: "find_run s rid = Some cur" and p: "\<And>r. p r \<Longrightarrow> r_id r = rid"
    and step: "run_step cur (f cur)"
  shows "open_for rid (s\<lparr>runs := update_where p f (runs s)\<rparr>) \<and>
    evolves s (s\<lparr>runs := update_where p f (runs s)\<rparr>)"
proof -
  let ?t = "s\<lparr>runs := update_where p f (runs s)\<rparr>"
  have d: "distinct (map r_id (runs s))" using assms(1) by (simp add: store_ok_def distinct_keys_def)
  have only: "r = cur" if "r \<in> set (runs s)" "p r" for r
    using find_run_only [OF d cur that(1)] p [OF that(2)] by simp
  have steps: "run_step r (f r)" if "r \<in> set (runs s)" "p r" for r
    using only [OF that] step by simp
  have all: "list_all2 run_step (runs s) (runs ?t)"
    using steps by (simp add: list_all2_update_where run_log.step_refl)
  then have ids: "map r_id (runs ?t) = map r_id (runs s)" by (rule run_log.keys_prefix)
  have id_set: "r_id ` set (runs ?t) = r_id ` set (runs s)" using ids by (metis set_map)
  have ev: "rows_evolve run_step (runs s) (runs ?t)"
    using steps by (simp add: run_log.evolve_update)
  have other: "r \<in> set (runs s)" if "r \<in> set (runs ?t)" "r_id r \<noteq> rid" for r
  proof -
    have "r \<in> (\<lambda>r. if p r then f r else r) ` set (runs s)"
      using that(1) by (simp add: set_update_where)
    then obtain q where q: "q \<in> set (runs s)" "r = (if p q then f q else q)" by blast
    have "\<not> p q" using q that(2) p steps run_step_id by metis
    with q show ?thesis by simp
  qed
  have "open_for rid ?t"
    unfolding open_for_def
  proof (intro conjI ballI impI)
    show "distinct_keys ?t"
      using assms(1) ids by (simp add: store_ok_def distinct_keys_def)
    show "owned ?t" using assms(1) id_set by (simp add: store_ok_def owned_def)
  next
    fix q r assume h: "q \<in> set (approvals ?t)" "p_status q = Pending" "p_run q \<noteq> rid"
      "r \<in> set (runs ?t)" "r_id r = p_run q"
    then have "r \<in> set (runs s)" using other by simp
    with h assms(1) show "\<not> retires_pending_approvals (r_status r)"
      by (auto simp: store_ok_def pending_live_def)
  qed
  with ev show ?thesis
    by (simp add: evolves_def attempt_log.evolve_refl approval_log.evolve_refl)
qed

lemma open_close:
  assumes "open_for rid s"
    and "\<And>p r. p \<in> set (approvals s) \<Longrightarrow> pending_of rid p \<Longrightarrow> r \<in> set (runs s) \<Longrightarrow> r_id r = rid \<Longrightarrow>
           \<not> retires_pending_approvals (r_status r)"
  shows "store_ok s"
  using assms by (auto simp: open_for_def store_ok_def pending_live_def pending_of_def)

lemma open_retire:
  assumes "open_for rid s"
  shows "store_ok (fst (retire_pending_approvals rid reason now s)) \<and>
    evolves s (fst (retire_pending_approvals rid reason now s))"
proof -
  have d: "distinct (map p_id (approvals s))" using assms by (simp add: open_for_def distinct_keys_def)
  obtain ev where r: "retire_pending_approvals rid reason now s =
    (s\<lparr>approvals := update_where (pending_of rid) (deny_row now) (approvals s),
       events := events s @ ev\<rparr>, Inr ())"
    using retire_pending_ok [OF d] by blast
  let ?t = "s\<lparr>approvals := update_where (pending_of rid) (deny_row now) (approvals s)\<rparr>"
  have ids: "map p_id (approvals ?t) = map p_id (approvals s)" by (simp add: deny.keys_kept)
  have step: "rows_evolve approval_step (approvals s) (approvals ?t)"
    using approval_log.evolve_update [of "approvals s" "pending_of rid" "deny_row now"]
    by (simp add: deny_step pending_of_def)
  have source: "\<exists>p \<in> set (approvals s). p_run q = p_run p \<and> p_attempt q = p_attempt p \<and>
      (p_status q = Pending \<longrightarrow> p = q \<and> p_run q \<noteq> rid)" if "q \<in> set (approvals ?t)" for q
  proof -
    have "q \<in> (\<lambda>p. if pending_of rid p then deny_row now p else p) ` set (approvals s)"
      using that by (simp add: set_update_where)
    then obtain p where "p \<in> set (approvals s)" "q = (if pending_of rid p then deny_row now p else p)"
      by blast
    then show ?thesis by (intro bexI [of _ p]) (auto simp: pending_of_def)
  qed
  have "owned ?t"
    unfolding owned_def
  proof (intro conjI ballI)
    fix a assume "a \<in> set (attempts ?t)"
    then show "a_run a \<in> r_id ` set (runs ?t)" using assms by (auto simp: open_for_def owned_def)
  next
    fix q assume "q \<in> set (approvals ?t)"
    then obtain p where "p \<in> set (approvals s)" "p_run q = p_run p" "p_attempt q = p_attempt p"
      using source by blast
    then show "\<exists>a \<in> set (attempts ?t). a_id a = p_attempt q \<and> a_run a = p_run q"
      using assms by (auto simp: open_for_def owned_def)
  qed
  moreover have "pending_live ?t"
    unfolding pending_live_def
  proof (intro ballI impI)
    fix q r assume q: "q \<in> set (approvals ?t)" "p_status q = Pending"
      and "r \<in> set (runs ?t)" "r_id r = p_run q"
    moreover have "q \<in> set (approvals s)" "p_run q \<noteq> rid" using source [OF q(1)] q(2) by auto
    ultimately show "\<not> retires_pending_approvals (r_status r)"
      using assms by (auto simp: open_for_def)
  qed
  ultimately have "store_ok ?t"
    using assms ids by (simp add: store_ok_def open_for_def distinct_keys_def)
  moreover have "evolves s ?t"
    using step by (simp add: evolves_def run_log.evolve_refl attempt_log.evolve_refl)
  ultimately show ?thesis
    by (simp add: r store_ok_def distinct_keys_def owned_def pending_live_def evolves_def)
qed

lemma open_frame:
  assumes "open_for rid s" and "runs t = runs s" and "attempts t = attempts s"
    and "approvals t = approvals s"
  shows "open_for rid t \<and> evolves s t"
  using assms
  by (simp add: open_for_def distinct_keys_def owned_def evolves_def
      run_log.evolve_refl attempt_log.evolve_refl approval_log.evolve_refl)

text \<open>A change that needs no retirement, and a change followed by it.\<close>

lemma run_update_sound:
  assumes cur: "find_run s rid = Some cur" and p: "\<And>r. p r \<Longrightarrow> r_id r = rid"
    and step: "run_step cur (f cur)"
    and live: "retires_pending_approvals (r_status (f cur)) \<Longrightarrow>
      retires_pending_approvals (r_status cur) \<or> (\<forall>q \<in> set (approvals s). \<not> pending_of rid q)"
  shows "sound s (s\<lparr>runs := update_where p f (runs s)\<rparr>)"
  unfolding sound_def
proof
  let ?t = "s\<lparr>runs := update_where p f (runs s)\<rparr>"
  assume ok: "store_ok s"
  have o: "open_for rid ?t \<and> evolves s ?t"
    using run_change_open [OF ok cur, of p f] p step by blast
  have d: "distinct (map r_id (runs s))" using ok by (simp add: store_ok_def distinct_keys_def)
  have "store_ok ?t"
  proof (rule open_close [of rid])
    show "open_for rid ?t" using o by simp
  next
    fix q r assume q: "q \<in> set (approvals ?t)" "pending_of rid q"
      and r: "r \<in> set (runs ?t)" "r_id r = rid"
    have "r \<in> (\<lambda>r. if p r then f r else r) ` set (runs s)"
      using r(1) by (simp add: set_update_where)
    then obtain x where x: "x \<in> set (runs s)" "r = (if p x then f x else x)" by blast
    have "r_id x = rid" using x r p by (auto split: if_splits)
    then have "x = cur" using find_run_only [OF d cur x(1)] by simp
    have "\<not> retires_pending_approvals (r_status cur)"
      using ok q find_run_in [OF cur] by (auto simp: store_ok_def pending_live_def pending_of_def)
    with live q x \<open>x = cur\<close> show "\<not> retires_pending_approvals (r_status r)" by auto
  qed
  with o show "store_ok ?t \<and> evolves s ?t" by simp
qed

lemma run_retire_sound:
  assumes cur: "find_run s rid = Some cur" and p: "\<And>r. p r \<Longrightarrow> r_id r = rid"
    and step: "run_step cur (f cur)"
    and t: "runs t = update_where p f (runs s)" "attempts t = attempts s" "approvals t = approvals s"
  shows "sound s (fst (retire_pending_approvals rid reason now t))"
  unfolding sound_def
proof
  let ?u = "s\<lparr>runs := update_where p f (runs s)\<rparr>"
  assume ok: "store_ok s"
  have o: "open_for rid ?u" "evolves s ?u" using run_change_open [OF ok cur, of p f] p step by blast+
  have "open_for rid t" "evolves ?u t" using open_frame [OF o(1), of t] t by simp_all
  with o(2) open_retire show "store_ok (fst (retire_pending_approvals rid reason now t)) \<and>
      evolves s (fst (retire_pending_approvals rid reason now t))"
    by (blast intro: evolves_trans)
qed

lemma new_run_sound:
  assumes "r_id r \<notin> r_id ` set (runs s)"
  shows "sound s (s\<lparr>runs := runs s @ [r]\<rparr>)"
proof -
  have "pending_live (s\<lparr>runs := runs s @ [r]\<rparr>)" if l: "pending_live s" and o: "owned s"
    unfolding pending_live_def
  proof (intro ballI impI)
    fix q x assume q: "q \<in> set (approvals (s\<lparr>runs := runs s @ [r]\<rparr>))" "p_status q = Pending"
      and x: "x \<in> set (runs (s\<lparr>runs := runs s @ [r]\<rparr>))" "r_id x = p_run q"
    obtain a where "a \<in> set (attempts s)" "a_run a = p_run q"
      using o q by (auto simp: owned_def)
    then have "p_run q \<in> r_id ` set (runs s)" using o by (metis owned_def)
    then have "x \<in> set (runs s)" using x assms by auto
    with l q x show "\<not> retires_pending_approvals (r_status x)" by (auto simp: pending_live_def)
  qed
  moreover have "owned (s\<lparr>runs := runs s @ [r]\<rparr>)" if "owned s"
    using that by (auto simp: owned_def)
  ultimately show ?thesis
    using assms by (auto simp: sound_def store_ok_def distinct_keys_def evolves_def
        run_log.evolve_append attempt_log.evolve_refl approval_log.evolve_refl)
qed

lemma set_status_step:
  "can_transition (r_status r) next \<Longrightarrow> run_step r (set_status next msg now r)"
  by (simp add: run_step_def run_identity_def set_status_def r_into_rtranclp)

end
