(* ===== verification/Store_Soundness.thy ===== *)
theory Store_Soundness
  imports Store_Invariant
begin

section \<open>Every operation of the store keeps its invariant\<close>

text \<open>
  One lemma per operation: from a state that satisfies \<open>store_ok\<close> it leads to one that does,
  and rows only evolve. The locale states the contract, every operation interprets it, and the
  reachable states of the store are those of the step relation over the operations.
\<close>

lemma evolves_run:
  "evolves s t \<Longrightarrow> find_run s rid = Some r \<Longrightarrow> \<exists>q. find_run t rid = Some q \<and> run_step r q"
  unfolding evolves_def find_run_def using run_log.select_later by blast

lemma evolves_attempt:
  "evolves s t \<Longrightarrow> find_attempt s aid = Some a \<Longrightarrow> \<exists>b. find_attempt t aid = Some b \<and> attempt_step a b"
  unfolding evolves_def find_attempt_def using attempt_log.select_later by blast

lemma evolves_approval:
  "evolves s t \<Longrightarrow> find_approval s pid = Some p \<Longrightarrow>
     \<exists>q. find_approval t pid = Some q \<and> approval_step p q"
  unfolding evolves_def find_approval_def using approval_log.select_later by blast

locale store_operation =
  fixes op :: "db \<Rightarrow> 'a store"
  assumes op_sound: "sound s (fst (op s))"
begin

lemma keeps: "store_ok s \<Longrightarrow> store_ok (fst (op s))"
  using op_sound by (simp add: sound_def)

lemma grows: "store_ok s \<Longrightarrow> evolves s (fst (op s))"
  using op_sound by (simp add: sound_def)

end

subsection \<open>Rules\<close>

lemma sound_bind:
  assumes "\<And>t e. m = (t, Inl e) \<Longrightarrow> sound s t" and "\<And>t x. m = (t, Inr x) \<Longrightarrow> sound s (fst (f t x))"
  shows "sound s (fst (and_then m f))"
  using assms by (cases "(m, f)" rule: and_then.cases) auto

lemma update_run_sound:
  assumes "find_run s rid = Some cur" and "\<And>r. p r \<Longrightarrow> r_id r = rid" and "run_step cur (f cur)"
    and "retires_pending_approvals (r_status (f cur)) \<Longrightarrow>
      retires_pending_approvals (r_status cur) \<or> (\<forall>q \<in> set (approvals s). \<not> pending_of rid q)"
  shows "sound s (fst (update_one_run p f e s))"
  using run_update_sound [of s rid cur p f] assms by (auto simp: update_one_run_def)

lemma update_one_run_fail: "update_one_run p f e s = (t, Inl e') \<Longrightarrow> t = s"
  by (auto simp: update_one_run_def split: if_splits)

lemma update_one_run_ok:
  "update_one_run p f e s = (t, Inr x) \<Longrightarrow> t = s\<lparr>runs := update_where p f (runs s)\<rparr>"
  by (auto simp: update_one_run_def split: if_splits)

text \<open>A status change whose approvals are retired later in the same transaction.\<close>

lemma change_retire_sound:
  assumes tail: "\<And>t. t = s\<lparr>runs := update_where p f (runs s)\<rparr> \<Longrightarrow> sound s (fst (g t))"
  shows "sound s (fst (and_then (update_one_run p f e s) (\<lambda>t _. g t)))"
proof (rule sound_bind)
  show "sound s t" if "update_one_run p f e s = (t, Inl e')" for t e'
    using update_one_run_fail [OF that] by simp
  show "sound s (fst (g t))" if "update_one_run p f e s = (t, Inr x)" for t x
    using tail [OF update_one_run_ok [OF that]] .
qed

lemma retire_then_sound:
  assumes "find_run s rid = Some cur" and "\<And>r. p r \<Longrightarrow> r_id r = rid" and "run_step cur (f cur)"
    and "runs t = update_where p f (runs s)" and "attempts t = attempts s"
    and "approvals t = approvals s"
    and "\<And>u x. sound u (fst (h u x))"
  shows "sound s (fst (and_then (retire_pending_approvals rid reason now t) h))"
  using sound_and_then [of s "retire_pending_approvals rid reason now t" h]
    run_retire_sound [of s rid cur p f t] assms by blast

lemma update_retire_sound:
  assumes "find_run s rid = Some cur" and "\<And>r. p r \<Longrightarrow> r_id r = rid" and "run_step cur (f cur)"
    and "\<And>u x. sound u (fst (h u x))"
  shows "sound s (fst (and_then (update_one_run p f e s)
           (\<lambda>t _. and_then (retire_pending_approvals rid reason now t) h)))"
  by (rule change_retire_sound, rule retire_then_sound [OF assms(1), of p f])
    (use assms in simp_all)

lemma sound_commit_event: "sound u (fst (commit (append_event u rid k p now) x))"
  by (simp add: sound_frame)

subsection \<open>Runs\<close>

lemma transition_run_sound: "sound s (fst (transition_run rid expected next msg now s))"
proof (cases "find_run s rid")
  case None
  then show ?thesis by (simp add: transition_run_def)
next
  case (Some cur)
  show ?thesis
  proof (cases "r_revision cur = expected \<and> can_transition (r_status cur) next")
    case False
    then show ?thesis
      using Some by (auto simp: transition_run_def require_transition_def)
  next
    case True
    let ?f = "set_status next msg now"
    have step: "run_step cur (?f cur)" using True by (simp add: set_status_step)
    show ?thesis
    proof (cases "retires_pending_approvals next")
      case retires: True
      show ?thesis
        unfolding transition_run_def using Some True retires
        by (simp add: require_transition_def)
          (intro sound_transaction update_retire_sound [OF Some] step; simp add: sound_frame)
    next
      case False
      show ?thesis
        unfolding transition_run_def using Some True False
        by (simp add: require_transition_def)
          (intro sound_transaction sound_and_then update_run_sound [OF Some] step;
            simp add: sound_frame set_status_def)
    qed
  qed
qed

lemma quiesce_run_transaction_sound:
  assumes "find_run s (r_id cur) = Some cur"
  shows "sound s (fst (quiesce_run_transaction cur requested msg now s))"
proof -
  define nx where "nx = (if affected (open_side_effect (r_id cur)) (attempts s) > 0
    then RunUncertain else requested)"
  let ?p = "\<lambda>r. r_id r = r_id cur \<and> r_revision r = r_revision cur"
  let ?f = "set_status nx msg now"
  show ?thesis
  proof (cases "can_transition (r_status cur) nx")
    case False
    then show ?thesis
      by (simp add: quiesce_run_transaction_def nx_def [symmetric] require_transition_def Let_def)
  next
    case True
    then have step: "run_step cur (?f cur)" by (simp add: set_status_step)
    have ok: "require_transition (r_status cur) nx = None" using True by (simp add: require_transition_None)
    show ?thesis
      unfolding quiesce_run_transaction_def nx_def [symmetric] Let_def ok option.case
      by (rule update_retire_sound [OF assms]) (simp_all add: sound_frame step)
  qed
qed

lemma find_run_id: "find_run s rid = Some r \<Longrightarrow> find_run s (r_id r) = Some r"
  using find_run_in by fastforce

lemma quiesce_run_sound: "sound s (fst (quiesce_run rid requested msg now s))"
  unfolding quiesce_run_def
  by (auto split: option.split
      intro!: sound_transaction quiesce_run_transaction_sound dest: find_run_id)

lemma resume_run_after_approval_sound: "sound s (fst (resume_run_after_approval rid prior now s))"
proof (cases "find_run s rid")
  case None
  then show ?thesis by (simp add: resume_run_after_approval_def)
next
  case (Some cur)
  show ?thesis
  proof (cases "can_transition (r_status cur) prior \<and> r_status cur = RunWaitingApproval \<and>
      affected (\<lambda>p. p_run p = rid \<and> p_status p = Pending) (approvals s) = 0")
    case False
    then show ?thesis
      using Some by (auto simp: resume_run_after_approval_def require_transition_def)
  next
    case True
    then have none: "\<forall>q \<in> set (approvals s). \<not> pending_of rid q"
      by (auto simp: affected_zero pending_of_def)
    have step: "run_step cur (set_status prior [] now cur)"
      by (rule set_status_step) (use True in blast)
    show ?thesis
      unfolding resume_run_after_approval_def using Some True
      by (simp add: require_transition_def)
        (intro impI sound_transaction sound_and_then update_run_sound [OF Some] step disjI2 none;
          simp add: sound_frame)
  qed
qed

lemma set_run_cycle_sound: "sound s (fst (set_run_cycle rid expected cycle now s))"
proof (cases "find_run s rid")
  case None
  then have "affected (\<lambda>r. r_id r = rid \<and> r_revision r = expected) (runs s) = 0"
    by (auto simp: affected_zero find_run_def select_key_None)
  then show ?thesis by (simp add: set_run_cycle_def update_one_run_def)
next
  case (Some cur)
  show ?thesis
    unfolding set_run_cycle_def
    by (auto intro!: sound_and_then update_run_sound [OF Some]
        simp: run_step_def run_identity_def split: option.split)
qed

subsection \<open>Success\<close>

lemma publish_document_sound: "sound s (fst (publish_document rid aid doc now s))"
  by (auto simp: publish_document_def Let_def split: option.split intro!: sound_frame)

lemma publish_document_core:
  "publish_document rid aid doc now s = (t, Inr x) \<Longrightarrow>
     runs t = runs s \<and> attempts t = attempts s \<and> approvals t = approvals s"
  by (auto simp: publish_document_def Let_def split: option.splits if_splits)

lemma adopt_results_core:
  "adopt_results cur rep now s = (t, r) \<Longrightarrow>
     runs t = runs s \<and> attempts t = attempts s \<and> approvals t = approvals s"
  by (auto simp: adopt_results_def Let_def split: if_splits)

lemma set_succeeded_step:
  "can_transition (r_status r) RunSucceeded \<Longrightarrow> run_step r (set_succeeded rep now r)"
  by (simp add: run_step_def run_identity_def set_succeeded_def r_into_rtranclp)

lemma succeed_run_chain:
  assumes "succeed_run rid expected doc now s = (t, Inr q)"
  obtains cur rep s1 s2 s3 s4 where
    "find_run s rid = Some cur" "r_revision cur = expected" "can_transition (r_status cur) RunSucceeded"
    "newest_artifact (filter (final_report s cur) (artifacts s)) = Some rep"
    "publish_document rid (f_attempt rep) doc now s = (s1, Inr ())"
    "s2 = s1\<lparr>runs := update_where (\<lambda>r. r_id r = rid \<and> r_revision r = expected)
             (set_succeeded (f_id rep) now) (runs s1)\<rparr>"
    "adopt_results cur (f_id rep) now s2 = (s3, Inr ())"
    "retire_pending_approvals rid (''run_'' @ status_text RunSucceeded) now s3 = (s4, Inr ())"
    "t = append_event s4 rid ''run.transition''
       [(''from'', JStr (status_text (r_status cur))), (''to'', JStr (status_text RunSucceeded)),
        (''revision'', JInt (expected + 1)), (''report_artifact_id'', JStr (f_id rep))] now"
    "q = set_succeeded (f_id rep) now cur"
proof -
  obtain cur where cur: "find_run s rid = Some cur"
    using assms by (auto simp: succeed_run_def split: option.splits)
  have ok: "r_revision cur = expected" "can_transition (r_status cur) RunSucceeded"
    using assms cur by (auto simp: succeed_run_def transaction_Inr require_transition_def split: if_splits)
  obtain rep where rep: "newest_artifact (filter (final_report s cur) (artifacts s)) = Some rep"
    using assms cur ok
    by (auto simp: succeed_run_def transaction_Inr require_transition_def split: option.splits)
  from assms cur ok rep show ?thesis
    by (auto simp: succeed_run_def require_transition_def store_results
        dest: update_one_run_ok intro!: that)
qed

lemma succeed_run_sound: "sound s (fst (succeed_run rid expected doc now s))"
proof (cases "succeed_run rid expected doc now s")
  case (Pair t r)
  show ?thesis
  proof (cases r)
    case (Inl e)
    then have "t = s" using Pair by (auto simp: succeed_run_def dest: transaction_Inl split: option.splits)
    then show ?thesis by (simp add: Pair)
  next
    case (Inr q)
    show ?thesis
    proof (rule succeed_run_chain [OF Pair [unfolded Inr]])
      fix cur rep s1 s2 s3 s4
      assume c: "find_run s rid = Some cur" "can_transition (r_status cur) RunSucceeded"
      "publish_document rid (f_attempt rep) doc now s = (s1, Inr ())"
      "s2 = s1\<lparr>runs := update_where (\<lambda>r. r_id r = rid \<and> r_revision r = expected)
             (set_succeeded (f_id rep) now) (runs s1)\<rparr>"
      "adopt_results cur (f_id rep) now s2 = (s3, Inr ())"
      "retire_pending_approvals rid (''run_'' @ status_text RunSucceeded) now s3 = (s4, Inr ())"
      "t = append_event s4 rid ''run.transition''
       [(''from'', JStr (status_text (r_status cur))), (''to'', JStr (status_text RunSucceeded)),
        (''revision'', JInt (expected + 1)), (''report_artifact_id'', JStr (f_id rep))] now"
      have "sound s (fst (retire_pending_approvals rid (''run_'' @ status_text RunSucceeded) now s3))"
      by (rule run_retire_sound [OF c(1), of "\<lambda>r. r_id r = rid \<and> r_revision r = expected"])
        (use c(2,4) publish_document_core [OF c(3)] adopt_results_core [OF c(5)] in
          \<open>simp_all add: set_succeeded_step\<close>)
      then show "sound s (fst (succeed_run rid expected doc now s))"
        using c(6,7) by (auto simp: Pair)
    qed
  qed
qed

lemma succeed_with_document_sound:
  "sound s (fst (succeed_run_with_report_document rid expected doc now s))"
  by (simp add: succeed_run_with_report_document_def succeed_run_sound)

lemma create_run_sound: "sound s (fst (create_conversation_run fresh build rq now s))"
proof -
  have new: "sound s (append_event (s\<lparr>runs := runs s @ [r]\<rparr>) rid k p now)"
    if "fresh \<notin> r_id ` set (runs s)" "r_id r = fresh" for r rid k p
    using that by (intro sound_event new_run_sound) simp
  have cyc: "sound u (fst (update_cycles w f u))" for u w f
    by (auto simp: update_cycles_def Let_def intro: sound_frame)
  show ?thesis
    unfolding create_conversation_run_def
    by (auto simp: Let_def queued_run_def split: option.split sum.split
        intro!: new sound_transaction sound_and_then sound_trans [OF new cyc])
qed

lemma create_planned_run_sound:
  "sound s (fst (create_planned_conversation_run fresh build rq now s))"
  by (simp add: create_planned_conversation_run_def create_run_sound)

subsection \<open>Approvals\<close>

lemma set_external_step: "attempt_step a (set_external now a)"
  by (simp add: attempt_step_def set_external_def)

lemma mark_stage_sound: "sound s (fst (mark_stage_external_side_effects aid now s))"
  by (auto simp: mark_stage_external_side_effects_def intro: set_external_step)

lemma mark_active_stage_sound: "sound s (fst (mark_active_stage_external_side_effects aid now s))"
  by (auto simp: mark_active_stage_external_side_effects_def split: option.split
      intro!: sound_transaction update_one_attempt_sound set_external_step)

lemma set_decision_step:
  "p_status p = Pending \<Longrightarrow> approval_step p (set_decision (decision_status d) now p)"
  by (simp add: approval_step_def approval_identity_def set_decision_def decision_status_def
      approval_change_def r_into_rtranclp)

lemma record_decision_sound: "sound s (fst (record_decision p d now s))"
  unfolding record_decision_def
  by (intro sound_and_then update_one_approval_sound) (auto intro: set_decision_step sound_frame)

lemma retire_stale_sound: "sound s (fst (retire_stale p reason now s))"
proof -
  let ?m = "update_one_approval (\<lambda>q. p_id q = p_id p \<and> p_status q = Pending) (deny_row now)
      (Errorf ''stale approval retirement lost concurrency race'') s"
  have up: "sound s (fst ?m)"
    by (intro update_one_approval_sound) (simp add: deny_step)
  show ?thesis
    using up unfolding retire_stale_def
    by (cases ?m; cases "snd ?m") (auto intro: sound_event)
qed

lemma decide_approval_sound: "sound s (fst (decide_approval pid d active now s))"
  unfolding decide_approval_def
  by (auto split: option.split
      intro!: sound_transaction sound_and_then record_decision_sound retire_stale_sound
        update_one_attempt_sound set_external_step)

lemma attempt_of_run_SomeD:
  "attempt_of_run s aid rid = Some (a, r) \<Longrightarrow>
     find_attempt s aid = Some a \<and> find_run s rid = Some r \<and> a_run a = rid"
  by (auto simp: attempt_of_run_def attempt_run_def split: option.splits if_splits)

lemma new_approval_sound:
  assumes a: "attempt_of_run s (p_attempt p) (p_run p) = Some (a, r)"
    and id: "p_id p \<notin> p_id ` set (approvals s)" and live: "\<not> retires_pending_approvals (r_status r)"
  shows "sound s (s\<lparr>approvals := approvals s @ [p]\<rparr>)"
proof -
  have ar: "a \<in> set (attempts s)" "a_id a = p_attempt p" "a_run a = p_run p"
    and cur: "find_run s (p_run p) = Some r"
    using attempt_of_run_SomeD [OF a] select_key_SomeD [of a_id "attempts s" "p_attempt p" a]
    by (simp_all add: find_attempt_def)
  have "pending_live (s\<lparr>approvals := approvals s @ [p]\<rparr>)"
    if "pending_live s" "distinct (map r_id (runs s))"
    using that find_run_only [OF that(2) cur] live by (auto simp: pending_live_def)
  with ar id show ?thesis
    by (auto simp: sound_def store_ok_def distinct_keys_def owned_def evolves_def
        run_log.evolve_refl attempt_log.evolve_refl approval_log.evolve_append)
qed

lemma can_wait_live: "can_transition st RunWaitingApproval \<Longrightarrow> \<not> retires_pending_approvals st"
  by (cases st) (simp_all add: can_transition_def retires_pending_approvals_def)

lemma create_approval_sound: "sound s (fst (create_approval cx fresh p now s))"
  unfolding create_approval_def
  by (auto simp: Let_def retires_pending_approvals_def split: option.split
      intro!: sound_event new_approval_sound dest: can_wait_live)

subsection \<open>Stages\<close>

lemma begin_stage_sound: "sound s (fst (begin_stage fresh rid st ordinal thread input now s))"
  unfolding begin_stage_def
  by (auto simp: Let_def new_attempt_def intro!: sound_event new_attempt_sound)

lemma set_stage_turn_sound: "sound s (fst (set_stage_turn aid thread turn now s))"
  unfolding set_stage_turn_def by (intro update_one_attempt_sound) (simp add: attempt_step_def)

lemma close_attempt_step:
  "a_status a = InProgress \<Longrightarrow> st \<in> {Completed, AttemptFailed} \<Longrightarrow>
     attempt_step a (close_attempt st out err now a)"
  by (auto simp: attempt_step_def close_attempt_def attempt_change_def intro!: r_into_rtranclp)

lemma complete_stage_sound: "sound s (fst (complete_stage aid out err now s))"
  unfolding complete_stage_def by (intro update_one_attempt_sound close_attempt_step) auto

lemma update_one_attempt_find:
  "update_one_attempt p f e s = (t, Inr x) \<Longrightarrow> find_run t rid = find_run s rid"
  by (auto simp: update_one_attempt_def Let_def find_run_def split: if_splits)

lemma fail_collect_sound:
  "sound s (fst (fail_collect_stage_and_quiesce_run aid out err now s))"
proof -
  have up: "sound s (fst (update_one_attempt (\<lambda>q. a_id q = aid \<and> a_status q = InProgress)
      (close_attempt AttemptFailed out err now) e s))" for e
    by (intro update_one_attempt_sound close_attempt_step) auto
  have quiesce: "sound t (fst (quiesce_run_transaction cur RunFailed err now t))"
    if "find_run s rid = Some cur" "update_one_attempt p f e s = (t, Inr x)" for rid cur t p f e x
    using that update_one_attempt_find [OF that(2)]
    by (intro quiesce_run_transaction_sound) (auto dest: find_run_id)
  show ?thesis
    unfolding fail_collect_stage_and_quiesce_run_def
    by (auto split: option.split intro!: sound_transaction sound_and_then [OF up] quiesce)
qed

lemma complete_stage_with_execution_sound:
  "sound s (fst (complete_stage_with_execution aid out receipt now s))"
proof -
  have up: "sound t (fst (update_one_attempt (\<lambda>a. a_id a = aid \<and> a_status a = InProgress)
      (close_attempt Completed out [] now) e t))" for e t
    by (intro update_one_attempt_sound close_attempt_step) auto
  have "sound s (fst (update_one_attempt (\<lambda>a. a_id a = aid \<and> a_status a = InProgress)
      (close_attempt Completed out [] now) e (s\<lparr>receipts := rs\<rparr>)))" for e rs
    by (rule sound_trans [OF sound_frame up]) simp_all
  then show ?thesis
    unfolding complete_stage_with_execution_def by (auto intro: sound_transaction)
qed

lemma publish_artifact_sound:
  "sound s (fst (publish_artifact fresh rid aid kind media hash sz now s))"
  by (auto simp: publish_artifact_def Let_def split: option.split intro!: sound_frame)

lemma capture_evidence_sound:
  "sound s (fst (capture_evidence fresh rid aid url title pub media hash sz origin now s))"
  by (auto simp: capture_evidence_def Let_def split: option.split intro!: sound_frame)

lemma supersede_step:
  "a_status a \<noteq> Superseded \<Longrightarrow> attempt_step a (supersede_attempt ordinal err now a)"
  by (cases "a_status a")
    (auto simp: attempt_step_def supersede_attempt_def attempt_change_def intro!: r_into_rtranclp)

lemma archive_each_sound: "sound s (fst (archive_each rid now as s))"
proof (induction "as" arbitrary: s)
  case Nil
  then show ?case by simp
next
  case (Cons a "as")
  have up: "sound s (fst (update_one_attempt (\<lambda>q. a_id q = a_id a \<and> incomplete_attempt rid q \<and> \<not> a_external q)
      (\<lambda>q. supersede_attempt k (archive_note (a_error q)) now q) e s))" for k e
    by (intro update_one_attempt_sound supersede_step) (auto simp: incomplete_attempt_def)
  show ?case
    by (auto intro!: sound_and_then [OF up] sound_trans [OF sound_event [OF sound_refl] Cons.IH])
qed

lemma prepare_interrupted_sound: "sound s (fst (prepare_interrupted_run_for_resume rid now s))"
  unfolding prepare_interrupted_run_for_resume_def
  by (auto split: option.split intro!: sound_transaction archive_each_sound)

lemma prepare_plan_retry_sound: "sound s (fst (prepare_plan_contract_retry rid aid now s))"
  unfolding prepare_plan_contract_retry_def
  by (auto split: option.split
      intro!: sound_transaction sound_and_then update_one_attempt_sound supersede_step sound_frame
      simp: retryable_plan_def)

subsection \<open>Recovery\<close>

text \<open>What leaves runs, attempts and approvals alone.\<close>

definition same_core :: "db \<Rightarrow> db \<Rightarrow> bool" where
  "same_core s t \<longleftrightarrow> runs t = runs s \<and> attempts t = attempts s \<and> approvals t = approvals s"

lemma same_core_sound: "same_core s t \<Longrightarrow> sound s t"
  by (simp add: same_core_def sound_frame)

interpretation core_steps: state_preorder same_core
  by unfold_locales (auto simp: same_core_def)

lemma update_installs_core: "same_core s (fst (update_installs p f s))"
  by (simp add: update_installs_def Let_def same_core_def)

lemma update_invocations_core: "same_core s (fst (update_invocations p f s))"
  by (simp add: update_invocations_def Let_def same_core_def)

lemma interrupt_each_core: "same_core s (fst (interrupt_each now ns s))"
proof (induction ns arbitrary: s)
  case (Cons n ns)
  have "same_core t (fst (interrupt_each now ns (append_install_event t n a d now)))" for t a d
    using Cons.IH [of "append_install_event t n a d now"]
    by (simp add: same_core_def append_install_event_def)
  then show ?case
    by (auto simp: Let_def intro!: core_steps.bind update_installs_core)
qed (simp add: same_core_def)

lemma uncertain_each_core: "same_core s (fst (uncertain_each now qs s))"
proof (induction qs arbitrary: s)
  case (Cons q qs)
  have "same_core t (fst (uncertain_each now qs (append_event t r k p now)))" for t r k p
    using Cons.IH [of "append_event t r k p now"] by (simp add: same_core_def)
  then show ?case by (auto intro!: core_steps.bind update_invocations_core)
qed (simp add: same_core_def)

lemma recover_tool_work_core: "same_core s (fst (recover_tool_work now s))"
  unfolding recover_tool_work_def
  by (intro core_steps.bind interrupt_each_core uncertain_each_core) (simp add: same_core_def)

lemma in_flight_recovers: "in_flight st \<Longrightarrow> can_transition st (recovered_status ext)"
  by (cases st; cases ext) (simp_all add: in_flight_def recovered_status_def can_transition_def)

lemma recover_attempt_step: "a_status a = InProgress \<Longrightarrow> attempt_step a (recover_attempt_row ext now a)"
  by (auto simp: attempt_step_def recover_attempt_row_def recovered_attempt_status_def
      attempt_change_def intro!: r_into_rtranclp)

lemma recover_attempts_sound:
  "sound s (s\<lparr>attempts := update_where (\<lambda>a. a_run a = rid \<and> a_status a = InProgress)
     (recover_attempt_row ext now) (attempts s)\<rparr>)"
proof (cases "store_ok s")
  case True
  have "map a_slot (update_where (\<lambda>a. a_run a = rid \<and> a_status a = InProgress)
      (recover_attempt_row ext now) (attempts s)) = map a_slot (attempts s)"
    by (rule map_key_update_where) (simp add: a_slot_def recover_attempt_row_def)
  with True show ?thesis
    by (intro attempt_update_sound) (auto simp: recover_attempt_step store_ok_def distinct_keys_def)
qed (simp add: sound_def)

definition nothing_pending :: "db \<Rightarrow> bool" where
  "nothing_pending s \<longleftrightarrow> (\<forall>p \<in> set (approvals s). p_status p \<noteq> Pending)"

lemma recover_each_sound:
  assumes "nothing_pending s" and "distinct (map fst items)"
    and "\<And>rid rv ext. (rid, rv, ext) \<in> set items \<Longrightarrow>
      \<exists>r. find_run s rid = Some r \<and> in_flight (r_status r)"
  shows "sound s (fst (recover_each now items s))"
  using assms
proof (induction items arbitrary: s)
  case Nil
  then show ?case by simp
next
  case (Cons item items)
  obtain rid rv ext where item: "item = (rid, rv, ext)" by (cases item) auto
  obtain cur where cur: "find_run s rid = Some cur" "in_flight (r_status cur)"
    using Cons.prems(3) [of rid rv ext] item by auto
  let ?p = "\<lambda>r. r_id r = rid \<and> r_revision r = rv"
  have step: "run_step cur (recover_run_row ext now cur)"
    using in_flight_recovers [OF cur(2)]
    by (simp add: run_step_def run_identity_def recover_run_row_def r_into_rtranclp)
  have up: "sound s (fst (update_one_run ?p (recover_run_row ext now) e s))" for e
    by (rule update_run_sound [OF cur(1)])
      (use step Cons.prems(1) in \<open>auto simp: nothing_pending_def pending_of_def\<close>)
  show ?case
    unfolding item recover_each.simps
  proof (rule sound_and_then [OF up])
    fix t x assume t: "update_one_run ?p (recover_run_row ext now)
      (Errorf ''recovery revision conflict'') s = (t, Inr x)"
    let ?u = "t\<lparr>attempts := update_where (\<lambda>a. a_run a = rid \<and> a_status a = InProgress)
      (recover_attempt_row ext now) (attempts t)\<rparr>"
    have find: "find_run ?u k = find_run s k" if "k \<noteq> rid" for k
    proof -
      have "find_run ?u k = map_option (\<lambda>r. if ?p r then recover_run_row ext now r else r)
          (select_key r_id (runs s) k)"
        unfolding update_one_run_ok [OF t]
        by (simp add: find_run_def select_key_update_where recover_run_row_def)
      then show ?thesis
        using that by (cases "select_key r_id (runs s) k") (auto simp: find_run_def dest: select_key_SomeD)
    qed
    have "sound ?u (fst (recover_each now items (append_event ?u rid k p now)))" for k p
    proof -
      have "sound (append_event ?u rid k p now)
          (fst (recover_each now items (append_event ?u rid k p now)))"
      proof (rule Cons.IH)
        show "nothing_pending (append_event ?u rid k p now)"
          using Cons.prems(1) update_one_run_ok [OF t] by (simp add: nothing_pending_def)
        show "distinct (map fst items)" using Cons.prems(2) by simp
        show "\<exists>r. find_run (append_event ?u rid k p now) i = Some r \<and> in_flight (r_status r)"
          if "(i, v, x) \<in> set items" for i v x
        proof -
          have "i \<noteq> rid" using that Cons.prems(2) item by force
          then show ?thesis
            using Cons.prems(3) [of i v x] that find [of i] by (simp add: find_run_def)
        qed
      qed
      then show ?thesis by (rule sound_trans [OF sound_event [OF sound_refl]])
    qed
    then show "sound t (fst (recover_each now items (append_event ?u rid ''run.recovered''
        [(''status'', JStr (status_text (recovered_status ext))),
         (''external_side_effects'', JBool ext)] now)))"
      by (rule sound_trans [OF recover_attempts_sound])
  qed
qed

lemma expire_sound: "sound s (expire_approvals now s)"
  unfolding expire_approvals_def
  by (rule approval_update_sound)
    (auto simp: answerable_def approval_step_def approval_identity_def expire_row_def
      approval_change_def intro!: r_into_rtranclp)

lemma lose_jobs_core: "same_core s (lose_jobs now s)"
  by (simp add: same_core_def lose_jobs_def)

lemma nothing_pending_recovery: "nothing_pending (lose_jobs now (expire_approvals now s))"
  by (auto simp: nothing_pending_def lose_jobs_def expire_approvals_def set_update_where
      answerable_def expire_row_def)

lemma recoveries_distinct:
  "distinct (map r_id (runs s)) \<Longrightarrow> distinct (map fst (recoveries s))"
  by (simp add: recoveries_def comp_def distinct_map inj_on_def)

lemma recoveries_in_flight:
  assumes "distinct (map r_id (runs s))" and "(rid, rv, ext) \<in> set (recoveries s)"
  shows "\<exists>r. find_run s rid = Some r \<and> in_flight (r_status r)"
  using assms select_key_unique by (fastforce simp: recoveries_def find_run_def)

lemma recover_in_flight_sound: "sound s (fst (recover_in_flight now s))"
proof (cases "store_ok s")
  case False
  then show ?thesis by (simp add: sound_def)
next
  case True
  then have d: "distinct (map r_id (runs s))" by (simp add: store_ok_def distinct_keys_def)
  have each: "sound t (fst (recover_each now (recoveries s) (lose_jobs now (expire_approvals now t))))"
    if core: "same_core s t" for t
  proof -
    let ?u = "lose_jobs now (expire_approvals now t)"
    have "runs ?u = runs s" using core by (simp add: same_core_def lose_jobs_def expire_approvals_def)
    then have find: "find_run ?u k = find_run s k" for k by (simp add: find_run_def)
    have "sound ?u (fst (recover_each now (recoveries s) ?u))"
      using recoveries_in_flight [OF d]
      by (intro recover_each_sound nothing_pending_recovery recoveries_distinct d) (simp add: find)
    then show ?thesis
      by (blast intro: sound_trans expire_sound same_core_sound lose_jobs_core)
  qed
  show ?thesis
    unfolding recover_in_flight_def
  proof (intro sound_transaction sound_and_then)
    show "sound s (fst (recover_tool_work now s))"
      by (intro same_core_sound recover_tool_work_core)
    fix t x assume "recover_tool_work now s = (t, Inr x)"
    then have "same_core s t" using recover_tool_work_core [of s now] by simp
    then show "sound t (fst (recover_each now (recoveries s) (lose_jobs now (expire_approvals now t))))"
      by (rule each)
  qed simp
qed

subsection \<open>Remediation and plan cycles\<close>

lemma seal_each_sound: "sound s (fst (seal_each rid now minimum as s))"
proof (induction "as" arbitrary: s minimum)
  case (Cons a "as")
  have up: "sound s (fst (update_one_attempt (\<lambda>q. a_id q = a_id a \<and> live_attempt rid q)
      (seal_row k now) e s))" for k e
  proof (intro update_one_attempt_sound)
    fix q assume "a_id q = a_id a \<and> live_attempt rid q"
    then have "attempt_change (a_status q) Superseded"
      by (cases "a_status q") (simp_all add: live_attempt_def attempt_change_def)
    then show "attempt_step q (seal_row k now q)"
      by (simp add: attempt_step_def seal_row_def r_into_rtranclp)
  qed
  then show ?case using Cons.IH by (auto simp: Let_def intro!: sound_and_then [OF up])
qed simp

lemma seal_each_find:
  "seal_each rid now minimum as s = (t, Inr x) \<Longrightarrow> runs t = runs s"
proof (induction "as" arbitrary: s minimum)
  case (Cons a "as")
  then show ?case by (fastforce simp: Let_def and_then_Inr update_one_attempt_def split: if_splits)
qed simp

lemma restart_step: "r_status r = RunReviewing \<Longrightarrow> run_step r (restart_row now r)"
  by (auto simp: run_step_def run_identity_def restart_row_def can_transition_def intro!: r_into_rtranclp)

lemma prepare_research_remediation_sound:
  "sound s (fst (prepare_research_remediation rid expected ordinal v now s))"
proof -
  have main: "sound s (fst (seal_and_restart cur m now (s\<lparr>remediations := ms\<rparr>)))"
    if find: "find_run s rid = Some cur" and rev: "r_status cur = RunReviewing" for cur m ms
  proof -
    let ?s = "s\<lparr>remediations := ms\<rparr>"
    have cur: "r_id cur = rid" using find_run_in [OF find] by simp
    have change: "sound t (fst (update_one_run (\<lambda>r. r_id r = rid \<and> r_revision r = r_revision cur \<and>
        r_status r = RunReviewing) (restart_row now) e t))" if "runs t = runs s" for t e
    proof (rule update_run_sound)
      show "find_run t rid = Some cur" using find that by (simp add: find_run_def)
      show "run_step cur (restart_row now cur)" by (rule restart_step [OF rev])
    qed (simp_all add: restart_row_def retires_pending_approvals_def)
    have seal: "sound ?s (fst (seal_and_restart cur m now ?s))"
      unfolding seal_and_restart_def cur Let_def
      by (auto intro!: sound_and_then seal_each_sound change retire_pending_sound sound_event
          dest: seal_each_find)
    show ?thesis by (rule sound_trans [OF sound_frame seal]) simp_all
  qed
  show ?thesis
    unfolding prepare_research_remediation_def
    by (auto simp: Let_def split: option.split intro!: sound_transaction main)
qed

lemma update_cycles_sound: "sound s (fst (update_cycles p f s))"
  by (auto simp: update_cycles_def Let_def intro: sound_frame)

lemma begin_plan_cycle_sound: "sound s (fst (begin_plan_cycle fresh sid txt now s))"
  unfolding begin_plan_cycle_def
  by (auto simp: Let_def intro!: sound_transaction sound_and_then update_cycles_sound sound_frame)

lemma complete_plan_cycle_sound: "sound s (fst (complete_plan_cycle sid cid txt now s))"
  unfolding complete_plan_cycle_def
  by (auto simp: Let_def split: option.split
      intro!: sound_transaction sound_and_then update_cycles_sound)

subsection \<open>Tools\<close>

lemma change_install_sound: "sound s (fst (change_install p f lost cur action d now s))"
  unfolding change_install_def
  by (intro sound_transaction sound_and_then same_core_sound [OF update_installs_core])
    (auto simp: append_install_event_def intro: sound_frame)

lemma begin_tool_installation_sound: "sound s (fst (begin_tool_installation fresh n now s))"
  unfolding begin_tool_installation_def
  by (auto simp: Let_def append_install_event_def split: option.split intro!: sound_frame)

lemma update_tool_installation_sound:
  "sound s (fst (update_tool_installation cx nid expected u now s))"
  unfolding update_tool_installation_def
  by (auto simp: Let_def split: option.split intro!: change_install_sound)

lemma complete_tool_installation_sound:
  "sound s (fst (complete_tool_installation nid tree ep probe now s))"
  unfolding complete_tool_installation_def
  by (auto split: option.split intro!: change_install_sound)

lemma fail_tool_installation_sound: "sound s (fst (fail_tool_installation nid cause now s))"
  unfolding fail_tool_installation_def
  by (auto simp: Let_def split: option.split intro!: change_install_sound)

lemma create_tool_stage_grant_sound: "sound s (fst (create_tool_stage_grant fresh g now s))"
  unfolding create_tool_stage_grant_def
  by (auto simp: Let_def split: option.split intro!: sound_frame)

lemma reserve_tool_invocation_sound: "sound s (fst (reserve_tool_invocation fresh q now s))"
  unfolding reserve_tool_invocation_def
  by (auto simp: Let_def split: option.split
      intro!: sound_transaction sound_and_then update_one_attempt_sound set_external_step sound_frame)

lemma close_invocation_sound: "sound s (fst (close_invocation f lost cur k p now s))"
  unfolding close_invocation_def
  by (intro sound_transaction sound_and_then same_core_sound [OF update_invocations_core])
    (auto intro: sound_frame)

lemma complete_tool_invocation_sound: "sound s (fst (complete_tool_invocation qid out err code now s))"
  unfolding complete_tool_invocation_def
  by (auto split: option.split intro!: close_invocation_sound)

lemma fail_tool_invocation_sound: "sound s (fst (fail_tool_invocation qid cause now s))"
  unfolding fail_tool_invocation_def
  by (auto simp: Let_def split: option.split intro!: close_invocation_sound)

subsection \<open>Engineering jobs\<close>

lemma update_one_job_sound: "sound s (fst (update_one_job p f e s))"
  by (auto simp: update_one_job_def intro: sound_frame)

lemma link_artifacts_sound: "sound s (fst (link_artifacts j xs s))"
proof (induction xs arbitrary: s)
  case (Cons x xs)
  have "sound s (fst (link_artifacts j xs (s\<lparr>eng := e\<rparr>)))" for e
    by (rule sound_trans [OF sound_frame Cons.IH]) simp_all
  then show ?case by (auto simp: Let_def split: option.split)
qed simp

lemma begin_engineering_job_sound: "sound s (fst (begin_engineering_job cx fresh j now s))"
  unfolding begin_engineering_job_def
  by (auto simp: Let_def split: option.split
      intro!: sound_transaction sound_and_then update_one_attempt_sound set_external_step sound_frame)

lemma complete_engineering_job_sound:
  "sound s (fst (complete_engineering_job jid receipt xs now s))"
  unfolding complete_engineering_job_def
  by (auto split: option.split
      intro!: sound_transaction sound_and_then link_artifacts_sound update_one_job_sound sound_event)

lemma fail_engineering_job_sound: "sound s (fst (fail_engineering_job jid cause now s))"
  by (simp add: fail_engineering_job_def update_one_job_sound)

lemma authorize_each_sound: "sound s (fst (authorize_each rid aid now js s))"
proof (induction js arbitrary: s)
  case (Cons j js)
  have "sound s (fst (authorize_each rid aid now js (s\<lparr>eng := e\<rparr>)))" for e
    by (rule sound_trans [OF sound_frame Cons.IH]) simp_all
  then show ?case using Cons.IH by (simp add: Let_def)
qed simp

lemma authorize_reuses_sound:
  "sound s (fst (authorize_engineering_receipt_reuses rid aid js now s))"
  by (auto simp: authorize_engineering_receipt_reuses_def intro!: sound_transaction authorize_each_sound)

end
