(* ===== verification/Store_History.thy ===== *)
theory Store_History
  imports Store_Soundness
begin

section \<open>Histories of the store\<close>

text \<open>
  The step relation of the store, one rule per operation, and what holds of every history:
  the contract of a run never changes, a decision on an approval is final, a side-effect
  marker is never cleared, and no pending approval outlives the work it was asked for.
\<close>

subsection \<open>The operations meet the contract\<close>

interpretation create_run_op: store_operation "create_conversation_run fresh build rq now"
  for fresh build rq now by unfold_locales (rule create_run_sound)
interpretation create_planned_op: store_operation "create_planned_conversation_run fresh build rq now"
  for fresh build rq now by unfold_locales (rule create_planned_run_sound)
interpretation transition_op: store_operation "transition_run rid ex nx msg now"
  for rid ex nx msg now by unfold_locales (rule transition_run_sound)
interpretation quiesce_op: store_operation "quiesce_run rid requested msg now"
  for rid requested msg now by unfold_locales (rule quiesce_run_sound)
interpretation resume_op: store_operation "resume_run_after_approval rid prior now"
  for rid prior now by unfold_locales (rule resume_run_after_approval_sound)
interpretation cycle_op: store_operation "set_run_cycle rid ex c now"
  for rid ex c now by unfold_locales (rule set_run_cycle_sound)
interpretation succeed_op: store_operation "succeed_run rid ex doc now"
  for rid ex doc now by unfold_locales (rule succeed_run_sound)
interpretation succeed_document_op: store_operation "succeed_run_with_report_document rid ex doc now"
  for rid ex doc now by unfold_locales (rule succeed_with_document_sound)
interpretation begin_stage_op: store_operation "begin_stage fresh rid st ord thread input now"
  for fresh rid st ord thread input now by unfold_locales (rule begin_stage_sound)
interpretation stage_turn_op: store_operation "set_stage_turn aid thread turn now"
  for aid thread turn now by unfold_locales (rule set_stage_turn_sound)
interpretation mark_op: store_operation "mark_stage_external_side_effects aid now"
  for aid now by unfold_locales (rule mark_stage_sound)
interpretation mark_active_op: store_operation "mark_active_stage_external_side_effects aid now"
  for aid now by unfold_locales (rule mark_active_stage_sound)
interpretation complete_stage_op: store_operation "complete_stage aid out err now"
  for aid out err now by unfold_locales (rule complete_stage_sound)
interpretation fail_collect_op: store_operation "fail_collect_stage_and_quiesce_run aid out err now"
  for aid out err now by unfold_locales (rule fail_collect_sound)
interpretation complete_execution_op: store_operation "complete_stage_with_execution aid out x now"
  for aid out x now by unfold_locales (rule complete_stage_with_execution_sound)
interpretation publish_op: store_operation "publish_artifact fresh rid aid kind media hash sz now"
  for fresh rid aid kind media hash sz now by unfold_locales (rule publish_artifact_sound)
interpretation evidence_op:
    store_operation "capture_evidence fresh rid aid url title pub media hash sz origin now"
  for fresh rid aid url title pub media hash sz origin now
  by unfold_locales (rule capture_evidence_sound)
interpretation prepare_resume_op: store_operation "prepare_interrupted_run_for_resume rid now"
  for rid now by unfold_locales (rule prepare_interrupted_sound)
interpretation plan_retry_op: store_operation "prepare_plan_contract_retry rid aid now"
  for rid aid now by unfold_locales (rule prepare_plan_retry_sound)
interpretation create_approval_op: store_operation "create_approval cx fresh p now"
  for cx fresh p now by unfold_locales (rule create_approval_sound)
interpretation decide_op: store_operation "decide_approval pid d active now"
  for pid d active now by unfold_locales (rule decide_approval_sound)
interpretation recover_op: store_operation "recover_in_flight now"
  for now by unfold_locales (rule recover_in_flight_sound)
interpretation remediation_op: store_operation "prepare_research_remediation rid ex ord v now"
  for rid ex ord v now by unfold_locales (rule prepare_research_remediation_sound)
interpretation begin_cycle_op: store_operation "begin_plan_cycle fresh sid txt now"
  for fresh sid txt now by unfold_locales (rule begin_plan_cycle_sound)
interpretation complete_cycle_op: store_operation "complete_plan_cycle sid cid txt now"
  for sid cid txt now by unfold_locales (rule complete_plan_cycle_sound)
interpretation begin_install_op: store_operation "begin_tool_installation fresh n now"
  for fresh n now by unfold_locales (rule begin_tool_installation_sound)
interpretation update_install_op: store_operation "update_tool_installation cx nid st u now"
  for cx nid st u now by unfold_locales (rule update_tool_installation_sound)
interpretation complete_install_op: store_operation "complete_tool_installation nid tree ep probe now"
  for nid tree ep probe now by unfold_locales (rule complete_tool_installation_sound)
interpretation fail_install_op: store_operation "fail_tool_installation nid cause now"
  for nid cause now by unfold_locales (rule fail_tool_installation_sound)
interpretation grant_op: store_operation "create_tool_stage_grant fresh g now"
  for fresh g now by unfold_locales (rule create_tool_stage_grant_sound)
interpretation reserve_op: store_operation "reserve_tool_invocation fresh q now"
  for fresh q now by unfold_locales (rule reserve_tool_invocation_sound)
interpretation complete_call_op: store_operation "complete_tool_invocation qid out err code now"
  for qid out err code now by unfold_locales (rule complete_tool_invocation_sound)
interpretation fail_call_op: store_operation "fail_tool_invocation qid cause now"
  for qid cause now by unfold_locales (rule fail_tool_invocation_sound)
interpretation begin_job_op: store_operation "begin_engineering_job cx fresh j now"
  for cx fresh j now by unfold_locales (rule begin_engineering_job_sound)
interpretation complete_job_op: store_operation "complete_engineering_job jid rc xs now"
  for jid rc xs now by unfold_locales (rule complete_engineering_job_sound)
interpretation fail_job_op: store_operation "fail_engineering_job jid cause now"
  for jid cause now by unfold_locales (rule fail_engineering_job_sound)
interpretation reuse_op: store_operation "authorize_engineering_receipt_reuses rid aid js now"
  for rid aid js now by unfold_locales (rule authorize_reuses_sound)

subsection \<open>Steps\<close>

inductive store_step :: "db \<Rightarrow> db \<Rightarrow> bool" where
  create_run: "store_step s (fst (create_conversation_run fresh build rq now s))"
| create_planned: "store_step s (fst (create_planned_conversation_run fresh build rq now s))"
| transition: "store_step s (fst (transition_run rid ex nx msg now s))"
| quiesce: "store_step s (fst (quiesce_run rid requested msg now s))"
| resume: "store_step s (fst (resume_run_after_approval rid prior now s))"
| cycle: "store_step s (fst (set_run_cycle rid ex c now s))"
| succeed: "store_step s (fst (succeed_run rid ex doc now s))"
| succeed_document: "store_step s (fst (succeed_run_with_report_document rid ex d now s))"
| stage: "store_step s (fst (begin_stage fresh rid st ord thread input now s))"
| stage_turn: "store_step s (fst (set_stage_turn aid thread turn now s))"
| mark: "store_step s (fst (mark_stage_external_side_effects aid now s))"
| mark_active: "store_step s (fst (mark_active_stage_external_side_effects aid now s))"
| stage_done: "store_step s (fst (complete_stage aid out err now s))"
| stage_failed: "store_step s (fst (fail_collect_stage_and_quiesce_run aid out err now s))"
| stage_executed: "store_step s (fst (complete_stage_with_execution aid out x now s))"
| publish: "store_step s (fst (publish_artifact fresh rid aid kind media hash sz now s))"
| capture:
    "store_step s (fst (capture_evidence fresh rid aid url title pub media hash sz origin now s))"
| prepare_resume: "store_step s (fst (prepare_interrupted_run_for_resume rid now s))"
| plan_retry: "store_step s (fst (prepare_plan_contract_retry rid aid now s))"
| ask: "store_step s (fst (create_approval cx fresh p now s))"
| decide: "store_step s (fst (decide_approval pid d active now s))"
| recover: "store_step s (fst (recover_in_flight now s))"
| remediate: "store_step s (fst (prepare_research_remediation rid ex ord v now s))"
| plan: "store_step s (fst (begin_plan_cycle fresh sid txt now s))"
| plan_ready: "store_step s (fst (complete_plan_cycle sid cid txt now s))"
| install: "store_step s (fst (begin_tool_installation fresh n now s))"
| install_update: "store_step s (fst (update_tool_installation cx nid ist u now s))"
| install_ready: "store_step s (fst (complete_tool_installation nid tree ep probe now s))"
| install_fail: "store_step s (fst (fail_tool_installation nid cause now s))"
| grant: "store_step s (fst (create_tool_stage_grant fresh g now s))"
| reserve: "store_step s (fst (reserve_tool_invocation fresh q now s))"
| call_done: "store_step s (fst (complete_tool_invocation qid out err code now s))"
| call_fail: "store_step s (fst (fail_tool_invocation qid cause now s))"
| job: "store_step s (fst (begin_engineering_job cx fresh j now s))"
| job_done: "store_step s (fst (complete_engineering_job jid rc xs now s))"
| job_fail: "store_step s (fst (fail_engineering_job jid cause now s))"
| reuse: "store_step s (fst (authorize_engineering_receipt_reuses rid aid js now s))"

lemma store_step_sound: "store_step s t \<Longrightarrow> sound s t"
  by (induction rule: store_step.induct)
    (rule create_run_op.op_sound create_planned_op.op_sound transition_op.op_sound
      quiesce_op.op_sound resume_op.op_sound cycle_op.op_sound succeed_op.op_sound
      succeed_document_op.op_sound begin_stage_op.op_sound stage_turn_op.op_sound mark_op.op_sound
      mark_active_op.op_sound complete_stage_op.op_sound fail_collect_op.op_sound
      complete_execution_op.op_sound publish_op.op_sound evidence_op.op_sound
      prepare_resume_op.op_sound plan_retry_op.op_sound create_approval_op.op_sound
      decide_op.op_sound recover_op.op_sound remediation_op.op_sound begin_cycle_op.op_sound
      complete_cycle_op.op_sound begin_install_op.op_sound update_install_op.op_sound
      complete_install_op.op_sound fail_install_op.op_sound grant_op.op_sound reserve_op.op_sound
      complete_call_op.op_sound fail_call_op.op_sound begin_job_op.op_sound
      complete_job_op.op_sound fail_job_op.op_sound reuse_op.op_sound)+

lemma history_sound: "store_step\<^sup>*\<^sup>* s t \<Longrightarrow> sound s t"
  by (induction rule: rtranclp_induct) (auto intro: sound_trans store_step_sound)

lemma history_ok: "store_step\<^sup>*\<^sup>* s t \<Longrightarrow> store_ok s \<Longrightarrow> store_ok t \<and> evolves s t"
  using history_sound by (simp add: sound_def)

definition empty_store :: db where
  "empty_store =
     \<lparr>projects = [], sessions = [], runs = [], attempts = [], approvals = [], events = [],
      blobs = [], artifacts = [], evidence = [], remediations = [], receipts = [], cycles = [],
      kheads = [], eng = \<lparr>jobs = [], job_artifacts = [], reuses = []\<rparr>, indexes = [], mheads = [],
      tools = \<lparr>packages = [], installs = [], grants = [], invocations = [], install_events = []\<rparr>\<rparr>"

lemma empty_store_ok: "store_ok empty_store"
  by (simp add: store_ok_def distinct_keys_def owned_def pending_live_def empty_store_def)

end
