(* ===== verification/Store_Ledger.thy ===== *)
theory Store_Ledger
  imports Store_History
begin

section \<open>The ledgers: tools, solver jobs, plan cycles, remediations\<close>

text \<open>
  The invariant of the tables that record what may happen only once: tool invocations,
  solver jobs, plan cycles and remediation cycles. Most operations do not write these tables;
  \<open>frame\<close> says so. The others check the invariant's clauses in the transaction that writes.
\<close>

definition marked :: "db \<Rightarrow> string \<Rightarrow> bool" where
  "marked s aid \<longleftrightarrow> (\<exists>a \<in> set (attempts s). a_id a = aid \<and> a_external a)"

definition installs_ok :: "db \<Rightarrow> bool" where
  "installs_ok s \<longleftrightarrow> distinct (map n_id (installs (tools s))) \<and> one_live (installs (tools s)) \<and>
     (\<forall>n \<in> set (installs (tools s)). install_checks s n)"

definition calls_ok :: "db \<Rightarrow> bool" where
  "calls_ok s \<longleftrightarrow> distinct (map q_id (invocations (tools s))) \<and>
     distinct (map call_key (invocations (tools s))) \<and>
     distinct (map call_contract (invocations (tools s))) \<and>
     (\<forall>q \<in> set (invocations (tools s)). marked s (q_attempt q) \<and>
        (q_state q = CallRunning \<longrightarrow> q_stdout q = [] \<and> q_stderr q = []))"

definition jobs_ok :: "db \<Rightarrow> bool" where
  "jobs_ok s \<longleftrightarrow> distinct (map j_id (jobs (eng s))) \<and> distinct (map job_key (jobs (eng s))) \<and>
     running_jobs s \<le> 2 \<and> (\<forall>j \<in> set (jobs (eng s)). marked s (j_attempt j))"

definition cycles_ok :: "db \<Rightarrow> bool" where
  "cycles_ok s \<longleftrightarrow> distinct (map c_id (cycles s)) \<and> one_current (cycles s) \<and>
     distinct_runs (cycles s) \<and> (\<forall>c \<in> set (cycles s). cycle_checks c)"

definition remediations_ok :: "db \<Rightarrow> bool" where
  "remediations_ok s \<longleftrightarrow> distinct (map (\<lambda>m. (m_run m, m_cycle m)) (remediations s)) \<and>
     distinct (map m_review (remediations s)) \<and>
     (\<forall>m \<in> set (remediations s). 1 \<le> m_cycle m \<and> m_cycle m \<le> 3)"

definition ledger_ok :: "db \<Rightarrow> bool" where
  "ledger_ok s \<longleftrightarrow> installs_ok s \<and> calls_ok s \<and> jobs_ok s \<and> cycles_ok s \<and> remediations_ok s"

subsection \<open>Operations that leave the ledgers alone\<close>

definition frame :: "db \<Rightarrow> db \<Rightarrow> bool" where
  "frame s t \<longleftrightarrow> tools t = tools s \<and> eng t = eng s \<and> cycles t = cycles s \<and>
     remediations t = remediations s \<and> b_hash ` set (blobs s) \<subseteq> b_hash ` set (blobs t)"

interpretation frame_steps: state_preorder frame
  by unfold_locales (auto simp: frame_def)

lemma frame_same:
  assumes "tools t = tools s" and "eng t = eng s" and "cycles t = cycles s"
    and "remediations t = remediations s" and "blobs t = blobs s"
  shows "frame s t"
  using assms by (simp add: frame_def)

lemma frame_event: "frame s t \<Longrightarrow> frame s (append_event t rid k p now)"
  by (simp add: frame_def)

lemma frame_blob: "frame s (insert_blob s h n m now)"
  by (auto simp: frame_def insert_blob_def)

lemma frame_update_run: "frame s (fst (update_one_run p f e s))"
  by (simp add: update_one_run_def frame_def)

lemma frame_update_attempt: "frame s (fst (update_one_attempt p f e s))"
  by (simp add: update_one_attempt_def Let_def frame_def)

lemma frame_update_approval: "frame s (fst (update_one_approval p f e s))"
  by (simp add: update_one_approval_def frame_def)

lemma frame_retire_each: "frame s (fst (retire_each rid reason now is s))"
proof (induction "is" arbitrary: s)
  case (Cons i "is")
  show ?case
    unfolding retire_each.simps
    by (rule frame_steps.bind [OF frame_update_approval],
        rule frame_steps.steps [OF frame_event [OF frame_steps.same] Cons.IH])
qed (simp add: frame_steps.same)

lemma frame_retire: "frame s (fst (retire_pending_approvals rid reason now s))"
  by (simp add: retire_pending_approvals_def frame_retire_each)

lemmas frame_rules = frame_steps.same frame_event frame_update_run frame_update_attempt
  frame_update_approval frame_retire

lemma frame_transition: "frame s (fst (transition_run rid ex nx msg now s))"
  unfolding transition_run_def
  by (auto split: option.split intro!: frame_steps.rollback frame_steps.bind frame_rules)

lemma frame_quiesce_transaction: "frame s (fst (quiesce_run_transaction cur requested msg now s))"
  unfolding quiesce_run_transaction_def Let_def
  by (auto split: option.split intro!: frame_steps.bind frame_rules)

lemma frame_quiesce: "frame s (fst (quiesce_run rid requested msg now s))"
  unfolding quiesce_run_def
  by (auto split: option.split intro!: frame_steps.rollback frame_quiesce_transaction frame_steps.same)

lemma frame_resume: "frame s (fst (resume_run_after_approval rid prior now s))"
  unfolding resume_run_after_approval_def
  by (auto split: option.split intro!: frame_steps.rollback frame_steps.bind frame_rules)

lemma frame_cycle: "frame s (fst (set_run_cycle rid ex c now s))"
  unfolding set_run_cycle_def
  by (auto split: option.split intro!: frame_steps.bind frame_rules)

lemma frame_publish_document: "frame s (fst (publish_document rid aid doc now s))"
proof -
  have "frame s (append_event (insert_blob s h n m now\<lparr>artifacts := fs\<rparr>) rid k p now)" for h n m fs k p
    using frame_blob [of s h n m now] by (auto simp: frame_def)
  then show ?thesis
    by (auto simp: publish_document_def Let_def split: option.split intro: frame_steps.same)
qed

lemma frame_adopt: "frame s (fst (adopt_results cur rep now s))"
  by (simp add: adopt_results_def Let_def frame_def)

lemma frame_succeed: "frame s (fst (succeed_run rid ex doc now s))"
  unfolding succeed_run_def
  by (auto split: option.split
      intro!: frame_steps.rollback frame_steps.bind frame_rules frame_publish_document frame_adopt)

lemma frame_succeed_document: "frame s (fst (succeed_run_with_report_document rid ex d now s))"
  by (simp add: succeed_run_with_report_document_def frame_succeed frame_steps.same)

lemma frame_begin_stage: "frame s (fst (begin_stage fresh rid st ord thread input now s))"
  by (simp add: begin_stage_def Let_def frame_def)

lemma frame_stage_updates:
  "frame s (fst (set_stage_turn aid thread turn now s))"
  "frame s (fst (mark_stage_external_side_effects aid now s))"
  "frame s (fst (complete_stage aid out err now s))"
  by (simp_all add: set_stage_turn_def mark_stage_external_side_effects_def complete_stage_def
      frame_update_attempt)

lemma frame_mark_active: "frame s (fst (mark_active_stage_external_side_effects aid now s))"
  unfolding mark_active_stage_external_side_effects_def
  by (auto split: option.split intro!: frame_steps.rollback frame_rules)

lemma frame_fail_collect: "frame s (fst (fail_collect_stage_and_quiesce_run aid out err now s))"
  unfolding fail_collect_stage_and_quiesce_run_def
  by (auto split: option.split
      intro!: frame_steps.rollback frame_steps.bind frame_rules frame_quiesce_transaction)

lemma frame_complete_execution: "frame s (fst (complete_stage_with_execution aid out x now s))"
proof -
  have "frame s (fst (update_one_attempt p f e (s\<lparr>receipts := rs\<rparr>)))" for p f e rs
    by (rule frame_steps.steps [OF frame_same frame_update_attempt]) simp_all
  then show ?thesis
    by (auto simp: complete_stage_with_execution_def intro: frame_steps.rollback frame_steps.same)
qed

lemma frame_publish: "frame s (fst (publish_artifact fresh rid aid kind media hash sz now s))"
proof -
  have "frame s (append_event (insert_blob s h n m now\<lparr>artifacts := fs\<rparr>) rid k p now)" for h n m fs k p
    using frame_blob [of s h n m now] by (auto simp: frame_def)
  then show ?thesis
    by (auto simp: publish_artifact_def Let_def split: option.split intro: frame_steps.same)
qed

lemma frame_capture:
  "frame s (fst (capture_evidence fresh rid aid url title pub media hash sz origin now s))"
proof -
  have "frame s (append_event (insert_blob s h n m now\<lparr>evidence := vs\<rparr>) rid k p now)" for h n m vs k p
    using frame_blob [of s h n m now] by (auto simp: frame_def)
  then show ?thesis
    by (auto simp: capture_evidence_def Let_def split: option.split intro: frame_steps.same)
qed

lemma frame_archive_each: "frame s (fst (archive_each rid now as s))"
proof (induction "as" arbitrary: s)
  case (Cons a "as")
  show ?case
    unfolding archive_each.simps
    by (intro frame_steps.both frame_steps.bind frame_update_attempt)
      (auto intro: frame_steps.same frame_steps.steps [OF frame_event [OF frame_steps.same] Cons.IH])
qed (simp add: frame_steps.same)

lemma frame_prepare_resume: "frame s (fst (prepare_interrupted_run_for_resume rid now s))"
  unfolding prepare_interrupted_run_for_resume_def
  by (auto split: option.split intro!: frame_steps.rollback frame_archive_each frame_steps.same)

lemma frame_plan_retry: "frame s (fst (prepare_plan_contract_retry rid aid now s))"
  unfolding prepare_plan_contract_retry_def
  by (auto split: option.split intro!: frame_steps.rollback frame_steps.bind frame_rules)

lemma frame_ask: "frame s (fst (create_approval cx fresh p now s))"
  by (auto simp: create_approval_def Let_def frame_def split: option.split)

lemma frame_retire_stale: "frame s (fst (retire_stale p reason now s))"
proof -
  let ?m = "update_one_approval (\<lambda>q. p_id q = p_id p \<and> p_status q = Pending) (deny_row now)
      (Errorf ''stale approval retirement lost concurrency race'') s"
  have "frame s (fst ?m)" by (rule frame_update_approval)
  then show ?thesis
    unfolding retire_stale_def by (cases ?m; cases "snd ?m") (auto intro: frame_event frame_steps.same)
qed

lemma frame_record: "frame s (fst (record_decision p d now s))"
  unfolding record_decision_def by (intro frame_steps.bind frame_rules) (auto intro: frame_rules)

lemma frame_decide: "frame s (fst (decide_approval pid d active now s))"
  unfolding decide_approval_def
  by (auto split: option.split
      intro!: frame_steps.rollback frame_steps.bind frame_rules frame_record frame_retire_stale)

lemma frame_create_run:
  "rq_cycle rq = [] \<Longrightarrow> frame s (fst (create_conversation_run fresh build rq now s))"
  by (auto simp: create_conversation_run_def Let_def split: option.split sum.split
      intro!: frame_event frame_same frame_steps.same)

subsection \<open>The invariant over time\<close>

lemma marked_later: "evolves s t \<Longrightarrow> marked s aid \<Longrightarrow> marked t aid"
  using attempt_log.member_later
  by (fastforce simp: evolves_def marked_def attempt_step_def)

lemma known_blob_later:
  "b_hash ` set (blobs s) \<subseteq> b_hash ` set (blobs t) \<Longrightarrow> known_blob s h \<Longrightarrow> known_blob t h"
  by (auto simp: known_blob_def)

lemma installs_later:
  "installs (tools t) = installs (tools s) \<Longrightarrow> b_hash ` set (blobs s) \<subseteq> b_hash ` set (blobs t) \<Longrightarrow>
     installs_ok s \<Longrightarrow> installs_ok t"
  using known_blob_later [of s t] by (auto simp: installs_ok_def install_checks_def)

lemma calls_later:
  "invocations (tools t) = invocations (tools s) \<Longrightarrow> evolves s t \<Longrightarrow> calls_ok s \<Longrightarrow> calls_ok t"
  using marked_later [of s t] by (auto simp: calls_ok_def)

lemma jobs_later: "jobs (eng t) = jobs (eng s) \<Longrightarrow> evolves s t \<Longrightarrow> jobs_ok s \<Longrightarrow> jobs_ok t"
  using marked_later [of s t] by (auto simp: jobs_ok_def running_jobs_def)

lemma cycles_later: "cycles t = cycles s \<Longrightarrow> cycles_ok s \<Longrightarrow> cycles_ok t"
  by (simp add: cycles_ok_def)

lemma remediations_later: "remediations t = remediations s \<Longrightarrow> remediations_ok s \<Longrightarrow> remediations_ok t"
  by (simp add: remediations_ok_def)

lemmas ledger_later = installs_later calls_later jobs_later cycles_later remediations_later

lemma frame_ledger: "frame s t \<Longrightarrow> evolves s t \<Longrightarrow> ledger_ok s \<Longrightarrow> ledger_ok t"
  by (auto simp: frame_def ledger_ok_def intro: ledger_later)

definition kept :: "db \<Rightarrow> db \<Rightarrow> bool" where
  "kept s t \<longleftrightarrow> (store_ok s \<and> ledger_ok s \<longrightarrow> ledger_ok t)"

lemma kept_same [simp]: "kept s s"
  by (simp add: kept_def)

lemma kept_frame: "frame s t \<Longrightarrow> sound s t \<Longrightarrow> kept s t"
  by (auto simp: kept_def sound_def intro: frame_ledger)

text \<open>An operation that fails leaves the state; one that commits is examined where it commits.\<close>

lemma kept_when_ok:
  assumes "\<And>t e. m = (t, Inl e) \<Longrightarrow> t = s"
    and "\<And>t x. m = (t, Inr x) \<Longrightarrow> store_ok s \<Longrightarrow> ledger_ok s \<Longrightarrow> evolves s t \<Longrightarrow> ledger_ok t"
    and "sound s (fst m)"
  shows "kept s (fst m)"
  using assms by (cases m; cases "snd m") (auto simp: kept_def sound_def)

subsection \<open>Installations\<close>

lemma update_installs_ok:
  assumes "installs_ok s" and "update_installs p f s = (t, Inr k)" and "\<And>n. n_id (f n) = n_id n"
  shows "installs_ok t"
proof -
  have t: "t = s\<lparr>tools := (tools s)\<lparr>installs := update_where p f (installs (tools s))\<rparr>\<rparr>"
    and live: "one_live (update_where p f (installs (tools s)))"
    and chk: "\<forall>n \<in> set (installs (tools s)). p n \<longrightarrow> install_checks s (f n)"
    using assms(2) by (auto simp: update_installs_def Let_def list_ex_iff split: if_splits)
  have same: "install_checks t n = install_checks s n" for n
    by (simp add: t install_checks_def known_blob_def)
  have "\<forall>n \<in> set (installs (tools t)). install_checks t n"
    using assms(1) chk unfolding same by (auto simp: t set_update_where installs_ok_def)
  then show ?thesis
    using assms(1) live map_key_update_where [of n_id f p "installs (tools s)"] assms(3)
    by (auto simp: installs_ok_def t)
qed

lemma update_installs_rest:
  "update_installs p f s = (t, r) \<Longrightarrow> eng t = eng s \<and> cycles t = cycles s \<and>
     remediations t = remediations s \<and> invocations (tools t) = invocations (tools s) \<and> blobs t = blobs s"
  by (auto simp: update_installs_def Let_def split: if_splits)

lemma append_install_event_rest [simp]:
  "installs_ok (append_install_event s n a d now) = installs_ok s"
  "eng (append_install_event s n a d now) = eng s"
  "cycles (append_install_event s n a d now) = cycles s"
  "remediations (append_install_event s n a d now) = remediations s"
  "blobs (append_install_event s n a d now) = blobs s"
  "invocations (tools (append_install_event s n a d now)) = invocations (tools s)"
  by (simp_all add: append_install_event_def installs_ok_def install_checks_def known_blob_def)

lemma change_install_kept:
  assumes id: "\<And>n. n_id (f n) = n_id n"
  shows "kept s (fst (change_install p f lost cur action d now s))"
proof (rule kept_when_ok [OF _ _ change_install_sound])
  show "t = s" if "change_install p f lost cur action d now s = (t, Inl e)" for t e
    using that transaction_Inl unfolding change_install_def by blast
  fix t x assume m: "change_install p f lost cur action d now s = (t, Inr x)"
    and ok: "ledger_ok s" "evolves s t"
  obtain u k where u: "update_installs p f s = (u, Inr k)"
    and t: "t = append_install_event u (f cur) action d now"
    using m by (auto simp: change_install_def store_results split: if_splits)
  have "installs_ok t" using ok update_installs_ok [OF _ u id] by (simp add: t ledger_ok_def)
  then show "ledger_ok t"
    using ok update_installs_rest [OF u] by (auto simp: ledger_ok_def t intro: ledger_later)
qed

lemma update_tool_installation_kept: "kept s (fst (update_tool_installation cx nid st u now s))"
  unfolding update_tool_installation_def
  by (auto simp: Let_def merge_update_def split: option.split intro!: change_install_kept)

lemma complete_tool_installation_kept:
  "kept s (fst (complete_tool_installation nid tree ep probe now s))"
  unfolding complete_tool_installation_def
  by (auto simp: ready_row_def split: option.split intro!: change_install_kept)

lemma fail_tool_installation_kept: "kept s (fst (fail_tool_installation nid cause now s))"
  unfolding fail_tool_installation_def
  by (auto simp: Let_def closed_install_def split: option.split intro!: change_install_kept)

lemma begin_tool_installation_known:
  "begin_tool_installation fresh n now s = (t, Inr (q, False)) \<Longrightarrow> t = s"
  by (auto simp: begin_tool_installation_def Let_def split: if_splits option.splits)

lemma begin_tool_installation_new:
  assumes "begin_tool_installation fresh n now s = (t, Inr (q, True))"
  shows "q = fresh_install fresh now n" and "n_id q \<notin> n_id ` set (installs (tools s))"
    and "one_live (installs (tools s) @ [q])"
    and "t = append_install_event (s\<lparr>tools := (tools s)\<lparr>installs := installs (tools s) @ [q]\<rparr>\<rparr>)
         q ''begun'' (RawJson ''{}'') now"
  using assms by (auto simp: begin_tool_installation_def Let_def split: if_splits option.splits)

lemma begin_tool_installation_kept: "kept s (fst (begin_tool_installation fresh n now s))"
proof (rule kept_when_ok [OF _ _ begin_tool_installation_sound])
  show "t = s" if "begin_tool_installation fresh n now s = (t, Inl e)" for t e
    using that by (auto simp: begin_tool_installation_def Let_def split: if_splits option.splits)
  fix t x assume m: "begin_tool_installation fresh n now s = (t, Inr x)"
    and ok: "ledger_ok s" "evolves s t"
  obtain q b where x: "x = (q, b)" by (cases x)
  show "ledger_ok t"
  proof (cases b)
    case False
    then show ?thesis using begin_tool_installation_known [of fresh n now s t q] m ok(1) x by simp
  next
    case True
    note r = begin_tool_installation_new [OF m [unfolded x True [THEN iffD2 [OF eq_True]]]]
    have q: "install_checks s q" by (simp add: r(1) fresh_install_def install_checks_def known_blob_def)
    let ?u = "s\<lparr>tools := (tools s)\<lparr>installs := installs (tools s) @ [q]\<rparr>\<rparr>"
    have same: "install_checks ?u n = install_checks s n" for n
      by (simp add: install_checks_def known_blob_def)
    have old: "installs_ok s" using ok(1) by (simp add: ledger_ok_def)
    have "installs_ok ?u"
      using old q r(2,3) by (simp add: installs_ok_def same)
    then have "installs_ok t" by (simp add: r(4))
    then show ?thesis
      using ok calls_later [of t s] jobs_later [of t s] cycles_later [of t s] remediations_later [of t s]
      by (simp add: r(4) ledger_ok_def)
  qed
qed

subsection \<open>Grants and invocations\<close>

lemma grant_kept: "kept s (fst (create_tool_stage_grant fresh g now s))"
proof (rule kept_when_ok [OF _ _ create_tool_stage_grant_sound])
  show "t = s" if "create_tool_stage_grant fresh g now s = (t, Inl e)" for t e
    using that by (auto simp: create_tool_stage_grant_def Let_def split: if_splits option.splits)
  fix t x assume m: "create_tool_stage_grant fresh g now s = (t, Inr x)"
    and ok: "ledger_ok s" "evolves s t"
  have "installs (tools t) = installs (tools s)" "invocations (tools t) = invocations (tools s)"
    "eng t = eng s" "cycles t = cycles s" "remediations t = remediations s" "blobs t = blobs s"
    using m by (auto simp: create_tool_stage_grant_def Let_def split: if_splits option.splits)
  with ok show "ledger_ok t" by (auto simp: ledger_ok_def intro: ledger_later)
qed

lemma find_attempt_in: "find_attempt s aid = Some a \<Longrightarrow> a \<in> set (attempts s) \<and> a_id a = aid"
  unfolding find_attempt_def by (rule select_key_SomeD)

lemma mark_result:
  assumes "update_one_attempt p (set_external now) e s = (t, Inr x)" and "\<And>a. p a \<Longrightarrow> a_id a = aid"
  shows "marked t aid \<and> tools t = tools s \<and> eng t = eng s \<and> cycles t = cycles s \<and>
    remediations t = remediations s \<and> blobs t = blobs s \<and> runs t = runs s \<and> projects t = projects s"
proof -
  have t: "t = s\<lparr>attempts := update_where p (set_external now) (attempts s)\<rparr>"
    and "affected p (attempts s) = 1"
    using assms(1) by (auto simp: update_one_attempt_def Let_def split: if_splits)
  then obtain a where "a \<in> set (attempts s)" "p a"
    using affected_pos [of p "attempts s"] by auto
  then have "marked t aid"
    using assms(2) by (auto simp: t marked_def set_update_where set_external_def intro!: bexI [of _ "set_external now a"])
  with t show ?thesis by simp
qed

lemma reserve_result:
  assumes "reserve_tool_invocation fresh request now s = (t, Inr (q, b))"
  shows "\<not> b \<and> t = s \<and> q \<in> set (invocations (tools s)) \<and>
      (call_key q = call_key request \<or> call_contract q = call_contract request) \<or>
    b \<and> q = running_row fresh now request \<and> (\<exists>s1 a r.
      invocation_scope s request = Some (a, r) \<and> a_status a = InProgress \<and> \<not> is_terminal (r_status r) \<and>
      update_one_attempt (\<lambda>c. a_id c = q_attempt q \<and> a_run c = q_run q \<and> a_status c = InProgress)
        (set_external now) (Errorf ''tool invocation stage changed before reservation'') s = (s1, Inr ()) \<and>
      invocation_guard s1 q \<and>
      t = append_event (s1\<lparr>tools := (tools s1)\<lparr>invocations := invocations (tools s1) @ [q]\<rparr>\<rparr>)
        (q_run q) ''tool.invocation.started''
        [(''invocation_id'', JStr (q_id q)), (''stage_attempt_id'', JStr (q_attempt q)),
         (''package_id'', JStr (q_package q)), (''tool'', JStr (q_tool q))] now)"
proof (cases "select_key call_key (invocations (tools s)) (call_key request)")
  case (Some e)
  then show ?thesis
    using assms select_key_SomeD [OF Some]
    by (auto simp: reserve_tool_invocation_def split: if_splits)
next
  case k: None
  show ?thesis
  proof (cases "select_key call_contract (invocations (tools s)) (call_contract request)")
    case (Some e)
    then show ?thesis
      using assms k select_key_SomeD [OF Some]
      by (auto simp: reserve_tool_invocation_def split: if_splits)
  next
    case None
    then show ?thesis
      using assms k
      by (cases "invocation_scope s request")
        (auto simp: reserve_tool_invocation_def Let_def store_results split: if_splits)
  qed
qed

lemma reserve_kept: "kept s (fst (reserve_tool_invocation fresh request now s))"
proof (rule kept_when_ok [OF _ _ reserve_tool_invocation_sound])
  show "t = s" if "reserve_tool_invocation fresh request now s = (t, Inl e)" for t e
    using that by (auto simp: reserve_tool_invocation_def Let_def dest: transaction_Inl
        split: if_splits option.splits)
  fix t x assume m: "reserve_tool_invocation fresh request now s = (t, Inr x)"
    and ok: "ledger_ok s" "evolves s t"
  obtain q b where x: "x = (q, b)" by (cases x)
  show "ledger_ok t"
  proof (cases b)
    case False
    then show ?thesis using reserve_result [OF m [unfolded x]] ok by simp
  next
    case True
    then obtain s1 where q: "q = running_row fresh now request"
      and u: "update_one_attempt (\<lambda>c. a_id c = q_attempt q \<and> a_run c = q_run q \<and> a_status c = InProgress)
        (set_external now) (Errorf ''tool invocation stage changed before reservation'') s = (s1, Inr ())"
      and g: "invocation_guard s1 q"
      and t: "t = append_event (s1\<lparr>tools := (tools s1)\<lparr>invocations := invocations (tools s1) @ [q]\<rparr>\<rparr>)
        (q_run q) ''tool.invocation.started''
        [(''invocation_id'', JStr (q_id q)), (''stage_attempt_id'', JStr (q_attempt q)),
         (''package_id'', JStr (q_package q)), (''tool'', JStr (q_tool q))] now"
      using reserve_result [OF m [unfolded x]] by auto
    have s1: "marked s1 (q_attempt q)" "tools s1 = tools s" "eng s1 = eng s" "cycles s1 = cycles s"
      "remediations s1 = remediations s" "blobs s1 = blobs s"
      using mark_result [OF u, of "q_attempt q"] by auto
    have mk: "marked t k = marked s1 k" for k by (simp add: t marked_def)
    have "calls_ok t"
      unfolding calls_ok_def
    proof (intro conjI ballI)
      have inv: "invocations (tools t) = invocations (tools s) @ [q]" by (simp add: t s1)
      have fresh: "q_id q \<notin> q_id ` set (invocations (tools s))"
        "call_key q \<notin> call_key ` set (invocations (tools s))"
        "call_contract q \<notin> call_contract ` set (invocations (tools s))"
        using g by (simp_all add: invocation_guard_def s1)
      have old: "calls_ok s" using ok by (simp add: ledger_ok_def)
      show "distinct (map q_id (invocations (tools t)))" using old fresh by (simp add: inv calls_ok_def)
      show "distinct (map call_key (invocations (tools t)))" using old fresh by (simp add: inv calls_ok_def)
      show "distinct (map call_contract (invocations (tools t)))"
        using old fresh by (simp add: inv calls_ok_def)
      fix c assume "c \<in> set (invocations (tools t))"
      then consider "c \<in> set (invocations (tools s))" | "c = q" by (auto simp: inv)
      then show "marked t (q_attempt c)" "q_state c = CallRunning \<longrightarrow> q_stdout c = [] \<and> q_stderr c = []"
        using old marked_later [OF ok(2)] s1(1)
        by (cases; auto simp: calls_ok_def mk q running_row_def)+
    qed
    then show ?thesis using ok s1 by (auto simp: t ledger_ok_def intro: ledger_later)
  qed
qed

end
