(* ===== verification/Ledger_History.thy ===== *)
theory Ledger_History
  imports Store_Ledger
begin

section \<open>Histories of the ledgers\<close>

text \<open>
  The operations that do write the ledgers, and the result for every history: the invariant
  \<open>ledger_ok\<close> is kept by every step of the store.
\<close>

definition keeps :: "db \<Rightarrow> db \<Rightarrow> bool" where
  "keeps s t \<longleftrightarrow> (ledger_ok s \<longrightarrow> ledger_ok t)"

interpretation keeps_steps: state_preorder keeps
  by unfold_locales (auto simp: keeps_def)

lemma keeps_kept: "keeps s t \<Longrightarrow> kept s t"
  by (simp add: keeps_def kept_def)

lemma marked_kept: "attempts t = attempts s \<Longrightarrow> marked t k = marked s k"
  by (simp add: marked_def)

text \<open>The clauses of the invariant read only their own table and the markers.\<close>

lemma calls_same:
  "invocations (tools t) = invocations (tools s) \<Longrightarrow> attempts t = attempts s \<Longrightarrow> calls_ok t = calls_ok s"
  by (simp add: calls_ok_def marked_def)

lemma jobs_same: "jobs (eng t) = jobs (eng s) \<Longrightarrow> attempts t = attempts s \<Longrightarrow> jobs_ok t = jobs_ok s"
  by (simp add: jobs_ok_def marked_def running_jobs_def)

lemma installs_same:
  "installs (tools t) = installs (tools s) \<Longrightarrow> blobs t = blobs s \<Longrightarrow> installs_ok t = installs_ok s"
  by (simp add: installs_ok_def install_checks_def known_blob_def)

lemma cycles_same: "cycles t = cycles s \<Longrightarrow> cycles_ok t = cycles_ok s"
  by (simp add: cycles_ok_def)

lemma remediations_same: "remediations t = remediations s \<Longrightarrow> remediations_ok t = remediations_ok s"
  by (simp add: remediations_ok_def)

lemmas ledger_same = calls_same jobs_same installs_same cycles_same remediations_same

lemma keeps_event: "keeps s t \<Longrightarrow> keeps s (append_event t rid k p now)"
  using ledger_same [of "append_event t rid k p now" t] by (simp add: keeps_def ledger_ok_def)

lemma keeps_install_event: "keeps s (append_install_event s n a d now)"
proof -
  let ?t = "append_install_event s n a d now"
  have "attempts ?t = attempts s" by (simp add: append_install_event_def)
  then show ?thesis using ledger_same [of ?t s] by (simp add: keeps_def ledger_ok_def)
qed

lemma keeps_installs:
  assumes "\<And>n. n_id (f n) = n_id n"
  shows "keeps s (fst (update_installs p f s))"
proof (cases "update_installs p f s")
  case (Pair t r)
  have at: "attempts t = attempts s" and bad: "\<And>e. r = Inl e \<Longrightarrow> t = s"
    using Pair by (auto simp: update_installs_def Let_def split: if_splits)
  show ?thesis
  proof (cases r)
    case (Inl e)
    then show ?thesis using bad Pair by (simp add: keeps_def)
  next
    case (Inr k)
    then show ?thesis
      using update_installs_ok [OF _ Pair [unfolded Inr] assms] update_installs_rest [OF Pair] at
        ledger_same [of t s] Pair
      by (simp add: keeps_def ledger_ok_def)
  qed
qed

definition same_call :: "(invocation_row \<Rightarrow> invocation_row) \<Rightarrow> bool" where
  "same_call f \<longleftrightarrow> (\<forall>q. q_id (f q) = q_id q \<and> call_key (f q) = call_key q \<and>
     call_contract (f q) = call_contract q \<and> q_attempt (f q) = q_attempt q)"

lemma same_call_closed: "same_call (succeeded_call out err code now)" "same_call (ended_call st msg now)"
  by (simp_all add: same_call_def succeeded_call_def ended_call_def call_key_def call_contract_def)

lemma keeps_invocations:
  assumes f: "same_call f"
  shows "keeps s (fst (update_invocations p f s))"
proof (cases "list_ex (\<lambda>q. p q \<and> \<not> call_close_ok s q (f q)) (invocations (tools s))")
  case True
  then show ?thesis by (simp add: update_invocations_def keeps_def)
next
  case False
  let ?rows = "update_where p f (invocations (tools s))"
  let ?t = "s\<lparr>tools := (tools s)\<lparr>invocations := ?rows\<rparr>\<rparr>"
  have upd: "fst (update_invocations p f s) = ?t" using False by (simp add: update_invocations_def Let_def)
  have "calls_ok ?t" if old: "calls_ok s"
    unfolding calls_ok_def
  proof (intro conjI ballI)
    show "distinct (map q_id (invocations (tools ?t)))"
      using old f map_key_update_where [of q_id f p] by (simp add: calls_ok_def same_call_def)
    show "distinct (map call_key (invocations (tools ?t)))"
      using old f map_key_update_where [of call_key f p] by (simp add: calls_ok_def same_call_def)
    show "distinct (map call_contract (invocations (tools ?t)))"
      using old f map_key_update_where [of call_contract f p] by (simp add: calls_ok_def same_call_def)
    fix c assume "c \<in> set (invocations (tools ?t))"
    then obtain q where q: "q \<in> set (invocations (tools s))" and c: "c = (if p q then f q else q)"
      by (auto simp: set_update_where)
    have ends: "q_state (f q) \<noteq> CallRunning" if "p q"
      using False q that by (auto simp: list_ex_iff call_close_ok_def)
    have m: "marked ?t k = marked s k" for k by (simp add: marked_def)
    show "marked ?t (q_attempt c)" using old q f by (simp add: c m calls_ok_def same_call_def)
    show "q_state c = CallRunning \<longrightarrow> q_stdout c = [] \<and> q_stderr c = []"
      using old q ends by (auto simp: c calls_ok_def)
  qed
  then show ?thesis
    unfolding upd keeps_def ledger_ok_def
    using jobs_same [of ?t s] installs_same [of ?t s] cycles_same [of ?t s] remediations_same [of ?t s]
    by simp
qed

lemma close_invocation_kept:
  "same_call f \<Longrightarrow> kept s (fst (close_invocation f lost cur kind payload now s))"
  unfolding close_invocation_def
  by (intro keeps_kept keeps_steps.rollback keeps_steps.bind keeps_invocations)
    (auto intro: keeps_event keeps_steps.same)

lemma complete_tool_invocation_kept: "kept s (fst (complete_tool_invocation qid out err code now s))"
  unfolding complete_tool_invocation_def
  by (auto split: option.split intro!: close_invocation_kept same_call_closed)

lemma fail_tool_invocation_kept: "kept s (fst (fail_tool_invocation qid cause now s))"
  unfolding fail_tool_invocation_def
  by (auto simp: Let_def split: option.split intro!: close_invocation_kept same_call_closed)

subsection \<open>Solver jobs\<close>

lemma running_update_le:
  assumes "\<And>j. p j \<Longrightarrow> j_status (f j) \<noteq> JobRunning"
  shows "affected (\<lambda>j. j_status j = JobRunning) (update_where p f js) \<le>
    affected (\<lambda>j. j_status j = JobRunning) js"
  using assms by (induction js) (auto simp: affected_def)

definition ends_job :: "(job_row \<Rightarrow> job_row) \<Rightarrow> bool" where
  "ends_job f \<longleftrightarrow> (\<forall>j. j_id (f j) = j_id j \<and> job_key (f j) = job_key j \<and>
     j_attempt (f j) = j_attempt j \<and> j_status (f j) \<noteq> JobRunning)"

lemma ends_job_closed:
  "ends_job (succeeded_job receipt now)" "st \<noteq> JobRunning \<Longrightarrow> ends_job (ended_job st msg now)"
  by (simp_all add: ends_job_def succeeded_job_def ended_job_def job_key_def)

lemma keeps_jobs:
  assumes f: "ends_job f"
  shows "keeps s (s\<lparr>eng := (eng s)\<lparr>jobs := update_where p f (jobs (eng s))\<rparr>\<rparr>)"
proof -
  let ?t = "s\<lparr>eng := (eng s)\<lparr>jobs := update_where p f (jobs (eng s))\<rparr>\<rparr>"
  have "jobs_ok ?t" if old: "jobs_ok s"
    unfolding jobs_ok_def
  proof (intro conjI ballI)
    show "distinct (map j_id (jobs (eng ?t)))"
      using old f map_key_update_where [of j_id f p] by (simp add: jobs_ok_def ends_job_def)
    show "distinct (map job_key (jobs (eng ?t)))"
      using old f map_key_update_where [of job_key f p] by (simp add: jobs_ok_def ends_job_def)
    show "running_jobs ?t \<le> 2"
      using old f running_update_le [of p f "jobs (eng s)"]
      by (simp add: jobs_ok_def ends_job_def running_jobs_def)
    fix j assume "j \<in> set (jobs (eng ?t))"
    then obtain i where "i \<in> set (jobs (eng s))" "j = (if p i then f i else i)"
      by (auto simp: set_update_where)
    then show "marked ?t (j_attempt j)" using old f by (auto simp: jobs_ok_def ends_job_def marked_def)
  qed
  then show ?thesis
    unfolding keeps_def ledger_ok_def
    using calls_same [of ?t s] installs_same [of ?t s] cycles_same [of ?t s] remediations_same [of ?t s]
    by simp
qed

lemma keeps_update_one_job: "ends_job f \<Longrightarrow> keeps s (fst (update_one_job p f e s))"
  by (simp add: update_one_job_def keeps_jobs keeps_steps.same)

lemma fail_engineering_job_kept: "kept s (fst (fail_engineering_job jid cause now s))"
  unfolding fail_engineering_job_def
  by (intro keeps_kept keeps_update_one_job ends_job_closed) simp

lemma keeps_solver_rest:
  assumes "jobs e = jobs (eng s)"
  shows "keeps s (s\<lparr>eng := e\<rparr>)"
  using assms ledger_same [of "s\<lparr>eng := e\<rparr>" s] by (simp add: keeps_def ledger_ok_def)

lemma keeps_link: "keeps s (fst (link_artifacts j xs s))"
proof (induction xs arbitrary: s)
  case (Cons x xs)
  show ?case
    by (auto simp: Let_def split: option.split
        intro: keeps_steps.same keeps_steps.steps [OF keeps_solver_rest Cons.IH])
qed (simp add: keeps_steps.same)

lemma complete_engineering_job_kept: "kept s (fst (complete_engineering_job jid rc xs now s))"
  unfolding complete_engineering_job_def
  by (auto split: option.split intro!: keeps_kept keeps_steps.rollback keeps_steps.bind keeps_link
      keeps_update_one_job ends_job_closed keeps_event keeps_steps.same)

lemma keeps_authorize: "keeps s (fst (authorize_each rid aid now js s))"
proof (induction js arbitrary: rid aid s)
  case (Cons j js)
  show ?case
    unfolding authorize_each.simps Let_def
    by (auto intro: Cons.IH keeps_steps.same keeps_steps.steps [OF keeps_solver_rest Cons.IH])
qed (simp add: keeps_steps.same)

lemma authorize_reuses_kept: "kept s (fst (authorize_engineering_receipt_reuses rid aid js now s))"
  unfolding authorize_engineering_receipt_reuses_def
  by (auto intro!: keeps_kept keeps_steps.rollback keeps_authorize keeps_steps.same)

subsection \<open>Admission of a solver job\<close>

lemma begin_engineering_job_new:
  assumes "begin_engineering_job cx fresh request now s = (t, Inr (j, True))"
  shows "\<exists>p s1. authorizing_approval s request = Some p \<and> j = admitted_job fresh (p_id p) now request \<and>
    running_jobs s < 2 \<and> select_key job_key (jobs (eng s)) (job_key request) = None \<and>
    require_screening_job_owner cx s request = None \<and>
    update_one_attempt (live_collector s j) (set_external now) ErrApprovalNotActive s = (s1, Inr ()) \<and>
    j_id j \<notin> j_id ` set (jobs (eng s1)) \<and>
    t = append_event (s1\<lparr>eng := (eng s1)\<lparr>jobs := jobs (eng s1) @ [j]\<rparr>\<rparr>)
      (j_run j) ''engineering.job.started''
      [(''job_id'', JStr (j_id j)), (''attempt_id'', JStr (j_attempt j)),
       (''operation'', JStr (j_operation j)), (''spec_sha256'', JStr (j_spec_sha j))] now"
  using assms
  by (auto simp: begin_engineering_job_def Let_def store_results not_le split: if_splits option.splits)

lemma begin_engineering_job_known:
  "begin_engineering_job cx fresh request now s = (t, Inr (j, False)) \<Longrightarrow>
     t = s \<and> j \<in> set (jobs (eng s)) \<and> job_key j = job_key request \<and> j_status j = JobSucceeded"
  by (auto simp: begin_engineering_job_def Let_def store_results split: if_splits option.splits
      dest: select_key_SomeD)

lemma begin_engineering_job_failed:
  "begin_engineering_job cx fresh request now s = (t, Inl e) \<Longrightarrow> t = s"
  by (auto simp: begin_engineering_job_def Let_def dest: transaction_Inl split: if_splits option.splits)

lemma admitted_job_keys [simp]:
  "job_key (admitted_job fresh apr now j) = job_key j"
  "j_attempt (admitted_job fresh apr now j) = j_attempt j"
  "j_status (admitted_job fresh apr now j) = JobRunning"
  by (simp_all add: admitted_job_def job_key_def)

lemma begin_engineering_job_kept: "kept s (fst (begin_engineering_job cx fresh request now s))"
proof (rule kept_when_ok [OF _ _ begin_engineering_job_sound])
  show "t = s" if "begin_engineering_job cx fresh request now s = (t, Inl e)" for t e
    using that by (rule begin_engineering_job_failed)
  fix t x assume m: "begin_engineering_job cx fresh request now s = (t, Inr x)"
    and ok: "ledger_ok s" "evolves s t"
  obtain j b where x: "x = (j, b)" by (cases x)
  show "ledger_ok t"
  proof (cases b)
    case False
    then show ?thesis using begin_engineering_job_known [of cx fresh request now s t j] m ok(1) x by simp
  next
    case True
    show ?thesis
    proof (rule exE [OF begin_engineering_job_new [of cx fresh request now s t j]])
      show "begin_engineering_job cx fresh request now s = (t, Inr (j, True))" using m x True by simp
      fix p assume "\<exists>s1. authorizing_approval s request = Some p \<and>
        j = admitted_job fresh (p_id p) now request \<and>
        running_jobs s < 2 \<and> select_key job_key (jobs (eng s)) (job_key request) = None \<and>
        require_screening_job_owner cx s request = None \<and>
        update_one_attempt (live_collector s j) (set_external now) ErrApprovalNotActive s = (s1, Inr ()) \<and>
        j_id j \<notin> j_id ` set (jobs (eng s1)) \<and>
        t = append_event (s1\<lparr>eng := (eng s1)\<lparr>jobs := jobs (eng s1) @ [j]\<rparr>\<rparr>)
          (j_run j) ''engineering.job.started''
          [(''job_id'', JStr (j_id j)), (''attempt_id'', JStr (j_attempt j)),
           (''operation'', JStr (j_operation j)), (''spec_sha256'', JStr (j_spec_sha j))] now"
      then obtain s1 where j: "j = admitted_job fresh (p_id p) now request"
        and room: "running_jobs s < 2"
        and new: "select_key job_key (jobs (eng s)) (job_key request) = None"
        and u: "update_one_attempt (live_collector s j) (set_external now) ErrApprovalNotActive s
          = (s1, Inr ())"
        and nid: "j_id j \<notin> j_id ` set (jobs (eng s1))"
        and t: "t = append_event (s1\<lparr>eng := (eng s1)\<lparr>jobs := jobs (eng s1) @ [j]\<rparr>\<rparr>)
          (j_run j) ''engineering.job.started''
          [(''job_id'', JStr (j_id j)), (''attempt_id'', JStr (j_attempt j)),
           (''operation'', JStr (j_operation j)), (''spec_sha256'', JStr (j_spec_sha j))] now"
        by blast
      have s1: "marked s1 (j_attempt j)" "tools s1 = tools s" "eng s1 = eng s" "cycles s1 = cycles s"
        "remediations s1 = remediations s" "blobs s1 = blobs s"
        using mark_result [OF u, of "j_attempt j"] by (auto simp: live_collector_def)
      have mk: "marked t k = marked s1 k" for k by (simp add: t marked_def)
      have rows: "jobs (eng t) = jobs (eng s) @ [j]" by (simp add: t s1)
      have old: "jobs_ok s" using ok by (simp add: ledger_ok_def)
      have key: "job_key j \<notin> job_key ` set (jobs (eng s))"
        using new by (auto simp: j select_key_None)
      have "jobs_ok t"
        unfolding jobs_ok_def
      proof (intro conjI ballI)
        show "distinct (map j_id (jobs (eng t)))" using old nid by (simp add: rows jobs_ok_def s1)
        show "distinct (map job_key (jobs (eng t)))" using old key by (simp add: rows jobs_ok_def)
        show "running_jobs t \<le> 2" using room by (simp add: running_jobs_def affected_def rows)
        fix i assume "i \<in> set (jobs (eng t))"
        then consider "i \<in> set (jobs (eng s))" | "i = j" by (auto simp: rows)
        then show "marked t (j_attempt i)"
          using old marked_later [OF ok(2)] s1(1) by cases (auto simp: jobs_ok_def mk)
      qed
      moreover have "installs_ok t = installs_ok s" by (rule installs_same) (simp_all add: t s1)
      moreover have "cycles_ok t = cycles_ok s" "remediations_ok t = remediations_ok s"
        by (simp_all add: t s1 cycles_ok_def remediations_ok_def)
      moreover have "calls_ok s \<Longrightarrow> calls_ok t" using calls_later ok(2) by (simp add: t s1)
      ultimately show ?thesis using ok(1) by (simp add: ledger_ok_def)
    qed
  qed
qed

subsection \<open>Recovery\<close>

lemma keeps_interrupt_each: "keeps s (fst (interrupt_each now ns s))"
proof (induction ns arbitrary: s)
  case (Cons n ns)
  show ?case
    unfolding interrupt_each.simps Let_def
    by (intro keeps_steps.bind keeps_installs)
      (auto simp: closed_install_def intro: keeps_steps.steps [OF keeps_install_event Cons.IH])
qed (simp add: keeps_steps.same)

lemma keeps_uncertain_each: "keeps s (fst (uncertain_each now qs s))"
proof (induction qs arbitrary: s)
  case (Cons q qs)
  show ?case
    unfolding uncertain_each.simps
    by (intro keeps_steps.bind keeps_invocations same_call_closed)
      (rule keeps_steps.steps [OF keeps_event [OF keeps_steps.same] Cons.IH])
qed (simp add: keeps_steps.same)

lemma keeps_tool_work: "keeps s (fst (recover_tool_work now s))"
  unfolding recover_tool_work_def
  by (intro keeps_steps.bind keeps_interrupt_each keeps_uncertain_each) (simp add: keeps_steps.same)

text \<open>A statement on the attempts that only adds markers and leaves the ledgers alone.\<close>

lemma keeps_frame:
  assumes "frame s t" and "\<And>k. marked s k \<Longrightarrow> marked t k"
  shows "keeps s t"
  using assms known_blob_later [of s t]
  by (auto simp: keeps_def frame_def ledger_ok_def calls_ok_def jobs_ok_def running_jobs_def
      installs_ok_def install_checks_def cycles_ok_def remediations_ok_def)

lemma keeps_update_run: "keeps s (fst (update_one_run p f e s))"
  by (rule keeps_frame [OF frame_update_run]) (simp add: update_one_run_def Let_def marked_def)

lemma keeps_update_attempts:
  assumes "\<And>a. a_id (f a) = a_id a \<and> a_external (f a) = a_external a"
  shows "keeps s (s\<lparr>attempts := update_where p f (attempts s)\<rparr>)"
proof (rule keeps_frame [OF frame_same])
  show "marked (s\<lparr>attempts := update_where p f (attempts s)\<rparr>) k" if m: "marked s k" for k
  proof -
    obtain a where a: "a \<in> set (attempts s)" "a_id a = k" "a_external a"
      using m by (auto simp: marked_def)
    let ?b = "if p a then f a else a"
    have "?b \<in> set (update_where p f (attempts s))" using a(1) by (simp add: set_update_where)
    moreover have "a_id ?b = k" "a_external ?b" using assms [of a] a(2,3) by simp_all
    ultimately show ?thesis unfolding marked_def by auto
  qed
qed simp_all

lemma keeps_recover_each: "keeps s (fst (recover_each now items s))"
proof (induction now items s rule: recover_each.induct)
  case (2 now rid rv ext items s)
  have "keeps u (append_event
       (u\<lparr>attempts := update_where (\<lambda>a. a_run a = rid \<and> a_status a = InProgress)
          (recover_attempt_row ext now) (attempts u)\<rparr>) rid k p now)" for u k p
    by (rule keeps_event, rule keeps_update_attempts) (simp add: recover_attempt_row_def)
  then show ?case
    unfolding recover_each.simps
    by (intro keeps_steps.bind keeps_update_run) (rule keeps_steps.steps, assumption, rule 2)
qed (simp add: keeps_steps.same)

lemma recover_in_flight_kept: "kept s (fst (recover_in_flight now s))"
proof -
  have e: "keeps u (expire_approvals now u)" for u
    by (rule keeps_frame) (simp_all add: expire_approvals_def frame_def marked_def)
  have j: "keeps u (lose_jobs now u)" for u
    unfolding lose_jobs_def by (rule keeps_jobs) (simp add: ends_job_closed)
  have r: "keeps u (fst (recover_each now items (lose_jobs now (expire_approvals now u))))" for u items
    by (rule keeps_steps.steps [OF e], rule keeps_steps.steps [OF j], rule keeps_recover_each)
  show ?thesis
    unfolding recover_in_flight_def
    by (intro keeps_kept keeps_steps.rollback keeps_steps.bind keeps_tool_work r)
      (simp add: keeps_steps.same)
qed

subsection \<open>Plan cycles and remediations\<close>

lemma keeps_cycles:
  assumes "\<And>c. c_id (f c) = c_id c"
  shows "keeps s (fst (update_cycles p f s))"
proof (cases "update_cycles p f s")
  case (Pair t r)
  show ?thesis
  proof (cases r)
    case (Inl e)
    then show ?thesis
      using Pair by (auto simp: update_cycles_def Let_def keeps_def split: if_splits)
  next
    case (Inr k)
    let ?rows = "update_where p f (cycles s)"
    have t: "t = s\<lparr>cycles := ?rows\<rparr>"
      and g: "one_current ?rows" "distinct_runs ?rows" "\<forall>c \<in> set (cycles s). p c \<longrightarrow> cycle_checks (f c)"
      using Pair Inr by (auto simp: update_cycles_def Let_def list_ex_iff split: if_splits)
    have "cycles_ok s \<Longrightarrow> cycles_ok t"
      using g map_key_update_where [of c_id f p "cycles s"] assms
      by (auto simp: t cycles_ok_def set_update_where)
    then show ?thesis
      using Pair ledger_same(1-3,5) [of t s] by (simp add: keeps_def ledger_ok_def t)
  qed
qed

lemma complete_plan_cycle_kept: "kept s (fst (complete_plan_cycle sid cid txt now s))"
  unfolding complete_plan_cycle_def Let_def
  by (auto split: option.split intro!: keeps_kept keeps_steps.rollback keeps_steps.bind keeps_cycles
      keeps_steps.same simp: ready_cycle_def)

lemma keeps_new_cycle:
  assumes "fresh \<notin> c_id ` set (cycles s)" and "one_current (cycles s @ [new_cycle fresh sid obj now])"
  shows "keeps s (s\<lparr>cycles := cycles s @ [new_cycle fresh sid obj now]\<rparr>)"
proof -
  let ?c = "new_cycle fresh sid obj now"
  let ?t = "s\<lparr>cycles := cycles s @ [?c]\<rparr>"
  have "cycle_checks ?c" "c_run ?c = None" "c_id ?c = fresh"
    by (simp_all add: new_cycle_def cycle_checks_def)
  then have "cycles_ok s \<Longrightarrow> cycles_ok ?t"
    using assms by (auto simp: cycles_ok_def distinct_runs_def)
  then show ?thesis
    using ledger_same(1-3,5) [of ?t s] by (simp add: keeps_def ledger_ok_def)
qed

lemma begin_plan_cycle_kept: "kept s (fst (begin_plan_cycle fresh sid txt now s))"
proof -
  have "keeps u (fst (let c = new_cycle fresh sid obj now; rows = cycles u @ [c] in
     if fresh \<in> c_id ` set (cycles u) \<or> \<not> one_current rows
     then fail u (Constraint ''conversation_plan_cycles'')
     else commit (u\<lparr>cycles := rows\<rparr>) c))" for u obj
    by (auto simp: Let_def intro: keeps_new_cycle keeps_steps.same)
  then show ?thesis
    unfolding begin_plan_cycle_def Let_def
    by (auto intro!: keeps_kept keeps_steps.rollback keeps_steps.bind keeps_cycles keeps_steps.same
        simp: supersede_cycle_def)
qed

lemma keeps_new_run: "keeps s (append_event (s\<lparr>runs := rs\<rparr>) rid k p now)"
  by (rule keeps_event, rule keeps_frame) (simp_all add: frame_def marked_def)

lemma create_run_kept: "kept s (fst (create_conversation_run fresh build rq now s))"
proof -
  have c: "keeps u (fst (and_then (update_cycles p (consume_cycle fresh now) u)
     (\<lambda>s2 n. if n \<noteq> Suc 0 then fail s2 e else commit s2 r)))" for u p e and r :: run_row
    by (intro keeps_steps.bind keeps_cycles) (simp_all add: consume_cycle_def keeps_steps.same)
  show ?thesis
    by (auto simp: create_conversation_run_def Let_def split: option.split sum.split
        intro!: keeps_kept keeps_steps.rollback keeps_steps.same keeps_new_run
          keeps_steps.steps [OF keeps_new_run c])
qed

lemma create_planned_run_kept: "kept s (fst (create_planned_conversation_run fresh build rq now s))"
  by (simp add: create_planned_conversation_run_def create_run_kept)

lemma frame_seal_each: "frame s (fst (seal_each rid now minimum as s))"
proof (induction "as" arbitrary: minimum s)
  case (Cons a "as")
  show ?case
    unfolding seal_each.simps Let_def by (intro frame_steps.bind frame_update_attempt Cons.IH)
qed (simp add: frame_steps.same)

lemma frame_seal_and_restart: "frame s (fst (seal_and_restart current m now s))"
  unfolding seal_and_restart_def Let_def
  by (auto intro!: frame_steps.bind frame_seal_each frame_rules)

lemma prepare_remediation_result:
  assumes "prepare_research_remediation rid ex ord v now s = (t, Inr (r, m))"
  shows "\<exists>current a. find_run s rid = Some current \<and> r_revision current = ex \<and>
    r_status current = RunReviewing \<and> cycle_count s rid < MaxResearchRemediations \<and>
    review_checkpoint s rid ord = Some a \<and> a_output a \<noteq> [] \<and>
    affected (\<lambda>a. a_run a = rid \<and> a_status a = InProgress) (attempts s) = 0 \<and>
    m = remediation_of rid (int (cycle_count s rid) + 1) a v now \<and> remediation_guard s m \<and>
    seal_and_restart current m now (s\<lparr>remediations := remediations s @ [m]\<rparr>) = (t, Inr (r, m))"
  using assms
  by (auto simp: prepare_research_remediation_def Let_def store_results not_le
      split: if_splits option.splits) (auto simp: seal_and_restart_def Let_def store_results split: if_splits)

lemma prepare_research_remediation_kept: "kept s (fst (prepare_research_remediation rid ex ord v now s))"
proof (rule kept_when_ok [OF _ _ prepare_research_remediation_sound])
  show "t = s" if "prepare_research_remediation rid ex ord v now s = (t, Inl e)" for t e
    using that by (auto simp: prepare_research_remediation_def Let_def dest: transaction_Inl
        split: if_splits option.splits)
  fix t x assume p: "prepare_research_remediation rid ex ord v now s = (t, Inr x)"
    and ok: "ledger_ok s" "evolves s t"
  obtain r m where x: "x = (r, m)" by (cases x)
  obtain current where g: "remediation_guard s m"
    and q: "seal_and_restart current m now (s\<lparr>remediations := remediations s @ [m]\<rparr>) = (t, Inr (r, m))"
    using prepare_remediation_result [OF p [unfolded x]] by blast
  have f: "frame (s\<lparr>remediations := remediations s @ [m]\<rparr>) t"
    using frame_seal_and_restart [of "s\<lparr>remediations := remediations s @ [m]\<rparr>" current m now] q by simp
  have "remediations_ok t"
    using f g ok(1) by (auto simp: frame_def ledger_ok_def remediations_ok_def remediation_guard_def)
  then show "ledger_ok t"
    using f ok ledger_later [of t s] by (simp add: frame_def ledger_ok_def)
qed

subsection \<open>Every history\<close>

lemma frame_step_kept:
  assumes "store_step s t" and "frame s t"
  shows "kept s t"
  using kept_frame [OF assms(2) store_step_sound [OF assms(1)]] .

lemmas framed_steps = frame_transition frame_quiesce frame_resume frame_cycle frame_succeed
  frame_succeed_document frame_begin_stage frame_stage_updates frame_mark_active frame_fail_collect
  frame_complete_execution frame_publish frame_capture frame_prepare_resume frame_plan_retry
  frame_ask frame_decide

lemmas kept_steps = create_run_kept create_planned_run_kept recover_in_flight_kept
  prepare_research_remediation_kept begin_plan_cycle_kept complete_plan_cycle_kept
  begin_tool_installation_kept update_tool_installation_kept complete_tool_installation_kept
  fail_tool_installation_kept grant_kept reserve_kept complete_tool_invocation_kept
  fail_tool_invocation_kept begin_engineering_job_kept complete_engineering_job_kept
  fail_engineering_job_kept authorize_reuses_kept

lemma store_step_kept: "store_step s t \<Longrightarrow> kept s t"
proof -
  assume step: "store_step s t"
  then have "frame s t \<or> kept s t"
    by (induction rule: store_step.induct) (rule disjI1, rule framed_steps | rule disjI2, rule kept_steps)+
  then show ?thesis using frame_step_kept [OF step] by blast
qed

lemma history_kept: "store_step\<^sup>*\<^sup>* s t \<Longrightarrow> store_ok s \<Longrightarrow> ledger_ok s \<Longrightarrow> ledger_ok t"
proof (induction rule: rtranclp_induct)
  case (step t u)
  then show ?case using history_ok [of s t] store_step_kept [of t u] by (simp add: kept_def)
qed

lemma empty_ledger_ok: "ledger_ok empty_store"
  by (simp add: ledger_ok_def installs_ok_def calls_ok_def jobs_ok_def cycles_ok_def remediations_ok_def
      one_live_def one_current_def distinct_runs_def running_jobs_def affected_def empty_store_def)

end
