(* ===== verification/Store_Samples.thy ===== *)
theory Store_Samples
  imports Ledger_History
begin

section \<open>Concrete stores\<close>

text \<open>
  Small stores at which the properties are applied: one project with a conversation, runs in
  several statuses, their attempts and approvals.
\<close>

definition at_second :: "nat \<Rightarrow> gotime" where
  "at_second n = \<lparr>t_year = 2026, t_month = 1, t_day = 2, t_hour = 3, t_min = 4, t_sec = n, t_nano = 0\<rparr>"

definition sample_run :: "string \<Rightarrow> run_status \<Rightarrow> int \<Rightarrow> string \<Rightarrow> run_row" where
  "sample_run rid st rv created =
     \<lparr>r_id = rid, r_project = ''p'', r_session = ''c'', r_schedule = [], r_question = ''q'',
      r_status = st, r_revision = rv, r_cycle = 0, r_thread = ''th'', r_profile = ''research_v2'',
      r_retrieval = ''hybrid_graph_v1'', r_generation = ''g'', r_model = ''m'', r_effort = ''high'',
      r_tier = ''fast'', r_build = zero_build, r_report = [], r_error = [], r_created = created,
      r_updated = created\<rparr>"

definition sample_attempt ::
    "string \<Rightarrow> string \<Rightarrow> stage \<Rightarrow> int \<Rightarrow> attempt_status \<Rightarrow> bool \<Rightarrow> attempt_row" where
  "sample_attempt aid rid st n status ext =
     \<lparr>a_id = aid, a_run = rid, a_stage = st, a_ordinal = n, a_logical = n, a_status = status,
      a_thread = ''th'', a_turn = ''tu'', a_input = ''in'', a_output = ''out'', a_external = ext,
      a_error = [], a_created = ''2026-01-02T03:04:05Z'', a_updated = ''2026-01-02T03:04:05Z''\<rparr>"

definition sample_approval ::
    "string \<Rightarrow> string \<Rightarrow> string \<Rightarrow> approval_status \<Rightarrow> approval_row" where
  "sample_approval pid rid aid st =
     \<lparr>p_id = pid, p_run = rid, p_attempt = aid, p_thread = ''th'', p_turn = ''tu'', p_item = ''i'',
      p_kind = ''item/commandExecution/requestApproval'', p_summary = ''s'', p_server = [], p_tool = [],
      p_command = ''ls'', p_args = [], p_args_sha = [], p_risk = ''unclassified'', p_external = True,
      p_status = st, p_created = ''2026-01-02T03:04:05Z'', p_updated = ''2026-01-02T03:04:05Z''\<rparr>"

text \<open>
  Three runs of one project: \<open>r1\<close> waits for the approval of its collector, \<open>r2\<close> was
  interrupted after a failed attempt with side effects, \<open>r3\<close> is queued behind them.
\<close>

definition sample_store :: db where
  "sample_store = empty_store
     \<lparr>projects := [''p''],
      sessions := [\<lparr>s_id = ''c'', s_project = ''p'', s_thread = ''th'', s_created = ''2026-01-02T03:04:00Z'', s_deleted = False\<rparr>],
      runs := [sample_run ''r1'' RunWaitingApproval 3 ''2026-01-02T03:04:01Z'',
               sample_run ''r2'' RunCollecting 5 ''2026-01-02T03:04:02Z'',
               sample_run ''r3'' RunQueued 0 ''2026-01-02T03:04:03Z''],
      attempts := [sample_attempt ''a1'' ''r1'' StageCollect 0 InProgress False,
                   sample_attempt ''a2'' ''r2'' StageCollect 0 InProgress True,
                   sample_attempt ''a3'' ''r2'' StagePlan 0 Completed False],
      approvals := [sample_approval ''p1'' ''r1'' ''a1'' Pending,
                    sample_approval ''p2'' ''r2'' ''a2'' Approved],
      kheads := [\<lparr>h_project = ''p'', h_generation = ''g'', h_status = ''ready'',
                   h_generation_state = ''ready'', h_error = [], h_revision = 1,
                   h_updated = ''2026-01-02T03:04:00Z''\<rparr>]\<rparr>"

lemma sample_store_ok: "store_ok sample_store"
  by code_simp

lemma sample_ledger_ok: "ledger_ok sample_store"
  by code_simp

lemma one_step: "store_step s t \<Longrightarrow> store_step\<^sup>*\<^sup>* s t"
  by (rule r_into_rtranclp)

subsection \<open>Evaluation by rewriting\<close>

text \<open>The definitions a witness unfolds; timestamps stay symbolic.\<close>

lemmas sample_rows = sample_store_def empty_store_def sample_run_def sample_attempt_def
  sample_approval_def
lemmas query_defs = find_run_def find_attempt_def find_approval_def attempt_run_def
  attempt_of_run_def update_one_run_def update_one_attempt_def update_one_approval_def affected_def
lemmas status_defs = require_transition_def can_transition_def retires_pending_approvals_def
  set_status_def
lemmas retire_defs = retire_pending_approvals_def pending_ids_def deny_row_def
lemmas quiesce_defs = quiesce_run_def quiesce_run_transaction_def open_side_effect_def retire_defs

end
