(* ===== verification/Run_Properties.thy ===== *)
theory Run_Properties
  imports Store_Samples
begin

section \<open>Properties of runs\<close>

text \<open>
  What holds of a run over every history of the store, and the outcome of the operations that
  change its status, on every branch.
\<close>



text \<open>
  C9. Approvals do not outlive the work they were asked for. In every state reached, a run that
  is terminal, interrupted or uncertain has no pending approval, and every approval still names
  an attempt of its own run.
\<close>

theorem pending_approvals_live:
  assumes "store_step\<^sup>*\<^sup>* s t" and "store_ok s" and "p \<in> set (approvals t)"
  shows "(\<exists>a. find_attempt t (p_attempt p) = Some a \<and> a_run a = p_run p) \<and>
    (\<exists>r. find_run t (p_run p) = Some r \<and>
       (retires_pending_approvals (r_status r) \<longrightarrow> p_status p \<noteq> Pending))"
proof -
  have ok: "distinct (map a_id (attempts t))" "owned t" "pending_live t"
    using history_ok [OF assms(1,2)] by (auto simp: store_ok_def distinct_keys_def)
  obtain a where a: "a \<in> set (attempts t)" "a_id a = p_attempt p" "a_run a = p_run p"
    using ok(2) assms(3) by (auto simp: owned_def)
  have "find_attempt t (p_attempt p) = Some a"
    using select_key_unique [OF ok(1) a(1)] a(2) by (simp add: find_attempt_def)
  moreover have "p_run p \<in> r_id ` set (runs t)" using ok(2) a by (metis owned_def)
  then obtain r where r: "find_run t (p_run p) = Some r"
    using select_key_None [of r_id "runs t" "p_run p"] by (auto simp: find_run_def)
  moreover have "retires_pending_approvals (r_status r) \<longrightarrow> p_status p \<noteq> Pending"
    using ok(3) assms(3) find_run_in [OF r] by (auto simp: pending_live_def)
  ultimately show ?thesis using a(3) by blast
qed

theorem pending_approvals_live_witness:
  "\<exists>p \<in> set (approvals (fst (quiesce_run ''r1'' RunCancelled [] (at_second 9) sample_store))).
     p_id p = ''p1'' \<and> p_status p \<noteq> Pending"
proof -
  let ?t = "fst (quiesce_run ''r1'' RunCancelled [] (at_second 9) sample_store)"
  have "list_ex (\<lambda>p. p_id p = ''p1'' \<and> p_run p = ''r1'') (approvals ?t)"
    by (simp add: quiesce_defs sample_rows query_defs status_defs)
  then obtain p where p: "p \<in> set (approvals ?t)" "p_id p = ''p1''" "p_run p = ''r1''"
    by (auto simp: list_ex_iff)
  have "map_option r_status (find_run ?t ''r1'') = Some RunCancelled"
    by (simp add: quiesce_defs sample_rows query_defs status_defs)
  then show ?thesis
    using p pending_approvals_live [OF one_step [OF store_step.quiesce] sample_store_ok p(1)]
    by (auto simp: retires_pending_approvals_def)
qed

text \<open>
  The history of an attempt. An attempt is never deleted; its run, stage, logical ordinal and
  input never change; the external side-effect marker, once set, is never cleared; its status
  only moves along \<open>attempt_next\<close>, a superseded attempt is final, and only superseding moves an
  attempt to another physical ordinal.
\<close>

theorem attempt_history:
  assumes "store_step\<^sup>*\<^sup>* s t" and "store_ok s" and "find_attempt s aid = Some a"
  shows "\<exists>b. find_attempt t aid = Some b \<and> a_run b = a_run a \<and> a_stage b = a_stage a \<and>
    a_logical b = a_logical a \<and> a_input b = a_input a \<and> (a_external a \<longrightarrow> a_external b) \<and>
    attempt_change\<^sup>*\<^sup>* (a_status a) (a_status b) \<and>
    (a_status a = Superseded \<longrightarrow> a_status b = Superseded) \<and>
    (a_ordinal b \<noteq> a_ordinal a \<longrightarrow> a_status b = Superseded)"
proof -
  have "rows_evolve attempt_step (attempts s) (attempts t)"
    using history_ok [OF assms(1,2)] by (simp add: evolves_def)
  then obtain b where "find_attempt t aid = Some b" "attempt_step a b"
    using attempt_log.select_later assms(3) by (fastforce simp: find_attempt_def)
  then show ?thesis
    by (auto simp: attempt_step_def dest: attempt_machine.final_absorbing)
qed

text \<open>
  A decision is final. An approval is never deleted and what was asked for (its arguments,
  their hash, the tool, the run and attempt) never changes; once it is approved, denied or
  expired it stays so in every later state.
\<close>

theorem approval_history:
  assumes "store_step\<^sup>*\<^sup>* s t" and "store_ok s" and "find_approval s pid = Some p"
  shows "\<exists>q. find_approval t pid = Some q \<and> approval_identity q = approval_identity p \<and>
    approval_change\<^sup>*\<^sup>* (p_status p) (p_status q) \<and>
    (p_status p \<in> {Approved, Denied, Expired} \<longrightarrow> p_status q = p_status p)"
proof -
  have "rows_evolve approval_step (approvals s) (approvals t)"
    using history_ok [OF assms(1,2)] by (simp add: evolves_def)
  then obtain q where q: "find_approval t pid = Some q" "approval_step p q"
    using approval_log.select_later assms(3) by (fastforce simp: find_approval_def)
  have "p_status q = p_status p" if "p_status p \<in> {Approved, Denied, Expired}"
    using q(2) that approval_machine.final_absorbing [of "p_status p" "p_status q"]
    by (auto simp: approval_step_def approval_final_def)
  with q show ?thesis by (auto simp: approval_step_def)
qed

end
