(* ===== verification/Run_Outcomes.thy ===== *)
theory Run_Outcomes
  imports Store_Samples
begin

section \<open>Outcomes of the run operations\<close>

text \<open>
  What each operation on a run does, on every branch, as an equation over the tables: the
  update of the one row, the retirement of its pending approvals and the error otherwise.
\<close>

subsection \<open>Shared facts\<close>

lemma ok_keys:
  assumes "store_ok s"
  shows "distinct (map r_id (runs s))" and "distinct (map a_id (attempts s))"
    and "distinct (map p_id (approvals s))"
  using assms by (simp_all add: store_ok_def distinct_keys_def)

text \<open>An UPDATE of the current row guarded by what was just read touches exactly that row.\<close>

lemma update_current:
  assumes "store_ok s" and cur: "find_run s rid = Some cur" and q: "q cur"
  shows "update_one_run (\<lambda>r. r_id r = rid \<and> q r) f e s =
    commit (s\<lparr>runs := update_where (\<lambda>r. r_id r = rid) f (runs s)\<rparr>) ()"
proof -
  note d = ok_keys(1) [OF assms(1)]
  have only: "r = cur" if "r \<in> set (runs s)" "r_id r = rid" for r
    using find_run_only [OF d cur that] .
  have "affected (\<lambda>r. r_id r = rid \<and> q r) (runs s) = 1"
    by (rule affected_key_one [OF d, where r = cur and k = rid])
      (use find_run_in [OF cur] q in auto)
  moreover have "update_where (\<lambda>r. r_id r = rid \<and> q r) f (runs s) =
      update_where (\<lambda>r. r_id r = rid) f (runs s)"
    using only q by (auto simp: update_where_def)
  ultimately show ?thesis by (simp add: update_one_run_def)
qed

text \<open>The retirement that follows it, from any state with the same approvals.\<close>

lemma retire_all:
  assumes "store_ok s" and "approvals u = approvals s"
  obtains ev where "retire_pending_approvals rid reason now u =
    (u\<lparr>approvals := update_where (pending_of rid) (deny_row now) (approvals s),
       events := events u @ ev\<rparr>, Inr ())"
  using retire_pending_ok [of u rid reason now] ok_keys(3) [OF assms(1)] assms(2) by auto

definition run_moved ::
    "string \<Rightarrow> (run_row \<Rightarrow> run_row) \<Rightarrow> bool \<Rightarrow> gotime \<Rightarrow> event_row list \<Rightarrow> db \<Rightarrow> db" where
  "run_moved rid f retire now ev s =
     s\<lparr>runs := update_where (\<lambda>r. r_id r = rid) f (runs s),
        approvals := (if retire then update_where (pending_of rid) (deny_row now) (approvals s)
                      else approvals s),
        events := events s @ ev\<rparr>"

lemma append_event_moved:
  "append_event (run_moved rid f b now ev s) rid k p now =
     run_moved rid f b now (ev @ [\<lparr>e_run = rid, e_kind = k, e_payload = p, e_created = format_time now\<rparr>]) s"
  by (simp add: append_event_def run_moved_def)

lemma move_retire:
  assumes "store_ok s"
  obtains ev where "retire_pending_approvals rid reason now
      (s\<lparr>runs := update_where (\<lambda>r. r_id r = rid) f (runs s)\<rparr>) =
    commit (run_moved rid f True now ev s) ()"
  by (rule retire_all [OF assms, of "s\<lparr>runs := update_where (\<lambda>r. r_id r = rid) f (runs s)\<rparr>" rid reason now])
    (auto simp: run_moved_def)

lemma moved_plain:
  "s\<lparr>runs := update_where (\<lambda>r. r_id r = rid) f (runs s)\<rparr> = run_moved rid f False now [] s"
  by (simp add: run_moved_def)

subsection \<open>Transitions\<close>

text \<open>
  C6. A transition is a compare-and-swap on the revision. It fails without touching anything
  when the revision is not the current one or the table does not permit the change; otherwise
  it changes exactly the row of the run (status, revision + 1, error, timestamp), denies every
  pending approval of the run when the new status ends or interrupts it, touches no attempt,
  and a second writer that read the same revision gets a revision conflict.
\<close>

theorem transition_outcome:
  assumes "store_ok s" and "find_run s rid = Some cur"
  shows "(r_revision cur \<noteq> ex \<longrightarrow>
      transition_run rid ex nx msg now s = fail s (RevisionConflict ex (r_revision cur))) \<and>
    (r_revision cur = ex \<and> \<not> can_transition (r_status cur) nx \<longrightarrow>
      (\<exists>e. transition_run rid ex nx msg now s = fail s (Errorf e))) \<and>
    (r_revision cur = ex \<and> can_transition (r_status cur) nx \<longrightarrow>
      (\<exists>ev. transition_run rid ex nx msg now s =
         commit (run_moved rid (set_status nx msg now) (retires_pending_approvals nx) now ev s)
           (set_status nx msg now cur) \<and>
        (\<forall>nx' msg' now'. transition_run rid ex nx' msg' now'
            (run_moved rid (set_status nx msg now) (retires_pending_approvals nx) now ev s) =
          fail (run_moved rid (set_status nx msg now) (retires_pending_approvals nx) now ev s)
            (RevisionConflict ex (ex + 1)))))"
proof (intro conjI impI)
  assume "r_revision cur \<noteq> ex"
  then show "transition_run rid ex nx msg now s = fail s (RevisionConflict ex (r_revision cur))"
    using assms(2) by (simp add: transition_run_def)
next
  assume "r_revision cur = ex \<and> \<not> can_transition (r_status cur) nx"
  then show "\<exists>e. transition_run rid ex nx msg now s = fail s (Errorf e)"
    using assms(2) by (simp add: transition_run_def require_transition_def)
next
  assume h: "r_revision cur = ex \<and> can_transition (r_status cur) nx"
  let ?m = "\<lambda>ev. run_moved rid (set_status nx msg now) (retires_pending_approvals nx) now ev s"
  have up: "update_one_run (\<lambda>r. r_id r = rid \<and> r_revision r = ex) (set_status nx msg now) e s =
      commit (s\<lparr>runs := update_where (\<lambda>r. r_id r = rid) (set_status nx msg now) (runs s)\<rparr>) ()" for e
    using update_current [OF assms, of "\<lambda>r. r_revision r = ex"] h by simp
  have "\<exists>ev. transition_run rid ex nx msg now s = commit (?m ev) (set_status nx msg now cur)"
  proof (cases "retires_pending_approvals nx")
    case True
    obtain ev where r: "retire_pending_approvals rid (''run_'' @ status_text nx) now
        (s\<lparr>runs := update_where (\<lambda>r. r_id r = rid) (set_status nx msg now) (runs s)\<rparr>) =
      commit (run_moved rid (set_status nx msg now) True now ev s) ()"
      using move_retire [OF assms(1)] by blast
    show ?thesis
      using h assms(2) True r
      by (auto simp: transition_run_def require_transition_def up append_event_moved)
  next
    case False
    then show ?thesis
      using h assms(2)
      by (auto simp: transition_run_def require_transition_def up append_event_def run_moved_def)
  qed
  then obtain ev where ev: "transition_run rid ex nx msg now s = commit (?m ev) (set_status nx msg now cur)"
    by blast
  have "find_run (?m ev) rid = Some (set_status nx msg now cur)"
    using assms(2) select_key_update_where [of r_id "set_status nx msg now" "\<lambda>r. r_id r = rid" "runs s" rid]
      find_run_in [OF assms(2)]
    by (simp add: find_run_def run_moved_def set_status_def)
  then have "transition_run rid ex nx' msg' now' (?m ev) = fail (?m ev) (RevisionConflict ex (ex + 1))"
    for nx' msg' now'
    using h by (simp add: transition_run_def set_status_def)
  with ev show "\<exists>ev. transition_run rid ex nx msg now s = commit (?m ev) (set_status nx msg now cur) \<and>
      (\<forall>nx' msg' now'. transition_run rid ex nx' msg' now' (?m ev) =
         fail (?m ev) (RevisionConflict ex (ex + 1)))"
    by blast
qed

theorem transition_outcome_witness:
  "\<exists>t. transition_run ''r2'' 5 RunInterrupted [] (at_second 9) sample_store =
      commit t (set_status RunInterrupted [] (at_second 9) (sample_run ''r2'' RunCollecting 5 ''2026-01-02T03:04:02Z'')) \<and>
    attempts t = attempts sample_store \<and>
    transition_run ''r2'' 5 RunSynthesizing [] (at_second 10) t = fail t (RevisionConflict 5 6)"
proof -
  have "find_run sample_store ''r2'' = Some (sample_run ''r2'' RunCollecting 5 ''2026-01-02T03:04:02Z'')"
    by (simp add: sample_rows query_defs)
  then show ?thesis
    using transition_outcome [OF sample_store_ok, of "''r2''" _ 5 RunInterrupted "[]" "at_second 9"]
    by (auto simp: sample_run_def can_transition_def run_moved_def)
qed

subsection \<open>Quiescing a run\<close>

lemma quiesce_transaction_outcome:
  assumes ok: "store_ok s" and cur: "find_run s rid = Some cur"
    and nx: "nx = (if \<exists>a \<in> set (attempts s). open_side_effect rid a then RunUncertain else req)"
    and tr: "can_transition (r_status cur) nx"
  shows "\<exists>ev. quiesce_run_transaction cur req msg now s =
    commit (run_moved rid (set_status nx msg now) True now ev s) (set_status nx msg now cur)"
proof -
  have id: "r_id cur = rid" using find_run_in [OF cur] by simp
  have nx': "(if affected (open_side_effect rid) (attempts s) > 0 then RunUncertain else req) = nx"
    using nx by (simp only: affected_pos)
  have up: "update_one_run (\<lambda>r. r_id r = rid \<and> r_revision r = r_revision cur) (set_status nx msg now) e s =
      commit (s\<lparr>runs := update_where (\<lambda>r. r_id r = rid) (set_status nx msg now) (runs s)\<rparr>) ()" for e
    by (rule update_current [OF ok cur]) simp
  obtain ev where r: "retire_pending_approvals rid (''run_'' @ status_text nx) now
      (s\<lparr>runs := update_where (\<lambda>r. r_id r = rid) (set_status nx msg now) (runs s)\<rparr>) =
    commit (run_moved rid (set_status nx msg now) True now ev s) ()"
    using move_retire [OF ok] by blast
  show ?thesis
    using tr r
    by (auto simp: quiesce_run_transaction_def id nx' Let_def require_transition_def up append_event_moved)
qed

text \<open>
  C4. Cancelling or failing a run never hides a side effect. For a run that is neither terminal
  nor already uncertain, the new status is the requested one exactly when no uncompleted attempt
  of the run carries the external side-effect marker, and \<open>uncertain\<close> otherwise; every pending
  approval of the run is denied in the same transaction and no attempt is touched. A terminal or
  uncertain run is returned unchanged. The one failing case is a change the table refuses
  (a queued or interrupted run with such an attempt, or failing an interrupted run), and it
  changes nothing.
\<close>

theorem quiesce_outcome:
  assumes "store_ok s" and "find_run s rid = Some cur" and "req = RunCancelled \<or> req = RunFailed"
  defines "nx \<equiv> if \<exists>a \<in> set (attempts s). open_side_effect rid a then RunUncertain else req"
  shows "(is_terminal (r_status cur) \<or> r_status cur = RunUncertain \<longrightarrow>
      quiesce_run rid req msg now s = commit s cur) \<and>
    (\<not> is_terminal (r_status cur) \<and> r_status cur \<noteq> RunUncertain \<longrightarrow>
      (if r_status cur = RunInterrupted \<and> nx \<noteq> RunCancelled \<or> r_status cur = RunQueued \<and> nx = RunUncertain
       then \<exists>e. quiesce_run rid req msg now s = fail s (Errorf e)
       else \<exists>ev. quiesce_run rid req msg now s =
         commit (run_moved rid (set_status nx msg now) True now ev s) (set_status nx msg now cur)))"
proof (intro conjI impI)
  assume "is_terminal (r_status cur) \<or> r_status cur = RunUncertain"
  then show "quiesce_run rid req msg now s = commit s cur"
    using assms(2,3) by (auto simp: quiesce_run_def)
next
  assume live: "\<not> is_terminal (r_status cur) \<and> r_status cur \<noteq> RunUncertain"
  then have q: "quiesce_run rid req msg now s = transaction s (quiesce_run_transaction cur req msg now s)"
    using assms(2,3) by (auto simp: quiesce_run_def)
  have nx: "nx \<in> {RunUncertain, RunCancelled, RunFailed}" using assms(3) by (auto simp: nx_def)
  let ?bad = "r_status cur = RunInterrupted \<and> nx \<noteq> RunCancelled \<or> r_status cur = RunQueued \<and> nx = RunUncertain"
  have tr: "can_transition (r_status cur) nx \<longleftrightarrow> \<not> ?bad"
    using live nx by (cases "r_status cur") (auto simp: can_transition_def)
  have id: "r_id cur = rid" using find_run_in [OF assms(2)] by simp
  show "if ?bad then \<exists>e. quiesce_run rid req msg now s = fail s (Errorf e)
    else \<exists>ev. quiesce_run rid req msg now s =
      commit (run_moved rid (set_status nx msg now) True now ev s) (set_status nx msg now cur)"
  proof (cases ?bad)
    case True
    have "(if affected (open_side_effect rid) (attempts s) > 0 then RunUncertain else req) = nx"
      by (simp only: affected_pos nx_def)
    with True tr have "\<exists>e. quiesce_run_transaction cur req msg now s = fail s (Errorf e)"
      by (auto simp: quiesce_run_transaction_def id Let_def require_transition_def)
    with True show ?thesis by (auto simp: q)
  next
    case False
    with tr show ?thesis
      using quiesce_transaction_outcome [OF assms(1,2) nx_def [THEN meta_eq_to_obj_eq], of msg now]
      by (auto simp: q)
  qed
qed

theorem quiesce_outcome_witness:
  "\<exists>t r. quiesce_run ''r2'' RunCancelled [] (at_second 9) sample_store = commit t r \<and>
     r_status r = RunUncertain \<and> attempts t = attempts sample_store"
proof -
  have f: "find_run sample_store ''r2'' = Some (sample_run ''r2'' RunCollecting 5 ''2026-01-02T03:04:02Z'')"
    by (simp add: sample_rows query_defs)
  have e: "\<exists>a \<in> set (attempts sample_store). open_side_effect ''r2'' a"
    by (simp add: sample_rows open_side_effect_def)
  have st: "r_status (sample_run ''r2'' RunCollecting 5 c) = RunCollecting" for c
    by (simp add: sample_run_def)
  show ?thesis
    using quiesce_outcome [OF sample_store_ok f, of RunCancelled "[]" "at_second 9"] e
    by (auto simp: st run_moved_def set_status_def)
qed

subsection \<open>Resuming after an approval\<close>

text \<open>
  Resuming after an approval. The run leaves \<open>waiting_approval\<close> exactly when nothing is
  pending any more and a stage of it is still in progress, and then returns to the status it
  waited in, at the next revision; while another approval is pending the run stays as it is and
  is returned; in every other case the operation reports that the approval is not active, or
  that the table refuses the change. No other row and no approval is touched.
\<close>

theorem resume_outcome:
  assumes "store_ok s" and "find_run s rid = Some cur"
  defines "waits \<equiv> \<exists>p \<in> set (approvals s). p_run p = rid \<and> p_status p = Pending"
    and "working \<equiv> \<exists>a \<in> set (attempts s). a_run a = rid \<and> a_status a = InProgress"
  shows "if r_status cur \<noteq> RunWaitingApproval then
      resume_run_after_approval rid prior now s = fail s ErrApprovalNotActive
    else if waits then resume_run_after_approval rid prior now s = commit s cur
    else if \<not> working then resume_run_after_approval rid prior now s = fail s ErrApprovalNotActive
    else if \<not> can_transition RunWaitingApproval prior then
      \<exists>e. resume_run_after_approval rid prior now s = fail s (Errorf e)
    else \<exists>ev. resume_run_after_approval rid prior now s =
      commit (run_moved rid (set_status prior [] now) False now ev s) (set_status prior [] now cur)"
proof -
  have p: "affected (\<lambda>p. p_run p = rid \<and> p_status p = Pending) (approvals s) > 0 \<longleftrightarrow> waits"
    by (simp only: affected_pos waits_def)
  have w: "affected (\<lambda>a. a_run a = rid \<and> a_status a = InProgress) (attempts s) = 0 \<longleftrightarrow> \<not> working"
    by (auto simp: affected_zero working_def)
  have up: "update_one_run (\<lambda>r. r_id r = rid \<and> r_revision r = r_revision cur) (set_status prior [] now) e s =
      commit (s\<lparr>runs := update_where (\<lambda>r. r_id r = rid) (set_status prior [] now) (runs s)\<rparr>) ()" for e
    by (rule update_current [OF assms(1,2)]) simp
  show ?thesis
    unfolding resume_run_after_approval_def assms(2) option.case p w
    by (auto simp: require_transition_def up append_event_def run_moved_def)
qed

subsection \<open>A collector that fails\<close>

definition attempt_closed :: "string \<Rightarrow> string \<Rightarrow> string \<Rightarrow> gotime \<Rightarrow> db \<Rightarrow> db" where
  "attempt_closed aid out err now s =
     s\<lparr>attempts := update_where (\<lambda>q. a_id q = aid) (close_attempt AttemptFailed out err now) (attempts s)\<rparr>"

lemma update_current_attempt:
  assumes "store_ok s" and a: "find_attempt s aid = Some a" and q: "q a"
    and f: "\<And>b. a_id (f b) = a_id b" "\<And>b. a_slot (f b) = a_slot b"
  shows "update_one_attempt (\<lambda>b. a_id b = aid \<and> q b) f e s =
    commit (s\<lparr>attempts := update_where (\<lambda>b. a_id b = aid) f (attempts s)\<rparr>) ()"
proof -
  note d = ok_keys(2) [OF assms(1)]
  have slots: "distinct (map a_slot (attempts s))"
    using assms(1) by (simp add: store_ok_def distinct_keys_def)
  have only: "b = a" if "b \<in> set (attempts s)" "a_id b = aid" for b
    using select_key_unique [OF d that(1)] that(2) a by (simp add: find_attempt_def)
  have "affected (\<lambda>b. a_id b = aid \<and> q b) (attempts s) = 1"
    by (rule affected_key_one [OF d, where r = a and k = aid])
      (use a q in \<open>auto simp: find_attempt_def dest: select_key_SomeD\<close>)
  moreover have "update_where (\<lambda>b. a_id b = aid \<and> q b) f (attempts s) =
      update_where (\<lambda>b. a_id b = aid) f (attempts s)"
    using only q by (auto simp: update_where_def)
  moreover have "distinct (map a_slot (update_where (\<lambda>b. a_id b = aid) f (attempts s)))"
    using slots map_key_update_where [of a_slot f "\<lambda>b. a_id b = aid" "attempts s"] f(2) by simp
  ultimately show ?thesis by (simp add: update_one_attempt_def)
qed

lemma close_attempt_keys [simp]:
  "a_id (close_attempt st out err now a) = a_id a" "a_run (close_attempt st out err now a) = a_run a"
  "a_slot (close_attempt st out err now a) = a_slot a"
  "a_external (close_attempt st out err now a) = a_external a"
  "a_status (close_attempt st out err now a) = st"
  by (simp_all add: close_attempt_def a_slot_def)

text \<open>
  A collector that fails closes its run in the same transaction. The attempt becomes failed;
  a run that is working or waiting becomes \<open>uncertain\<close> when any uncompleted attempt of it, the
  failing one included, carries the side-effect marker, and \<open>failed\<close> otherwise, and its pending
  approvals are denied. A run that already ended, was interrupted or is uncertain keeps its row.
\<close>

theorem collector_failure:
  assumes ok: "store_ok s" and a: "find_attempt s aid = Some a" "a_stage a = StageCollect"
      "a_status a = InProgress"
    and cur: "find_run s (a_run a) = Some cur" "r_status cur \<noteq> RunQueued"
    and msg: "\<not> blank aid" "\<not> blank err"
  defines "nx \<equiv> if \<exists>b \<in> set (attempts s). open_side_effect (a_run a) b then RunUncertain else RunFailed"
  shows "if retires_pending_approvals (r_status cur)
    then fail_collect_stage_and_quiesce_run aid out err now s = commit (attempt_closed aid out err now s) cur
    else \<exists>ev. fail_collect_stage_and_quiesce_run aid out err now s =
      commit (run_moved (a_run a) (set_status nx err now) True now ev (attempt_closed aid out err now s))
        (set_status nx err now cur)"
proof -
  let ?u = "attempt_closed aid out err now s"
  have up: "update_one_attempt (\<lambda>q. a_id q = aid \<and> a_status q = InProgress)
      (close_attempt AttemptFailed out err now) e s = commit ?u ()" for e
    using update_current_attempt [OF ok a(1), of "\<lambda>q. a_status q = InProgress"] a(3)
    by (simp add: attempt_closed_def)
  have aid: "a_id a = aid" "a \<in> set (attempts s)" using find_attempt_in [OF a(1)] by simp_all
  show ?thesis
  proof (cases "retires_pending_approvals (r_status cur)")
    case True
    then show ?thesis
      using a cur msg
      by (auto simp: fail_collect_stage_and_quiesce_run_def up retires_pending_approvals_def)
  next
    case False
    have s_u: "fst (complete_stage aid out err now s) = ?u"
      using up msg by (auto simp: complete_stage_def blank_def trim_space_def)
    have ok_u: "store_ok ?u"
      using complete_stage_sound [of s aid out err now] ok by (simp add: sound_def s_u)
    have cur_u: "find_run ?u (a_run a) = Some cur" using cur by (simp add: attempt_closed_def find_run_def)
    have only: "b = a" if "b \<in> set (attempts s)" "a_id b = aid" for b
      using select_key_unique [OF ok_keys(2) [OF ok] that(1)] that(2) a by (simp add: find_attempt_def)
    have "(\<exists>b \<in> set (attempts ?u). open_side_effect (a_run a) b) \<longleftrightarrow>
        (\<exists>b \<in> set (attempts s). open_side_effect (a_run a) b)"
      using only a(3) by (auto simp: attempt_closed_def bex_update_where open_side_effect_def)
    then have nx: "nx = (if \<exists>b \<in> set (attempts ?u). open_side_effect (a_run a) b then RunUncertain else RunFailed)"
      by (simp add: nx_def)
    have tr: "can_transition (r_status cur) nx"
      using False cur(2) by (cases "r_status cur") (auto simp: nx_def can_transition_def retires_pending_approvals_def)
    show ?thesis
      using quiesce_transaction_outcome [OF ok_u cur_u nx tr, of err now] False a cur msg
      by (auto simp: fail_collect_stage_and_quiesce_run_def up retires_pending_approvals_def)
  qed
qed

end
