(* ===== verification/Run_Success.thy ===== *)
theory Run_Success
  imports Run_Outcomes
begin

section \<open>Success and the order of runs\<close>

text \<open>
  What a successful run adopts, and the order in which the runs of a project are admitted,
  with the effect of comparing timestamps as texts.
\<close>

subsection \<open>Success\<close>

lemma newest_artifact_Some:
  assumes "newest_artifact fs = Some f"
  shows "f \<in> set fs \<and> (\<forall>g \<in> set fs. (f_created g, f_id g) \<le> (f_created f, f_id f))"
proof -
  let ?k = "\<lambda>f. (f_created f, f_id f)"
  obtain gs where gs: "rev (sort_key ?k fs) = f # gs"
    using assms by (auto simp: newest_artifact_def split: list.splits)
  then have eq: "sort_key ?k fs = rev gs @ [f]" by (metis rev.simps(2) rev_rev_ident)
  have srt: "sorted (map ?k (rev gs @ [f]))" using eq sorted_sort_key [of ?k fs] by metis
  have mem: "set fs = set (rev gs @ [f])" using eq set_sort [of ?k fs] by metis
  show ?thesis using srt mem by (auto simp: sorted_append)
qed

definition document_rows :: "string \<Rightarrow> string \<Rightarrow> report_document option \<Rightarrow> gotime \<Rightarrow> artifact_row list" where
  "document_rows rid aid doc now =
     (case doc of
        None \<Rightarrow> []
      | Some d \<Rightarrow> [\<lparr>f_id = o_artifact d, f_run = rid, f_attempt = aid,
          f_kind = ''research.report.document'', f_blob = o_hash d, f_adopted = True,
          f_created = format_time now\<rparr>])"

lemma publish_document_result:
  assumes "publish_document rid aid doc now s = (t, Inr x)"
  shows "artifacts t = artifacts s @ document_rows rid aid doc now \<and> evidence t = evidence s \<and>
    kheads t = kheads s"
  using assms by (auto simp: publish_document_def document_rows_def Let_def split: option.splits if_splits)

lemma adopt_documents:
  "update_where p (\<lambda>f. f\<lparr>f_adopted := True\<rparr>) (document_rows rid aid doc now) = document_rows rid aid doc now"
  by (simp add: document_rows_def split: option.split)

lemma update_where_append:
  "update_where p f (xs @ ys) = update_where p f xs @ update_where p f ys"
  by (simp add: update_where_def)

lemma adopt_same:
  "attempts t = attempts s \<Longrightarrow> adopt_artifact t rid rep = adopt_artifact s rid rep"
  "attempts t = attempts s \<Longrightarrow> adopt_evidence t rid = adopt_evidence s rid"
  by (simp_all add: fun_eq_iff adopt_artifact_def adopt_evidence_def attempt_ids_def)

text \<open>
  C2. A success adopts exactly the accepted results. Only a reviewing run at the expected
  revision can succeed, and only with a final report: the newest report artifact of the current
  revision cycle published by a completed synthesis or revision attempt. In one transaction the
  run is marked succeeded with that report, the report and everything the completed collectors
  published become adopted, the evidence of completed attempts becomes adopted, nothing else
  does, the project's knowledge head goes stale, and the pending approvals of the run are
  denied. The Word document, when there is one, is stored as one more adopted artifact of the
  attempt that wrote the report.
\<close>

theorem success_adopts_exactly:
  assumes ok: "store_ok s" and q: "succeed_run rid ex doc now s = (t, Inr q)"
  shows "\<exists>cur rep. find_run s rid = Some cur \<and> r_revision cur = ex \<and> r_status cur = RunReviewing \<and>
    rep \<in> set (artifacts s) \<and> final_report s cur rep \<and>
    (\<forall>g \<in> set (artifacts s). final_report s cur g \<longrightarrow> (f_created g, f_id g) \<le> (f_created rep, f_id rep)) \<and>
    q = set_succeeded (f_id rep) now cur \<and>
    runs t = update_where (\<lambda>r. r_id r = rid) (set_succeeded (f_id rep) now) (runs s) \<and>
    attempts t = attempts s \<and>
    approvals t = update_where (pending_of rid) (deny_row now) (approvals s) \<and>
    artifacts t = update_where (adopt_artifact s rid (f_id rep)) (\<lambda>f. f\<lparr>f_adopted := True\<rparr>) (artifacts s) @
      document_rows rid (f_attempt rep) doc now \<and>
    evidence t = update_where (adopt_evidence s rid) (\<lambda>v. v\<lparr>v_adopted := True\<rparr>) (evidence s) \<and>
    affected (\<lambda>h. h_project h = r_project cur) (kheads s) = 1 \<and>
    kheads t = update_where (\<lambda>h. h_project h = r_project cur) (stale_head now) (kheads s)"
proof (rule succeed_run_chain [OF q])
  fix cur rep s1 s2 s3 s4
  assume cur: "find_run s rid = Some cur" "r_revision cur = ex"
    and tr: "can_transition (r_status cur) RunSucceeded"
    and rep: "newest_artifact (filter (final_report s cur) (artifacts s)) = Some rep"
    and s1: "publish_document rid (f_attempt rep) doc now s = (s1, Inr ())"
    and s2: "s2 = s1\<lparr>runs := update_where (\<lambda>r. r_id r = rid \<and> r_revision r = ex)
             (set_succeeded (f_id rep) now) (runs s1)\<rparr>"
    and s3: "adopt_results cur (f_id rep) now s2 = (s3, Inr ())"
    and s4: "retire_pending_approvals rid (''run_'' @ status_text RunSucceeded) now s3 = (s4, Inr ())"
    and t: "t = append_event s4 rid ''run.transition''
       [(''from'', JStr (status_text (r_status cur))), (''to'', JStr (status_text RunSucceeded)),
        (''revision'', JInt (ex + 1)), (''report_artifact_id'', JStr (f_id rep))] now"
    and qq: "q = set_succeeded (f_id rep) now cur"
  have id: "r_id cur = rid" using find_run_in [OF cur(1)] by simp
  note p1 = publish_document_core [OF s1] publish_document_result [OF s1]
  have core2: "attempts s2 = attempts s" "approvals s2 = approvals s" using p1 by (simp_all add: s2)
  have heads: "affected (\<lambda>h. h_project h = r_project cur) (kheads s) = 1"
    and a3: "artifacts s3 = update_where (adopt_artifact s rid (f_id rep)) (\<lambda>f. f\<lparr>f_adopted := True\<rparr>) (artifacts s2)"
    and v3: "evidence s3 = update_where (adopt_evidence s rid) (\<lambda>v. v\<lparr>v_adopted := True\<rparr>) (evidence s2)"
    and h3: "kheads s3 = update_where (\<lambda>h. h_project h = r_project cur) (stale_head now) (kheads s)"
    and r3: "runs s3 = runs s2" "attempts s3 = attempts s" "approvals s3 = approvals s"
    using s3 p1 core2 adopt_same [OF core2(1)]
    by (auto simp: adopt_results_def Let_def id s2 split: if_splits)
  obtain ev where "retire_pending_approvals rid (''run_'' @ status_text RunSucceeded) now s3 =
      (s3\<lparr>approvals := update_where (pending_of rid) (deny_row now) (approvals s), events := events s3 @ ev\<rparr>, Inr ())"
    using retire_all [OF ok r3(3)] by blast
  then have s4': "s4 = s3\<lparr>approvals := update_where (pending_of rid) (deny_row now) (approvals s),
      events := events s3 @ ev\<rparr>"
    using s4 by simp
  have "update_where (\<lambda>r. r_id r = rid \<and> r_revision r = ex) (set_succeeded (f_id rep) now) (runs s) =
      update_where (\<lambda>r. r_id r = rid) (set_succeeded (f_id rep) now) (runs s)"
    using find_run_only [OF ok_keys(1) [OF ok] cur(1)] cur(2) by (auto simp: update_where_def)
  then have runs: "runs t = update_where (\<lambda>r. r_id r = rid) (set_succeeded (f_id rep) now) (runs s)"
    using p1 r3 by (simp add: t s4' s2)
  have report: "rep \<in> set (artifacts s)" "final_report s cur rep"
    "\<forall>g \<in> set (artifacts s). final_report s cur g \<longrightarrow> (f_created g, f_id g) \<le> (f_created rep, f_id rep)"
    using newest_artifact_Some [OF rep] by auto
  have arts: "artifacts t = update_where (adopt_artifact s rid (f_id rep)) (\<lambda>f. f\<lparr>f_adopted := True\<rparr>)
      (artifacts s) @ document_rows rid (f_attempt rep) doc now"
    using p1 by (simp add: t s4' a3 s2 update_where_append adopt_documents)
  have rest: "attempts t = attempts s" "approvals t = update_where (pending_of rid) (deny_row now) (approvals s)"
    "evidence t = update_where (adopt_evidence s rid) (\<lambda>v. v\<lparr>v_adopted := True\<rparr>) (evidence s)"
    "kheads t = update_where (\<lambda>h. h_project h = r_project cur) (stale_head now) (kheads s)"
    using p1 r3 v3 h3 by (simp_all add: t s4' s2)
  have st: "r_status cur = RunReviewing" using tr by (simp add: to_succeeded)
  show ?thesis
    by (rule exI [of _ cur], rule exI [of _ rep])
      (intro conjI cur st report qq runs arts rest heads)
qed

definition review_store :: db where
  "review_store = sample_store
     \<lparr>runs := [sample_run ''r4'' RunReviewing 7 ''2026-01-02T03:04:01Z''],
      attempts := [sample_attempt ''s0'' ''r4'' StageSynthesize 0 Completed False,
                   sample_attempt ''c0'' ''r4'' StageCollect 0 Completed False,
                   sample_attempt ''c1'' ''r4'' StageCollect 1 AttemptFailed False],
      approvals := [],
      artifacts := [\<lparr>f_id = ''rep'', f_run = ''r4'', f_attempt = ''s0'', f_kind = ''research.report'',
                      f_blob = ''b'', f_adopted = False, f_created = ''2026-01-02T03:04:07Z''\<rparr>,
                    \<lparr>f_id = ''lost'', f_run = ''r4'', f_attempt = ''c1'', f_kind = ''note'',
                      f_blob = ''b'', f_adopted = False, f_created = ''2026-01-02T03:04:08Z''\<rparr>]\<rparr>"

theorem success_adopts_exactly_witness:
  "\<exists>t q. succeed_run ''r4'' 7 None (at_second 9) review_store = (t, Inr q) \<and>
     map f_adopted (artifacts t) = [True, False]"
proof -
  have ok: "store_ok review_store" by code_simp
  have "\<exists>t q. succeed_run ''r4'' 7 None (at_second 9) review_store = (t, Inr q)"
    by (simp add: succeed_run_def review_store_def sample_rows query_defs status_defs newest_artifact_def
        final_report_def publish_document_def adopt_results_def retire_defs)
  then obtain t q where q: "succeed_run ''r4'' 7 None (at_second 9) review_store = (t, Inr q)" by blast
  obtain cur rep where cur: "find_run review_store ''r4'' = Some cur"
    and rep: "rep \<in> set (artifacts review_store)" "final_report review_store cur rep"
    and t: "artifacts t = update_where (adopt_artifact review_store ''r4'' (f_id rep))
      (\<lambda>f. f\<lparr>f_adopted := True\<rparr>) (artifacts review_store) @ document_rows ''r4'' (f_attempt rep) None (at_second 9)"
    using success_adopts_exactly [OF ok q] by blast
  have "f_id rep = ''rep''"
    using rep by (auto simp: review_store_def sample_rows final_report_def find_attempt_def)
  then have "map f_adopted (artifacts t) = [True, False]"
    by (simp add: t document_rows_def adopt_artifact_def attempt_ids_def review_store_def sample_rows)
  with q show ?thesis by (intro exI conjI)
qed

subsection \<open>Timestamps as texts\<close>

lemma length_date_clock [simp]: "length (date_clock t) = 19"
  by (simp add: date_clock_def)

lemma date_clock_order:
  assumes "valid_time t" and "valid_time u"
  shows "date_clock t \<noteq> date_clock u \<Longrightarrow> date_clock t < date_clock u \<longleftrightarrow> time_before t u"
    and "date_clock t = date_clock u \<Longrightarrow> time_before t u \<longleftrightarrow> t_nano t < t_nano u"
  using assms
  by (auto simp: date_clock_def time_before_def time_key_def field_order)

text \<open>
  How stored timestamps compare. The store keeps instants in RFC 3339 form with trailing zeros
  of the fraction removed, and SQL compares them as texts. Across different seconds the texts
  order exactly as time does. Within one second they need not: an instant with a zero fraction
  compares after every later instant of the same second, so the text order is reversed there.
\<close>

lemma stored_time_order:
  assumes "valid_time t" and "valid_time u"
  shows "(date_clock t \<noteq> date_clock u \<longrightarrow> (format_time t < format_time u \<longleftrightarrow> time_before t u)) \<and>
    (date_clock t = date_clock u \<and> t_nano t = 0 \<and> 0 < t_nano u \<longrightarrow>
       time_before t u \<and> format_time u < format_time t)"
  using date_clock_order [OF assms]
  by (auto simp: format_time_def less_append_same_length)

subsection \<open>Project FIFO\<close>

text \<open>
  At most one run of a project is at the head of its queue. The query orders the unresolved
  runs of a project totally (by creation text, then id): two different unresolved runs of a
  project cannot both be without an earlier one, and a project with an unresolved run has one
  that is. A run is admitted only when the query finds no earlier run, so no two runs of one
  project are admitted at a time, and a project with work left is never blocked.
\<close>

lemma fifo_head:
  assumes "store_ok s" and "find_run s rid = Some r" and "unresolved (r_status r)"
  shows "\<exists>!q. q \<in> set (runs s) \<and> r_project q = r_project r \<and> unresolved (r_status q) \<and>
    has_earlier_unresolved_run s (r_id q) = Inr False"
proof -
  let ?P = "\<lambda>q. q \<in> set (runs s) \<and> r_project q = r_project r \<and> unresolved (r_status q)"
  let ?k = "\<lambda>q. (r_created q, r_id q)"
  have d: "distinct (map r_id (runs s))" by (rule ok_keys(1) [OF assms(1)])
  have find: "find_run s (r_id q) = Some q" if "q \<in> set (runs s)" for q
    using select_key_unique [OF d that] by (simp add: find_run_def)
  have head: "has_earlier_unresolved_run s (r_id q) = Inr False \<longleftrightarrow> (\<forall>x. ?P x \<longrightarrow> \<not> ?k x < ?k q)" if "?P q" for q
  proof -
    have q: "q \<in> set (runs s)" using that by simp
    have "earlier_unresolved q x \<longleftrightarrow> ?P x \<and> ?k x < ?k q" if "x \<in> set (runs s)" for x
    proof -
      have "x = q" if "r_id x = r_id q"
        using that find [OF \<open>x \<in> set (runs s)\<close>] find [OF q] by (metis option.inject)
      then consider "x = q" | "r_id x \<noteq> r_id q" by blast
      then show ?thesis
        using that \<open>?P q\<close> by cases (auto simp: earlier_unresolved_def le_less)
    qed
    then show ?thesis using has_earlier_unresolved_run_iff [OF find [OF q]] by auto
  qed
  have fin: "finite {q. ?P q}" by simp
  have r: "?P r" using find_run_in [OF assms(2)] assms(3) by simp
  obtain m where m: "?P m" "\<forall>x. ?P x \<longrightarrow> \<not> ?k x < ?k m"
    using ex_min_if_finite [of "?k ` {q. ?P q}"] fin r by fastforce
  show ?thesis
  proof (rule ex1I [of _ m])
    show "m \<in> set (runs s) \<and> r_project m = r_project r \<and> unresolved (r_status m) \<and>
        has_earlier_unresolved_run s (r_id m) = Inr False"
      using m head [OF m(1)] by blast
  next
    fix q assume q: "q \<in> set (runs s) \<and> r_project q = r_project r \<and> unresolved (r_status q) \<and>
        has_earlier_unresolved_run s (r_id q) = Inr False"
    have "\<not> ?k m < ?k q" "\<not> ?k q < ?k m" using head [of q] q m by blast+
    then have "r_id q = r_id m" by (metis linorder_neqE prod.inject)
    then show "q = m" using find [of q] find [of m] q m(1) by (metis option.inject)
  qed
qed

text \<open>
  Where the FIFO order is not the order of creation. Two queued runs of one project, the first
  created on a whole second and the second later within the same second: the query reports that
  the first has an earlier unresolved run and the second has none, so the later run is admitted
  first and the earlier one waits for it.
\<close>

theorem fifo_reversed:
  assumes "valid_time t" and "valid_time u" and "date_clock t = date_clock u"
    and "t_nano t = 0" and "0 < t_nano u" and "a \<noteq> b"
  defines "s \<equiv> empty_store\<lparr>runs := [sample_run a RunQueued 0 (format_time t),
                                 sample_run b RunQueued 0 (format_time u)]\<rparr>"
  shows "time_before t u \<and> has_earlier_unresolved_run s a = Inr True \<and>
    has_earlier_unresolved_run s b = Inr False"
proof -
  have o: "format_time u < format_time t" "time_before t u"
    using date_clock_order [OF assms(1,2)] assms(3-5)
    by (auto simp: format_time_def less_append_same_length)
  have fa: "find_run s a = Some (sample_run a RunQueued 0 (format_time t))"
    and fb: "find_run s b = Some (sample_run b RunQueued 0 (format_time u))"
    using assms(6) by (simp_all add: s_def find_run_def sample_run_def)
  have "\<not> format_time t < format_time u" "format_time t \<noteq> format_time u" using o(1) by auto
  with o assms(6) show ?thesis
    unfolding has_earlier_unresolved_run_iff [OF fa] has_earlier_unresolved_run_iff [OF fb]
    by (simp add: s_def empty_store_def earlier_unresolved_def sample_run_def unresolved_def)
qed

end
