(* ===== verification/Recovery_Properties.thy ===== *)
theory Recovery_Properties
  imports Run_Outcomes
begin

section \<open>What recovery does\<close>

text \<open>
  The outcome of \<open>RecoverInFlight\<close> as one equation per table: it never fails on a store that
  satisfies the invariants, and leaves nothing running, working, in progress or answerable.
\<close>

subsection \<open>Two updates as one\<close>

lemma update_where_twice:
  assumes "\<And>x. p x \<Longrightarrow> \<not> q (f x)"
  shows "update_where q f (update_where p f xs) = update_where (\<lambda>x. p x \<or> q x) f xs"
  using assms by (induction xs) auto

lemma update_where_cong:
  "(\<And>x. x \<in> set xs \<Longrightarrow> p x = q x) \<Longrightarrow> update_where p f xs = update_where q f xs"
  by (auto simp: update_where_def)

subsection \<open>Installations\<close>

abbreviation interrupted_install :: "gotime \<Rightarrow> install_row \<Rightarrow> install_row" where
  "interrupted_install now \<equiv> closed_install InstallInterrupted
     ''application exited while tool installation was in progress'' now"

lemma one_live_update:
  assumes "one_live rows" and "\<And>n. p n \<Longrightarrow> \<not> install_live (n_state (f n))"
  shows "one_live (update_where p f rows)"
proof -
  have "filter (\<lambda>n. install_live (n_state n)) (update_where p f rows) =
      filter (\<lambda>n. install_live (n_state n) \<and> \<not> p n) rows"
    using assms(2) by (induction rows) auto
  moreover have "filter (\<lambda>n. install_live (n_state n) \<and> \<not> p n) rows =
      filter (\<lambda>n. \<not> p n) (filter (\<lambda>n. install_live (n_state n)) rows)"
    by simp
  ultimately show ?thesis
    using assms(1) by (simp only: one_live_def distinct_map_filter)
qed

lemma interrupt_installs:
  assumes "installs_ok s" and p: "\<And>n. p n \<Longrightarrow> install_working (n_state n)"
  shows "update_installs p (interrupted_install now) s =
    commit (s\<lparr>tools := (tools s)\<lparr>installs := update_where p (interrupted_install now) (installs (tools s))\<rparr>\<rparr>)
      (affected p (installs (tools s)))"
proof -
  let ?f = "interrupted_install now"
  have live: "one_live (update_where p ?f (installs (tools s)))"
    using assms(1) by (intro one_live_update)
      (auto simp: installs_ok_def closed_install_def install_live_def install_working_def)
  have "install_change (n_state n) (n_state (?f n)) \<and> install_checks s (?f n)"
    if "n \<in> set (installs (tools s))" "p n" for n
  proof
    show "install_change (n_state n) (n_state (?f n))"
      using p [OF that(2)]
      by (cases "n_state n") (auto simp: install_change_def install_terminal_def install_working_def closed_install_def)
    show "install_checks s (?f n)"
      using assms(1) that(1) by (auto simp: installs_ok_def install_checks_def closed_install_def)
  qed
  then show ?thesis using live by (auto simp: update_installs_def Let_def list_ex_iff)
qed

lemma interrupt_each_ok:
  assumes "installs_ok s"
  shows "\<exists>ies. interrupt_each now ns s = commit
    (s\<lparr>tools := (tools s)
        \<lparr>installs := update_where (\<lambda>m. n_id m \<in> n_id ` set ns \<and> install_working (n_state m))
           (interrupted_install now) (installs (tools s)),
         install_events := install_events (tools s) @ ies\<rparr>\<rparr>) ()"
  using assms
proof (induction ns arbitrary: s)
  case Nil
  have "update_where (\<lambda>m. False) f xs = xs" for f and xs :: "install_row list"
    by (simp add: update_where_def)
  then show ?case by (auto intro!: exI [of _ "[]"])
next
  case (Cons n ns)
  let ?p = "\<lambda>m. n_id m = n_id n \<and> install_working (n_state m)"
  let ?f = "interrupted_install now"
  let ?s1 = "s\<lparr>tools := (tools s)\<lparr>installs := update_where ?p ?f (installs (tools s))\<rparr>\<rparr>"
  let ?s2 = "append_install_event ?s1 n ''interrupted'' (RawJson ''{}'') now"
  have up: "update_installs ?p ?f s = commit ?s1 (affected ?p (installs (tools s)))"
    by (rule interrupt_installs [OF Cons.prems]) simp
  have "installs_ok ?s2"
    using update_installs_ok [OF Cons.prems up] by (simp add: closed_install_def)
  then obtain ies where ih: "interrupt_each now ns ?s2 = commit
    (?s2\<lparr>tools := (tools ?s2)
        \<lparr>installs := update_where (\<lambda>m. n_id m \<in> n_id ` set ns \<and> install_working (n_state m)) ?f
           (installs (tools ?s2)),
         install_events := install_events (tools ?s2) @ ies\<rparr>\<rparr>) ()"
    using Cons.IH [of ?s2] by blast
  have "update_where (\<lambda>m. n_id m \<in> n_id ` set ns \<and> install_working (n_state m)) ?f
      (update_where ?p ?f (installs (tools s))) =
    update_where (\<lambda>m. n_id m \<in> n_id ` set (n # ns) \<and> install_working (n_state m)) ?f (installs (tools s))"
    by (subst update_where_twice)
      (auto simp: closed_install_def install_working_def intro: update_where_cong)
  then show ?case
    unfolding interrupt_each.simps Let_def up and_then.simps ih
    by (simp add: append_install_event_def) (rule exI, rule refl)
qed

subsection \<open>Invocations\<close>

abbreviation uncertain_call :: "gotime \<Rightarrow> invocation_row \<Rightarrow> invocation_row" where
  "uncertain_call now \<equiv> ended_call CallUncertain
     ''application exited while native tool outcome was unknown'' now"

lemma lose_invocations:
  assumes "calls_ok s" and p: "\<And>q. p q \<Longrightarrow> q_state q = CallRunning"
  shows "update_invocations p (uncertain_call now) s =
    commit (s\<lparr>tools := (tools s)\<lparr>invocations := update_where p (uncertain_call now) (invocations (tools s))\<rparr>\<rparr>)
      (affected p (invocations (tools s)))"
  using assms
  by (auto simp: update_invocations_def Let_def list_ex_iff call_close_ok_def ended_call_def calls_ok_def
      known_blob_def)

lemma uncertain_each_ok:
  assumes "calls_ok s"
  shows "\<exists>ev. uncertain_each now qs s = commit
    (s\<lparr>tools := (tools s)
        \<lparr>invocations := update_where (\<lambda>m. q_id m \<in> q_id ` set qs \<and> q_state m = CallRunning)
           (uncertain_call now) (invocations (tools s))\<rparr>, events := events s @ ev\<rparr>) ()"
  using assms
proof (induction qs arbitrary: s)
  case Nil
  have "update_where (\<lambda>m. False) f xs = xs" for f and xs :: "invocation_row list"
    by (simp add: update_where_def)
  then show ?case by (auto intro!: exI [of _ "[]"])
next
  case (Cons q qs)
  let ?f = "uncertain_call now"
  let ?s1 = "s\<lparr>tools := (tools s)\<lparr>invocations := update_where (running_call (q_id q)) ?f (invocations (tools s))\<rparr>\<rparr>"
  let ?s2 = "append_event ?s1 (q_run q) ''tool.invocation.uncertain''
             [(''invocation_id'', JStr (q_id q)), (''stage_attempt_id'', JStr (q_attempt q))] now"
  have up: "update_invocations (running_call (q_id q)) ?f s =
      commit ?s1 (affected (running_call (q_id q)) (invocations (tools s)))"
    by (rule lose_invocations [OF Cons.prems]) (simp add: running_call_def)
  have "calls_ok ?s2"
    using Cons.prems
    by (auto simp: calls_ok_def marked_def set_update_where running_call_def ended_call_def
        map_key_update_where call_key_def call_contract_def)
  then obtain ev where ih: "uncertain_each now qs ?s2 = commit
    (?s2\<lparr>tools := (tools ?s2)
        \<lparr>invocations := update_where (\<lambda>m. q_id m \<in> q_id ` set qs \<and> q_state m = CallRunning) ?f
           (invocations (tools ?s2))\<rparr>, events := events ?s2 @ ev\<rparr>) ()"
    using Cons.IH [of ?s2] by blast
  have "update_where (\<lambda>m. q_id m \<in> q_id ` set qs \<and> q_state m = CallRunning) ?f
      (update_where (running_call (q_id q)) ?f (invocations (tools s))) =
    update_where (\<lambda>m. q_id m \<in> q_id ` set (q # qs) \<and> q_state m = CallRunning) ?f (invocations (tools s))"
    by (subst update_where_twice)
      (auto simp: ended_call_def running_call_def intro: update_where_cong)
  then show ?case
    unfolding uncertain_each.simps up and_then.simps ih
    by (simp add: append_event_def) (rule exI, rule refl)
qed

lemma recover_tool_work_ok:
  assumes "installs_ok s" and "calls_ok s"
  shows "\<exists>ies ev n. recover_tool_work now s = commit
    (s\<lparr>tools := (tools s)
        \<lparr>installs := update_where (\<lambda>n. install_working (n_state n)) (interrupted_install now) (installs (tools s)),
         install_events := install_events (tools s) @ ies,
         invocations := update_where (\<lambda>q. q_state q = CallRunning) (uncertain_call now) (invocations (tools s))\<rparr>,
       events := events s @ ev\<rparr>) n"
proof -
  let ?ni = "update_where (\<lambda>m. n_id m \<in> n_id ` set (working_installs s) \<and> install_working (n_state m))
    (interrupted_install now) (installs (tools s))"
  have ni: "?ni = update_where (\<lambda>n. install_working (n_state n)) (interrupted_install now) (installs (tools s))"
    by (rule update_where_cong) (auto simp: working_installs_def)
  obtain ies where i: "interrupt_each now (working_installs s) s =
      commit (s\<lparr>tools := (tools s)\<lparr>installs := ?ni, install_events := install_events (tools s) @ ies\<rparr>\<rparr>) ()"
    using interrupt_each_ok [OF assms(1)] by blast
  let ?s1 = "s\<lparr>tools := (tools s)\<lparr>installs := ?ni, install_events := install_events (tools s) @ ies\<rparr>\<rparr>"
  have "calls_ok ?s1" using assms(2) by (simp add: calls_ok_def marked_def)
  then obtain ev where u: "uncertain_each now (running_calls ?s1) ?s1 = commit
    (?s1\<lparr>tools := (tools ?s1)
        \<lparr>invocations := update_where (\<lambda>m. q_id m \<in> q_id ` set (running_calls ?s1) \<and> q_state m = CallRunning)
           (uncertain_call now) (invocations (tools ?s1))\<rparr>, events := events ?s1 @ ev\<rparr>) ()"
    using uncertain_each_ok by blast
  have "update_where (\<lambda>m. q_id m \<in> q_id ` set (running_calls ?s1) \<and> q_state m = CallRunning)
      (uncertain_call now) (invocations (tools s)) =
    update_where (\<lambda>q. q_state q = CallRunning) (uncertain_call now) (invocations (tools s))"
    by (rule update_where_cong) (auto simp: running_calls_def)
  then show ?thesis
    unfolding recover_tool_work_def i and_then.simps u
    by (simp add: ni) (rule exI, rule exI, rule refl)
qed

subsection \<open>Runs and attempts\<close>

text \<open>What the list of recoveries says of a run, and the rows it leaves.\<close>

definition recovery_of :: "recovery list \<Rightarrow> string \<Rightarrow> bool option" where
  "recovery_of items rid = map_of (map (\<lambda>(i, v, x). (i, x)) items) rid"

definition recovered_run :: "gotime \<Rightarrow> recovery list \<Rightarrow> run_row \<Rightarrow> run_row" where
  "recovered_run now items r =
     (case recovery_of items (r_id r) of None \<Rightarrow> r | Some x \<Rightarrow> recover_run_row x now r)"

definition recovered_attempt :: "gotime \<Rightarrow> recovery list \<Rightarrow> attempt_row \<Rightarrow> attempt_row" where
  "recovered_attempt now items a =
     (case recovery_of items (a_run a) of
        None \<Rightarrow> a
      | Some x \<Rightarrow> if a_status a = InProgress then recover_attempt_row x now a else a)"

lemma recovery_of_None: "recovery_of items rid = None \<longleftrightarrow> rid \<notin> fst ` set items"
  by (auto simp: recovery_of_def map_of_eq_None_iff image_iff split_beta)

lemma recover_each_ok:
  assumes "distinct (map fst items)" and "distinct (map r_id (runs s))"
    and "\<And>rid rv x. (rid, rv, x) \<in> set items \<Longrightarrow> \<exists>r \<in> set (runs s). r_id r = rid \<and> r_revision r = rv"
  shows "\<exists>ev. recover_each now items s = commit
    (s\<lparr>runs := map (recovered_run now items) (runs s),
       attempts := map (recovered_attempt now items) (attempts s), events := events s @ ev\<rparr>) ()"
  using assms
proof (induction items arbitrary: s)
  case Nil
  then show ?case
    by (auto simp: recovered_run_def recovered_attempt_def recovery_of_def intro!: exI [of _ "[]"])
next
  case (Cons item items)
  obtain rid rv x where item: "item = (rid, rv, x)" by (cases item) auto
  obtain cur where cur: "cur \<in> set (runs s)" "r_id cur = rid" "r_revision cur = rv"
    using Cons.prems(3) [of rid rv x] item by auto
  let ?p = "\<lambda>r. r_id r = rid \<and> r_revision r = rv"
  let ?f = "recover_run_row x now" and ?g = "recover_attempt_row x now"
  let ?s1 = "s\<lparr>runs := update_where ?p ?f (runs s),
    attempts := update_where (\<lambda>a. a_run a = rid \<and> a_status a = InProgress) ?g (attempts s)\<rparr>"
  let ?s2 = "append_event ?s1 rid ''run.recovered''
     [(''status'', JStr (status_text (recovered_status x))), (''external_side_effects'', JBool x)] now"
  have only: "r = cur" if "r \<in> set (runs s)" "r_id r = rid" for r
    using select_key_unique [OF Cons.prems(2) that(1)] select_key_unique [OF Cons.prems(2) cur(1)] that(2) cur(2)
    by simp
  have one: "affected ?p (runs s) = 1"
    by (rule affected_key_one [OF Cons.prems(2) cur(1), where k = rid]) (use cur in auto)
  have "\<exists>ev. recover_each now items ?s2 = commit
    (?s2\<lparr>runs := map (recovered_run now items) (runs ?s2),
       attempts := map (recovered_attempt now items) (attempts ?s2), events := events ?s2 @ ev\<rparr>) ()"
  proof (rule Cons.IH)
    show "distinct (map fst items)" using Cons.prems(1) by simp
    show "distinct (map r_id (runs ?s2))"
      using Cons.prems(2) by (simp add: map_key_update_where recover_run_row_def)
    fix i v y assume i: "(i, v, y) \<in> set items"
    then obtain r where r: "r \<in> set (runs s)" "r_id r = i" "r_revision r = v"
      using Cons.prems(3) [of i v y] by auto
    have "i \<noteq> rid" using i Cons.prems(1) item by force
    then have "\<exists>q \<in> set (update_where ?p ?f (runs s)). r_id q = i \<and> r_revision q = v"
      unfolding bex_update_where using r by (intro bexI [of _ r]) auto
    then show "\<exists>r \<in> set (runs ?s2). r_id r = i \<and> r_revision r = v" by simp
  qed
  then obtain ev where ih: "recover_each now items ?s2 = commit
    (?s2\<lparr>runs := map (recovered_run now items) (runs ?s2),
       attempts := map (recovered_attempt now items) (attempts ?s2), events := events ?s2 @ ev\<rparr>) ()"
    by blast
  have none: "recovery_of items rid = None" using Cons.prems(1) item by (auto simp: recovery_of_None)
  have step: "recovery_of (item # items) k = (if k = rid then Some x else recovery_of items k)" for k
    by (simp add: recovery_of_def item)
  have runs: "map (recovered_run now items) (update_where ?p ?f (runs s)) =
      map (recovered_run now (item # items)) (runs s)"
  proof -
    have "recovered_run now items (if ?p r then ?f r else r) = recovered_run now (item # items) r"
      if "r \<in> set (runs s)" for r
    proof (cases "r_id r = rid")
      case True
      then have "r_revision r = rv" using only [OF that] cur(3) by simp
      with True show ?thesis by (simp add: recovered_run_def step recover_run_row_def none)
    qed (simp add: recovered_run_def step)
    then show ?thesis by (simp add: update_where_def)
  qed
  have atts: "map (recovered_attempt now items)
      (update_where (\<lambda>a. a_run a = rid \<and> a_status a = InProgress) ?g (attempts s)) =
      map (recovered_attempt now (item # items)) (attempts s)"
  proof -
    have "recovered_attempt now items (if a_run a = rid \<and> a_status a = InProgress then ?g a else a) =
        recovered_attempt now (item # items) a" for a
      by (cases "a_run a = rid") (simp_all add: recovered_attempt_def step recover_attempt_row_def none)
    then show ?thesis by (simp add: update_where_def)
  qed
  have "recover_each now (item # items) s = recover_each now items ?s2"
    by (simp add: item update_one_run_def one)
  then show ?case
    unfolding ih using runs atts by (simp add: append_event_def) (rule exI, rule refl)
qed

text \<open>
  C3. Recovery at startup is total and exact. On every reachable store the transaction commits and
  returns the number of runs that were in flight; each of those becomes \<open>uncertain\<close> exactly when
  one of its in-progress or interrupted attempts carries the side-effect marker and
  \<open>interrupted\<close> otherwise, at the next revision, and its in-progress attempts get the matching
  status; every pending or authorizing approval expires, every running solver job and tool
  invocation becomes uncertain, every unfinished installation is interrupted; nothing else of
  these tables changes.
\<close>

theorem recovery_outcome:
  assumes ok: "store_ok s" and led: "ledger_ok s"
  shows "\<exists>t. recover_in_flight now s = commit t (affected (\<lambda>r. in_flight (r_status r)) (runs s)) \<and>
    runs t = map (\<lambda>r. if in_flight (r_status r)
      then recover_run_row (unfinished_side_effect s (r_id r)) now r else r) (runs s) \<and>
    attempts t = map (\<lambda>a. if a_status a = InProgress \<and>
        (\<exists>r \<in> set (runs s). r_id r = a_run a \<and> in_flight (r_status r))
      then recover_attempt_row (unfinished_side_effect s (a_run a)) now a else a) (attempts s) \<and>
    approvals t = update_where answerable (expire_row now) (approvals s) \<and>
    jobs (eng t) = update_where (\<lambda>j. j_status j = JobRunning)
      (ended_job JobUncertain ''application exited while the external solver outcome was unknown'' now)
      (jobs (eng s)) \<and>
    installs (tools t) = update_where (\<lambda>n. install_working (n_state n)) (interrupted_install now)
      (installs (tools s)) \<and>
    invocations (tools t) = update_where (\<lambda>q. q_state q = CallRunning) (uncertain_call now)
      (invocations (tools s))"
proof -
  note d = ok_keys(1) [OF ok]
  have "installs_ok s" "calls_ok s" using led by (simp_all add: ledger_ok_def)
  then obtain ies ev n where w: "recover_tool_work now s = commit
    (s\<lparr>tools := (tools s)
        \<lparr>installs := update_where (\<lambda>n. install_working (n_state n)) (interrupted_install now) (installs (tools s)),
         install_events := install_events (tools s) @ ies,
         invocations := update_where (\<lambda>q. q_state q = CallRunning) (uncertain_call now) (invocations (tools s))\<rparr>,
       events := events s @ ev\<rparr>) n"
    using recover_tool_work_ok by blast
  let ?s1 = "fst (recover_tool_work now s)"
  let ?u = "lose_jobs now (expire_approvals now ?s1)"
  have u: "runs ?u = runs s" "attempts ?u = attempts s" by (simp_all add: w lose_jobs_def expire_approvals_def)
  have "\<exists>ev. recover_each now (recoveries s) ?u = commit
    (?u\<lparr>runs := map (recovered_run now (recoveries s)) (runs ?u),
       attempts := map (recovered_attempt now (recoveries s)) (attempts ?u), events := events ?u @ ev\<rparr>) ()"
    by (rule recover_each_ok [OF recoveries_distinct [OF d]]) (auto simp: u d recoveries_def)
  then obtain ev' where e: "recover_each now (recoveries s) ?u = commit
    (?u\<lparr>runs := map (recovered_run now (recoveries s)) (runs ?u),
       attempts := map (recovered_attempt now (recoveries s)) (attempts ?u), events := events ?u @ ev'\<rparr>) ()"
    by blast
  let ?t = "?u\<lparr>runs := map (recovered_run now (recoveries s)) (runs ?u),
       attempts := map (recovered_attempt now (recoveries s)) (attempts ?u), events := events ?u @ ev'\<rparr>"
  have t: "recover_in_flight now s = commit ?t (length (recoveries s))"
    unfolding recover_in_flight_def using e w by simp
  have len: "length (recoveries s) = affected (\<lambda>r. in_flight (r_status r)) (runs s)"
    by (simp add: recoveries_def affected_def)
  have of_run: "recovery_of (recoveries s) k =
      (if \<exists>r \<in> set (runs s). r_id r = k \<and> in_flight (r_status r) then Some (unfinished_side_effect s k) else None)" for k
  proof (cases "\<exists>r \<in> set (runs s). r_id r = k \<and> in_flight (r_status r)")
    case True
    then obtain r where r: "r \<in> set (runs s)" "r_id r = k" "in_flight (r_status r)" by blast
    have "(k, unfinished_side_effect s k) \<in> set (map (\<lambda>(i, v, x). (i, x)) (recoveries s))"
      using r by (auto simp: recoveries_def image_iff intro!: bexI [of _ r])
    moreover have "distinct (map fst (map (\<lambda>(i, v, x). (i, x)) (recoveries s)))"
      using recoveries_distinct [OF d] by (simp add: comp_def split_beta)
    ultimately show ?thesis using True by (simp add: recovery_of_def)
  next
    case False
    then have "recovery_of (recoveries s) k = None" by (auto simp: recovery_of_None recoveries_def)
    with False show ?thesis by simp
  qed
  have same: "in_flight (r_status q)" if "r \<in> set (runs s)" "q \<in> set (runs s)" "r_id q = r_id r" "in_flight (r_status r)" for r q
    using that d by (metis distinct_map inj_onD)
  show ?thesis
  proof (rule exI [of _ ?t], intro conjI)
    show "recover_in_flight now s = commit ?t (affected (\<lambda>r. in_flight (r_status r)) (runs s))"
      using t len by simp
    show "runs ?t = map (\<lambda>r. if in_flight (r_status r)
        then recover_run_row (unfinished_side_effect s (r_id r)) now r else r) (runs s)"
    proof -
      have "recovered_run now (recoveries s) r = (if in_flight (r_status r)
          then recover_run_row (unfinished_side_effect s (r_id r)) now r else r)" if "r \<in> set (runs s)" for r
      proof (cases "in_flight (r_status r)")
        case True
        then have "\<exists>q \<in> set (runs s). r_id q = r_id r \<and> in_flight (r_status q)" using that by blast
        with True show ?thesis by (simp add: recovered_run_def of_run)
      next
        case False
        then have "\<not> (\<exists>q \<in> set (runs s). r_id q = r_id r \<and> in_flight (r_status q))"
          using same that by metis
        with False show ?thesis by (auto simp: recovered_run_def of_run)
      qed
      then show ?thesis by (simp add: u)
    qed
    show "attempts ?t = map (\<lambda>a. if a_status a = InProgress \<and>
        (\<exists>r \<in> set (runs s). r_id r = a_run a \<and> in_flight (r_status r))
      then recover_attempt_row (unfinished_side_effect s (a_run a)) now a else a) (attempts s)"
      by (auto simp: u recovered_attempt_def of_run)
  qed (simp_all add: w lose_jobs_def expire_approvals_def)
qed

theorem recovery_outcome_witness:
  "\<exists>t. recover_in_flight (at_second 9) sample_store = commit t 2 \<and>
     map r_status (runs t) = [RunInterrupted, RunUncertain, RunQueued] \<and>
     map p_status (approvals t) = [Expired, Approved]"
proof -
  have n: "affected (\<lambda>r. in_flight (r_status r)) (runs sample_store) = 2"
    by (simp add: affected_def sample_rows in_flight_def)
  show ?thesis
    using recovery_outcome [OF sample_store_ok sample_ledger_ok, of "at_second 9"]
    unfolding n
    by (auto simp: sample_rows in_flight_def recover_run_row_def recovered_status_def
        unfinished_side_effect_def incomplete_attempt_def answerable_def expire_row_def)
qed

text \<open>
  A side effect that recovery does not count. Recovery looks only at in-progress and interrupted
  attempts, whereas cancelling and failing a run count every uncompleted attempt. So a run that
  was in flight with a failed attempt that carries the side-effect marker, and no open one, comes
  back as \<open>interrupted\<close>, as if nothing had happened outside, and can then neither be cancelled nor
  failed: both requests ask for the refused change from \<open>interrupted\<close> to \<open>uncertain\<close>.
\<close>

theorem recovery_misses_failed_attempt:
  assumes ok: "store_ok s" and led: "ledger_ok s"
    and r: "r \<in> set (runs s)" "in_flight (r_status r)"
    and a: "a \<in> set (attempts s)" "a_run a = r_id r" "a_status a = AttemptFailed" "a_external a"
    and none: "\<not> unfinished_side_effect s (r_id r)"
    and req: "req = RunCancelled \<or> req = RunFailed"
  shows "\<exists>t n. recover_in_flight now s = commit t n \<and>
    (\<exists>q. find_run t (r_id r) = Some q \<and> r_status q = RunInterrupted) \<and>
    (\<exists>e. quiesce_run (r_id r) req msg later t = fail t (Errorf e))"
proof -
  obtain t where t: "recover_in_flight now s = commit t (affected (\<lambda>r. in_flight (r_status r)) (runs s))"
    and runs: "runs t = map (\<lambda>r. if in_flight (r_status r)
      then recover_run_row (unfinished_side_effect s (r_id r)) now r else r) (runs s)"
    and atts: "attempts t = map (\<lambda>a. if a_status a = InProgress \<and>
        (\<exists>r \<in> set (runs s). r_id r = a_run a \<and> in_flight (r_status r))
      then recover_attempt_row (unfinished_side_effect s (a_run a)) now a else a) (attempts s)"
    using recovery_outcome [OF ok led] by blast
  have ok_t: "store_ok t" using recover_in_flight_sound [of s now] ok by (simp add: sound_def t)
  let ?q = "recover_run_row False now r"
  have "?q \<in> set (runs t)" using r none by (force simp: runs)
  then have q: "find_run t (r_id r) = Some ?q"
    using select_key_unique [OF ok_keys(1) [OF ok_t]] by (fastforce simp: find_run_def recover_run_row_def)
  have st: "r_status ?q = RunInterrupted" by (simp add: recover_run_row_def recovered_status_def)
  have "a \<in> set (attempts t)" using a(1,3) by (force simp: atts)
  then have open_effect: "\<exists>b \<in> set (attempts t). open_side_effect (r_id r) b"
    using a by (auto simp: open_side_effect_def)
  have "\<exists>e. quiesce_run (r_id r) req msg later t = fail t (Errorf e)"
    using quiesce_outcome [OF ok_t q req, of msg later] open_effect st by auto
  with t q st show ?thesis by blast
qed

definition failed_effect_store :: db where
  "failed_effect_store = sample_store
     \<lparr>runs := [sample_run ''r5'' RunSynthesizing 4 ''2026-01-02T03:04:01Z''],
      attempts := [sample_attempt ''f1'' ''r5'' StageSynthesize 0 AttemptFailed True], approvals := []\<rparr>"

end
