(* ===== verification/Approval_Properties.thy ===== *)
theory Approval_Properties
  imports Run_Outcomes
begin

section \<open>Properties of approvals\<close>

text \<open>
  Requesting and deciding an approval, on every branch, and the external side-effect boundary
  that an approved request crosses.
\<close>

lemma owned_scope:
  assumes "store_ok s" and "find_approval s pid = Some p"
  obtains a r where "attempt_of_run s (p_attempt p) (p_run p) = Some (a, r)"
    and "find_attempt s (p_attempt p) = Some a" and "find_run s (p_run p) = Some r" and "a_run a = p_run p"
proof -
  have "p \<in> set (approvals s)" using assms(2) by (auto simp: find_approval_def dest: select_key_SomeD)
  then obtain a where a: "a \<in> set (attempts s)" "a_id a = p_attempt p" "a_run a = p_run p"
    using assms(1) by (auto simp: store_ok_def owned_def)
  have fa: "find_attempt s (p_attempt p) = Some a"
    using select_key_unique [OF ok_keys(2) [OF assms(1)] a(1)] a(2) by (simp add: find_attempt_def)
  have "a_run a \<in> r_id ` set (runs s)" using assms(1) a(1) by (simp add: store_ok_def owned_def)
  then obtain r where r: "find_run s (p_run p) = Some r"
    using select_key_None [of r_id "runs s" "p_run p"] a(3) by (auto simp: find_run_def)
  show ?thesis
    by (rule that [of a r]) (simp_all add: attempt_of_run_def attempt_run_def fa r a(3))
qed

lemma update_current_approval:
  assumes "store_ok s" and p: "find_approval s pid = Some p" and q: "q p" and u: "approvals u = approvals s"
  shows "update_one_approval (\<lambda>b. p_id b = pid \<and> q b) f e u =
    commit (u\<lparr>approvals := update_where (\<lambda>b. p_id b = pid) f (approvals s)\<rparr>) ()"
proof -
  note d = ok_keys(3) [OF assms(1)]
  have only: "b = p" if "b \<in> set (approvals s)" "p_id b = pid" for b
    using select_key_unique [OF d that(1)] that(2) p by (simp add: find_approval_def)
  have "affected (\<lambda>b. p_id b = pid \<and> q b) (approvals s) = 1"
    by (rule affected_key_one [OF d, where r = p and k = pid])
      (use p q in \<open>auto simp: find_approval_def dest: select_key_SomeD\<close>)
  moreover have "update_where (\<lambda>b. p_id b = pid \<and> q b) f (approvals s) =
      update_where (\<lambda>b. p_id b = pid) f (approvals s)"
    using only q by (auto simp: update_where_def)
  ultimately show ?thesis by (simp add: update_one_approval_def u)
qed

subsection \<open>Requesting\<close>

text \<open>
  C19. What a stored approval request guarantees. When \<open>CreateApproval\<close> succeeds it has added
  exactly one approval and changed no run, attempt or other approval; the approval is pending,
  names an in-progress attempt of its own run, the run waits for approval or is allowed to start
  waiting, and its argument document, when it has one, is valid JSON whose SHA-256 is the stored
  one. When it fails nothing changed.
\<close>

theorem approval_request_bound:
  assumes "create_approval cx fresh req now s = (t, res)"
  shows "(\<forall>e. res = Inl e \<longrightarrow> t = s) \<and>
    (\<forall>p. res = Inr p \<longrightarrow> p_status p = Pending \<and> approvals t = approvals s @ [p] \<and> runs t = runs s \<and>
      attempts t = attempts s \<and> p_id p \<notin> p_id ` set (approvals s) \<and>
      (p_args p \<noteq> [] \<longrightarrow> json_valid cx (p_args p) \<and> p_args_sha p = sha256_hex cx (p_args p)) \<and>
      (p_args p = [] \<longrightarrow> p_args_sha p = []) \<and>
      (\<exists>a r. find_attempt s (p_attempt p) = Some a \<and> a_run a = p_run p \<and> a_status a = InProgress \<and>
         find_run s (p_run p) = Some r \<and>
         (r_status r = RunWaitingApproval \<or> can_transition (r_status r) RunWaitingApproval)))"
proof (cases res)
  case (Inl e)
  then show ?thesis
    using assms by (auto simp: create_approval_def Let_def split: option.splits if_splits)
next
  case (Inr p)
  have none: "approval_request_error cx req = None"
    using assms Inr by (auto simp: create_approval_def split: option.splits)
  then have args: "p_args req \<noteq> [] \<longrightarrow> json_valid cx (p_args req) \<and> p_args_sha req = sha256_hex cx (p_args req)"
    "p_args req = [] \<longrightarrow> p_args_sha req = []"
    by (auto simp: approval_request_error_def split: if_splits)
  obtain a r where ar: "attempt_of_run s (p_attempt req) (p_run req) = Some (a, r)"
    and st: "a_status a = InProgress"
      "r_status r = RunWaitingApproval \<or> can_transition (r_status r) RunWaitingApproval"
    and p: "p = pending_row fresh now req" "p_id p \<notin> p_id ` set (approvals s)"
    and t: "approvals t = approvals s @ [p]" "runs t = runs s" "attempts t = attempts s"
    using assms Inr none
    by (auto simp: create_approval_def Let_def pending_row_def split: option.splits if_splits)
  have same: "p_attempt p = p_attempt req" "p_run p = p_run req" "p_args p = p_args req"
    "p_args_sha p = p_args_sha req" "p_status p = Pending"
    by (simp_all add: p pending_row_def)
  have scope: "find_attempt s (p_attempt p) = Some a" "a_run a = p_run p" "find_run s (p_run p) = Some r"
    using ar by (auto simp: same attempt_of_run_def attempt_run_def split: option.splits if_splits)
  show ?thesis using Inr args scope st p(2) t by (simp add: same)
qed

definition sample_codec :: codec where
  "sample_codec = \<lparr>json_valid = (\<lambda>d. d = ''{}''), sha256_hex = (\<lambda>d. ''h''), args_of = (\<lambda>d. None),
     map_of_args = (\<lambda>d. None), spec_args_of = (\<lambda>d. None)\<rparr>"

theorem approval_request_bound_witness:
  "\<exists>t p. create_approval sample_codec ''p3'' ((sample_approval [] ''r2'' ''a2'' Pending)
      \<lparr>p_args := ''{}'', p_args_sha := ''h''\<rparr>) (at_second 9) sample_store = (t, Inr p) \<and>
    p_status p = Pending \<and> length (approvals t) = 3"
proof -
  let ?m = "create_approval sample_codec ''p3'' ((sample_approval [] ''r2'' ''a2'' Pending)
      \<lparr>p_args := ''{}'', p_args_sha := ''h''\<rparr>) (at_second 9) sample_store"
  have "\<exists>p. snd ?m = Inr p"
    by (simp add: create_approval_def approval_request_error_def sample_codec_def sample_rows query_defs
        pending_row_def Let_def can_transition_def screening_error_def require_screening_approval_owner_def
        reject_duplicate_screening_def screening_identity_def xfoil_request_def)
  then obtain t p where m: "?m = (t, Inr p)" by (cases ?m) auto
  moreover have "length (approvals sample_store) = 2" by (simp add: sample_store_def)
  ultimately show ?thesis using approval_request_bound [OF m] by (intro exI conjI) auto
qed

subsection \<open>Deciding\<close>

definition boundary_crossed :: "approval_row \<Rightarrow> string \<Rightarrow> bool" where
  "boundary_crossed p decision \<longleftrightarrow> decision = ''approved'' \<and> p_external p \<and>
     \<not> engineering_service_owns_external_boundary p"



text \<open>
  One decision per approval, for ever. Once a decision succeeded, or the request was retired,
  every later attempt to decide it fails and leaves the store as it is, whatever happened in
  between, whichever decision is asked for and whether or not the stage must be active.
\<close>

lemma decided_once:
  assumes "store_step\<^sup>*\<^sup>* s t" and "store_ok s"
    and "find_approval s pid = Some p" and "p_status p \<in> {Approved, Denied, Expired}"
  shows "\<exists>e. decide_approval pid d act now t = fail t e"
proof -
  have "rows_evolve approval_step (approvals s) (approvals t)"
    using history_ok [OF assms(1,2)] by (simp add: evolves_def)
  then obtain q where q: "find_approval t pid = Some q" "approval_step p q"
    using approval_log.select_later assms(3) by (fastforce simp: find_approval_def)
  then have "p_status q = p_status p"
    using assms(4) approval_machine.final_absorbing [of "p_status p" "p_status q"]
    by (auto simp: approval_step_def approval_final_def)
  then have "p_status q \<noteq> Pending" using assms(4) by auto
  with q(1) show ?thesis by (simp add: decide_approval_def)
qed

subsection \<open>The side-effect boundary\<close>

text \<open>
  C10. Crossing the side-effect boundary. \<open>MarkActiveStageExternalSideEffects\<close> marks the attempt
  exactly when it is in progress, its run is in the status of the attempt's stage or waits for
  approval, and no collector of the run has failed; it changes that one row only. In every other
  case it reports \<open>ErrApprovalNotActive\<close> and nothing changes, so a sibling of a failed collector
  starts no further side effect.
\<close>

theorem boundary_outcome:
  assumes ok: "store_ok s"
  shows "mark_active_stage_external_side_effects aid now s =
    (if \<exists>a r. find_attempt s aid = Some a \<and> find_run s (a_run a) = Some r \<and> a_status a = InProgress \<and>
        \<not> failed_collector s (a_run a) \<and> (\<exists>st. active_run_status_for_stage (a_stage a) = Some st \<and>
          (r_status r = st \<or> r_status r = RunWaitingApproval))
     then commit (s\<lparr>attempts := update_where (\<lambda>b. a_id b = aid) (set_external now) (attempts s)\<rparr>) ()
     else fail s ErrApprovalNotActive)" (is "_ = (if ?live then ?yes else ?no)")
proof (cases ?live)
  case True
  then obtain a r st where a: "find_attempt s aid = Some a" "a_status a = InProgress"
    and r: "find_run s (a_run a) = Some r" "\<not> failed_collector s (a_run a)"
    and st: "active_run_status_for_stage (a_stage a) = Some st" "r_status r = st \<or> r_status r = RunWaitingApproval"
    by blast
  have "update_one_attempt (\<lambda>b. a_id b = aid \<and> a_status b = InProgress) (set_external now) e s =
      commit (s\<lparr>attempts := update_where (\<lambda>b. a_id b = aid) (set_external now) (attempts s)\<rparr>) ()" for e
    by (rule update_current_attempt [OF ok a(1)]) (simp_all add: a(2) set_external_def a_slot_def)
  then have "mark_active_stage_external_side_effects aid now s = ?yes"
    using a r st by (auto simp: mark_active_stage_external_side_effects_def attempt_run_def)
  then show ?thesis using True by (simp only: if_True)
next
  case False
  have "mark_active_stage_external_side_effects aid now s = ?no"
  proof (cases "attempt_run s aid")
    case None
    then show ?thesis by (simp add: mark_active_stage_external_side_effects_def)
  next
    case (Some ar)
    then obtain a r where ar: "attempt_run s aid = Some (a, r)" by (cases ar) auto
    then have "find_attempt s aid = Some a" "find_run s (a_run a) = Some r"
      by (auto simp: attempt_run_def split: option.splits)
    with False ar show ?thesis
      by (auto simp: mark_active_stage_external_side_effects_def split: option.split)
  qed
  then show ?thesis using False by (simp only: if_False)
qed

theorem boundary_outcome_witness:
  "mark_active_stage_external_side_effects ''a3'' (at_second 9) sample_store =
     fail sample_store ErrApprovalNotActive \<and>
   snd (mark_active_stage_external_side_effects ''a1'' (at_second 9) sample_store) = Inr ()"
  unfolding boundary_outcome [OF sample_store_ok]
  by (simp add: sample_rows query_defs failed_collector_def)

end
