(* ===== verification/Ledger_Log.thy ===== *)
theory Ledger_Log
  imports Ledger_History
begin

section \<open>The ledgers over time\<close>

text \<open>
  How the rows of the ledgers change over a history: no row is deleted, its identity never
  changes, and a row that has ended (a terminal installation or invocation, a finished solver
  job, a consumed or superseded plan cycle, a remediation) is never written again.
\<close>

subsection \<open>One row over time\<close>

definition install_identity :: "install_row \<Rightarrow> string list" where
  "install_identity n = [n_id n, n_package n, n_project n, n_sha n, n_approval n, n_expected n, n_created n]"

definition install_move :: "install_state \<Rightarrow> install_state \<Rightarrow> bool" where
  "install_move a b \<longleftrightarrow> b \<in> set (install_next a)"

definition install_step :: "install_row \<Rightarrow> install_row \<Rightarrow> bool" where
  "install_step n m \<longleftrightarrow> install_identity m = install_identity n \<and>
     install_move\<^sup>*\<^sup>* (n_state n) (n_state m) \<and> (install_terminal (n_state n) \<longrightarrow> m = n)"

definition call_identity :: "invocation_row \<Rightarrow> string list" where
  "call_identity q = [q_id q, q_key q, q_project q, q_run q, q_attempt q, q_package q, q_install q,
     q_grant q, q_tool q, q_args q, q_adapter q, q_created q, q_started q]"

definition call_step :: "invocation_row \<Rightarrow> invocation_row \<Rightarrow> bool" where
  "call_step q r \<longleftrightarrow> call_identity r = call_identity q \<and> (q_state q \<noteq> CallRunning \<longrightarrow> r = q)"

definition job_identity :: "job_row \<Rightarrow> string list" where
  "job_identity j = [j_id j, j_project j, j_run j, j_attempt j, j_operation j, j_spec j, j_spec_sha j,
     j_tool j, j_tool_version j, j_approval j, j_scope j, j_created j]"

definition job_step :: "job_row \<Rightarrow> job_row \<Rightarrow> bool" where
  "job_step j k \<longleftrightarrow> job_identity k = job_identity j \<and> (j_status j \<noteq> JobRunning \<longrightarrow> k = j)"

fun cycle_next :: "cycle_status \<Rightarrow> cycle_status list" where
  "cycle_next CycleActive = [CycleReady, CycleSuperseded]"
| "cycle_next CycleReady = [CycleConsumed, CycleSuperseded]"
| "cycle_next _ = []"

definition cycle_move :: "cycle_status \<Rightarrow> cycle_status \<Rightarrow> bool" where
  "cycle_move a b \<longleftrightarrow> b \<in> set (cycle_next a)"

definition cycle_step :: "cycle_row \<Rightarrow> cycle_row \<Rightarrow> bool" where
  "cycle_step c d \<longleftrightarrow> c_id d = c_id c \<and> c_session d = c_session c \<and> c_objective d = c_objective c \<and>
     c_created d = c_created c \<and> cycle_move\<^sup>*\<^sup>* (c_status c) (c_status d) \<and>
     (c_status c \<noteq> CycleActive \<longrightarrow> c_plan d = c_plan c) \<and>
     (\<not> cycle_current (c_status c) \<longrightarrow> d = c)"

interpretation cycle_machine: status_machine cycle_move "\<lambda>st. \<not> cycle_current st"
proof unfold_locales
  fix a b show "\<not> cycle_current a \<Longrightarrow> \<not> cycle_move a b"
    by (cases a) (simp_all add: cycle_current_def cycle_move_def)
qed

lemma cycle_reaches_active: "cycle_move\<^sup>*\<^sup>* a CycleActive \<Longrightarrow> a = CycleActive"
proof (erule rtranclp.cases)
  fix b c assume "CycleActive = c" "cycle_move b c"
  then show "a = CycleActive" by (cases b) (simp_all add: cycle_move_def)
qed simp

interpretation install_machine: status_machine install_move install_terminal
proof unfold_locales
  fix a b show "install_terminal a \<Longrightarrow> \<not> install_move a b"
    by (cases a) (simp_all add: install_terminal_def install_move_def)
qed

interpretation install_log: row_history n_id install_step
proof unfold_locales
  fix a b c
  show "install_step a a" by (simp add: install_step_def)
  show "install_step a b \<Longrightarrow> install_step b c \<Longrightarrow> install_step a c"
    by (auto simp: install_step_def intro: rtranclp_trans)
  show "install_step a b \<Longrightarrow> n_id b = n_id a" by (simp add: install_step_def install_identity_def)
qed

interpretation call_log: row_history q_id call_step
proof unfold_locales
  fix a b c
  show "call_step a a" by (simp add: call_step_def)
  show "call_step a b \<Longrightarrow> call_step b c \<Longrightarrow> call_step a c" by (auto simp: call_step_def)
  show "call_step a b \<Longrightarrow> q_id b = q_id a" by (simp add: call_step_def call_identity_def)
qed

interpretation job_log: row_history j_id job_step
proof unfold_locales
  fix a b c
  show "job_step a a" by (simp add: job_step_def)
  show "job_step a b \<Longrightarrow> job_step b c \<Longrightarrow> job_step a c" by (auto simp: job_step_def)
  show "job_step a b \<Longrightarrow> j_id b = j_id a" by (simp add: job_step_def job_identity_def)
qed

interpretation cycle_log: row_history c_id cycle_step
proof unfold_locales
  fix a b c
  show "cycle_step a a" by (simp add: cycle_step_def)
  show "cycle_step a b \<Longrightarrow> cycle_step b c \<Longrightarrow> cycle_step a c"
    using cycle_reaches_active [of "c_status a"]
    by (cases "c_status b = CycleActive") (auto simp: cycle_step_def intro: rtranclp_trans)
  show "cycle_step a b \<Longrightarrow> c_id b = c_id a" by (simp add: cycle_step_def)
qed

interpretation remediation_log: row_history "\<lambda>m. (m_run m, m_cycle m)" "(=)"
  by unfold_locales simp_all

subsection \<open>The tables over time\<close>

definition logs :: "db \<Rightarrow> db \<Rightarrow> bool" where
  "logs s t \<longleftrightarrow> rows_evolve install_step (installs (tools s)) (installs (tools t)) \<and>
     rows_evolve call_step (invocations (tools s)) (invocations (tools t)) \<and>
     rows_evolve job_step (jobs (eng s)) (jobs (eng t)) \<and>
     rows_evolve cycle_step (cycles s) (cycles t) \<and>
     rows_evolve (=) (remediations s) (remediations t)"

lemmas log_refl = install_log.evolve_refl call_log.evolve_refl job_log.evolve_refl
  cycle_log.evolve_refl remediation_log.evolve_refl

interpretation logs_steps: state_preorder logs
proof unfold_locales
  fix s t u
  show "logs s s" by (simp add: logs_def log_refl)
  show "logs s t \<Longrightarrow> logs t u \<Longrightarrow> logs s u"
    unfolding logs_def
    by (blast intro: install_log.evolve_trans call_log.evolve_trans job_log.evolve_trans
        cycle_log.evolve_trans remediation_log.evolve_trans)
qed

lemma logs_frame: "frame s t \<Longrightarrow> logs s t"
  by (simp add: frame_def logs_def log_refl)

lemma logs_event: "logs s t \<Longrightarrow> logs s (append_event t rid k p now)"
  by (simp add: logs_def)

lemma logs_install_event: "logs s (append_install_event s n a d now)"
  by (simp add: logs_def append_install_event_def log_refl)

subsection \<open>Statements\<close>

lemma logs_installs:
  assumes "\<And>n. install_identity (f n) = install_identity n"
  shows "logs s (fst (update_installs p f s))"
proof (cases "list_ex (\<lambda>n. p n \<and> \<not> (install_change (n_state n) (n_state (f n)) \<and> install_checks s (f n)))
    (installs (tools s)) \<or> \<not> one_live (update_where p f (installs (tools s)))")
  case True
  then show ?thesis by (simp add: update_installs_def Let_def logs_steps.same)
next
  case False
  have "rows_evolve install_step (installs (tools s)) (update_where p f (installs (tools s)))"
  proof (rule install_log.evolve_update)
    fix n assume "n \<in> set (installs (tools s))" "p n"
    then have "install_change (n_state n) (n_state (f n))" using False by (auto simp: list_ex_iff)
    then show "install_step n (f n)"
      using assms by (auto simp: install_step_def install_change_def install_move_def)
  qed
  with False show ?thesis by (simp add: update_installs_def Let_def logs_def log_refl)
qed

lemma logs_calls:
  assumes "\<And>q. call_identity (f q) = call_identity q"
  shows "logs s (fst (update_invocations p f s))"
proof (cases "list_ex (\<lambda>q. p q \<and> \<not> call_close_ok s q (f q)) (invocations (tools s))")
  case True
  then show ?thesis by (simp add: update_invocations_def logs_steps.same)
next
  case False
  have "rows_evolve call_step (invocations (tools s)) (update_where p f (invocations (tools s)))"
  proof (rule call_log.evolve_update)
    fix q assume "q \<in> set (invocations (tools s))" "p q"
    then have "q_state q = CallRunning" using False by (auto simp: list_ex_iff call_close_ok_def)
    then show "call_step q (f q)" using assms by (simp add: call_step_def)
  qed
  with False show ?thesis by (simp add: update_invocations_def Let_def logs_def log_refl)
qed

lemma logs_jobs:
  assumes "\<And>j. job_identity (f j) = job_identity j" and "\<And>j. p j \<Longrightarrow> j_status j = JobRunning"
  shows "logs s (s\<lparr>eng := (eng s)\<lparr>jobs := update_where p f (jobs (eng s))\<rparr>\<rparr>)"
proof -
  have "rows_evolve job_step (jobs (eng s)) (update_where p f (jobs (eng s)))"
    using assms by (intro job_log.evolve_update) (simp add: job_step_def)
  then show ?thesis by (simp add: logs_def log_refl)
qed

lemma logs_update_one_job:
  "(\<And>j. job_identity (f j) = job_identity j) \<Longrightarrow> (\<And>j. p j \<Longrightarrow> j_status j = JobRunning) \<Longrightarrow>
     logs s (fst (update_one_job p f e s))"
  by (simp add: update_one_job_def logs_jobs logs_steps.same)

lemma logs_cycles:
  assumes "\<And>c. p c \<Longrightarrow> cycle_current (c_status c) \<Longrightarrow> cycle_step c (f c)"
  shows "logs s (fst (update_cycles p f s))"
proof (cases "list_ex (\<lambda>c. p c \<and> \<not> (cycle_current (c_status c) \<and> cycle_checks (f c))) (cycles s) \<or>
    \<not> one_current (update_where p f (cycles s)) \<or> \<not> distinct_runs (update_where p f (cycles s))")
  case True
  then show ?thesis by (simp add: update_cycles_def Let_def logs_steps.same)
next
  case False
  have "rows_evolve cycle_step (cycles s) (update_where p f (cycles s))"
  proof (rule cycle_log.evolve_update)
    fix c assume "c \<in> set (cycles s)" "p c"
    then show "cycle_step c (f c)" using assms False by (auto simp: list_ex_iff)
  qed
  with False show ?thesis by (simp add: update_cycles_def Let_def logs_def log_refl)
qed

subsection \<open>Operations\<close>

lemma change_install_logs:
  "(\<And>n. install_identity (f n) = install_identity n) \<Longrightarrow>
     logs s (fst (change_install p f lost cur action d now s))"
  unfolding change_install_def
  by (intro logs_steps.rollback logs_steps.bind logs_installs)
    (auto intro: logs_install_event logs_steps.same)

lemma install_logs:
  "logs s (fst (begin_tool_installation fresh n now s))"
  "logs s (fst (update_tool_installation cx nid st u now s))"
  "logs s (fst (complete_tool_installation nid tree ep probe now s))"
  "logs s (fst (fail_tool_installation nid cause now s))"
proof -
  have new: "logs s (append_install_event (s\<lparr>tools := (tools s)\<lparr>installs := installs (tools s) @ [n]\<rparr>\<rparr>) m a d now)"
    for n m a d
    by (simp add: logs_def append_install_event_def log_refl install_log.evolve_append)
  show "logs s (fst (begin_tool_installation fresh n now s))"
    by (auto simp: begin_tool_installation_def Let_def split: option.split intro: new logs_steps.same)
  show "logs s (fst (update_tool_installation cx nid st u now s))"
    by (auto simp: update_tool_installation_def Let_def merge_update_def install_identity_def
        split: option.split intro!: change_install_logs logs_steps.same)
  show "logs s (fst (complete_tool_installation nid tree ep probe now s))"
    by (auto simp: complete_tool_installation_def ready_row_def install_identity_def
        split: option.split intro!: change_install_logs logs_steps.same)
  show "logs s (fst (fail_tool_installation nid cause now s))"
    by (auto simp: fail_tool_installation_def Let_def closed_install_def install_identity_def
        split: option.split intro!: change_install_logs logs_steps.same)
qed

lemma grant_logs: "logs s (fst (create_tool_stage_grant fresh g now s))"
  by (auto simp: create_tool_stage_grant_def Let_def logs_def log_refl split: option.split)

lemma new_call_logs:
  "logs s (append_event (s\<lparr>tools := (tools s)\<lparr>invocations := invocations (tools s) @ [q]\<rparr>\<rparr>) rid k p now)"
  by (rule logs_event) (simp add: logs_def log_refl call_log.evolve_append)

lemma reserve_logs: "logs s (fst (reserve_tool_invocation fresh q now s))"
  unfolding reserve_tool_invocation_def Let_def
  by (auto split: option.split intro!: logs_steps.rollback logs_steps.bind new_call_logs logs_steps.same
      logs_frame [OF frame_update_attempt])

lemma call_closed_identity:
  "call_identity (succeeded_call out err code now q) = call_identity q"
  "call_identity (ended_call st msg now q) = call_identity q"
  by (simp_all add: call_identity_def succeeded_call_def ended_call_def)

lemma call_logs:
  "logs s (fst (complete_tool_invocation qid out err code now s))"
  "logs s (fst (fail_tool_invocation qid cause now s))"
proof -
  have close: "logs s (fst (close_invocation f lost cur k p now s))"
    if "\<And>q. call_identity (f q) = call_identity q" for f lost cur k p
    unfolding close_invocation_def
    by (intro logs_steps.rollback logs_steps.bind logs_calls that)
      (auto intro: logs_event logs_steps.same)
  show "logs s (fst (complete_tool_invocation qid out err code now s))"
    by (auto simp: complete_tool_invocation_def call_closed_identity split: option.split
        intro!: close logs_steps.same)
  show "logs s (fst (fail_tool_invocation qid cause now s))"
    by (auto simp: fail_tool_invocation_def Let_def call_closed_identity split: option.split
        intro!: close logs_steps.same)
qed

lemma job_closed_identity:
  "job_identity (succeeded_job receipt now j) = job_identity j"
  "job_identity (ended_job st msg now j) = job_identity j"
  by (simp_all add: job_identity_def succeeded_job_def ended_job_def)

lemma logs_solver_rest: "jobs e = jobs (eng s) \<Longrightarrow> logs s (s\<lparr>eng := e\<rparr>)"
  by (simp add: logs_def log_refl)

lemma link_logs: "logs s (fst (link_artifacts j xs s))"
proof (induction xs arbitrary: s)
  case (Cons x xs)
  show ?case
    by (auto simp: Let_def split: option.split
        intro: logs_steps.same logs_steps.steps [OF logs_solver_rest Cons.IH])
qed (simp add: logs_steps.same)

lemma authorize_logs: "logs s (fst (authorize_each rid aid now js s))"
proof (induction js arbitrary: rid aid s)
  case (Cons j js)
  show ?case
    unfolding authorize_each.simps Let_def
    by (auto intro: Cons.IH logs_steps.same logs_steps.steps [OF logs_solver_rest Cons.IH])
qed (simp add: logs_steps.same)

lemma new_job_logs:
  "logs s (append_event (s\<lparr>eng := (eng s)\<lparr>jobs := jobs (eng s) @ [j]\<rparr>\<rparr>) rid k p now)"
  by (rule logs_event) (simp add: logs_def log_refl job_log.evolve_append)

lemma engineering_logs:
  "logs s (fst (begin_engineering_job cx fresh j now s))"
  "logs s (fst (complete_engineering_job jid rc xs now s))"
  "logs s (fst (fail_engineering_job jid cause now s))"
  "logs s (fst (authorize_engineering_receipt_reuses rid aid js now s))"
proof -
  show "logs s (fst (begin_engineering_job cx fresh j now s))"
    unfolding begin_engineering_job_def Let_def
    by (auto split: option.split intro!: logs_steps.rollback logs_steps.bind new_job_logs logs_steps.same
        logs_frame [OF frame_update_attempt])
  show "logs s (fst (complete_engineering_job jid rc xs now s))"
    unfolding complete_engineering_job_def
    by (auto split: option.split intro!: logs_steps.rollback logs_steps.bind link_logs logs_event
        logs_steps.same logs_update_one_job simp: job_closed_identity)
  show "logs s (fst (fail_engineering_job jid cause now s))"
    unfolding fail_engineering_job_def
    by (rule logs_update_one_job) (simp_all add: job_closed_identity)
  show "logs s (fst (authorize_engineering_receipt_reuses rid aid js now s))"
    by (auto simp: authorize_engineering_receipt_reuses_def
        intro!: logs_steps.rollback authorize_logs logs_steps.same)
qed

lemma supersede_cycle_step: "cycle_current (c_status c) \<Longrightarrow> cycle_step c (supersede_cycle now c)"
  by (cases "c_status c")
    (auto simp: cycle_step_def supersede_cycle_def cycle_current_def cycle_move_def r_into_rtranclp)

lemma ready_cycle_step: "c_status c = CycleActive \<Longrightarrow> cycle_step c (ready_cycle plan now c)"
  by (auto simp: cycle_step_def ready_cycle_def cycle_current_def cycle_move_def r_into_rtranclp)

lemma consume_cycle_step: "c_status c = CycleReady \<Longrightarrow> cycle_step c (consume_cycle rid now c)"
  by (auto simp: cycle_step_def consume_cycle_def cycle_current_def cycle_move_def r_into_rtranclp)

lemma plan_logs:
  "logs s (fst (begin_plan_cycle fresh sid txt now s))"
  "logs s (fst (complete_plan_cycle sid cid txt now s))"
proof -
  have new: "logs u (u\<lparr>cycles := cycles u @ [c]\<rparr>)" for u c
    by (simp add: logs_def log_refl cycle_log.evolve_append)
  show "logs s (fst (begin_plan_cycle fresh sid txt now s))"
    unfolding begin_plan_cycle_def Let_def
    by (auto intro!: logs_steps.rollback logs_steps.bind logs_cycles supersede_cycle_step new logs_steps.same)
  show "logs s (fst (complete_plan_cycle sid cid txt now s))"
    unfolding complete_plan_cycle_def Let_def
    by (auto split: option.split intro!: logs_steps.rollback logs_steps.bind logs_cycles ready_cycle_step
        logs_steps.same)
qed

lemma create_run_logs: "logs s (fst (create_conversation_run fresh build rq now s))"
proof -
  have n: "logs s (append_event (s\<lparr>runs := rs\<rparr>) rid k p now)" for rs rid k p
    by (rule logs_event) (simp add: logs_def log_refl)
  have c: "logs u (fst (and_then (update_cycles (\<lambda>c. c_session c = sid \<and> c_id c = cid \<and> c_status c = CycleReady)
        (consume_cycle fresh now) u)
     (\<lambda>s2 n. if n \<noteq> Suc 0 then fail s2 e else commit s2 r)))" for u sid cid e and r :: run_row
    by (intro logs_steps.bind logs_cycles) (auto intro: consume_cycle_step logs_steps.same)
  show ?thesis
    by (auto simp: create_conversation_run_def Let_def split: option.split sum.split
        intro!: logs_steps.rollback logs_steps.same n logs_steps.steps [OF n c])
qed

lemma remediation_logs: "logs s (fst (prepare_research_remediation rid ex ord v now s))"
proof -
  have "logs s (s\<lparr>remediations := remediations s @ [m]\<rparr>)" for m
    by (simp add: logs_def log_refl remediation_log.evolve_append)
  then have "logs s (fst (seal_and_restart current m now (s\<lparr>remediations := remediations s @ [m]\<rparr>)))" for current m
    using logs_steps.steps logs_frame [OF frame_seal_and_restart] by blast
  then show ?thesis
    by (auto simp: prepare_research_remediation_def Let_def split: option.split
        intro!: logs_steps.rollback logs_steps.same)
qed

lemma interrupt_each_logs: "logs s (fst (interrupt_each now ns s))"
proof (induction ns arbitrary: s)
  case (Cons n ns)
  show ?case
    unfolding interrupt_each.simps Let_def
    by (intro logs_steps.bind logs_installs)
      (auto simp: closed_install_def install_identity_def
        intro: logs_steps.steps [OF logs_install_event Cons.IH])
qed (simp add: logs_steps.same)

lemma uncertain_each_logs: "logs s (fst (uncertain_each now qs s))"
proof (induction qs arbitrary: s)
  case (Cons q qs)
  show ?case
    unfolding uncertain_each.simps
    by (intro logs_steps.bind logs_calls call_closed_identity)
      (rule logs_steps.steps [OF logs_event [OF logs_steps.same] Cons.IH])
qed (simp add: logs_steps.same)

lemma frame_recover_each: "frame s (fst (recover_each now items s))"
proof (induction now items s rule: recover_each.induct)
  case (2 now rid rv ext items s)
  have "frame u (append_event (u\<lparr>attempts := as\<rparr>) rid k p now)" for u as k p
    by (rule frame_event, rule frame_same) simp_all
  then show ?case
    unfolding recover_each.simps
    by (intro frame_steps.bind frame_update_run) (rule frame_steps.steps, assumption, rule 2)
qed (simp add: frame_steps.same)

lemma recover_logs: "logs s (fst (recover_in_flight now s))"
proof -
  have e: "logs u (expire_approvals now u)" for u
    by (rule logs_frame, rule frame_same) (simp_all add: expire_approvals_def)
  have j: "logs u (lose_jobs now u)" for u
    unfolding lose_jobs_def by (rule logs_jobs) (simp_all add: job_closed_identity)
  have r: "logs u (fst (recover_each now items (lose_jobs now (expire_approvals now u))))" for u items
    by (rule logs_steps.steps [OF e], rule logs_steps.steps [OF j], rule logs_frame [OF frame_recover_each])
  show ?thesis
    unfolding recover_in_flight_def recover_tool_work_def
    by (intro logs_steps.rollback logs_steps.bind interrupt_each_logs uncertain_each_logs r)
      (auto intro: logs_steps.same)
qed

subsection \<open>Every history\<close>

lemmas logged_steps = create_run_logs install_logs grant_logs reserve_logs call_logs engineering_logs
  plan_logs remediation_logs recover_logs

lemma create_planned_logs: "logs s (fst (create_planned_conversation_run fresh build rq now s))"
  by (simp add: create_planned_conversation_run_def create_run_logs logs_steps.same)

lemma store_step_logs: "store_step s t \<Longrightarrow> logs s t"
  by (induction rule: store_step.induct)
    (rule logged_steps create_planned_logs | rule logs_frame, rule framed_steps)+

lemma history_logs: "store_step\<^sup>*\<^sup>* s t \<Longrightarrow> logs s t"
  by (induction rule: rtranclp_induct) (blast intro: logs_steps.same logs_steps.steps store_step_logs)+

end
