(* ===== verification/Ledger_Properties.thy ===== *)
theory Ledger_Properties
  imports Ledger_Log Run_Outcomes
begin

section \<open>Properties of the ledgers\<close>

text \<open>
  What may happen only once: a native tool call, a solver job, the use of a plan, a research
  remediation. The bounds hold in every reachable state and a closed row is never reopened.
\<close>

subsection \<open>Bounds and uniqueness\<close>

lemma cycle_count_le:
  assumes "remediations_ok s"
  shows "cycle_count s rid \<le> 3"
proof -
  let ?ms = "filter (\<lambda>m. m_run m = rid) (remediations s)"
  have "distinct (map (\<lambda>m. (m_run m, m_cycle m)) ?ms)"
    using assms by (simp add: remediations_ok_def distinct_map_filter)
  then have "distinct (map m_cycle ?ms)"
    by (auto simp: distinct_map inj_on_def)
  moreover have "set (map m_cycle ?ms) \<subseteq> {1, 2, 3}"
    using assms by (fastforce simp: remediations_ok_def)
  ultimately have "length ?ms \<le> card {1, 2, 3 :: int}"
    using card_mono [of "{1, 2, 3 :: int}" "set (map m_cycle ?ms)"] distinct_card [of "map m_cycle ?ms"]
    by simp
  then show ?thesis by (simp add: cycle_count_def affected_def)
qed

text \<open>
  C11. The limits of the ledgers hold in every reachable state: at most two solver jobs run at a
  time, a run goes through at most three research remediations, at most one installation of a
  package is live, a conversation has at most one current plan, no plan is consumed by two
  runs, no two invocations share an idempotency key or a normalised contract, and every attempt
  that owns an invocation or a job carries the side-effect marker.
\<close>

theorem ledger_limits:
  assumes "store_step\<^sup>*\<^sup>* s t" and "store_ok s" and "ledger_ok s"
  shows "running_jobs t \<le> 2 \<and> cycle_count t rid \<le> 3 \<and>
    distinct (map n_package (filter (\<lambda>n. install_live (n_state n)) (installs (tools t)))) \<and>
    distinct (map c_session (filter (\<lambda>c. cycle_current (c_status c)) (cycles t))) \<and>
    distinct (map c_run (filter (\<lambda>c. c_run c \<noteq> None) (cycles t))) \<and>
    distinct (map call_key (invocations (tools t))) \<and>
    distinct (map call_contract (invocations (tools t))) \<and>
    (\<forall>q \<in> set (invocations (tools t)). \<exists>a \<in> set (attempts t). a_id a = q_attempt q \<and> a_external a) \<and>
    (\<forall>j \<in> set (jobs (eng t)). \<exists>a \<in> set (attempts t). a_id a = j_attempt j \<and> a_external a)"
proof -
  have "ledger_ok t" by (rule history_kept [OF assms])
  then have i: "installs_ok t" and q: "calls_ok t" and j: "jobs_ok t" and c: "cycles_ok t"
    and m: "remediations_ok t"
    by (simp_all add: ledger_ok_def)
  show ?thesis
    using i q j c cycle_count_le [OF m]
    by (auto simp: installs_ok_def one_live_def calls_ok_def jobs_ok_def cycles_ok_def one_current_def
        distinct_runs_def marked_def)
qed

theorem ledger_limits_witness:
  "running_jobs (fst (recover_in_flight (at_second 9) sample_store)) \<le> 2"
  using ledger_limits [OF one_step [OF store_step.recover] sample_store_ok sample_ledger_ok] by blast


definition sample_job :: "string \<Rightarrow> job_status \<Rightarrow> job_row" where
  "sample_job jid st =
     \<lparr>j_id = jid, j_project = ''p'', j_run = ''r2'', j_attempt = ''a2'', j_operation = ''gmsh_wing_mesh'',
      j_spec = ''{}'', j_spec_sha = jid, j_tool = ''gmsh'', j_tool_version = ''4'', j_approval = ''p2'',
      j_scope = ''h'', j_status = st, j_receipt = [], j_error = [], j_created = ''t'', j_started = Some ''t'',
      j_completed = None, j_updated = ''t''\<rparr>"

definition job_store :: db where
  "job_store = sample_store\<lparr>eng := (eng sample_store)
     \<lparr>jobs := [sample_job ''j1'' JobFailed, sample_job ''j2'' JobRunning]\<rparr>\<rparr>"

lemma job_store_ok: "store_ok job_store" "ledger_ok job_store"
  by code_simp+


subsection \<open>Tool calls\<close>

text \<open>
  C12. A native tool call runs at most once. Reserving a call that is new marks its attempt and
  records it as running; from then on, in every later state, a request with the same idempotency
  key or with the same normalised contract (attempt, package, installation, tool, argument hash
  and adapter hash) never reserves an execution: it either gets the recorded call back or is
  refused, and the store does not change.
\<close>

theorem tool_call_once:
  assumes "store_ok s" and "ledger_ok s" and res: "reserve_tool_invocation fresh req now s = (t, Inr (q, True))"
    and later: "store_step\<^sup>*\<^sup>* t u"
    and same: "call_key req2 = call_key q \<or> call_contract req2 = call_contract q"
  shows "q_state q = CallRunning \<and> marked t (q_attempt q) \<and>
    (\<exists>r. reserve_tool_invocation fresh2 req2 now2 u = (u, r) \<and> (\<forall>x b. r = Inr (x, b) \<longrightarrow>
       \<not> b \<and> x \<in> set (invocations (tools u))))"
proof -
  obtain s1 where q: "q = running_row fresh now req"
    and up: "update_one_attempt (\<lambda>c. a_id c = q_attempt q \<and> a_run c = q_run q \<and> a_status c = InProgress)
        (set_external now) (Errorf ''tool invocation stage changed before reservation'') s = (s1, Inr ())"
    and t: "t = append_event (s1\<lparr>tools := (tools s1)\<lparr>invocations := invocations (tools s1) @ [q]\<rparr>\<rparr>)
        (q_run q) ''tool.invocation.started''
        [(''invocation_id'', JStr (q_id q)), (''stage_attempt_id'', JStr (q_attempt q)),
         (''package_id'', JStr (q_package q)), (''tool'', JStr (q_tool q))] now"
    using reserve_result [OF res] by auto
  have mk: "marked s1 (q_attempt q)" using mark_result [OF up, of "q_attempt q"] by simp
  then have mk': "marked t (q_attempt q)" by (simp add: t marked_def)
  have "q \<in> set (invocations (tools t))" by (simp add: t)
  then obtain r where r: "r \<in> set (invocations (tools u))" "call_identity r = call_identity q"
    using call_log.member_later [of "invocations (tools t)" "invocations (tools u)" q] history_logs [OF later]
    by (auto simp: logs_def call_step_def)
  then have keys: "call_key r = call_key q" "call_contract r = call_contract q"
    by (auto simp: call_identity_def call_key_def call_contract_def)
  have hit: "select_key call_key (invocations (tools u)) (call_key req2) \<noteq> None \<or>
      select_key call_contract (invocations (tools u)) (call_contract req2) \<noteq> None"
    using same r(1) keys by (auto simp: select_key_None image_iff intro: bexI [of _ r])
  have "\<exists>r. reserve_tool_invocation fresh2 req2 now2 u = (u, r) \<and> (\<forall>x b. r = Inr (x, b) \<longrightarrow>
       \<not> b \<and> x \<in> set (invocations (tools u)))"
    using hit
    by (auto simp: reserve_tool_invocation_def split: option.split dest: select_key_SomeD)
  then show ?thesis using mk' by (simp add: q running_row_def)
qed

definition call_request :: invocation_row where
  "call_request =
     \<lparr>q_id = ''i1'', q_key = ''k'', q_project = ''p'', q_run = ''r2'', q_attempt = ''a2'', q_package = ''pk'',
      q_install = ''n'', q_grant = ''g'', q_tool = ''run'', q_args = replicate 64 CHR ''a'',
      q_adapter = replicate 64 CHR ''b'', q_state = CallRunning, q_stdout = [], q_stderr = [], q_exit = None,
      q_error = [], q_created = [], q_updated = [], q_started = [], q_completed = None\<rparr>"

definition tool_store :: db where
  "tool_store = sample_store
    \<lparr>blobs := [\<lparr>b_hash = ''e'', b_size = 1, b_media = ''zip'', b_created = []\<rparr>],
     tools :=
     \<lparr>packages = [\<lparr>tp_id = ''pk'', tp_project = ''p'', tp_sha = ''h'', tp_kind = ''mcp'', tp_state = ''active''\<rparr>],
      installs = [\<lparr>n_id = ''n'', n_package = ''pk'', n_project = ''p'', n_sha = ''h'', n_approval = ''ap'',
        n_expected = ''e'', n_payload = ''e'', n_payload_size = 1, n_tree = replicate 64 CHR ''c'',
        n_entrypoint = ''run.exe'', n_probe = [], n_state = InstallReady, n_error = [], n_created = [],
        n_updated = [], n_completed = Some ''t''\<rparr>],
      grants = [\<lparr>g_id = ''g'', g_project = ''p'', g_run = ''r2'', g_attempt = ''a2'', g_package = ''pk'',
        g_install = ''n'', g_sha = ''h'', g_approval = ''ap'', g_created = []\<rparr>],
      invocations = [], install_events = []\<rparr>\<rparr>"

lemma call_request_hashes:
  "valid_tool_sha256 (q_args call_request)" "valid_tool_sha256 (q_adapter call_request)"
  "length (q_args call_request) = 64" "length (q_adapter call_request) = 64"
  by code_simp+

lemma tool_store_ok: "store_ok tool_store" "ledger_ok tool_store"
  by code_simp+

lemma call_request_fields:
  "q_id call_request = ''i1''" "q_key call_request = ''k''" "q_project call_request = ''p''"
  "q_run call_request = ''r2''" "q_attempt call_request = ''a2''" "q_package call_request = ''pk''"
  "q_install call_request = ''n''" "q_grant call_request = ''g''" "q_tool call_request = ''run''"
  by (simp_all add: call_request_def)

lemma call_request_scope:
  "invocation_scope tool_store call_request =
     Some (sample_attempt ''a2'' ''r2'' StageCollect 0 InProgress True,
           sample_run ''r2'' RunCollecting 5 ''2026-01-02T03:04:02Z'')"
  by (simp add: invocation_scope_def ready_package_def ready_install_def find_install_def
      call_request_fields tool_store_def sample_rows query_defs)

lemma call_request_mark:
  "update_one_attempt (\<lambda>b. a_id b = ''a2'' \<and> a_run b = ''r2'' \<and> a_status b = InProgress)
     (set_external now) e tool_store =
   commit (tool_store\<lparr>attempts := update_where (\<lambda>b. a_id b = ''a2'') (set_external now) (attempts tool_store)\<rparr>) ()"
proof -
  have f: "find_attempt tool_store ''a2'' = Some (sample_attempt ''a2'' ''r2'' StageCollect 0 InProgress True)"
    by (simp add: tool_store_def sample_rows query_defs)
  show ?thesis
    by (rule update_current_attempt [OF tool_store_ok(1) f])
      (simp_all add: sample_attempt_def set_external_def a_slot_def)
qed

theorem tool_call_once_witness:
  "\<exists>t q. reserve_tool_invocation ''x'' call_request (at_second 9) tool_store = (t, Inr (q, True)) \<and>
     (\<exists>r. reserve_tool_invocation ''y'' (call_request\<lparr>q_key := ''other''\<rparr>) (at_second 10) t = (t, r) \<and>
        (\<forall>x b. r = Inr (x, b) \<longrightarrow> \<not> b))"
proof -
  let ?m = "reserve_tool_invocation ''x'' call_request (at_second 9) tool_store"
  have row: "q_attempt (running_row ''x'' now call_request) = ''a2''" "q_run (running_row ''x'' now call_request) = ''r2''" for now
    by (simp_all add: running_row_def call_request_fields)
  have guard: "invocation_guard (tool_store\<lparr>attempts := as\<rparr>) (running_row ''x'' now call_request)" for now as
    using call_request_hashes(3,4)
    by (simp add: invocation_guard_def running_row_def call_request_fields ready_package_def
        ready_install_def find_install_def tool_store_def sample_rows)
  have none: "invocations (tools tool_store) = []" by (simp add: tool_store_def)
  have st: "a_status (sample_attempt ''a2'' ''r2'' StageCollect 0 InProgress True) = InProgress"
    "r_status (sample_run ''r2'' RunCollecting 5 ''2026-01-02T03:04:02Z'') = RunCollecting"
    by (simp_all add: sample_attempt_def sample_run_def)
  have "\<exists>q. snd ?m = Inr (q, True)"
    by (simp add: reserve_tool_invocation_def call_request_fields call_request_hashes none
        call_request_scope st Let_def row call_request_mark guard)
  then obtain t q where m: "?m = (t, Inr (q, True))" by (cases ?m) auto
  have "call_contract (call_request\<lparr>q_key := ''other''\<rparr>) = call_contract q"
    using reserve_result [OF m] by (auto simp: running_row_def call_contract_def)
  then show ?thesis
    using tool_call_once [OF tool_store_ok m rtranclp.rtrancl_refl, of "call_request\<lparr>q_key := ''other''\<rparr>" "''y''" "at_second 10"] m
    by blast
qed

subsection \<open>Solver jobs\<close>

lemma authorizing_approval_Some:
  "authorizing_approval s j = Some p \<Longrightarrow> p \<in> set (approvals s) \<and> authorizes j p"
proof -
  assume "authorizing_approval s j = Some p"
  then obtain ps where "rev (sort_key p_updated (filter (authorizes j) (approvals s))) = p # ps"
    by (auto simp: authorizing_approval_def split: list.splits)
  then have "p \<in> set (rev (sort_key p_updated (filter (authorizes j) (approvals s))))" by simp
  then show ?thesis by simp
qed

text \<open>
  C13. A solver job runs only under its own approval, and once. A job that is admitted has an
  approved approval of exactly its run, attempt, tool and argument hash, fewer than two jobs were
  running, and its attempt carries the side-effect marker before it starts. From then on no request
  with the same run, attempt, operation and specification hash is ever admitted again: it gets the
  succeeded job back or an error, and nothing changes.
\<close>

theorem job_admitted_once:
  assumes "store_ok s" and "ledger_ok s"
    and adm: "begin_engineering_job cx fresh req now s = (t, Inr (j, True))"
    and later: "store_step\<^sup>*\<^sup>* t u" and same: "job_key req2 = job_key req"
  shows "(\<exists>p \<in> set (approvals s). p_id p = j_approval j \<and> authorizes req p) \<and> running_jobs s < 2 \<and>
    j_status j = JobRunning \<and> marked t (j_attempt j) \<and>
    (\<exists>r. begin_engineering_job cx2 fresh2 req2 now2 u = (u, r) \<and>
       (\<forall>k b. r = Inr (k, b) \<longrightarrow> \<not> b \<and> j_status k = JobSucceeded \<and> k \<in> set (jobs (eng u))))"
proof -
  obtain p s1 where p: "authorizing_approval s req = Some p" and j: "j = admitted_job fresh (p_id p) now req"
    and room: "running_jobs s < 2"
    and up: "update_one_attempt (live_collector s j) (set_external now) ErrApprovalNotActive s = (s1, Inr ())"
    and t: "t = append_event (s1\<lparr>eng := (eng s1)\<lparr>jobs := jobs (eng s1) @ [j]\<rparr>\<rparr>)
      (j_run j) ''engineering.job.started''
      [(''job_id'', JStr (j_id j)), (''attempt_id'', JStr (j_attempt j)),
       (''operation'', JStr (j_operation j)), (''spec_sha256'', JStr (j_spec_sha j))] now"
    using begin_engineering_job_new [OF adm] by blast
  have mk: "marked t (j_attempt j)"
    using mark_result [OF up, of "j_attempt j"] by (auto simp: t marked_def live_collector_def)
  have apr: "p \<in> set (approvals s)" "p_id p = j_approval j" "authorizes req p"
    using authorizing_approval_Some [OF p] by (simp_all add: j admitted_job_def)
  have "j \<in> set (jobs (eng t))" by (simp add: t)
  then obtain k where k: "k \<in> set (jobs (eng u))" "job_identity k = job_identity j"
    using job_log.member_later [of "jobs (eng t)" "jobs (eng u)" j] history_logs [OF later]
    by (auto simp: logs_def job_step_def)
  have "job_key k = job_key j" using k(2) by (simp add: job_identity_def job_key_def)
  then have "job_key k = job_key req2" using same by (simp add: j)
  then have hit: "select_key job_key (jobs (eng u)) (job_key req2) \<noteq> None"
    using k(1) by (auto simp: select_key_None image_iff intro: bexI [of _ k])
  then have "\<exists>r. begin_engineering_job cx2 fresh2 req2 now2 u = (u, r) \<and>
       (\<forall>k b. r = Inr (k, b) \<longrightarrow> \<not> b \<and> j_status k = JobSucceeded \<and> k \<in> set (jobs (eng u)))"
    by (auto simp: begin_engineering_job_def split: option.split dest: select_key_SomeD)
  moreover have "j_status j = JobRunning" by (simp add: j)
  ultimately show ?thesis using mk apr room by blast
qed

definition scope_approval :: approval_row where
  "scope_approval = (sample_approval ''p4'' ''r2'' ''a2'' Approved)
     \<lparr>p_kind := ''item/mcpToolCall/requestApproval'', p_server := ''aetherops_engineering'',
      p_tool := ''gmsh_wing_mesh'', p_args_sha := ''h''\<rparr>"

definition plain_codec :: codec where
  "plain_codec = \<lparr>json_valid = (\<lambda>d. True), sha256_hex = (\<lambda>d. ''h''), args_of = (\<lambda>d. None),
     map_of_args = (\<lambda>d. None), spec_args_of = (\<lambda>d. None)\<rparr>"

definition scope_store :: db where
  "scope_store = sample_store\<lparr>approvals := [scope_approval]\<rparr>"

lemma scope_store_ok: "store_ok scope_store" "ledger_ok scope_store"
  by code_simp+

theorem job_admitted_once_witness:
  "\<exists>t j. begin_engineering_job plain_codec ''j9'' (sample_job [] JobRunning\<lparr>j_spec_sha := ''z''\<rparr>) (at_second 9)
      scope_store = (t, Inr (j, True)) \<and> j_approval j = ''p4'' \<and>
     (\<exists>r. begin_engineering_job plain_codec ''j10'' (sample_job [] JobRunning\<lparr>j_spec_sha := ''z''\<rparr>) (at_second 10) t
        = (t, r) \<and> (\<forall>k b. r = Inr (k, b) \<longrightarrow> \<not> b))"
proof -
  let ?q = "sample_job [] JobRunning\<lparr>j_spec_sha := ''z''\<rparr>"
  let ?m = "begin_engineering_job plain_codec ''j9'' ?q (at_second 9) scope_store"
  have "\<exists>j. snd ?m = Inr (j, True) \<and> j_approval j = ''p4''"
    by (simp add: begin_engineering_job_def require_screening_job_owner_def authorizing_approval_def
        authorizes_def running_jobs_def Let_def admitted_job_def live_collector_def failed_collector_def
        sample_job_def scope_store_def scope_approval_def sample_rows query_defs set_external_def a_slot_def)
  then obtain t j where m: "?m = (t, Inr (j, True))" "j_approval j = ''p4''" by (cases ?m) auto
  then show ?thesis
    using job_admitted_once [OF scope_store_ok m(1) rtranclp.rtrancl_refl refl] by blast
qed

subsection \<open>Plans\<close>

lemma find_cycle:
  assumes "distinct (map c_id cs)" and "c \<in> set cs" and "c_session c = sid" and "c_id c = cid"
  shows "List.find (\<lambda>c. c_session c = sid \<and> c_id c = cid) cs = Some c"
  using assms by (induction cs) auto

lemma find_cycle_SomeD:
  "plan_cycle s sid cid = Some c \<Longrightarrow> c \<in> set (cycles s) \<and> c_session c = sid \<and> c_id c = cid"
  by (auto simp: plan_cycle_def find_Some_iff)

text \<open>
  C14. A plan starts at most one run. A run created from a plan is queued with the plan's text under
  the fixed heading as its question; the plan was ready, the latest of its conversation and of
  the same conversation as the run, and in the same transaction it is marked as consumed by that
  run. In every later state creating a run from the same plan fails and changes nothing.
\<close>

theorem plan_consumed_once:
  assumes "store_ok s" and led: "ledger_ok s"
    and cr: "create_planned_conversation_run fresh build rq now s = (t, Inr r)"
    and later: "store_step\<^sup>*\<^sup>* t u" and same: "rq_session rq2 = rq_session rq" "rq_cycle rq2 = rq_cycle rq"
  shows "(\<exists>c. plan_cycle s (rq_session rq) (rq_cycle rq) = Some c \<and> c_status c = CycleReady \<and>
      r_question r = plan_heading @ c_plan c \<and> r_status r = RunQueued \<and> r_session r = rq_session rq \<and>
      runs t = runs s @ [r] \<and>
      consume_cycle (r_id r) now c \<in> set (cycles t)) \<and>
    (\<exists>e. create_planned_conversation_run fresh2 build2 rq2 now2 u = fail u e)"
proof -
  let ?rq = "rq\<lparr>rq_schedule := [], rq_question := []\<rparr>"
  have ne: "\<not> blank (rq_cycle rq)" "rq_cycle rq \<noteq> []"
    using cr by (auto simp: create_planned_conversation_run_def blank_def split: if_splits)
  have cr': "create_conversation_run fresh build ?rq now s = (t, Inr r)"
    using cr ne(1) by (simp add: create_planned_conversation_run_def)
  obtain x where x: "live_session s (rq_session rq) = Some x"
    using cr' by (auto simp: create_conversation_run_def split: option.splits)
  then have sid: "s_id x = rq_session rq"
    by (auto simp: live_session_def split: option.splits if_splits dest: select_key_SomeD)
  obtain h question where pq: "planned_question s ?rq x = Inr question"
    and r: "r = queued_run fresh ?rq x h build question now"
    and up: "\<exists>n. n = Suc 0 \<and> update_cycles (\<lambda>c. c_session c = s_id x \<and> c_id c = rq_cycle rq \<and> c_status c = CycleReady)
        (consume_cycle fresh now) (append_event (s\<lparr>runs := runs s @ [r]\<rparr>) fresh ''run.created''
           (run_created_payload r (rq_cycle rq)) now) = (t, Inr n)"
    using cr' x ne
    by (auto simp: create_conversation_run_def Let_def store_results split: option.splits sum.splits if_splits)
  obtain c where c: "plan_cycle s (rq_session rq) (rq_cycle rq) = Some c" "c_status c = CycleReady"
    and q: "question = plan_heading @ c_plan c"
    using pq ne sid by (auto simp: planned_question_def split: option.splits if_splits)
  have cin: "c \<in> set (cycles s)" "c_session c = rq_session rq" "c_id c = rq_cycle rq"
    using find_cycle_SomeD [OF c(1)] by simp_all
  let ?p = "\<lambda>c. c_session c = s_id x \<and> c_id c = rq_cycle rq \<and> c_status c = CycleReady"
  have cyc: "cycles t = update_where ?p (consume_cycle fresh now) (cycles s)" and runs: "runs t = runs s @ [r]"
    using up by (auto simp: update_cycles_def Let_def split: if_splits)
  let ?d = "consume_cycle fresh now c"
  have "?p c" using cin c(2) sid by simp
  then have d: "?d \<in> set (cycles t)" using cin(1) by (auto simp: cyc set_update_where)
  have id: "r_id r = fresh" by (simp add: r queued_run_def)
  have ok_t: "store_ok t" "ledger_ok t"
    using create_planned_run_sound [of s fresh build rq now] create_planned_run_kept [of s fresh build rq now]
      assms(1) led by (simp_all add: cr sound_def kept_def)
  have "\<not> cycle_current (c_status ?d)" by (simp add: consume_cycle_def cycle_current_def)
  then have du: "?d \<in> set (cycles u)"
    using cycle_log.member_later [of "cycles t" "cycles u" ?d] history_logs [OF later] d
    by (auto simp: logs_def cycle_step_def)
  have "ledger_ok u" by (rule history_kept [OF later ok_t])
  then have "distinct (map c_id (cycles u))" by (simp add: ledger_ok_def cycles_ok_def)
  then have find: "plan_cycle u (rq_session rq) (rq_cycle rq) = Some ?d"
    unfolding plan_cycle_def
    by (rule find_cycle [OF _ du]) (simp_all add: consume_cycle_def cin)
  have no: "planned_question u (rq2\<lparr>rq_schedule := [], rq_question := []\<rparr>) y = Inl ErrPlanCycleNotReady"
    if "s_id y = rq_session rq" for y
    using that find ne same by (simp add: planned_question_def) (simp add: consume_cycle_def)
  have "\<exists>e. create_planned_conversation_run fresh2 build2 rq2 now2 u = fail u e"
  proof (cases "live_session u (rq_session rq)")
    case None
    then show ?thesis
      using same by (simp add: create_planned_conversation_run_def create_conversation_run_def)
  next
    case (Some y)
    then have "s_id y = rq_session rq"
      by (auto simp: live_session_def split: option.splits if_splits dest: select_key_SomeD)
    then show ?thesis
      using Some same no
      by (auto simp: create_planned_conversation_run_def create_conversation_run_def split: option.split)
  qed
  moreover have "r_status r = RunQueued" "r_session r = rq_session rq" "r_question r = question"
    by (simp_all add: r queued_run_def sid)
  ultimately show ?thesis using c q runs d by (auto simp: id)
qed

definition plan_store :: db where
  "plan_store = sample_store\<lparr>cycles := [ready_cycle ''do it'' (at_second 2) (new_cycle ''y1'' ''c'' ''goal'' (at_second 1))]\<rparr>"

definition plan_request :: run_request where
  "plan_request = \<lparr>rq_session = ''c'', rq_schedule = [], rq_question = [], rq_thread = ''th'', rq_cycle = ''y1'',
     rq_config = \<lparr>rc_model = ''m'', rc_effort = ''high'', rc_tier = ''fast'', rc_context = []\<rparr>\<rparr>"

lemma plan_store_ok: "store_ok plan_store" "ledger_ok plan_store"
proof -
  show "store_ok plan_store"
    using sample_store_ok by (simp add: plan_store_def store_ok_def distinct_keys_def owned_def pending_live_def)
  have "cycles_ok plan_store"
    by (simp add: plan_store_def cycles_ok_def one_current_def distinct_runs_def cycle_checks_def
        ready_cycle_def new_cycle_def)
  then show "ledger_ok plan_store"
    using sample_ledger_ok ledger_same(1-3,5) [of plan_store sample_store]
    by (simp add: ledger_ok_def plan_store_def)
qed

theorem plan_consumed_once_witness:
  "\<exists>t r. create_planned_conversation_run ''r9'' zero_build plan_request (at_second 9) plan_store = (t, Inr r) \<and>
     r_question r = plan_heading @ ''do it'' \<and>
     (\<exists>e. create_planned_conversation_run ''r10'' zero_build plan_request (at_second 10) t = fail t e)"
proof -
  let ?m = "create_planned_conversation_run ''r9'' zero_build plan_request (at_second 9) plan_store"
  have b: "\<not> blank ''y1''" "\<not> blank ''p''" by code_simp+
  have "\<exists>r. snd ?m = Inr r"
    by (simp add: create_planned_conversation_run_def create_conversation_run_def b live_session_def
        planned_question_def plan_cycle_def latest_plan_cycle_def reindexing_def affected_def Let_def build_guard_def
        update_cycles_def one_current_def distinct_runs_def cycle_checks_def cycle_current_def consume_cycle_def
        ready_cycle_def new_cycle_def plan_request_def plan_store_def sample_rows)
  then obtain t r where m: "?m = (t, Inr r)" by (cases ?m) auto
  have c: "plan_cycle plan_store ''c'' ''y1'' = Some (ready_cycle ''do it'' (at_second 2) (new_cycle ''y1'' ''c'' ''goal'' (at_second 1)))"
    by (simp add: plan_cycle_def plan_store_def ready_cycle_def new_cycle_def)
  show ?thesis
    using plan_consumed_once [OF plan_store_ok m rtranclp.rtrancl_refl refl refl] m c
    by (fastforce simp: plan_request_def ready_cycle_def)
qed

end
