(* ===== verification/Archive_Properties.thy ===== *)
theory Archive_Properties
  imports Ledger_Properties
begin

section \<open>Archiving attempts\<close>

text \<open>
  Resuming an interrupted run and restarting a research cycle both move attempts out of the way:
  each becomes superseded at an ordinal below every ordinal of its stage. The uniqueness of
  (run, stage, ordinal) is never violated on the way, so both loops finish, and the ordinals
  the attempts had are free again.
\<close>

subsection \<open>One archived attempt\<close>

lemma key_unique:
  "distinct (map key rs) \<Longrightarrow> x \<in> set rs \<Longrightarrow> y \<in> set rs \<Longrightarrow> key x = key y \<Longrightarrow> x = y"
  by (simp add: distinct_map inj_on_def)

lemma min_ordinal_le:
  assumes "a \<in> set (attempts s)" and "a_run a = rid" and "a_stage a = st"
  shows "min_ordinal s rid st \<le> a_ordinal a"
proof -
  have le: "foldl (\<lambda>m b. min m (a_ordinal b)) m bs \<le> m \<and>
      (\<forall>b \<in> set bs. foldl (\<lambda>m b. min m (a_ordinal b)) m bs \<le> a_ordinal b)" for m bs
  proof (induction bs arbitrary: m)
    case (Cons b bs)
    show ?case using Cons.IH [of "min m (a_ordinal b)"] by (auto intro: order_trans)
  qed simp
  obtain b bs where bs: "filter (\<lambda>a. a_run a = rid \<and> a_stage a = st) (attempts s) = b # bs"
    using assms by (cases "filter (\<lambda>a. a_run a = rid \<and> a_stage a = st) (attempts s)") (auto simp: filter_empty_conv)
  have "set (b # bs) = {a \<in> set (attempts s). a_run a = rid \<and> a_stage a = st}"
    using bs by (metis set_filter)
  then have "a \<in> set (b # bs)" using assms by simp
  then show ?thesis using le [of "a_ordinal b" bs] bs by (auto simp: min_ordinal_def)
qed

definition below_stage :: "db \<Rightarrow> string \<Rightarrow> stage \<Rightarrow> int \<Rightarrow> bool" where
  "below_stage s rid st n \<longleftrightarrow> (\<forall>a \<in> set (attempts s). a_run a = rid \<longrightarrow> a_stage a = st \<longrightarrow> n < a_ordinal a)"

lemma archived_below: "below_stage s rid st (archived_ordinal (min_ordinal s rid st))"
  using min_ordinal_le by (fastforce simp: below_stage_def archived_ordinal_def)

lemma archived_negative: "archived_ordinal m < 0"
  by (simp add: archived_ordinal_def)

lemma update_to_free_slot:
  assumes ids: "distinct (map a_id (attempts s))" and slots: "distinct (map a_slot (attempts s))"
    and a: "a \<in> set (attempts s)" "p a" and only: "\<And>q. p q \<Longrightarrow> a_id q = a_id a"
    and f: "a_id (f a) = a_id a" "a_run (f a) = a_run a" "a_stage (f a) = a_stage a"
    and low: "below_stage s (a_run a) (a_stage a) (a_ordinal (f a))"
  defines "rows \<equiv> map (\<lambda>q. if a_id q = a_id a then f a else q) (attempts s)"
  shows "update_one_attempt p f e s = commit (s\<lparr>attempts := rows\<rparr>) ()"
    and "distinct (map a_id rows)" and "distinct (map a_slot rows)"
proof -
  have same: "q = a" if "q \<in> set (attempts s)" "a_id q = a_id a" for q
    by (rule key_unique [OF ids that(1) a(1) that(2)])
  have upd: "update_where p f (attempts s) = rows"
    unfolding update_where_def rows_def
  proof (rule map_cong [OF refl])
    fix q assume q: "q \<in> set (attempts s)"
    show "(if p q then f q else q) = (if a_id q = a_id a then f a else q)"
    proof (cases "a_id q = a_id a")
      case True
      then have "q = a" by (rule same [OF q])
      with a(2) show ?thesis by simp
    next
      case False
      then show ?thesis using only [of q] by auto
    qed
  qed
  have one: "affected p (attempts s) = 1"
    by (rule affected_key_one [where key = a_id and rs = "attempts s" and r = a and p = p and k = "a_id a",
          OF ids a only])
  have keys: "map a_id rows = map a_id (attempts s)" by (simp add: rows_def f(1))
  show "distinct (map a_id rows)" using ids keys by simp
  have free: "a_slot (f a) \<notin> a_slot ` {q \<in> set (attempts s). a_id q \<noteq> a_id a}"
    using low f by (force simp: below_stage_def a_slot_def)
  have inj: "inj_on a_slot (set (attempts s))" "distinct (attempts s)"
    using slots by (simp_all add: distinct_map)
  have d: "distinct rows"
    using ids keys by (metis distinct_map)
  have mem: "q = f a \<or> q \<in> {q \<in> set (attempts s). a_id q \<noteq> a_id a}" if "q \<in> set rows" for q
    using that by (auto simp: rows_def split: if_splits)
  have "inj_on a_slot (set rows)"
  proof (rule inj_onI)
    fix x y assume x: "x \<in> set rows" and y: "y \<in> set rows" and eq: "a_slot x = a_slot y"
    consider "x = f a" "y = f a" | "x = f a" "y \<in> {q \<in> set (attempts s). a_id q \<noteq> a_id a}"
      | "y = f a" "x \<in> {q \<in> set (attempts s). a_id q \<noteq> a_id a}"
      | "x \<in> set (attempts s)" "y \<in> set (attempts s)"
      using mem [OF x] mem [OF y] by blast
    then show "x = y"
    proof cases
      case 2
      then have "a_slot (f a) = a_slot y" using eq by simp
      then show ?thesis using free 2(2) by (blast intro: image_eqI)
    next
      case 3
      then have "a_slot (f a) = a_slot x" using eq by simp
      then show ?thesis using free 3(2) by (blast intro: image_eqI)
    next
      case 4
      then show ?thesis using inj(1) eq by (simp add: inj_on_def)
    qed simp
  qed
  with d show slots': "distinct (map a_slot rows)" by (simp add: distinct_map)
  show "update_one_attempt p f e s = commit (s\<lparr>attempts := rows\<rparr>) ()"
    using slots' one by (simp add: update_one_attempt_def upd)
qed

subsection \<open>Resuming an interrupted run\<close>

definition archived_rows :: "gotime \<Rightarrow> (string \<Rightarrow> int) \<Rightarrow> string set \<Rightarrow> attempt_row list \<Rightarrow> attempt_row list" where
  "archived_rows now ord is as =
     map (\<lambda>a. if a_id a \<in> is then supersede_attempt (ord (a_id a)) (archive_note (a_error a)) now a else a) as"

lemma supersede_fields [simp]:
  "a_id (supersede_attempt n e now a) = a_id a" "a_run (supersede_attempt n e now a) = a_run a"
  "a_stage (supersede_attempt n e now a) = a_stage a" "a_ordinal (supersede_attempt n e now a) = n"
  "a_status (supersede_attempt n e now a) = Superseded"
  by (simp_all add: supersede_attempt_def)

lemma archive_each_ok:
  assumes "distinct (map a_id (attempts s))" and "distinct (map a_slot (attempts s))"
    and "distinct (map a_id as)" and "set as \<subseteq> set (attempts s)"
    and "\<And>a. a \<in> set as \<Longrightarrow> incomplete_attempt rid a \<and> \<not> a_external a"
  shows "\<exists>ord ev. archive_each rid now as s = commit
      (s\<lparr>attempts := archived_rows now ord (a_id ` set as) (attempts s), events := events s @ ev\<rparr>) () \<and>
    (\<forall>a \<in> set as. ord (a_id a) < 0 \<and> below_stage s rid (a_stage a) (ord (a_id a)))"
  using assms
proof (induction "as" arbitrary: s)
  case Nil
  then show ?case by (auto simp: archived_rows_def intro!: exI [of _ "[]"])
next
  case (Cons a "as")
  let ?n = "archived_ordinal (min_ordinal s rid (a_stage a))"
  let ?f = "\<lambda>q. supersede_attempt ?n (archive_note (a_error q)) now q"
  let ?p = "\<lambda>q. a_id q = a_id a \<and> incomplete_attempt rid q \<and> \<not> a_external q"
  let ?rows = "map (\<lambda>q. if a_id q = a_id a then ?f a else q) (attempts s)"
  let ?s1 = "append_event (s\<lparr>attempts := ?rows\<rparr>) rid ''stage.retry_authorized''
    [(''attempt_id'', JStr (a_id a)), (''stage'', JStr (stage_text (a_stage a))),
     (''ordinal'', JInt (a_logical a))] now"
  have a: "a \<in> set (attempts s)" "?p a" "a_run a = rid" "\<not> a_external a"
    using Cons.prems(4,5) by (auto simp: incomplete_attempt_def)
  have low: "below_stage s (a_run a) (a_stage a) (a_ordinal (?f a))"
    using archived_below [of s rid "a_stage a"] a(3) by simp
  have up: "update_one_attempt ?p ?f e s = commit (s\<lparr>attempts := ?rows\<rparr>) ()" for e
    by (rule update_to_free_slot(1) [where p = ?p and f = ?f, OF Cons.prems(1,2) a(1,2)]) (use low in auto)
  have d: "distinct (map a_id ?rows)" "distinct (map a_slot ?rows)"
    using update_to_free_slot(2,3) [where p = ?p and f = ?f, OF Cons.prems(1,2) a(1,2)] low by auto
  have other: "b \<in> set ?rows" if "b \<in> set as" for b
  proof -
    have "a_id b \<noteq> a_id a" using that Cons.prems(3) by (auto simp: image_iff)
    moreover have "b \<in> set (attempts s)" using that Cons.prems(4) by auto
    ultimately show ?thesis by force
  qed
  obtain ord ev where ih: "archive_each rid now as ?s1 = commit
      (?s1\<lparr>attempts := archived_rows now ord (a_id ` set as) (attempts ?s1), events := events ?s1 @ ev\<rparr>) ()"
    and ord: "\<forall>b \<in> set as. ord (a_id b) < 0 \<and> below_stage ?s1 rid (a_stage b) (ord (a_id b))"
    using Cons.IH [of ?s1] d other Cons.prems(3,5) by auto
  let ?ord = "ord(a_id a := ?n)"
  have notin: "a_id a \<notin> a_id ` set as" using Cons.prems(3) by auto
  have same: "q = a" if "q \<in> set (attempts s)" "a_id q = a_id a" for q
    by (rule key_unique [OF Cons.prems(1) that(1) a(1) that(2)])
  have rows: "archived_rows now ord (a_id ` set as) ?rows = archived_rows now ?ord (a_id ` set (a # as)) (attempts s)"
    unfolding archived_rows_def map_map comp_def
    by (rule map_cong [OF refl]) (use notin same in auto)
  have low': "below_stage s rid st k" if k: "below_stage ?s1 rid st k" for st k
    unfolding below_stage_def
  proof (intro ballI impI)
    fix q assume q: "q \<in> set (attempts s)" "a_run q = rid" "a_stage q = st"
    show "k < a_ordinal q"
    proof (cases "a_id q = a_id a")
      case True
      then have "q = a" using same q(1) by simp
      have in_rows: "?f a \<in> set (attempts ?s1)" using a(1) by force
      have "a_stage (?f a) = st" "a_run (?f a) = rid" using \<open>q = a\<close> q(3) a(3) by simp_all
      then have "k < a_ordinal (?f a)" using k in_rows unfolding below_stage_def by blast
      then have "k < ?n" by simp
      moreover have "?n < a_ordinal a" using low a(1,3) by (simp add: below_stage_def)
      ultimately show ?thesis using \<open>q = a\<close> by simp
    next
      case False
      then have "q \<in> set ?rows" using q(1) by force
      then show ?thesis using k q by (auto simp: below_stage_def)
    qed
  qed
  have "archive_each rid now (a # as) s = archive_each rid now as ?s1"
    using a(4) by (simp add: up)
  then have m: "archive_each rid now (a # as) s = commit
      (?s1\<lparr>attempts := archived_rows now ?ord (a_id ` set (a # as)) (attempts s), events := events ?s1 @ ev\<rparr>) ()"
    using ih rows by simp
  have "\<exists>ev'. ?s1\<lparr>attempts := xs, events := events ?s1 @ ev\<rparr> = s\<lparr>attempts := xs, events := events s @ ev'\<rparr>" for xs
    by (simp add: append_event_def) (rule exI, rule refl)
  then obtain ev' where ev': "?s1\<lparr>attempts := archived_rows now ?ord (a_id ` set (a # as)) (attempts s),
      events := events ?s1 @ ev\<rparr> =
    s\<lparr>attempts := archived_rows now ?ord (a_id ` set (a # as)) (attempts s), events := events s @ ev'\<rparr>"
    by blast
  have "\<forall>b \<in> set (a # as). ?ord (a_id b) < 0 \<and> below_stage s rid (a_stage b) (?ord (a_id b))"
  proof
    fix b assume b: "b \<in> set (a # as)"
    show "?ord (a_id b) < 0 \<and> below_stage s rid (a_stage b) (?ord (a_id b))"
    proof (cases "b = a")
      case True
      then show ?thesis using archived_below archived_negative by simp
    next
      case False
      then have "b \<in> set as" using b by simp
      moreover from this have "a_id b \<noteq> a_id a" using notin by (auto simp: image_iff)
      ultimately show ?thesis using ord low' by (simp add: fun_upd_def)
    qed
  qed
  then show ?case
    unfolding m ev' by (intro exI conjI) (rule refl, assumption)
qed

lemma archive_each_no_external:
  "archive_each rid now as s = (t, Inr u) \<Longrightarrow> a \<in> set as \<Longrightarrow> \<not> a_external a"
proof (induction rid now "as" s rule: archive_each.induct)
  case (2 rid now b bs s)
  then show ?case by (auto simp: and_then_Inr split: if_splits)
qed simp

text \<open>
  C16. Preparing an interrupted run for another try. When an open attempt of the run (in progress or
  interrupted) carries the side-effect marker, the operation fails and changes nothing. Otherwise
  it always commits: every open attempt, and no other row, becomes superseded at a negative
  ordinal below all ordinals of its stage, with the note of the resume appended to its error, and
  the stage of each of them can be begun again at the ordinal it had.
\<close>

theorem resume_prepared:
  assumes ok: "store_ok s" and r: "find_run s rid = Some r" "r_status r = RunInterrupted"
  shows "if \<exists>a \<in> set (attempts s). incomplete_attempt rid a \<and> a_external a
    then \<exists>e. prepare_interrupted_run_for_resume rid now s = fail s e
    else \<exists>ord ev. prepare_interrupted_run_for_resume rid now s =
        commit (s\<lparr>attempts := archived_rows now ord (a_id ` {a \<in> set (attempts s). incomplete_attempt rid a}) (attempts s),
                 events := events s @ ev\<rparr>) () \<and>
      (\<forall>a \<in> set (attempts s). incomplete_attempt rid a \<longrightarrow> ord (a_id a) < 0 \<and>
         below_stage s rid (a_stage a) (ord (a_id a)) \<and>
         (\<forall>fresh \<in> - (a_id ` set (attempts s)). \<exists>u q. begin_stage fresh rid (a_stage a) (a_ordinal a) th inp later
            (s\<lparr>attempts := archived_rows now ord (a_id ` {a \<in> set (attempts s). incomplete_attempt rid a}) (attempts s),
               events := events s @ ev\<rparr>) = commit u q))"
proof -
  let ?as = "sort_key (\<lambda>a. (a_created a, a_id a)) (filter (incomplete_attempt rid) (attempts s))"
  have keys: "distinct (map a_id (attempts s))" "distinct (map a_slot (attempts s))"
    using ok by (simp_all add: store_ok_def distinct_keys_def)
  have prep: "prepare_interrupted_run_for_resume rid now s = transaction s (archive_each rid now ?as s)"
    using r by (simp add: prepare_interrupted_run_for_resume_def)
  have set_as: "set ?as = {a \<in> set (attempts s). incomplete_attempt rid a}" by simp
  show ?thesis
  proof (cases "\<exists>a \<in> set (attempts s). incomplete_attempt rid a \<and> a_external a")
    case True
    then obtain a where "a \<in> set ?as" "a_external a" by auto
    then have "\<exists>e. snd (archive_each rid now ?as s) = Inl e"
      using archive_each_no_external [of rid now ?as s] by (cases "archive_each rid now ?as s"; cases "snd (archive_each rid now ?as s)") auto
    then have "\<exists>e. transaction s (archive_each rid now ?as s) = fail s e"
      by (cases "archive_each rid now ?as s") auto
    with True show ?thesis by (simp add: prep)
  next
    case False
    have dist: "distinct (map a_id ?as)"
      using keys(1) by (auto simp: distinct_map inj_on_def)
    have sub: "set ?as \<subseteq> set (attempts s)"
      and fine: "\<And>a. a \<in> set ?as \<Longrightarrow> incomplete_attempt rid a \<and> \<not> a_external a"
      using False by auto
    obtain ord ev where m: "archive_each rid now ?as s = commit
        (s\<lparr>attempts := archived_rows now ord (a_id ` set ?as) (attempts s), events := events s @ ev\<rparr>) ()"
      and ord: "\<forall>a \<in> set ?as. ord (a_id a) < 0 \<and> below_stage s rid (a_stage a) (ord (a_id a))"
      using archive_each_ok [OF keys dist sub fine] by blast
    let ?t = "s\<lparr>attempts := archived_rows now ord (a_id ` set ?as) (attempts s), events := events s @ ev\<rparr>"
    have again: "\<exists>u q. begin_stage fresh rid (a_stage a) (a_ordinal a) th inp later ?t = commit u q"
      if a: "a \<in> set (attempts s)" "incomplete_attempt rid a" and f: "fresh \<notin> a_id ` set (attempts s)" for a fresh
    proof -
      have run: "a_run a = rid" using a(2) by (simp add: incomplete_attempt_def)
      have "(rid, a_stage a, a_ordinal a) \<noteq> a_slot b" if b: "b \<in> set (attempts ?t)" for b
      proof
        assume eq: "(rid, a_stage a, a_ordinal a) = a_slot b"
        obtain c where c: "c \<in> set (attempts s)"
          and bc: "b = (if a_id c \<in> a_id ` set ?as then supersede_attempt (ord (a_id c)) (archive_note (a_error c)) now c else c)"
          using b by (auto simp: archived_rows_def)
        show False
        proof (cases "a_id c \<in> a_id ` set ?as")
          case True
          then obtain d where d: "d \<in> set ?as" "a_id d = a_id c" by auto
          then have "d = c" using key_unique [OF keys(1) _ c] by simp
          then have "below_stage s rid (a_stage c) (ord (a_id c))" using ord d by auto
          moreover have "a_stage c = a_stage a" "ord (a_id c) = a_ordinal a"
            using eq bc True by (simp_all add: a_slot_def)
          ultimately show False using a(1) run by (auto simp: below_stage_def)
        next
          case False
          then have "a_slot c = a_slot a" using eq bc run by (simp add: a_slot_def)
          then have "c = a" using key_unique [OF keys(2) c a(1)] by simp
          then show False using False a by auto
        qed
      qed
      then have slot: "(rid, a_stage a, a_ordinal a) \<notin> a_slot ` set (attempts ?t)" by blast
      have "map a_id (attempts ?t) = map a_id (attempts s)" by (simp add: archived_rows_def)
      then have "a_id ` set (attempts ?t) = a_id ` set (attempts s)" by (metis set_map)
      then have "fresh \<notin> a_id ` set (attempts ?t)" using f by simp
      moreover have "find_run ?t rid \<noteq> None" using r(1) by (simp add: find_run_def)
      ultimately show ?thesis
        using slot by (simp add: begin_stage_def Let_def a_slot_def new_attempt_def)
    qed
    have "prepare_interrupted_run_for_resume rid now s = commit ?t ()" by (simp add: prep m)
    with ord again show ?thesis
      unfolding if_not_P [OF False] set_as by (intro exI [of _ ord] exI [of _ ev] conjI) auto
  qed
qed

definition interrupted_store :: db where
  "interrupted_store = sample_store
     \<lparr>runs := [sample_run ''r6'' RunInterrupted 2 ''2026-01-02T03:04:01Z''],
      attempts := [sample_attempt ''b1'' ''r6'' StageCollect 0 Completed True,
                   sample_attempt ''b2'' ''r6'' StageCollect 1 AttemptInterrupted False], approvals := []\<rparr>"

lemma interrupted_store_ok: "store_ok interrupted_store"
  by code_simp

theorem resume_prepared_witness:
  "\<exists>t u q. prepare_interrupted_run_for_resume ''r6'' (at_second 9) interrupted_store = commit t () \<and>
     begin_stage ''b3'' ''r6'' StageCollect 1 [] [] (at_second 10) t = commit u q"
proof -
  let ?b = "sample_attempt ''b2'' ''r6'' StageCollect 1 AttemptInterrupted False"
  have r: "find_run interrupted_store ''r6'' = Some (sample_run ''r6'' RunInterrupted 2 ''2026-01-02T03:04:01Z'')"
    "r_status (sample_run ''r6'' RunInterrupted 2 ''2026-01-02T03:04:01Z'') = RunInterrupted"
    by (simp_all add: interrupted_store_def sample_run_def query_defs)
  have n: "\<not> (\<exists>a \<in> set (attempts interrupted_store). incomplete_attempt ''r6'' a \<and> a_external a)"
    and b: "?b \<in> set (attempts interrupted_store)" "incomplete_attempt ''r6'' ?b" "a_stage ?b = StageCollect" "a_ordinal ?b = 1"
    and f: "''b3'' \<in> - (a_id ` set (attempts interrupted_store))"
    by (simp_all add: interrupted_store_def incomplete_attempt_def sample_attempt_def)
  note p = resume_prepared [OF interrupted_store_ok r, of "at_second 9" "[]" "[]" "at_second 10"]
  obtain t where m: "prepare_interrupted_run_for_resume ''r6'' (at_second 9) interrupted_store = commit t ()"
    and go: "\<forall>a \<in> set (attempts interrupted_store). incomplete_attempt ''r6'' a \<longrightarrow>
      (\<forall>fresh \<in> - (a_id ` set (attempts interrupted_store)). \<exists>u q.
        begin_stage fresh ''r6'' (a_stage a) (a_ordinal a) [] [] (at_second 10) t = commit u q)"
    using p [unfolded if_not_P [OF n]] by blast
  show ?thesis using m go [rule_format, OF b(1,2) f] unfolding b(3,4) by blast
qed

subsection \<open>Sealing a research cycle\<close>

definition sealed_rows :: "gotime \<Rightarrow> (string \<Rightarrow> int) \<Rightarrow> string set \<Rightarrow> attempt_row list \<Rightarrow> attempt_row list" where
  "sealed_rows now ord is as = map (\<lambda>a. if a_id a \<in> is then seal_row (ord (a_id a)) now a else a) as"

lemma seal_fields [simp]:
  "a_id (seal_row n now a) = a_id a" "a_run (seal_row n now a) = a_run a" "a_stage (seal_row n now a) = a_stage a"
  "a_ordinal (seal_row n now a) = n" "a_status (seal_row n now a) = Superseded"
  by (simp_all add: seal_row_def)

definition at_most_stage :: "db \<Rightarrow> string \<Rightarrow> (stage \<Rightarrow> int) \<Rightarrow> bool" where
  "at_most_stage s rid m \<longleftrightarrow> (\<forall>a \<in> set (attempts s). a_run a = rid \<longrightarrow> m (a_stage a) \<le> a_ordinal a)"

text \<open>The guarded update of the current run, from any state that has the same runs.\<close>

lemma update_current_in:
  assumes "store_ok s" "find_run s rid = Some cur" "q cur" and u: "runs u = runs s"
  shows "update_one_run (\<lambda>r. r_id r = rid \<and> q r) f e u =
    commit (u\<lparr>runs := update_where (\<lambda>r. r_id r = rid) f (runs s)\<rparr>) ()"
proof -
  have "update_one_run (\<lambda>r. r_id r = rid \<and> q r) f e s =
      commit (s\<lparr>runs := update_where (\<lambda>r. r_id r = rid) f (runs s)\<rparr>) ()"
    by (rule update_current [OF assms(1,2), where q = q, OF assms(3)])
  then have "affected (\<lambda>r. r_id r = rid \<and> q r) (runs s) = 1"
    and "runs (fst (update_one_run (\<lambda>r. r_id r = rid \<and> q r) f e s)) = update_where (\<lambda>r. r_id r = rid) f (runs s)"
    by (simp_all add: update_one_run_def split: if_splits)
  then show ?thesis using u by (simp add: update_one_run_def)
qed

lemma seal_each_ok:
  assumes "distinct (map a_id (attempts s))" and "distinct (map a_slot (attempts s))"
    and "distinct (map a_id as)" and "set as \<subseteq> set (attempts s)"
    and "\<And>a. a \<in> set as \<Longrightarrow> live_attempt rid a" and "at_most_stage s rid m"
  shows "\<exists>ord. seal_each rid now m as s = commit
      (s\<lparr>attempts := sealed_rows now ord (a_id ` set as) (attempts s)\<rparr>) ()"
  using assms
proof (induction "as" arbitrary: s m)
  case Nil
  then show ?case by (simp add: sealed_rows_def)
next
  case (Cons a "as")
  let ?m = "m(a_stage a := m (a_stage a) - 1)"
  let ?f = "seal_row (?m (a_stage a)) now"
  let ?p = "\<lambda>q. a_id q = a_id a \<and> live_attempt rid q"
  let ?rows = "map (\<lambda>q. if a_id q = a_id a then ?f a else q) (attempts s)"
  let ?s1 = "s\<lparr>attempts := ?rows\<rparr>"
  have a: "a \<in> set (attempts s)" "?p a" "a_run a = rid"
    using Cons.prems(4,5) by (auto simp: live_attempt_def)
  have "m (a_stage a) - 1 < a_ordinal b" if "b \<in> set (attempts s)" "a_run b = rid" "a_stage b = a_stage a" for b
    using Cons.prems(6) that unfolding at_most_stage_def by fastforce
  then have low: "below_stage s (a_run a) (a_stage a) (a_ordinal (?f a))"
    using a(3) by (simp add: below_stage_def)
  have up: "update_one_attempt ?p ?f e s = commit ?s1 ()" for e
    by (rule update_to_free_slot(1) [where p = ?p and f = ?f, OF Cons.prems(1,2) a(1,2)]) (use low in auto)
  have d: "distinct (map a_id ?rows)" "distinct (map a_slot ?rows)"
    using update_to_free_slot(2,3) [where p = ?p and f = ?f, OF Cons.prems(1,2) a(1,2)] low by auto
  have other: "set as \<subseteq> set (attempts ?s1)"
  proof
    fix b assume "b \<in> set as"
    moreover from this have "a_id b \<noteq> a_id a" using Cons.prems(3) by (auto simp: image_iff)
    ultimately show "b \<in> set (attempts ?s1)" using Cons.prems(4) by force
  qed
  have least: "at_most_stage ?s1 rid ?m"
    unfolding at_most_stage_def
  proof (intro ballI impI)
    fix q assume "q \<in> set (attempts ?s1)" "a_run q = rid"
    then consider "q = ?f a" | "q \<in> set (attempts s)" by (auto split: if_splits)
    then show "?m (a_stage q) \<le> a_ordinal q"
    proof cases
      case 1
      then show ?thesis by simp
    next
      case 2
      then have "m (a_stage q) \<le> a_ordinal q"
        using Cons.prems(6) \<open>a_run q = rid\<close> by (simp add: at_most_stage_def)
      then show ?thesis by (cases "a_stage q = a_stage a") auto
    qed
  qed
  have "distinct (map a_id as)" using Cons.prems(3) by simp
  moreover have "distinct (map a_id (attempts ?s1))" "distinct (map a_slot (attempts ?s1))"
    using d by simp_all
  moreover have "\<forall>b \<in> set as. live_attempt rid b" using Cons.prems(5) by simp
  ultimately obtain ord where ih: "seal_each rid now ?m as ?s1 = commit
      (?s1\<lparr>attempts := sealed_rows now ord (a_id ` set as) (attempts ?s1)\<rparr>) ()"
    using Cons.IH [of ?s1 ?m] other least by blast
  let ?ord = "ord(a_id a := ?m (a_stage a))"
  have notin: "a_id a \<notin> a_id ` set as" using Cons.prems(3) by auto
  have same: "q = a" if "q \<in> set (attempts s)" "a_id q = a_id a" for q
    by (rule key_unique [OF Cons.prems(1) that(1) a(1) that(2)])
  have rows: "sealed_rows now ord (a_id ` set as) ?rows = sealed_rows now ?ord (a_id ` set (a # as)) (attempts s)"
    unfolding sealed_rows_def map_map comp_def
    by (rule map_cong [OF refl]) (use notin same in auto)
  have "seal_each rid now m (a # as) s = seal_each rid now ?m as ?s1"
    using up by (simp add: Let_def)
  then have "seal_each rid now m (a # as) s =
      commit (s\<lparr>attempts := sealed_rows now ?ord (a_id ` set (a # as)) (attempts s)\<rparr>) ()"
    unfolding ih using rows by simp
  then show ?case by (rule exI [of _ ?ord])
qed


definition remedy_store :: db where
  "remedy_store = sample_store
     \<lparr>runs := [sample_run ''r7'' RunReviewing 6 ''2026-01-02T03:04:01Z''],
      attempts := [sample_attempt ''v0'' ''r7'' StageReview 0 Completed False,
                   sample_attempt ''k0'' ''r7'' StageCollect 0 Completed True], approvals := [],
      blobs := [\<lparr>b_hash = ''out'', b_size = 1, b_media = ''m'', b_created = []\<rparr>]\<rparr>"

definition replan_verdict :: review_verdict where
  "replan_verdict =
     \<lparr>citation_integrity_percent = 90, knowledge_integrity_of = None, critical_errors = [''gap''],
      scores = \<lparr>task_fulfillment = 3, claim_support = 3, source_quality = 3, completeness = 3,
        reasoning_and_uncertainty = 3, clarity_and_reproducibility = 3\<rparr>,
      revision_requests = [], remediation_action_of = RemReplan, remediation_tasks = [], verdict_summary = ''s''\<rparr>"

lemma remedy_store_ok: "store_ok remedy_store"
  by code_simp


end
