(* ===== verification/Dispatcher.thy ===== *)
theory Dispatcher
  imports Store_Stages
begin

section \<open>The dispatcher of runs\<close>

text \<open>
  \<^verbatim>\<open>src/internal/dispatch/dispatcher.go\<close>: the in-memory queue of runs, the set of active runs,
  projects and sessions, the one-slot wake channel, the loop that starts runs, and the controls
  that enqueue, cancel, discard, resume and steer a run. Every function that holds the mutex is
  one definition over the dispatcher's state; a control that talks to the store and then to the
  queue is the composition of both. The gate of the project FIFO is an argument of \<open>start_one\<close>,
  the store's \<open>has_earlier_unresolved_run\<close> when the dispatcher runs.
\<close>

subsection \<open>State\<close>

definition MaxConcurrentRuns :: nat where
  "MaxConcurrentRuns = 2"

record queue_item =
  qi_run :: string
  qi_project :: string
  qi_session :: string

text \<open>Where the goroutine of \<^verbatim>\<open>loop\<close> is: at its select, in the inner loop over \<^verbatim>\<open>startOne\<close>, or gone.\<close>

datatype loop_phase = LoopWaiting | LoopDraining | LoopExited

text \<open>
  The maps of the Go struct are the sets of their keys. \<open>d_running\<close> holds the goroutines of
  \<^verbatim>\<open>execute\<close> that are inside the executor and \<open>d_finishing\<close> those between the removal of their
  item and their final signal; together they are the wait group. \<open>d_stopping\<close> holds the runs
  whose context has been cancelled, \<open>d_cancelled\<close> says that the dispatcher's own context has.
\<close>

record dispatcher =
  d_started :: bool
  d_cancelled :: bool
  d_wake :: bool
  d_queue :: "queue_item list"
  d_queued :: "string set"
  d_projects :: "string set"
  d_sessions :: "string set"
  d_cancels :: "string set"
  d_closed :: bool
  d_running :: "queue_item list"
  d_finishing :: "queue_item list"
  d_stopping :: "string set"
  d_loop :: loop_phase

definition new_dispatcher :: dispatcher where
  "new_dispatcher =
     \<lparr>d_started = False, d_cancelled = False, d_wake = False, d_queue = [], d_queued = {},
      d_projects = {}, d_sessions = {}, d_cancels = {}, d_closed = False, d_running = [],
      d_finishing = [], d_stopping = {}, d_loop = LoopExited\<rparr>"

subsection \<open>Signalling and queueing\<close>

text \<open>
  The send never blocks: a full channel keeps its one token, and before \<^verbatim>\<open>Start\<close> the channel is
  nil, so nothing is sent.
\<close>

definition signal_locked :: "dispatcher \<Rightarrow> dispatcher" where
  "signal_locked d = (if d_started d then d\<lparr>d_wake := True\<rparr> else d)"

definition signal :: "dispatcher \<Rightarrow> dispatcher" where
  "signal d = signal_locked d"

definition item_of :: "run_row \<Rightarrow> queue_item" where
  "item_of r = \<lparr>qi_run = r_id r, qi_project = r_project r, qi_session = r_session r\<rparr>"

definition enqueue :: "run_row \<Rightarrow> dispatcher \<Rightarrow> dispatcher \<times> bool" where
  "enqueue r d =
     (if d_closed d \<or> \<not> d_started d \<or> r_id r \<in> d_queued d \<or> r_id r \<in> d_cancels d
      then (d, False)
      else (signal_locked (d\<lparr>d_queue := d_queue d @ [item_of r], d_queued := insert (r_id r) (d_queued d)\<rparr>),
            True))"

definition list_runs_by_status :: "db \<Rightarrow> run_status list \<Rightarrow> run_row list" where
  "list_runs_by_status s sts =
     sort_key (\<lambda>r. (r_created r, r_id r)) (filter (\<lambda>r. r_status r \<in> set sts) (runs s))"

fun enqueue_all :: "run_row list \<Rightarrow> dispatcher \<Rightarrow> dispatcher" where
  "enqueue_all [] d = d"
| "enqueue_all (r # rs) d = enqueue_all rs (fst (enqueue r d))"

definition reload_queued :: "db \<Rightarrow> dispatcher \<Rightarrow> dispatcher" where
  "reload_queued s d = enqueue_all (list_runs_by_status s [RunQueued]) d"

definition start_dispatcher :: "db \<Rightarrow> dispatcher \<Rightarrow> dispatcher option" where
  "start_dispatcher s d =
     (if d_started d then None
      else Some (signal (reload_queued s
        (d\<lparr>d_started := True, d_wake := False, d_queued := {}, d_projects := {}, d_sessions := {},
           d_cancels := {}, d_loop := LoopWaiting\<rparr>))))"

definition session_has_research_work :: "dispatcher \<Rightarrow> string \<Rightarrow> bool" where
  "session_has_research_work d sid \<longleftrightarrow>
     sid \<in> d_sessions d \<or> (\<exists>i \<in> set (d_queue d). qi_session i = sid)"

subsection \<open>Starting a run\<close>

text \<open>The first queued item of an idle project whose run the store does not hold back.\<close>

definition selectable :: "(string \<Rightarrow> store_error + bool) \<Rightarrow> dispatcher \<Rightarrow> queue_item \<Rightarrow> bool" where
  "selectable blocked d i \<longleftrightarrow> qi_project i \<notin> d_projects d \<and> blocked (qi_run i) = Inr False"

fun take_first :: "('a \<Rightarrow> bool) \<Rightarrow> 'a list \<Rightarrow> ('a \<times> 'a list) option" where
  "take_first p [] = None"
| "take_first p (x # xs) =
     (if p x then Some (x, xs)
      else case take_first p xs of None \<Rightarrow> None | Some (y, ys) \<Rightarrow> Some (y, x # ys))"

definition activate :: "queue_item \<Rightarrow> queue_item list \<Rightarrow> dispatcher \<Rightarrow> dispatcher" where
  "activate i rest d =
     d\<lparr>d_queue := rest, d_queued := d_queued d - {qi_run i},
       d_projects := insert (qi_project i) (d_projects d),
       d_sessions := insert (qi_session i) (d_sessions d),
       d_cancels := insert (qi_run i) (d_cancels d),
       d_running := d_running d @ [i], d_stopping := d_stopping d - {qi_run i}\<rparr>"

definition start_one ::
    "(string \<Rightarrow> store_error + bool) \<Rightarrow> dispatcher \<Rightarrow> (queue_item \<times> dispatcher) option" where
  "start_one blocked d =
     (if d_closed d \<or> MaxConcurrentRuns \<le> card (d_cancels d) then None
      else case take_first (selectable blocked d) (d_queue d) of
        None \<Rightarrow> None
      | Some (i, rest) \<Rightarrow> Some (i, activate i rest d))"

text \<open>The inner loop: it ends because every start takes an item out of the queue.\<close>

lemma take_first_Some:
  "take_first p xs = Some (y, ys) \<longleftrightarrow>
     (\<exists>us vs. xs = us @ y # vs \<and> ys = us @ vs \<and> p y \<and> (\<forall>u \<in> set us. \<not> p u))"
proof (induction xs arbitrary: ys)
  case (Cons x xs)
  have split: "(\<exists>us vs. x # xs = us @ y # vs \<and> ys = us @ vs \<and> p y \<and> (\<forall>u \<in> set us. \<not> p u)) \<longleftrightarrow>
      x = y \<and> ys = xs \<and> p y \<or>
      (\<exists>us vs. xs = us @ y # vs \<and> ys = x # us @ vs \<and> p y \<and> \<not> p x \<and> (\<forall>u \<in> set us. \<not> p u))"
    (is "?l \<longleftrightarrow> ?r")
  proof
    assume ?l
    then obtain us vs where h: "x # xs = us @ y # vs" "ys = us @ vs" "p y" "\<forall>u \<in> set us. \<not> p u" by blast
    then show ?r by (cases us) auto
  next
    assume ?r
    then show ?l
    proof (elim disjE exE conjE)
      assume "x = y" "ys = xs" "p y"
      then show ?l by (intro exI [of _ "[]"] exI [of _ xs]) simp
    next
      fix us vs
      assume "xs = us @ y # vs" "ys = x # us @ vs" "p y" "\<not> p x" "\<forall>u \<in> set us. \<not> p u"
      then show ?l by (intro exI [of _ "x # us"] exI [of _ vs]) simp
    qed
  qed
  have inner: "take_first p (x # xs) = Some (y, ys) \<longleftrightarrow>
      p x \<and> x = y \<and> xs = ys \<or> \<not> p x \<and> (\<exists>zs. take_first p xs = Some (y, zs) \<and> ys = x # zs)"
    by (auto split: option.split)
  show ?case unfolding split inner Cons.IH by auto
qed simp

lemma take_first_None: "take_first p xs = None \<longleftrightarrow> (\<forall>x \<in> set xs. \<not> p x)"
  by (induction xs) (auto split: option.split)

lemma start_one_shorter:
  "start_one blocked d = Some (i, e) \<Longrightarrow> length (d_queue d) = Suc (length (d_queue e))"
  by (auto simp: start_one_def activate_def take_first_Some split: if_splits option.splits)

function drain :: "(string \<Rightarrow> store_error + bool) \<Rightarrow> dispatcher \<Rightarrow> dispatcher" where
  "drain blocked d =
     (case start_one blocked d of None \<Rightarrow> d | Some (i, e) \<Rightarrow> drain blocked e)"
  by auto
termination
  by (relation "measure (\<lambda>(b, d). length (d_queue d))") (auto dest: start_one_shorter)

declare drain.simps [simp del]

subsection \<open>The end of an execution\<close>

definition finish_locked :: "queue_item \<Rightarrow> dispatcher \<Rightarrow> dispatcher" where
  "finish_locked i d =
     d\<lparr>d_cancels := d_cancels d - {qi_run i}, d_projects := d_projects d - {qi_project i},
       d_sessions := d_sessions d - {qi_session i},
       d_running := remove1 i (d_running d), d_finishing := d_finishing d @ [i]\<rparr>"

definition finish_errored_run :: "string \<Rightarrow> bool \<Rightarrow> string \<Rightarrow> gotime \<Rightarrow> db \<Rightarrow> run_row store" where
  "finish_errored_run rid wasCancelled msg now s =
     (if wasCancelled then quiesce_run rid RunCancelled ''cancelled'' now s
      else quiesce_run rid RunFailed msg now s)"

text \<open>
  What \<^verbatim>\<open>execute\<close> does once the executor has returned: \<open>None\<close> without an error, otherwise whether
  the error is \<^verbatim>\<open>context.Canceled\<close> and its message.
\<close>

definition finish_execution ::
    "queue_item \<Rightarrow> (bool \<times> string) option \<Rightarrow> gotime \<Rightarrow> dispatcher \<times> db \<Rightarrow> dispatcher \<times> db" where
  "finish_execution i err now = (\<lambda>(d, s).
     let d1 = finish_locked i d;
         s1 = (case err of
                 None \<Rightarrow> s
               | Some (wasCancelled, msg) \<Rightarrow>
                   if d_closed d then s else fst (finish_errored_run (qi_run i) wasCancelled msg now s))
     in (signal (d1\<lparr>d_finishing := remove1 i (d_finishing d1)\<rparr>), s1))"

subsection \<open>Controls\<close>

definition cancel_locked :: "string \<Rightarrow> dispatcher \<Rightarrow> dispatcher" where
  "cancel_locked rid d =
     (let d1 = (if rid \<in> d_queued d
                then d\<lparr>d_queue := (case take_first (\<lambda>i. qi_run i = rid) (d_queue d) of
                                     None \<Rightarrow> d_queue d | Some (i, rest) \<Rightarrow> rest),
                       d_queued := d_queued d - {rid}\<rparr>
                else d)
      in if rid \<in> d_cancels d1 then d1\<lparr>d_stopping := insert rid (d_stopping d1)\<rparr> else d1)"

definition cancel_run ::
    "string \<Rightarrow> gotime \<Rightarrow> dispatcher \<times> db \<Rightarrow> (dispatcher \<times> db) \<times> (store_error + run_row)" where
  "cancel_run rid now = (\<lambda>(d, s).
     let (t, r) = quiesce_run rid RunCancelled ''cancelled by user'' now s
     in ((cancel_locked rid d, t), r))"

definition discard_run ::
    "string \<Rightarrow> gotime \<Rightarrow> dispatcher \<times> db \<Rightarrow> (dispatcher \<times> db) \<times> (store_error + run_row)" where
  "discard_run rid now = (\<lambda>(d, s).
     case find_run s rid of
       None \<Rightarrow> ((d, s), Inl NoRows)
     | Some r \<Rightarrow>
         if r_status r \<noteq> RunInterrupted \<and> r_status r \<noteq> RunUncertain
         then ((d, s), Inl (Errorf ''only interrupted or uncertain runs can be discarded''))
         else let (t, res) = transition_run (r_id r) (r_revision r) RunCancelled ''discarded by user'' now s
              in ((if is_ok res then signal d else d, t), res))"

definition resume_run ::
    "string \<Rightarrow> gotime \<Rightarrow> dispatcher \<times> db \<Rightarrow> (dispatcher \<times> db) \<times> (store_error + run_row)" where
  "resume_run rid now = (\<lambda>(d, s).
     case find_run s rid of
       None \<Rightarrow> ((d, s), Inl NoRows)
     | Some r \<Rightarrow>
         if r_status r \<noteq> RunInterrupted
         then ((d, s), Inl (Errorf ''only interrupted runs can be resumed''))
         else case prepare_interrupted_run_for_resume (r_id r) now s of
           (t, Inl e) \<Rightarrow> ((d, t), Inl e)
         | (t, Inr _) \<Rightarrow>
             (let (d1, queued) = enqueue r d
              in ((d1, t), if queued then Inr r else Inl (Errorf ''dispatcher is stopped''))))"

text \<open>\<open>steer\<close> is the executor's \<^verbatim>\<open>Steer\<close>.\<close>

definition steer_run ::
    "(string \<Rightarrow> string \<Rightarrow> db \<Rightarrow> unit store) \<Rightarrow> string \<Rightarrow> string \<Rightarrow> dispatcher \<times> db \<Rightarrow>
       (dispatcher \<times> db) \<times> (store_error + run_row)" where
  "steer_run steer rid message = (\<lambda>(d, s).
     if blank message then ((d, s), Inl (Errorf ''steering message is required''))
     else case find_run s rid of
       None \<Rightarrow> ((d, s), Inl NoRows)
     | Some r \<Rightarrow>
         if rid \<notin> d_cancels d \<or> is_terminal (r_status r) \<or> r_status r = RunQueued \<or>
            r_status r = RunInterrupted \<or> r_status r = RunUncertain
         then ((d, s), Inl (Errorf ''run has no active turn to steer''))
         else case steer rid (trim_space message) s of
           (t, Inl e) \<Rightarrow> ((d, t), Inl e)
         | (t, Inr _) \<Rightarrow>
             ((d, t), case find_run t rid of None \<Rightarrow> Inl NoRows | Some r \<Rightarrow> Inr r))"

definition shutdown :: "dispatcher \<Rightarrow> dispatcher" where
  "shutdown d =
     (if \<not> d_started d then d
      else d\<lparr>d_closed := True, d_stopping := d_stopping d \<union> d_cancels d, d_cancelled := True\<rparr>)"

subsection \<open>Steps\<close>

text \<open>
  The interleavings. A critical section of the mutex, a receive from the wake channel and a
  transaction of the store are one step each; \<open>db_step\<close> stands for the transactions that the
  executor, the scheduler and the interface commit meanwhile, and \<open>gate\<close> for the FIFO query.
\<close>

inductive dispatch_step ::
    "(db \<Rightarrow> db \<Rightarrow> bool) \<Rightarrow> (db \<Rightarrow> string \<Rightarrow> store_error + bool) \<Rightarrow>
       dispatcher \<times> db \<Rightarrow> dispatcher \<times> db \<Rightarrow> bool"
  for db_step :: "db \<Rightarrow> db \<Rightarrow> bool" and gate :: "db \<Rightarrow> string \<Rightarrow> store_error + bool" where
  store: "db_step s t \<Longrightarrow> dispatch_step db_step gate (d, s) (d, t)"
| start: "start_dispatcher s d = Some e \<Longrightarrow> dispatch_step db_step gate (d, s) (e, s)"
| queue: "find_run s rid = Some r \<Longrightarrow> dispatch_step db_step gate (d, s) (fst (enqueue r d), s)"
| wake: "d_loop d = LoopWaiting \<Longrightarrow> d_wake d \<Longrightarrow>
    dispatch_step db_step gate (d, s) (d\<lparr>d_wake := False, d_loop := LoopDraining\<rparr>, s)"
| started: "d_loop d = LoopDraining \<Longrightarrow> start_one (gate s) d = Some (i, e) \<Longrightarrow>
    dispatch_step db_step gate (d, s) (e, s)"
| drained: "d_loop d = LoopDraining \<Longrightarrow> start_one (gate s) d = None \<Longrightarrow>
    dispatch_step db_step gate (d, s) (d\<lparr>d_loop := LoopWaiting\<rparr>, s)"
| executed: "i \<in> set (d_running d) \<Longrightarrow> dispatch_step db_step gate (d, s) (finish_locked i d, s)"
| finished: "i \<in> set (d_finishing d) \<Longrightarrow>
    dispatch_step db_step gate (d, s) (signal (d\<lparr>d_finishing := remove1 i (d_finishing d)\<rparr>), s)"
| cancel: "dispatch_step db_step gate (d, s) (cancel_locked rid d, s)"
| discard: "dispatch_step db_step gate (d, s) (signal d, s)"
| shut: "dispatch_step db_step gate (d, s) (shutdown d, s)"
| parent: "dispatch_step db_step gate (d, s)
    (d\<lparr>d_cancelled := True, d_stopping := d_stopping d \<union> d_cancels d\<rparr>, s)"
| exit: "d_loop d = LoopWaiting \<Longrightarrow> d_cancelled d \<Longrightarrow>
    dispatch_step db_step gate (d, s) (d\<lparr>d_loop := LoopExited\<rparr>, s)"

inductive_cases dispatch_stepE: "dispatch_step db_step gate c c'"

subsection \<open>The invariant of the queue\<close>

definition dispatcher_ok :: "dispatcher \<Rightarrow> bool" where
  "dispatcher_ok d \<longleftrightarrow>
     (if d_started d
      then distinct (map qi_run (d_queue d)) \<and> qi_run ` set (d_queue d) = d_queued d \<and>
           distinct (map qi_run (d_running d)) \<and> qi_run ` set (d_running d) = d_cancels d \<and>
           distinct (map qi_project (d_running d)) \<and> qi_project ` set (d_running d) = d_projects d \<and>
           d_queued d \<inter> d_cancels d = {} \<and> length (d_running d) \<le> MaxConcurrentRuns
      else d_queue d = [] \<and> d_running d = [] \<and> d_loop d = LoopExited)"

lemma dispatcher_ok_new: "dispatcher_ok new_dispatcher"
  by (simp add: dispatcher_ok_def new_dispatcher_def)

lemma signal_fields [simp]:
  "d_started (signal d) = d_started d" "d_queue (signal d) = d_queue d" "d_queued (signal d) = d_queued d"
  "d_running (signal d) = d_running d" "d_cancels (signal d) = d_cancels d" "d_projects (signal d) = d_projects d"
  "d_sessions (signal d) = d_sessions d" "d_closed (signal d) = d_closed d" "d_loop (signal d) = d_loop d"
  "d_finishing (signal d) = d_finishing d" "d_wake (signal d) \<longleftrightarrow> d_started d \<or> d_wake d"
  "d_stopping (signal d) = d_stopping d" "d_cancelled (signal d) = d_cancelled d"
  by (simp_all add: signal_def signal_locked_def)

lemma signal_locked_signal: "signal_locked d = signal d"
  by (simp add: signal_def)

lemma ok_signal [simp]: "dispatcher_ok (signal d) = dispatcher_ok d"
  by (simp add: dispatcher_ok_def)

lemma ok_enqueue: "dispatcher_ok d \<Longrightarrow> dispatcher_ok (fst (enqueue r d))"
  by (cases "snd (enqueue r d)")
    (auto simp: enqueue_def dispatcher_ok_def signal_locked_signal item_of_def split: if_splits)

lemma enqueue_fields [simp]:
  "d_started (fst (enqueue r d)) = d_started d" "d_closed (fst (enqueue r d)) = d_closed d"
  "d_running (fst (enqueue r d)) = d_running d" "d_cancels (fst (enqueue r d)) = d_cancels d"
  "d_projects (fst (enqueue r d)) = d_projects d" "d_loop (fst (enqueue r d)) = d_loop d"
  "d_finishing (fst (enqueue r d)) = d_finishing d"
  by (simp_all add: enqueue_def signal_locked_signal)

lemma enqueue_all_fields [simp]:
  "d_started (enqueue_all rs d) = d_started d" "d_closed (enqueue_all rs d) = d_closed d"
  "d_running (enqueue_all rs d) = d_running d" "d_cancels (enqueue_all rs d) = d_cancels d"
  "d_projects (enqueue_all rs d) = d_projects d" "d_loop (enqueue_all rs d) = d_loop d"
  "d_finishing (enqueue_all rs d) = d_finishing d"
  by (induction rs arbitrary: d) simp_all

lemma ok_enqueue_all: "dispatcher_ok d \<Longrightarrow> dispatcher_ok (enqueue_all rs d)"
  by (induction rs arbitrary: d) (simp_all add: ok_enqueue)

lemma ok_start:
  assumes "dispatcher_ok d" and "start_dispatcher s d = Some e" shows "dispatcher_ok e"
proof -
  let ?d = "d\<lparr>d_started := True, d_wake := False, d_queued := {}, d_projects := {}, d_sessions := {},
           d_cancels := {}, d_loop := LoopWaiting\<rparr>"
  have "\<not> d_started d" and e: "e = signal (reload_queued s ?d)"
    using assms(2) by (simp_all add: start_dispatcher_def split: if_splits)
  then have "dispatcher_ok ?d" using assms(1) by (simp add: dispatcher_ok_def)
  then show ?thesis by (simp add: e reload_queued_def ok_enqueue_all)
qed

lemma take_first_keys:
  assumes "take_first p xs = Some (y, ys)" and "distinct (map f xs)"
  shows "y \<in> set xs" "p y" "distinct (map f ys)" "f ` set ys = f ` set xs - {f y}" "set ys \<subseteq> set xs"
proof -
  obtain us vs where q: "xs = us @ y # vs" "ys = us @ vs" "p y" using assms(1) by (auto simp: take_first_Some)
  then show "y \<in> set xs" "p y" "distinct (map f ys)" "set ys \<subseteq> set xs" using assms(2) by auto
  have "f y \<notin> f ` set ys" "f ` set xs = insert (f y) (f ` set ys)" using assms(2) q by auto
  then show "f ` set ys = f ` set xs - {f y}" by blast
qed

lemma ok_start_one:
  assumes ok: "dispatcher_ok d" and st: "d_started d" and one: "start_one blocked d = Some (i, e)"
  shows "dispatcher_ok e"
proof -
  obtain rest where q: "take_first (selectable blocked d) (d_queue d) = Some (i, rest)" "e = activate i rest d"
    and room: "card (d_cancels d) < 2"
    using one by (auto simp: start_one_def MaxConcurrentRuns_def split: if_splits option.splits)
  have d: "distinct (map qi_run (d_queue d))" using ok st by (simp add: dispatcher_ok_def)
  note keys = take_first_keys [OF q(1) d]
  have "qi_run i \<in> d_queued d" using ok st keys(1) by (auto simp: dispatcher_ok_def)
  then have "qi_run i \<notin> d_cancels d" using ok st by (auto simp: dispatcher_ok_def)
  moreover have "card (d_cancels d) = length (d_running d)"
    using ok st by (metis dispatcher_ok_def distinct_card length_map list.set_map)
  ultimately show ?thesis
    using ok st q(2) room keys(2-4)
    by (auto simp: dispatcher_ok_def activate_def selectable_def MaxConcurrentRuns_def)
qed

lemma distinct_projects:
  assumes "distinct (map qi_project is)" and "i \<in> set is" and "j \<in> set is" and "qi_project i = qi_project j"
  shows "i = j"
  using assms by (simp add: distinct_map inj_on_def)

lemma map_remove1_image:
  assumes "distinct (map f xs)" and "x \<in> set xs"
  shows "f ` set (remove1 x xs) = f ` set xs - {f x}" and "distinct (map f (remove1 x xs))"
proof -
  have d: "distinct xs" and inj: "inj_on f (set xs)" using assms(1) by (auto simp: distinct_map)
  then show "f ` set (remove1 x xs) = f ` set xs - {f x}"
    using assms(2) by (auto simp: inj_on_def)
  show "distinct (map f (remove1 x xs))"
    using d inj by (auto simp: distinct_map intro: inj_on_diff)
qed

lemma ok_finish_locked:
  assumes ok: "dispatcher_ok d" and i: "i \<in> set (d_running d)"
  shows "dispatcher_ok (finish_locked i d)"
proof -
  have st: "d_started d" using ok i by (auto simp: dispatcher_ok_def split: if_splits)
  have d: "distinct (map qi_run (d_running d))" "distinct (map qi_project (d_running d))"
    using ok st by (simp_all add: dispatcher_ok_def)
  show ?thesis
    using ok st map_remove1_image [OF d(1) i] map_remove1_image [OF d(2) i]
      length_remove1 [of i "d_running d"]
    by (auto simp: dispatcher_ok_def finish_locked_def MaxConcurrentRuns_def)
qed

lemma ok_cancel_locked:
  assumes ok: "dispatcher_ok d" shows "dispatcher_ok (cancel_locked rid d)"
proof (cases "d_started d \<and> rid \<in> d_queued d")
  case True
  then have d: "distinct (map qi_run (d_queue d))" and q: "rid \<in> qi_run ` set (d_queue d)"
    using ok by (simp_all add: dispatcher_ok_def)
  then obtain i rest where tf: "take_first (\<lambda>i. qi_run i = rid) (d_queue d) = Some (i, rest)"
    using take_first_None [of "\<lambda>i. qi_run i = rid" "d_queue d"]
    by (cases "take_first (\<lambda>i. qi_run i = rid) (d_queue d)") auto
  note keys = take_first_keys [OF tf d]
  have img: "qi_run ` set rest = qi_run ` set (d_queue d) - {rid}" and dist: "distinct (map qi_run rest)"
    using keys(2-4) by simp_all
  show ?thesis
    using ok True tf img dist by (auto simp: cancel_locked_def dispatcher_ok_def Let_def)
next
  case False
  then have "cancel_locked rid d = (if rid \<in> d_cancels d then d\<lparr>d_stopping := insert rid (d_stopping d)\<rparr> else d)
      \<or> \<not> d_started d"
    by (auto simp: cancel_locked_def)
  moreover have "dispatcher_ok (cancel_locked rid d)" if "\<not> d_started d"
    using that ok by (auto simp: cancel_locked_def dispatcher_ok_def Let_def)
  moreover have "dispatcher_ok (d\<lparr>d_stopping := x\<rparr>)" for x using ok by (simp add: dispatcher_ok_def)
  ultimately show ?thesis using ok by (auto split: if_splits)
qed

lemma ok_shutdown: "dispatcher_ok d \<Longrightarrow> dispatcher_ok (shutdown d)"
  by (simp add: shutdown_def dispatcher_ok_def)

lemma ok_irrelevant [simp]:
  "dispatcher_ok (d\<lparr>d_wake := w\<rparr>) = dispatcher_ok d"
  "dispatcher_ok (d\<lparr>d_finishing := f\<rparr>) = dispatcher_ok d"
  "dispatcher_ok (d\<lparr>d_cancelled := c\<rparr>) = dispatcher_ok d"
  "dispatcher_ok (d\<lparr>d_stopping := r\<rparr>) = dispatcher_ok d"
  by (simp_all add: dispatcher_ok_def)

lemma ok_loop: "dispatcher_ok d \<Longrightarrow> d_loop d \<noteq> LoopExited \<Longrightarrow> dispatcher_ok (d\<lparr>d_loop := p\<rparr>)"
  by (auto simp: dispatcher_ok_def split: if_splits)

lemma ok_awake: "dispatcher_ok d \<Longrightarrow> d_loop d \<noteq> LoopExited \<Longrightarrow> d_started d"
  by (auto simp: dispatcher_ok_def split: if_splits)

lemma dispatcher_ok_step:
  assumes "dispatch_step db_step gate (d, s) (e, t)" and ok: "dispatcher_ok d"
  shows "dispatcher_ok e"
  using assms(1)
proof (cases rule: dispatch_step.cases)
  case wake
  then show ?thesis using ok_loop [of "d\<lparr>d_wake := False\<rparr>" LoopDraining] ok by simp
next
  case (started i)
  then show ?thesis using ok_start_one [OF ok _ started(3)] ok_awake [OF ok] by simp
next
  case parent
  then show ?thesis using ok by simp
qed (use ok in \<open>simp_all add: ok_loop ok_enqueue ok_finish_locked ok_cancel_locked ok_shutdown ok_start\<close>)

end
