(* ===== verification/Dispatch_Properties.thy ===== *)
theory Dispatch_Properties
  imports Dispatcher Store_Samples
begin

section \<open>Properties of the dispatcher\<close>

text \<open>
  What the queue guarantees whatever the interleaving: mutual exclusion by project, the limit on
  concurrent runs and the project FIFO at every start; that draining the queue is one greedy pass
  over it; and when the loop is awake whenever there is something to start.
\<close>

subsection \<open>The gate the store provides\<close>

text \<open>
  What the dispatcher needs of its gate: an open gate means that no run that goes before is
  unresolved. \<open>before s x y\<close> says that \<open>x\<close> goes before \<open>y\<close>.
\<close>

locale admission_gate =
  fixes gate :: "db \<Rightarrow> string \<Rightarrow> store_error + bool" and before :: "db \<Rightarrow> string \<Rightarrow> string \<Rightarrow> bool"
  assumes open_gate: "gate s y = Inr False \<Longrightarrow> \<not> before s x y"
begin

lemma start_one_first:
  "start_one (gate s) d = Some (i, e) \<Longrightarrow>
     i \<in> set (d_queue d) \<and> qi_project i \<notin> d_projects d \<and> gate s (qi_run i) = Inr False \<and>
     \<not> before s x (qi_run i)"
  by (auto simp: start_one_def take_first_Some selectable_def dest: open_gate split: if_splits option.splits)

lemma started_by_step:
  assumes "dispatch_step db_step gate (d, s) (e, t)" and "i \<in> set (d_running e)" and "i \<notin> set (d_running d)"
  shows "s = t \<and> start_one (gate s) d = Some (i, e)"
  using assms(1)
proof (cases rule: dispatch_step.cases)
  case (started j)
  then show ?thesis using assms(2,3) by (auto simp: start_one_def activate_def split: if_splits option.splits)
next
  case (executed j)
  then show ?thesis using assms(2,3) by (auto simp: finish_locked_def dest: notin_set_remove1)
qed (use assms(2,3) in \<open>auto simp: start_dispatcher_def enqueue_def cancel_locked_def shutdown_def
    signal_locked_signal Let_def reload_queued_def split: if_splits\<close>)

end

definition earlier_run :: "db \<Rightarrow> string \<Rightarrow> string \<Rightarrow> bool" where
  "earlier_run s x y \<longleftrightarrow>
     (\<exists>q \<in> set (runs s). r_id q = x \<and> (\<exists>r. find_run s y = Some r \<and> earlier_unresolved r q))"

interpretation fifo: admission_gate has_earlier_unresolved_run earlier_run
  by unfold_locales (auto simp: earlier_run_def has_earlier_unresolved_run_iff)

subsection \<open>Draining is one greedy pass\<close>

fun admit ::
    "(string \<Rightarrow> bool) \<Rightarrow> nat \<Rightarrow> string set \<Rightarrow> queue_item list \<Rightarrow> queue_item list \<times> queue_item list" where
  "admit free room ps [] = ([], [])"
| "admit free room ps (i # is) =
     (if 0 < room \<and> qi_project i \<notin> ps \<and> free (qi_run i)
      then case admit free (room - 1) (insert (qi_project i) ps) is of (a, r) \<Rightarrow> (i # a, r)
      else case admit free room ps is of (a, r) \<Rightarrow> (a, i # r))"

lemma admit_skip:
  "\<forall>u \<in> set us. qi_project u \<in> ps \<or> \<not> free (qi_run u) \<Longrightarrow>
     admit free room ps (us @ xs) = (case admit free room ps xs of (a, r) \<Rightarrow> (a, us @ r))"
  by (induction us) (auto split: prod.split)

lemma admit_full: "admit free 0 ps xs = ([], xs)"
  by (induction xs) auto

lemma admit_take_first:
  assumes "take_first (\<lambda>i. qi_project i \<notin> ps \<and> free (qi_run i)) xs = Some (i, ys)" and "0 < room"
  shows "admit free room ps xs =
    (case admit free (room - 1) (insert (qi_project i) ps) ys of (a, r) \<Rightarrow> (i # a, r))"
proof -
  obtain us vs where q: "xs = us @ i # vs" "ys = us @ vs" "qi_project i \<notin> ps" "free (qi_run i)"
    and no: "\<forall>u \<in> set us. qi_project u \<in> ps \<or> \<not> free (qi_run u)"
    using assms(1) by (auto simp: take_first_Some)
  have more: "\<forall>u \<in> set us. qi_project u \<in> insert (qi_project i) ps \<or> \<not> free (qi_run u)"
    using no by auto
  show ?thesis
    unfolding q(1,2) admit_skip [OF no] admit_skip [OF more] using q(3,4) assms(2)
    by (simp split: prod.split)
qed

lemma start_one_None:
  "start_one b d = None \<longleftrightarrow> d_closed d \<or> 2 \<le> card (d_cancels d) \<or> (\<forall>i \<in> set (d_queue d). \<not> selectable b d i)"
  unfolding start_one_def MaxConcurrentRuns_def take_first_None [symmetric] by (auto split: option.split)

lemma drain_greedy:
  assumes "dispatcher_ok d" and "d_started d" and "\<not> d_closed d"
  shows "d_running (drain b d) = d_running d @
      fst (admit (\<lambda>r. b r = Inr False) (2 - card (d_cancels d)) (d_projects d) (d_queue d)) \<and>
    d_queue (drain b d) = snd (admit (\<lambda>r. b r = Inr False) (2 - card (d_cancels d)) (d_projects d) (d_queue d)) \<and>
    dispatcher_ok (drain b d) \<and> start_one b (drain b d) = None \<and> d_closed (drain b d) = d_closed d"
  using assms
proof (induction b d rule: drain.induct)
  case (1 b d)
  let ?free = "\<lambda>r. b r = Inr False"
  show ?case
  proof (cases "start_one b d")
    case None
    then have "admit ?free (2 - card (d_cancels d)) (d_projects d) (d_queue d) = ([], d_queue d)"
      using admit_skip [of "d_queue d" "d_projects d" ?free "2 - card (d_cancels d)" "[]"] 1(4)
      by (auto simp: start_one_None selectable_def admit_full)
    then show ?thesis using None 1(2-4) by (simp add: drain.simps)
  next
    case (Some x)
    then obtain i e where one: "start_one b d = Some (i, e)" by (cases x) auto
    then obtain rest where tf: "take_first (selectable b d) (d_queue d) = Some (i, rest)"
      and e: "e = activate i rest d" and room: "card (d_cancels d) < 2"
      by (auto simp: start_one_def MaxConcurrentRuns_def split: if_splits option.splits)
    have ok: "dispatcher_ok e" by (rule ok_start_one [OF 1(2,3) one])
    have st: "d_started e" "\<not> d_closed e" using e 1(3,4) by (simp_all add: activate_def)
    have "length (d_running e) = Suc (length (d_running d))" by (simp add: e activate_def)
    then have card: "card (d_cancels e) = Suc (card (d_cancels d))"
      using ok st(1) 1(2,3) by (metis dispatcher_ok_def distinct_card length_map list.set_map)
    have "admit ?free (2 - card (d_cancels d)) (d_projects d) (d_queue d) =
        (case admit ?free (2 - card (d_cancels e)) (d_projects e) (d_queue e) of (a, r) \<Rightarrow> (i # a, r))"
      using admit_take_first [of "d_projects d" ?free "d_queue d" i rest "2 - card (d_cancels d)"] tf room card
      by (simp add: e activate_def selectable_def [abs_def])
    moreover have "drain b d = drain b e" using one by (subst drain.simps) simp
    moreover have "d_running e = d_running d @ [i]" by (simp add: e activate_def)
    moreover note 1(1) [OF one refl ok st]
    ultimately show ?thesis using 1(4) st(2) by (simp split: prod.split)
  qed
qed

subsection \<open>Exclusion and order\<close>

lemma reachable_ok:
  assumes "(dispatch_step db_step gate)\<^sup>*\<^sup>* (d, s) (e, t)" and "dispatcher_ok d"
  shows "dispatcher_ok e"
proof -
  have "dispatcher_ok (fst c')" if "(dispatch_step db_step gate)\<^sup>*\<^sup>* c c'" "dispatcher_ok (fst c)" for c c'
    using that
  proof (induction rule: rtranclp_induct)
    case (step x y)
    then show ?case using dispatcher_ok_step [of db_step gate "fst x" "snd x" "fst y" "snd y"] by simp
  qed
  from this [OF assms(1)] assms(2) show ?thesis by simp
qed


text \<open>Two queued runs of one project, the earlier one interrupted and waiting for its user.\<close>

definition queue_store :: db where
  "queue_store = sample_store
     \<lparr>runs := [sample_run ''q1'' RunInterrupted 4 ''2026-01-02T03:04:01Z'',
               sample_run ''q2'' RunQueued 0 ''2026-01-02T03:04:02Z''],
      attempts := [], approvals := []\<rparr>"

definition item2 :: queue_item where
  "item2 = \<lparr>qi_run = ''q2'', qi_project = ''p'', qi_session = ''c''\<rparr>"

text \<open>The dispatcher after it has looked at the queue and found the second run held back.\<close>

definition held_back :: dispatcher where
  "held_back =
     \<lparr>d_started = True, d_cancelled = False, d_wake = False, d_queue = [item2], d_queued = {''q2''},
      d_projects = {}, d_sessions = {}, d_cancels = {}, d_closed = False, d_running = [],
      d_finishing = [], d_stopping = {}, d_loop = LoopWaiting\<rparr>"

lemmas queue_rows = queue_store_def sample_store_def empty_store_def sample_run_def item2_def held_back_def

lemma queue_gate:
  "has_earlier_unresolved_run queue_store ''q2'' = Inr True"
  by (simp add: has_earlier_unresolved_run_def earlier_unresolved_run_def query_defs queue_rows
      earlier_unresolved_def unresolved_def)

lemma held_back_reachable:
  "(dispatch_step store_step has_earlier_unresolved_run)\<^sup>*\<^sup>* (new_dispatcher, queue_store) (held_back, queue_store)"
proof -
  let ?R = "dispatch_step store_step has_earlier_unresolved_run"
  let ?d1 = "held_back\<lparr>d_wake := True\<rparr>" and ?d2 = "held_back\<lparr>d_loop := LoopDraining\<rparr>"
  have "start_dispatcher queue_store new_dispatcher = Some ?d1"
    by (simp add: start_dispatcher_def new_dispatcher_def reload_queued_def list_runs_by_status_def
        enqueue_def signal_def signal_locked_def item_of_def queue_rows)
  then have a: "?R (new_dispatcher, queue_store) (?d1, queue_store)" by (rule dispatch_step.start)
  have b: "?R (?d1, queue_store) (?d2, queue_store)"
    using dispatch_step.wake [of ?d1 store_step has_earlier_unresolved_run queue_store]
    by (simp add: held_back_def)
  have "start_one (has_earlier_unresolved_run queue_store) ?d2 = None"
    using queue_gate by (simp add: start_one_None selectable_def held_back_def item2_def)
  then have c: "?R (?d2, queue_store) (held_back, queue_store)"
    using dispatch_step.drained [of ?d2 has_earlier_unresolved_run queue_store store_step]
    by (simp add: held_back_def)
  show ?thesis
    by (rule converse_rtranclp_into_rtranclp [OF a converse_rtranclp_into_rtranclp [OF b r_into_rtranclp [where r = ?R, OF c]]])
qed


subsection \<open>The loop is awake when there is work\<close>

text \<open>
  \<open>attentive\<close>: when the loop waits with an empty wake channel and no execution is about to
  signal, there is nothing to start.
\<close>

definition attentive :: "(db \<Rightarrow> string \<Rightarrow> store_error + bool) \<Rightarrow> dispatcher \<Rightarrow> db \<Rightarrow> bool" where
  "attentive gate d s \<longleftrightarrow>
     (d_started d \<and> d_loop d = LoopWaiting \<and> \<not> d_wake d \<and> d_finishing d = [] \<longrightarrow> start_one (gate s) d = None)"

text \<open>A change of the store that opens the gate of no queued run of an idle project.\<close>

definition opens_nothing ::
    "(db \<Rightarrow> string \<Rightarrow> store_error + bool) \<Rightarrow> dispatcher \<Rightarrow> db \<Rightarrow> db \<Rightarrow> bool" where
  "opens_nothing gate d s t \<longleftrightarrow>
     (\<forall>i \<in> set (d_queue d). gate t (qi_run i) = Inr False \<longrightarrow>
        gate s (qi_run i) = Inr False \<or> qi_project i \<in> d_projects d)"

lemma attentive_signal: "attentive gate (signal d) s"
  by (auto simp: attentive_def)

lemma opens_nothing_same [simp]: "opens_nothing gate d s s"
  by (simp add: opens_nothing_def)

lemma attentive_store: "attentive gate d s \<Longrightarrow> opens_nothing gate d s t \<Longrightarrow> attentive gate d t"
  by (auto simp: attentive_def opens_nothing_def start_one_None selectable_def)

lemma attentive_enqueue: "attentive gate d s \<Longrightarrow> attentive gate (fst (enqueue r d)) s"
  by (auto simp: attentive_def enqueue_def signal_locked_def)

lemma queue_cancel_locked: "set (d_queue (cancel_locked rid d)) \<subseteq> set (d_queue d)"
  by (auto simp: cancel_locked_def Let_def take_first_Some split: option.split)

lemma cancel_locked_fields [simp]:
  "d_started (cancel_locked rid d) = d_started d" "d_loop (cancel_locked rid d) = d_loop d"
  "d_wake (cancel_locked rid d) = d_wake d" "d_finishing (cancel_locked rid d) = d_finishing d"
  "d_closed (cancel_locked rid d) = d_closed d" "d_cancels (cancel_locked rid d) = d_cancels d"
  "d_projects (cancel_locked rid d) = d_projects d" "d_running (cancel_locked rid d) = d_running d"
  by (simp_all add: cancel_locked_def Let_def)

lemma attentive_cancel: "attentive gate d s \<Longrightarrow> attentive gate (cancel_locked rid d) s"
  using queue_cancel_locked [of rid d] by (auto simp: attentive_def start_one_None selectable_def)

lemma attentive_step:
  assumes "dispatch_step db_step gate (d, s) (e, t)" and at: "attentive gate d s"
    and "opens_nothing gate d s t"
  shows "attentive gate e t"
  using assms(1)
proof (cases rule: dispatch_step.cases)
  case store
  then show ?thesis using attentive_store [OF at assms(3)] by simp
next
  case start
  then show ?thesis by (auto simp: start_dispatcher_def attentive_signal split: if_splits)
next
  case (started i)
  then show ?thesis by (auto simp: attentive_def start_one_def activate_def split: if_splits option.splits)
next
  case drained
  then show ?thesis by (auto simp: attentive_def start_one_None selectable_def)
next
  case (queue rid r)
  then show ?thesis using at by (simp add: attentive_enqueue)
next
  case (cancel rid)
  then show ?thesis using at by (simp add: attentive_cancel)
qed (use at in \<open>auto simp: attentive_signal attentive_def finish_locked_def
    shutdown_def start_one_None selectable_def\<close>)

lemma drain_path:
  "d_loop d = LoopDraining \<Longrightarrow>
     (dispatch_step db_step gate)\<^sup>*\<^sup>* (d, s) ((drain (gate s) d)\<lparr>d_loop := LoopWaiting\<rparr>, s)"
proof (induction "gate s" d rule: drain.induct)
  case (1 d)
  show ?case
  proof (cases "start_one (gate s) d")
    case None
    then show ?thesis using dispatch_step.drained [OF 1(2), where gate = gate and db_step = db_step, OF None]
      by (subst drain.simps) (simp add: r_into_rtranclp)
  next
    case (Some x)
    then obtain i e where one: "start_one (gate s) d = Some (i, e)" by (cases x) auto
    then have "d_loop e = LoopDraining"
      using 1(2) by (auto simp: start_one_def activate_def split: if_splits option.splits)
    moreover have "drain (gate s) d = drain (gate s) e" using one by (subst drain.simps) simp
    ultimately show ?thesis
      using 1(1) [OF one refl] dispatch_step.started [OF 1(2), where gate = gate and db_step = db_step, OF one]
      by (auto intro: converse_rtranclp_into_rtranclp)
  qed
qed

lemma loop_settles:
  assumes at: "attentive gate d s" and ok: "dispatcher_ok d" and live: "d_loop d \<noteq> LoopExited"
    and calm: "d_wake d \<or> d_finishing d = []" and op: "\<not> d_closed d"
  shows "\<exists>e. (dispatch_step db_step gate)\<^sup>*\<^sup>* (d, s) (e, s) \<and> d_loop e = LoopWaiting \<and>
    start_one (gate s) e = None \<and>
    d_running e = d_running d @ fst (admit (\<lambda>r. gate s r = Inr False) (2 - card (d_cancels d)) (d_projects d) (d_queue d)) \<and>
    d_queue e = snd (admit (\<lambda>r. gate s r = Inr False) (2 - card (d_cancels d)) (d_projects d) (d_queue d))"
proof -
  have st: "d_started d" by (rule ok_awake [OF ok live])
  have settle: "\<exists>e. (dispatch_step db_step gate)\<^sup>*\<^sup>* (f, s) (e, s) \<and> d_loop e = LoopWaiting \<and>
      start_one (gate s) e = None \<and>
      d_running e = d_running f @ fst (admit (\<lambda>r. gate s r = Inr False) (2 - card (d_cancels f)) (d_projects f) (d_queue f)) \<and>
      d_queue e = snd (admit (\<lambda>r. gate s r = Inr False) (2 - card (d_cancels f)) (d_projects f) (d_queue f))"
    if f: "d_loop f = LoopDraining" "dispatcher_ok f" "d_started f" "\<not> d_closed f" for f
    using drain_path [where db_step = db_step and gate = gate and s = s, OF f(1)] drain_greedy [OF f(2-4), of "gate s"]
    by (intro exI conjI) (auto simp: start_one_None selectable_def)
  show ?thesis
  proof (cases "d_loop d = LoopDraining")
    case True
    show ?thesis by (rule settle [OF True ok st op])
  next
    case False
    then have w: "d_loop d = LoopWaiting" using live by (cases "d_loop d") auto
    show ?thesis
    proof (cases "d_wake d")
      case True
      let ?f = "d\<lparr>d_wake := False, d_loop := LoopDraining\<rparr>"
      have "dispatcher_ok ?f" using ok_loop [of "d\<lparr>d_wake := False\<rparr>" LoopDraining] ok live by simp
      then have "\<exists>e. (dispatch_step db_step gate)\<^sup>*\<^sup>* (?f, s) (e, s) \<and> d_loop e = LoopWaiting \<and>
          start_one (gate s) e = None \<and>
          d_running e = d_running d @ fst (admit (\<lambda>r. gate s r = Inr False) (2 - card (d_cancels d)) (d_projects d) (d_queue d)) \<and>
          d_queue e = snd (admit (\<lambda>r. gate s r = Inr False) (2 - card (d_cancels d)) (d_projects d) (d_queue d))"
        using settle [of ?f] st op by simp
      then show ?thesis
        using dispatch_step.wake [OF w True, of db_step gate s] by (meson converse_rtranclp_into_rtranclp)
    next
      case False
      then have none: "start_one (gate s) d = None" using at st w calm by (simp add: attentive_def)
      then have "drain (gate s) d = d" by (subst drain.simps) simp
      then have "d_running d = d_running d @ fst (admit (\<lambda>r. gate s r = Inr False) (2 - card (d_cancels d)) (d_projects d) (d_queue d))"
        and "d_queue d = snd (admit (\<lambda>r. gate s r = Inr False) (2 - card (d_cancels d)) (d_projects d) (d_queue d))"
        using drain_greedy [OF ok st op, of "gate s"] by simp_all
      then show ?thesis using none w by blast
    qed
  qed
qed


lemma held_back_attentive: "attentive has_earlier_unresolved_run held_back queue_store"
  using queue_gate by (simp add: attentive_def start_one_None selectable_def held_back_def item2_def)

lemma held_back_ok: "dispatcher_ok held_back"
  by (rule reachable_ok [OF held_back_reachable dispatcher_ok_new])

text \<open>The same queue once the run in front has been cancelled.\<close>

definition cleared_store :: "gotime \<Rightarrow> string \<Rightarrow> event_row list \<Rightarrow> db" where
  "cleared_store now msg ev = queue_store
     \<lparr>runs := [set_status RunCancelled msg now (sample_run ''q1'' RunInterrupted 4 ''2026-01-02T03:04:01Z''),
               sample_run ''q2'' RunQueued 0 ''2026-01-02T03:04:02Z''], events := ev\<rparr>"

lemma cleared_gate: "has_earlier_unresolved_run (cleared_store now msg ev) ''q2'' = Inr False"
  by (simp add: cleared_store_def has_earlier_unresolved_run_def earlier_unresolved_run_def query_defs queue_rows
      set_status_def earlier_unresolved_def unresolved_def)

lemma queue_discard:
  "\<exists>ev r. discard_run ''q1'' now (held_back, queue_store) =
     ((signal held_back, cleared_store now ''discarded by user'' ev), Inr r)"
  by (simp add: discard_run_def transition_run_def cleared_store_def queue_rows query_defs status_defs
      retire_defs append_event_def Let_def)

lemma queue_cancel:
  "\<exists>ev. cancel_run ''q1'' now (held_back, queue_store) =
     ((held_back, cleared_store now ''cancelled by user'' ev),
      Inr (set_status RunCancelled ''cancelled by user'' now (sample_run ''q1'' RunInterrupted 4 ''2026-01-02T03:04:01Z'')))"
  by (simp add: cancel_run_def cancel_locked_def quiesce_defs cleared_store_def queue_rows query_defs status_defs
      append_event_def Let_def)


text \<open>
  A cancellation that loses the wake-up. The run in front of a queued one is interrupted, the
  loop waits. Cancelling it opens the way for the queued run, and the dispatcher could start it at
  once, but the cancellation sends no signal: the loop waits on an empty channel, nothing runs that
  would signal later, and the periodic reload leaves the dispatcher as it is. Discarding the same
  run does wake the loop.
\<close>

theorem cancel_loses_wakeup:
  "\<exists>t r. cancel_run ''q1'' now (held_back, queue_store) = ((held_back, t), Inr r) \<and>
     r_status r = RunCancelled \<and> start_one (has_earlier_unresolved_run t) held_back \<noteq> None \<and>
     d_loop held_back = LoopWaiting \<and> \<not> d_wake held_back \<and> d_running held_back = [] \<and>
     d_finishing held_back = [] \<and> reload_queued t held_back = held_back \<and>
     (\<exists>e u q. discard_run ''q1'' now (held_back, queue_store) = ((e, u), Inr q) \<and> d_wake e)"
proof -
  obtain ev where c: "cancel_run ''q1'' now (held_back, queue_store) =
     ((held_back, cleared_store now ''cancelled by user'' ev),
      Inr (set_status RunCancelled ''cancelled by user'' now (sample_run ''q1'' RunInterrupted 4 ''2026-01-02T03:04:01Z'')))"
    using queue_cancel by blast
  obtain ed q where dis: "discard_run ''q1'' now (held_back, queue_store) =
     ((signal held_back, cleared_store now ''discarded by user'' ed), Inr q)"
    using queue_discard [of now] by blast
  show ?thesis
  proof (intro exI conjI)
    show "start_one (has_earlier_unresolved_run (cleared_store now ''cancelled by user'' ev)) held_back \<noteq> None"
      by (simp add: start_one_None selectable_def cleared_gate held_back_def item2_def)
    show "reload_queued (cleared_store now ''cancelled by user'' ev) held_back = held_back"
      by (simp add: reload_queued_def list_runs_by_status_def cleared_store_def enqueue_def queue_rows set_status_def)
  qed (rule c dis | simp add: held_back_def set_status_def)+
qed

end
