(* ===== verification/Cas_Store.thy ===== *)
theory Cas_Store
  imports Go_Strings
begin

section \<open>The content-addressed store\<close>

text \<open>
  \<^verbatim>\<open>src/internal/cas/store.go\<close>: a directory \<open>sha256\<close> of two-character prefixes that hold one file
  per object, named by its SHA-256, and a directory \<open>tmp\<close> of unfinished files. Paths are the pair
  of prefix and name. SHA-256 is an argument \<open>sha\<close>; a system call that fails (disk full, no
  permission) is a \<open>fault\<close> argument of the operation it can interrupt, and the order in which a
  directory is enumerated is the order of its list.
\<close>

subsection \<open>State\<close>

text \<open>A directory entry: a regular file with its bytes, or anything else (directory, link, device).\<close>

datatype cas_node = Regular string | Irregular

datatype cas_prefix = PrefixDir "(string \<times> cas_node) list" | PrefixOther

record cas_store =
  cas_read_only :: bool
  cas_prefixes :: "(string \<times> cas_prefix) list"
  cas_tmp :: "(string \<times> cas_node) list"

record cas_receipt =
  k_hash :: string
  k_size :: int

datatype cas_error = CasReadOnly | CasIO string | CasCollision string | CasInvalidHash | CasMissing
  | CasIrregular | CasMismatch | CasUnexpected string | CasRegistered string

definition valid_hash :: "string \<Rightarrow> bool" where
  "valid_hash h \<longleftrightarrow> length h = 64 \<and> list_all is_lower_hex h"

definition valid_prefix :: "string \<Rightarrow> bool" where
  "valid_prefix p \<longleftrightarrow> length p = 2 \<and> list_all is_lower_hex p"

fun dir_entry :: "(string \<times> 'a) list \<Rightarrow> string \<Rightarrow> 'a option" where
  "dir_entry [] n = None"
| "dir_entry ((m, x) # es) n = (if m = n then Some x else dir_entry es n)"

definition cas_files :: "cas_store \<Rightarrow> string \<Rightarrow> (string \<times> cas_node) list" where
  "cas_files c p = (case dir_entry (cas_prefixes c) p of Some (PrefixDir fs) \<Rightarrow> fs | _ \<Rightarrow> [])"

definition cas_lookup :: "cas_store \<Rightarrow> string \<Rightarrow> cas_node option" where
  "cas_lookup c h = dir_entry (cas_files c (take 2 h)) h"

text \<open>\<^verbatim>\<open>MkdirAll\<close> of a prefix: it fails on a name that is not a directory.\<close>

definition mkdir_prefix :: "string \<Rightarrow> (string \<times> cas_prefix) list \<Rightarrow> (string \<times> cas_prefix) list option" where
  "mkdir_prefix p ps =
     (case dir_entry ps p of
        None \<Rightarrow> Some (ps @ [(p, PrefixDir [])])
      | Some (PrefixDir fs) \<Rightarrow> Some ps
      | Some PrefixOther \<Rightarrow> None)"

fun add_file :: "string \<Rightarrow> string \<Rightarrow> cas_node \<Rightarrow> (string \<times> cas_prefix) list \<Rightarrow> (string \<times> cas_prefix) list" where
  "add_file p n x [] = []"
| "add_file p n x ((q, d) # ps) =
     (if q = p then (q, case d of PrefixDir fs \<Rightarrow> PrefixDir (fs @ [(n, x)]) | PrefixOther \<Rightarrow> PrefixOther) # ps
      else (q, d) # add_file p n x ps)"

subsection \<open>Writing\<close>

text \<open>
  \<^verbatim>\<open>PutReader\<close> on the bytes it reads. A fault before the final move leaves no trace: the deferred
  removal deletes the temporary file. \<^verbatim>\<open>os.Stat\<close> follows an existing entry that is not a regular
  file to its size, which never matters here: an irregular entry counts as a collision.
\<close>

definition cas_put ::
    "(string \<Rightarrow> string) \<Rightarrow> string option \<Rightarrow> string \<Rightarrow> cas_store \<Rightarrow> (cas_store, cas_error, cas_receipt) outcome" where
  "cas_put sha fault data c =
     (if cas_read_only c then fail c CasReadOnly
      else case fault of Some m \<Rightarrow> fail c (CasIO m)
      | None \<Rightarrow>
        let h = sha data; p = take 2 h; receipt = \<lparr>k_hash = h, k_size = int (length data)\<rparr> in
        case mkdir_prefix p (cas_prefixes c) of
          None \<Rightarrow> fail c (CasIO ''mkdir'')
        | Some ps \<Rightarrow>
            let c1 = c\<lparr>cas_prefixes := ps\<rparr> in
            (case cas_lookup c1 h of
               Some (Regular old) \<Rightarrow>
                 if length old \<noteq> length data then fail c1 (CasCollision h) else commit c1 receipt
             | Some Irregular \<Rightarrow> fail c1 (CasCollision h)
             | None \<Rightarrow> commit (c1\<lparr>cas_prefixes := add_file p h (Regular data) ps\<rparr>) receipt))"

subsection \<open>Reading\<close>

definition cas_path :: "string \<Rightarrow> cas_store \<Rightarrow> cas_error + string" where
  "cas_path h c =
     (if \<not> valid_hash h then Inl CasInvalidHash
      else case cas_lookup c h of
        None \<Rightarrow> Inl CasMissing
      | Some Irregular \<Rightarrow> Inl CasIrregular
      | Some (Regular d) \<Rightarrow> Inr d)"

definition cas_read_verified :: "(string \<Rightarrow> string) \<Rightarrow> string option \<Rightarrow> string \<Rightarrow> cas_store \<Rightarrow> cas_error + string" where
  "cas_read_verified sha fault h c =
     (case cas_path h c of
        Inl e \<Rightarrow> Inl e
      | Inr d \<Rightarrow>
          (case fault of
             Some m \<Rightarrow> Inl (CasIO m)
           | None \<Rightarrow> if sha d \<noteq> h then Inl CasMismatch else Inr d))"

subsection \<open>Deleting and reconciling\<close>

definition remove_object :: "string \<Rightarrow> cas_store \<Rightarrow> cas_store" where
  "remove_object h c =
     c\<lparr>cas_prefixes := map (\<lambda>(p, d).
         (p, case d of
               PrefixDir fs \<Rightarrow> PrefixDir (if p = take 2 h then filter (\<lambda>(n, x). n \<noteq> h) fs else fs)
             | PrefixOther \<Rightarrow> PrefixOther)) (cas_prefixes c)\<rparr>"

definition cas_delete :: "string \<Rightarrow> cas_store \<Rightarrow> (cas_store, cas_error, unit) outcome" where
  "cas_delete h c =
     (if cas_read_only c then fail c CasReadOnly
      else case cas_path h c of
        Inl CasMissing \<Rightarrow> commit c ()
      | Inl e \<Rightarrow> fail c e
      | Inr d \<Rightarrow> commit (remove_object h c) ())"

text \<open>The enumeration: the objects that are not registered, or the first entry that has no business there.\<close>

fun stale_files :: "string \<Rightarrow> string set \<Rightarrow> (string \<times> cas_node) list \<Rightarrow> cas_error + string list" where
  "stale_files p registered [] = Inr []"
| "stale_files p registered ((n, x) # fs) =
     (if \<not> valid_hash n \<or> take 2 n \<noteq> p \<or> x = Irregular then Inl (CasUnexpected n)
      else case stale_files p registered fs of
        Inl e \<Rightarrow> Inl e
      | Inr hs \<Rightarrow> Inr (if n \<in> registered then hs else n # hs))"

fun stale_objects :: "string set \<Rightarrow> (string \<times> cas_prefix) list \<Rightarrow> cas_error + string list" where
  "stale_objects registered [] = Inr []"
| "stale_objects registered ((p, d) # ps) =
     (if \<not> valid_prefix p then Inl (CasUnexpected p)
      else case d of
        PrefixOther \<Rightarrow> Inl (CasUnexpected p)
      | PrefixDir fs \<Rightarrow>
         (case stale_files p registered fs of
            Inl e \<Rightarrow> Inl e
          | Inr hs \<Rightarrow> (case stale_objects registered ps of Inl e \<Rightarrow> Inl e | Inr gs \<Rightarrow> Inr (hs @ gs))))"

fun stale_temporaries :: "(string \<times> cas_node) list \<Rightarrow> cas_error + string list" where
  "stale_temporaries [] = Inr []"
| "stale_temporaries ((n, x) # fs) =
     (if x = Irregular then Inl (CasUnexpected n)
      else case stale_temporaries fs of Inl e \<Rightarrow> Inl e | Inr ns \<Rightarrow> Inr (n # ns))"

text \<open>
  The removals run in parallel on distinct paths, so their order does not matter; every outcome
  is counted.
\<close>

definition cas_reconcile ::
    "string set \<Rightarrow> cas_store \<Rightarrow> (cas_store, cas_error, nat \<times> nat) outcome" where
  "cas_reconcile registered c =
     (if cas_read_only c then fail c CasReadOnly
      else if \<not> (\<forall>h \<in> registered. valid_hash h) then fail c (CasRegistered ''registered CAS hash is invalid'')
      else case stale_objects registered (cas_prefixes c) of
        Inl e \<Rightarrow> fail c e
      | Inr hs \<Rightarrow>
         (case stale_temporaries (cas_tmp c) of
            Inl e \<Rightarrow> fail c e
          | Inr ns \<Rightarrow>
              commit (fold remove_object hs (c\<lparr>cas_tmp := filter (\<lambda>(n, x). n \<notin> set ns) (cas_tmp c)\<rparr>))
                (length hs, length ns)))"

subsection \<open>Lookups after a write or a removal\<close>

lemma dir_entry_append:
  "dir_entry (es @ fs) n = (case dir_entry es n of None \<Rightarrow> dir_entry fs n | Some x \<Rightarrow> Some x)"
  by (induction es) auto

lemma dir_entry_in: "dir_entry es n = Some x \<Longrightarrow> (n, x) \<in> set es"
  by (induction es) (auto split: if_splits)

lemma dir_entry_filter: "dir_entry (filter (\<lambda>(n, x). n \<noteq> h) es) g = (if g = h then None else dir_entry es g)"
  by (induction es) auto

lemma dir_entry_add_file:
  "dir_entry ps p = Some (PrefixDir fs) \<Longrightarrow>
     dir_entry (add_file p n x ps) q = (if q = p then Some (PrefixDir (fs @ [(n, x)])) else dir_entry ps q)"
  by (induction ps) (auto split: if_splits)

lemma mkdir_prefix_entry:
  "mkdir_prefix p ps = Some qs \<Longrightarrow>
     (\<exists>fs. dir_entry qs p = Some (PrefixDir fs) \<and> (dir_entry ps p = None \<and> fs = [] \<or> dir_entry ps p = Some (PrefixDir fs))) \<and>
     (\<forall>q. q \<noteq> p \<longrightarrow> dir_entry qs q = dir_entry ps q)"
  by (auto simp: mkdir_prefix_def dir_entry_append split: option.splits cas_prefix.splits)

lemma mkdir_prefix_lookup:
  assumes "mkdir_prefix p (cas_prefixes c) = Some qs"
  shows "cas_lookup (c\<lparr>cas_prefixes := qs\<rparr>) h = cas_lookup c h"
  using mkdir_prefix_entry [OF assms] by (cases "take 2 h = p") (auto simp: cas_lookup_def cas_files_def)

lemma add_file_lookup:
  assumes "dir_entry ps (take 2 h) = Some (PrefixDir fs)" and "cas_lookup (c\<lparr>cas_prefixes := ps\<rparr>) h = None"
  shows "cas_lookup (c\<lparr>cas_prefixes := add_file (take 2 h) h x ps\<rparr>) g =
    (if g = h then Some x else cas_lookup (c\<lparr>cas_prefixes := ps\<rparr>) g)"
  using assms by (auto simp: cas_lookup_def cas_files_def dir_entry_add_file dir_entry_append split: option.split)

lemma dir_entry_map:
  "dir_entry (map (\<lambda>(p, d). (p, f p d)) es) n = map_option (f n) (dir_entry es n)"
  by (induction es) auto

lemma remove_object_lookup: "cas_lookup (remove_object h c) g = (if g = h then None else cas_lookup c g)"
  by (auto simp: cas_lookup_def cas_files_def remove_object_def dir_entry_map dir_entry_filter
      split: option.split cas_prefix.split)

lemma fold_remove_lookup:
  "cas_lookup (fold remove_object hs c) g = (if g \<in> set hs then None else cas_lookup c g)"
  by (induction hs arbitrary: c) (auto simp: remove_object_lookup)

lemma fold_remove_tmp: "cas_tmp (fold remove_object hs c) = cas_tmp c"
  by (induction hs arbitrary: c) (auto simp: remove_object_def)

lemma stale_files_in: "stale_files p reg fs = Inr hs \<Longrightarrow> set hs = fst ` set fs - reg"
proof (induction fs arbitrary: hs)
  case (Cons a fs)
  obtain n x where a: "a = (n, x)" by (cases a)
  from Cons.prems obtain ks where k: "stale_files p reg fs = Inr ks" "hs = (if n \<in> reg then ks else n # ks)"
    by (auto simp: a split: if_splits sum.splits)
  have "fst ` set (a # fs) = insert n (fst ` set fs)" by (simp add: a)
  then show ?case using Cons.IH [OF k(1)] k(2) by auto
qed simp

lemma stale_objects_in:
  "stale_objects reg ps = Inr hs \<Longrightarrow>
     set hs = (\<Union>(p, d) \<in> set ps. case d of PrefixDir fs \<Rightarrow> fst ` set fs | PrefixOther \<Rightarrow> {}) - reg"
proof (induction ps arbitrary: hs)
  case (Cons a ps)
  obtain p d where a: "a = (p, d)" by (cases a)
  from Cons.prems obtain fs gs ks where d: "d = PrefixDir fs" and f: "stale_files p reg fs = Inr gs"
    and o: "stale_objects reg ps = Inr ks" and hs: "hs = gs @ ks"
    by (auto simp: a split: if_splits cas_prefix.splits sum.splits)
  show ?case using stale_files_in [OF f] Cons.IH [OF o] by (auto simp: a d hs)
qed simp

lemma stale_temporaries_all: "stale_temporaries fs = Inr ns \<Longrightarrow> ns = map fst fs"
  by (induction fs arbitrary: ns) (auto split: if_splits sum.splits)

lemma cas_files_in:
  "x \<in> set (cas_files c p) \<Longrightarrow> \<exists>fs. dir_entry (cas_prefixes c) p = Some (PrefixDir fs) \<and> x \<in> set fs"
  by (cases "dir_entry (cas_prefixes c) p") (auto simp: cas_files_def split: cas_prefix.splits)

lemma lookup_enumerated:
  assumes "cas_lookup c h \<noteq> None"
  shows "h \<in> (\<Union>(p, d) \<in> set (cas_prefixes c). case d of PrefixDir fs \<Rightarrow> fst ` set fs | PrefixOther \<Rightarrow> {})"
proof -
  obtain x where "dir_entry (cas_files c (take 2 h)) h = Some x" using assms by (auto simp: cas_lookup_def)
  then have in_files: "(h, x) \<in> set (cas_files c (take 2 h))" by (rule dir_entry_in)
  then obtain fs where "dir_entry (cas_prefixes c) (take 2 h) = Some (PrefixDir fs)" "(h, x) \<in> set fs"
    using cas_files_in by blast
  then have "(take 2 h, PrefixDir fs) \<in> set (cas_prefixes c)" "h \<in> fst ` set fs"
    by (auto dest: dir_entry_in intro: rev_image_eqI)
  then show ?thesis by (intro UN_I [of "(take 2 h, PrefixDir fs)"]) auto
qed

subsection \<open>Round trip and reconciliation\<close>

text \<open>No stored object has the hash of \<open>data\<close> with other bytes.\<close>

definition no_collision :: "(string \<Rightarrow> string) \<Rightarrow> cas_store \<Rightarrow> string \<Rightarrow> bool" where
  "no_collision sha c data \<longleftrightarrow> (\<forall>x. cas_lookup c (sha data) = Some (Regular x) \<longrightarrow> x = data)"


definition empty_cas :: cas_store where
  "empty_cas = \<lparr>cas_read_only = False, cas_prefixes = [], cas_tmp = [(''blob-1'', Regular ''x'')]\<rparr>"

definition sample_sha :: "string \<Rightarrow> string" where
  "sample_sha d = (if d = ''hello'' then replicate 64 CHR ''a'' else replicate 64 CHR ''b'')"


text \<open>
  Reconciliation at startup. It either reports an entry that has no business in the store, or an
  invalid registered hash, and removes nothing; or it removes exactly the objects without a
  registered hash and every temporary file, keeps every registered object as it is, and counts
  what it removed.
\<close>

lemma cas_reconcile_exact:
  "case cas_reconcile registered c of
     (c1, Inl e) \<Rightarrow> c1 = c
   | (c1, Inr (n, m)) \<Rightarrow>
       (\<forall>h. cas_lookup c1 h = (if h \<in> registered then cas_lookup c h else None)) \<and> cas_tmp c1 = [] \<and>
       m = length (cas_tmp c)"
proof -
  have "(\<forall>h. cas_lookup (fold remove_object hs d) h = (if h \<in> registered then cas_lookup c h else None)) \<and>
      cas_tmp (fold remove_object hs d) = [] \<and> length ns = length (cas_tmp c)"
    if o: "stale_objects registered (cas_prefixes c) = Inr hs" and t: "stale_temporaries (cas_tmp c) = Inr ns"
      and d: "d = c\<lparr>cas_tmp := filter (\<lambda>(n, x). n \<notin> set ns) (cas_tmp c)\<rparr>" for hs ns d
  proof -
    have ns: "ns = map fst (cas_tmp c)" by (rule stale_temporaries_all [OF t])
    have "cas_lookup d h = cas_lookup c h" for h by (simp add: d cas_lookup_def cas_files_def)
    moreover have "h \<in> set hs" if "h \<notin> registered" "cas_lookup c h \<noteq> None" for h
      using lookup_enumerated [OF that(2)] that(1) stale_objects_in [OF o] by simp
    moreover have "h \<notin> set hs" if "h \<in> registered" for h using that stale_objects_in [OF o] by simp
    moreover have "cas_tmp d = []" by (force simp: d ns filter_empty_conv)
    ultimately have "cas_lookup (fold remove_object hs d) h = (if h \<in> registered then cas_lookup c h else None)" for h
      by (cases "cas_lookup c h = None") (simp_all add: fold_remove_lookup)
    then show ?thesis using \<open>cas_tmp d = []\<close> by (simp add: fold_remove_tmp ns)
  qed
  then show ?thesis by (simp add: cas_reconcile_def split: sum.split)
qed

end
