(* ===== verification/Run_Guard.thy ===== *)
theory Run_Guard
  imports Store_Remediation
begin

section \<open>The engine's hold on a run\<close>

text \<open>
  \<^verbatim>\<open>src/internal/research/engine.go\<close>: how the research engine keeps its optimistic token while
  the approval router moves the run back and forth (\<open>reloadRunForWrite\<close> and the audit of the
  transition events), the writes that go through it (\<open>transition\<close>, \<open>setRunCycle\<close>) and \<open>abort\<close>,
  which records the end of a failed execution.
\<close>

subsection \<open>Errors\<close>

text \<open>
  The error chains the engine inspects with \<^verbatim>\<open>errors.Is\<close>: \<open>Wrapped\<close> is \<^verbatim>\<open>fmt.Errorf\<close> with
  \<^verbatim>\<open>%w\<close>, \<open>Joined\<close> is \<^verbatim>\<open>errors.Join\<close>.
\<close>

datatype engine_error =
  StoreFailure store_error
| RunStateChanged
| TurnInterrupted
| ContextCanceled
| DeadlineExceeded
| UnsafeResume
| UncertainResume
| NotRunnable
| MainThreadMissing
| MainThreadMismatch
| UnsupportedProfile
| Failure string
| Wrapped string engine_error
| Joined engine_error engine_error

fun error_is :: "(engine_error \<Rightarrow> bool) \<Rightarrow> engine_error \<Rightarrow> bool" where
  "error_is p (Wrapped m e) = error_is p e"
| "error_is p (Joined a b) = (error_is p a \<or> error_is p b)"
| "error_is p e = p e"

definition is_interrupted :: "engine_error \<Rightarrow> bool" where
  "is_interrupted e = error_is (\<lambda>x. x = TurnInterrupted) e"

definition is_canceled :: "engine_error \<Rightarrow> bool" where
  "is_canceled e = error_is (\<lambda>x. x = ContextCanceled) e"

fun store_error_text :: "store_error \<Rightarrow> string" where
  "store_error_text NoRows = ''sql: no rows in result set''"
| "store_error_text (Constraint t) = ''constraint failed: '' @ t"
| "store_error_text (Errorf m) = m"
| "store_error_text (RevisionConflict a b) = ''run revision conflict''"
| "store_error_text ErrApprovalNotActive = ''approval request is no longer active''"
| "store_error_text ErrResearchRemediationLimit = ''autonomous research remediation limit reached''"
| "store_error_text ErrPlanCycleNotActive = ''conversation plan cycle is not active''"
| "store_error_text ErrPlanCycleNotReady = ''conversation plan cycle is not ready''"
| "store_error_text ErrPlanCycleSuperseded = ''conversation plan cycle is not the latest cycle''"
| "store_error_text ErrMemoryRunInProgress =
     ''memory reindexing is blocked by active or recoverable research''"
| "store_error_text ErrMemoryReindexInProgress =
     ''research is blocked while memory reindexing is in progress''"
| "store_error_text ErrMemoryMutationBlocked =
     ''memory mutation is blocked by active or recoverable research or shadow reindexing''"
| "store_error_text (ErrXFOILScreeningOwner n) =
     ''XFOIL screening is restricted to the deterministic collector owner''"

fun error_text :: "engine_error \<Rightarrow> string" where
  "error_text (StoreFailure e) = store_error_text e"
| "error_text RunStateChanged = ''research run state changed concurrently''"
| "error_text TurnInterrupted = ''research turn was interrupted''"
| "error_text ContextCanceled = ''context canceled''"
| "error_text DeadlineExceeded = ''context deadline exceeded''"
| "error_text UnsafeResume = ''interrupted research run has no safe checkpoint''"
| "error_text UncertainResume = ''uncertain research run must not be resumed automatically''"
| "error_text NotRunnable = ''research run is not runnable''"
| "error_text MainThreadMissing = ''research project main thread is missing''"
| "error_text MainThreadMismatch = ''research run main thread does not match project''"
| "error_text UnsupportedProfile = ''unsupported research profile version''"
| "error_text (Failure m) = m"
| "error_text (Wrapped m e) = m @ '': '' @ error_text e"
| "error_text (Joined a b) = error_text a @ [CHR 0x0A] @ error_text b"

subsection \<open>The audit of approval round trips\<close>

record transition_event =
  te_from :: string
  te_to :: string
  te_revision :: int
  te_error :: string

definition text_member :: "(string \<times> jval) list \<Rightarrow> string \<Rightarrow> string option" where
  "text_member p k = (case map_of p k of None \<Rightarrow> Some [] | Some (JStr t) \<Rightarrow> Some t | Some _ \<Rightarrow> None)"

definition int_member :: "(string \<times> jval) list \<Rightarrow> string \<Rightarrow> int option" where
  "int_member p k = (case map_of p k of None \<Rightarrow> Some 0 | Some (JInt n) \<Rightarrow> Some n | Some _ \<Rightarrow> None)"

definition decode_transition :: "(string \<times> jval) list \<Rightarrow> transition_event option" where
  "decode_transition p =
     (case (text_member p ''from'', text_member p ''to'', int_member p ''revision'', text_member p ''error'') of
        (Some a, Some b, Some n, Some e) \<Rightarrow> Some \<lparr>te_from = a, te_to = b, te_revision = n, te_error = e\<rparr>
      | _ \<Rightarrow> None)"

definition transition_audit :: "db \<Rightarrow> string \<Rightarrow> (string \<times> jval) list list" where
  "transition_audit s rid =
     map e_payload (filter (\<lambda>e. e_run e = rid \<and> e_kind e = ''run.transition'') (events s))"

text \<open>The loop over the events: the revision and the status expected next.\<close>

fun audit_events ::
    "run_row \<Rightarrow> int \<Rightarrow> int \<Rightarrow> run_status \<Rightarrow> (string \<times> jval) list list \<Rightarrow> string + int \<times> run_status" where
  "audit_events snap upper rv st [] = Inr (rv, st)"
| "audit_events snap upper rv st (p # ps) =
     (case decode_transition p of
        None \<Rightarrow> Inl ''decode run transition audit''
      | Some e \<Rightarrow>
          if te_revision e \<le> r_revision snap \<or> te_revision e > upper then audit_events snap upper rv st ps
          else if te_revision e \<noteq> rv + 1 \<or> te_from e \<noteq> status_text st \<or> te_error e \<noteq> []
          then Inl ''revision is not a contiguous approval transition''
          else if st = r_status snap
          then (if te_to e \<noteq> status_text RunWaitingApproval
                then Inl ''revision changed instead of waiting for approval''
                else audit_events snap upper (te_revision e) RunWaitingApproval ps)
          else if st = RunWaitingApproval
          then (if te_to e \<noteq> status_text (r_status snap)
                then Inl ''revision resumed approval to another status''
                else audit_events snap upper (te_revision e) (r_status snap) ps)
          else Inl ''approval transition audit reached unexpected status'')"

definition verify_approval_revision_advance :: "run_row \<Rightarrow> run_row \<Rightarrow> db \<Rightarrow> string option" where
  "verify_approval_revision_advance snap cur s =
     (if \<not> can_transition (r_status snap) RunWaitingApproval \<or> \<not> can_transition RunWaitingApproval (r_status snap)
      then Some ''revision changed outside an approval-capable stage''
      else case audit_events snap (r_revision cur) (r_revision snap) (r_status snap)
                  (transition_audit s (r_id snap)) of
        Inl m \<Rightarrow> Some m
      | Inr (rv, st) \<Rightarrow>
          if rv \<noteq> r_revision cur \<or> st \<noteq> r_status snap
          then Some ''revisions are not complete approval round-trips'' else None)"

definition same_run_write_contract :: "run_row \<Rightarrow> run_row \<Rightarrow> bool" where
  "same_run_write_contract snap cur \<longleftrightarrow>
     r_id snap = r_id cur \<and> r_project snap = r_project cur \<and> r_session snap = r_session cur \<and>
     r_schedule snap = r_schedule cur \<and> r_question snap = r_question cur \<and>
     r_cycle snap = r_cycle cur \<and> r_thread snap = r_thread cur \<and> r_profile snap = r_profile cur \<and>
     r_retrieval snap = r_retrieval cur \<and> r_generation snap = r_generation cur \<and>
     r_model snap = r_model cur \<and> r_effort snap = r_effort cur \<and> r_tier snap = r_tier cur \<and>
     r_build snap = r_build cur \<and> r_report snap = r_report cur \<and> r_error snap = r_error cur \<and>
     r_created snap = r_created cur"

text \<open>The result carries the run the caller goes on with: the reloaded row or its snapshot.\<close>

definition reload_run_for_write :: "run_row \<Rightarrow> db \<Rightarrow> engine_error + run_row" where
  "reload_run_for_write snap s =
     (case find_run s (r_id snap) of
        None \<Rightarrow> Inl (Wrapped ''reload authoritative research run'' (StoreFailure NoRows))
      | Some cur \<Rightarrow>
          if \<not> same_run_write_contract snap cur then Inl (Wrapped ''durable contract diverged'' RunStateChanged)
          else if r_status cur \<noteq> r_status snap then Inl (Wrapped ''status changed'' RunStateChanged)
          else if r_revision cur < r_revision snap then Inl (Wrapped ''revision moved backward'' RunStateChanged)
          else if r_revision cur = r_revision snap then Inr cur
          else case verify_approval_revision_advance snap cur s of
            Some m \<Rightarrow> Inl (Wrapped m RunStateChanged)
          | None \<Rightarrow> Inr cur)"

subsection \<open>Writes under the token\<close>

text \<open>
  An engine step leaves the store, the run it holds afterwards and its error, if any. The first
  argument of each is the error of the context it runs under.
\<close>

type_synonym step_result = "db \<times> run_row \<times> engine_error option"

definition engine_transition :: "engine_error option \<Rightarrow> run_row \<Rightarrow> run_status \<Rightarrow> gotime \<Rightarrow> db \<Rightarrow> step_result" where
  "engine_transition ctx run next now s =
     (case ctx of Some e \<Rightarrow> (s, run, Some e)
      | None \<Rightarrow>
        (case reload_run_for_write run s of
           Inl e \<Rightarrow> (s, run, Some e)
         | Inr cur \<Rightarrow>
             (case transition_run (r_id cur) (r_revision cur) next [] now s of
                (t, Inl e) \<Rightarrow> (t, cur, Some (StoreFailure e))
              | (t, Inr r) \<Rightarrow> (t, r, None))))"

definition engine_set_run_cycle :: "engine_error option \<Rightarrow> run_row \<Rightarrow> int \<Rightarrow> gotime \<Rightarrow> db \<Rightarrow> step_result" where
  "engine_set_run_cycle ctx run cycle now s =
     (case ctx of Some e \<Rightarrow> (s, run, Some e)
      | None \<Rightarrow>
        (case reload_run_for_write run s of
           Inl e \<Rightarrow> (s, run, Some e)
         | Inr cur \<Rightarrow>
             (case set_run_cycle (r_id cur) (r_revision cur) cycle now s of
                (t, Inl e) \<Rightarrow> (t, cur, Some (StoreFailure e))
              | (t, Inr r) \<Rightarrow> (t, r, None))))"

subsection \<open>Recording the end of a failed execution\<close>

text \<open>
  \<open>abort\<close> reads the run, inspects its attempts and transitions it; when the transition fails
  because the revision has moved it starts again with the new row, at most eight times.
  \<open>others k\<close> is what other writers commit before the k-th access of the store.
\<close>

definition abort_status :: "engine_error option \<Rightarrow> engine_error \<Rightarrow> run_status" where
  "abort_status ctx cause =
     (if is_interrupted cause then RunInterrupted
      else if is_canceled cause \<or> (case ctx of None \<Rightarrow> False | Some e \<Rightarrow> is_canceled e) then RunCancelled
      else RunFailed)"

fun abort_loop ::
    "(nat \<Rightarrow> db \<Rightarrow> db) \<Rightarrow> nat \<Rightarrow> nat \<Rightarrow> run_status \<Rightarrow> engine_error \<Rightarrow> run_row \<Rightarrow> gotime \<Rightarrow> db \<Rightarrow> step_result" where
  "abort_loop others k 0 next cause cur now s =
     (s, cur, Some (Joined cause (Failure ''record terminal research state exceeded retry limit'')))"
| "abort_loop others k (Suc n) next cause cur now s =
     (if is_terminal (r_status cur) \<or> r_status cur = RunUncertain \<or> r_status cur = next
      then (s, cur, Some cause)
      else
        let s1 = others k s;
            terminal = (if affected (open_side_effect (r_id cur)) (attempts s1) > 0 then RunUncertain else next);
            s2 = others (k + 1) s1
        in case transition_run (r_id cur) (r_revision cur) terminal (error_text cause) now s2 of
             (s3, Inr r) \<Rightarrow> (s3, r, Some cause)
           | (s3, Inl e) \<Rightarrow>
               let s4 = others (k + 2) s3 in
               (case find_run s4 (r_id cur) of
                  None \<Rightarrow> (s4, cur, Some (Joined cause (Wrapped ''reload state after transition race'' (StoreFailure NoRows))))
                | Some latest \<Rightarrow>
                    if r_revision latest = r_revision cur
                    then (s4, cur, Some (Joined cause (Wrapped ''record terminal research state'' (StoreFailure e))))
                    else abort_loop others (k + 3) n next cause latest now s4))"

definition abort ::
    "(nat \<Rightarrow> db \<Rightarrow> db) \<Rightarrow> engine_error option \<Rightarrow> run_row \<Rightarrow> engine_error \<Rightarrow> gotime \<Rightarrow> db \<Rightarrow> step_result" where
  "abort others ctx run cause now s =
     (let s0 = others 0 s in
      case find_run s0 (r_id run) of
        None \<Rightarrow> (s0, run, Some (Joined cause (Wrapped ''reload research state before abort'' (StoreFailure NoRows))))
      | Some cur \<Rightarrow> abort_loop others 1 8 (abort_status ctx cause) cause cur now s0)"

definition transition_from_interrupted ::
    "(nat \<Rightarrow> db \<Rightarrow> db) \<Rightarrow> engine_error option \<Rightarrow> run_row \<Rightarrow> run_status \<Rightarrow> gotime \<Rightarrow> db \<Rightarrow> step_result" where
  "transition_from_interrupted others ctx run next now s =
     (case engine_transition ctx run next now s of
        (t, r, None) \<Rightarrow> (t, r, None)
      | (t, r, Some e) \<Rightarrow>
          if is_canceled e \<or> (case ctx of None \<Rightarrow> False | Some c \<Rightarrow> is_canceled c)
          then abort others ctx r e now t
          else (t, r, Some e))"

definition ensure_reviewing :: "engine_error option \<Rightarrow> run_row \<Rightarrow> gotime \<Rightarrow> db \<Rightarrow> step_result" where
  "ensure_reviewing ctx run now s =
     (if r_status run = RunReviewing then (s, run, None)
      else if r_status run = RunRevising then engine_transition ctx run RunReviewing now s
      else (s, run, Some (Failure ''run is not reviewing or revising'')))"

definition ensure_revising :: "engine_error option \<Rightarrow> run_row \<Rightarrow> gotime \<Rightarrow> db \<Rightarrow> step_result" where
  "ensure_revising ctx run now s =
     (if r_status run = RunRevising then (s, run, None)
      else if r_status run = RunReviewing then engine_transition ctx run RunRevising now s
      else (s, run, Some (Failure ''run is not reviewing or revising'')))"

subsection \<open>What the audit accepts\<close>

text \<open>\<open>k\<close> approval waits from revision \<open>rv\<close> and status \<open>st\<close>, as their events.\<close>

fun round_trips :: "run_status \<Rightarrow> int \<Rightarrow> nat \<Rightarrow> transition_event list" where
  "round_trips st rv 0 = []"
| "round_trips st rv (Suc k) =
     \<lparr>te_from = status_text st, te_to = status_text RunWaitingApproval, te_revision = rv + 1, te_error = []\<rparr> #
     \<lparr>te_from = status_text RunWaitingApproval, te_to = status_text st, te_revision = rv + 2, te_error = []\<rparr> #
     round_trips st (rv + 2) k"

text \<open>The decoded events of the revisions after the snapshot.\<close>

definition audit_window :: "run_row \<Rightarrow> int \<Rightarrow> (string \<times> jval) list list \<Rightarrow> transition_event list" where
  "audit_window snap upper ps =
     filter (\<lambda>e. r_revision snap < te_revision e \<and> te_revision e \<le> upper) (map (the \<circ> decode_transition) ps)"

definition decodable :: "(string \<times> jval) list list \<Rightarrow> bool" where
  "decodable ps \<longleftrightarrow> (\<forall>p \<in> set ps. decode_transition p \<noteq> None)"

text \<open>The same loop over the decoded events of the window; the flag says that a wait is open.\<close>

fun chain :: "run_status \<Rightarrow> int \<Rightarrow> bool \<Rightarrow> transition_event list \<Rightarrow> (int \<times> bool) option" where
  "chain st rv wait [] = Some (rv, wait)"
| "chain st rv wait (e # es) =
     (if te_revision e \<noteq> rv + 1 \<or> te_error e \<noteq> [] \<or>
         te_from e \<noteq> status_text (if wait then RunWaitingApproval else st) \<or>
         te_to e \<noteq> status_text (if wait then st else RunWaitingApproval)
      then None else chain st (rv + 1) (\<not> wait) es)"

lemma audit_chain:
  assumes "decodable ps" and "r_status snap \<noteq> RunWaitingApproval" and "st \<in> {r_status snap, RunWaitingApproval}"
  shows "audit_events snap upper rv st ps = Inr (m, st') \<longleftrightarrow>
    (\<exists>w. chain (r_status snap) rv (st = RunWaitingApproval) (audit_window snap upper ps) = Some (m, w) \<and>
       st' = (if w then RunWaitingApproval else r_status snap))"
  using assms(1,3)
proof (induction ps arbitrary: rv st)
  case Nil
  then show ?case using assms(2) by (auto simp: audit_window_def)
next
  case (Cons p ps)
  obtain e where e: "decode_transition p = Some e" using Cons.prems(1) by (auto simp: decodable_def)
  have d: "decodable ps" using Cons.prems(1) by (simp add: decodable_def)
  show ?case
  proof (cases "te_revision e \<le> r_revision snap \<or> te_revision e > upper")
    case True
    then have "audit_window snap upper (p # ps) = audit_window snap upper ps" by (auto simp: audit_window_def e)
    moreover have "audit_events snap upper rv st (p # ps) = audit_events snap upper rv st ps" using True by (simp add: e)
    ultimately show ?thesis using Cons.IH [OF d Cons.prems(2)] by simp
  next
    case False
    then have w: "audit_window snap upper (p # ps) = e # audit_window snap upper ps" by (auto simp: audit_window_def e)
    have other: "st \<noteq> RunWaitingApproval \<Longrightarrow> st = r_status snap" using Cons.prems(2) by auto
    define go where "go = (if st = RunWaitingApproval then r_status snap else RunWaitingApproval)"
    have go: "go \<in> {r_status snap, RunWaitingApproval}" "(go = RunWaitingApproval) = (st \<noteq> RunWaitingApproval)"
      using assms(2) by (auto simp: go_def)
    show ?thesis
    proof (cases "te_revision e = rv + 1 \<and> te_from e = status_text st \<and> te_error e = [] \<and> te_to e = status_text go")
      case True
      then have "audit_events snap upper rv st (p # ps) = audit_events snap upper (rv + 1) go ps"
        using False assms(2) other by (cases "st = RunWaitingApproval") (simp_all add: e go_def)
      moreover have "chain (r_status snap) rv (st = RunWaitingApproval) (e # audit_window snap upper ps) =
          chain (r_status snap) (rv + 1) (go = RunWaitingApproval) (audit_window snap upper ps)"
        using True assms(2) other by (cases "st = RunWaitingApproval") (simp_all add: go_def)
      ultimately show ?thesis unfolding w using Cons.IH [OF d go(1), of "rv + 1"] by simp
    next
      case bad: False
      then have "\<exists>x. audit_events snap upper rv st (p # ps) = Inl x"
        using False assms(2) other by (cases "st = RunWaitingApproval") (simp_all add: e go_def)
      moreover have "chain (r_status snap) rv (st = RunWaitingApproval) (e # audit_window snap upper ps) = None"
        using bad assms(2) other by (cases "st = RunWaitingApproval") (simp_all add: go_def)
      ultimately show ?thesis unfolding w by auto
    qed
  qed
qed

lemma chain_round_trips:
  "chain st rv False es = Some (m, False) \<longleftrightarrow> (\<exists>k. es = round_trips st rv k \<and> m = rv + 2 * int k)"
proof (induction es arbitrary: rv rule: induct_list012)
  case 1
  have "[] = round_trips st rv k \<longleftrightarrow> k = 0" for k by (cases k) simp_all
  then show ?case by simp (rule eq_commute)
next
  case (2 x)
  have "[x] \<noteq> round_trips st rv k" for k by (cases k) simp_all
  then show ?case by simp
next
  case (3 x y zs)
  have rt: "x # y # zs = round_trips st rv k \<longleftrightarrow> (\<exists>j. k = Suc j \<and> zs = round_trips st (rv + 2) j \<and>
      x = \<lparr>te_from = status_text st, te_to = status_text RunWaitingApproval, te_revision = rv + 1, te_error = []\<rparr> \<and>
      y = \<lparr>te_from = status_text RunWaitingApproval, te_to = status_text st, te_revision = rv + 2, te_error = []\<rparr>)" for k
    by (cases k) (simp_all, blast)
  have "chain st rv False (x # y # zs) = Some (m, False) \<longleftrightarrow>
      x = \<lparr>te_from = status_text st, te_to = status_text RunWaitingApproval, te_revision = rv + 1, te_error = []\<rparr> \<and>
      y = \<lparr>te_from = status_text RunWaitingApproval, te_to = status_text st, te_revision = rv + 2, te_error = []\<rparr> \<and>
      chain st (rv + 2) False zs = Some (m, False)"
    by (cases x; cases y) (auto simp: algebra_simps)
  also have "\<dots> \<longleftrightarrow> (\<exists>k. x # y # zs = round_trips st rv k \<and> m = rv + 2 * int k)"
    unfolding "3.IH"(1) rt by (auto simp: algebra_simps)
  finally show ?case .
qed

lemma audit_exact:
  assumes "decodable (transition_audit s (r_id snap))" and "r_revision snap < r_revision cur"
  shows "verify_approval_revision_advance snap cur s = None \<longleftrightarrow>
    can_transition (r_status snap) RunWaitingApproval \<and> can_transition RunWaitingApproval (r_status snap) \<and>
    (\<exists>k. audit_window snap (r_revision cur) (transition_audit s (r_id snap)) =
           round_trips (r_status snap) (r_revision snap) k \<and> r_revision cur = r_revision snap + 2 * int k)"
proof (cases "can_transition (r_status snap) RunWaitingApproval \<and> can_transition RunWaitingApproval (r_status snap)")
  case True
  then have w: "r_status snap \<noteq> RunWaitingApproval" by (auto simp: can_transition_def)
  have "verify_approval_revision_advance snap cur s = None \<longleftrightarrow>
      audit_events snap (r_revision cur) (r_revision snap) (r_status snap) (transition_audit s (r_id snap)) =
        Inr (r_revision cur, r_status snap)"
    using True by (auto simp: verify_approval_revision_advance_def split: sum.splits if_splits)
  also have "\<dots> \<longleftrightarrow> chain (r_status snap) (r_revision snap) False
      (audit_window snap (r_revision cur) (transition_audit s (r_id snap))) = Some (r_revision cur, False)"
    using audit_chain [OF assms(1) w, of "r_status snap" "r_revision cur" "r_revision snap" "r_revision cur" "r_status snap"] w
    by auto
  finally show ?thesis using True by (simp add: chain_round_trips)
next
  case False
  then show ?thesis by (auto simp: verify_approval_revision_advance_def)
qed

end
