(* ===== verification/Guard_Properties.thy ===== *)
theory Guard_Properties
  imports Run_Guard Run_Outcomes
begin

section \<open>What the engine's token survives\<close>

text \<open>
  The optimistic token of the research engine: the exact condition under which a stale snapshot
  may still be written through, what \<open>abort\<close> records, and what it guarantees when other writers
  commit between its steps.
\<close>

subsection \<open>Approval round trips\<close>

text \<open>
  C20. A stale snapshot of a run may be written through exactly when nothing but approval waits
  happened since. Provided the transition events of the run can be decoded, the reload succeeds,
  with the current row, exactly when every contract column and the status are those of the
  snapshot and either the revision is unchanged or the status permits waiting for approval and the
  events between the two revisions are, in order, some number \<open>k\<close> of complete round trips to
  \<open>waiting_approval\<close> and back, one revision each: not one event missing, repeated, out of order,
  carrying an error or going anywhere else, and \<open>2 k\<close> revisions in all.
\<close>

theorem reload_accepts:
  assumes "decodable (transition_audit s (r_id snap))" and "find_run s (r_id snap) = Some cur"
  shows "reload_run_for_write snap s = Inr r \<longleftrightarrow>
    r = cur \<and> same_run_write_contract snap cur \<and> r_status cur = r_status snap \<and>
    (r_revision cur = r_revision snap \<or>
     r_revision snap < r_revision cur \<and>
     can_transition (r_status snap) RunWaitingApproval \<and> can_transition RunWaitingApproval (r_status snap) \<and>
     (\<exists>k. audit_window snap (r_revision cur) (transition_audit s (r_id snap)) =
            round_trips (r_status snap) (r_revision snap) k \<and>
          r_revision cur = r_revision snap + 2 * int k))"
proof (cases "r_revision snap < r_revision cur")
  case True
  then show ?thesis
    using audit_exact [OF assms(1) True] assms(2)
    by (auto simp: reload_run_for_write_def split: option.splits)
next
  case False
  then show ?thesis using assms(2) by (auto simp: reload_run_for_write_def)
qed

text \<open>A store in which \<open>r2\<close> has waited for an approval once since the engine read it.\<close>

definition waited_store :: db where
  "waited_store =
     fst (resume_run_after_approval ''r2'' RunCollecting (at_second 8)
       (fst (transition_run ''r2'' 5 RunWaitingApproval [] (at_second 7) sample_store)))"

lemma waited_store_eq:
  "runs waited_store =
     [sample_run ''r1'' RunWaitingApproval 3 ''2026-01-02T03:04:01Z'',
      (sample_run ''r2'' RunCollecting 7 ''2026-01-02T03:04:02Z'')\<lparr>r_updated := format_time (at_second 8)\<rparr>,
      sample_run ''r3'' RunQueued 0 ''2026-01-02T03:04:03Z'']"
  "transition_audit waited_store ''r2'' =
     [transition_payload RunCollecting RunWaitingApproval 6 [], transition_payload RunWaitingApproval RunCollecting 7 []]"
  by (simp_all add: waited_store_def transition_run_def resume_run_after_approval_def sample_rows query_defs
      status_defs append_event_def transition_audit_def)

theorem reload_accepts_witness:
  "(\<exists>r. reload_run_for_write (sample_run ''r2'' RunCollecting 5 ''2026-01-02T03:04:02Z'') waited_store = Inr r \<and>
      r_revision r = 7) \<and>
   (\<nexists>r. reload_run_for_write (sample_run ''r2'' RunCollecting 6 ''2026-01-02T03:04:02Z'') waited_store = Inr r)"
proof -
  let ?snap = "\<lambda>n. sample_run ''r2'' RunCollecting n ''2026-01-02T03:04:02Z''"
  let ?cur = "(?snap 7)\<lparr>r_updated := format_time (at_second 8)\<rparr>"
  have id: "r_id (?snap n) = ''r2''" for n by (simp add: sample_run_def)
  have d: "decodable (transition_audit waited_store (r_id (?snap n)))" for n
    unfolding id waited_store_eq(2)
    by (simp add: decodable_def decode_transition_def transition_payload_def text_member_def int_member_def)
  have f: "find_run waited_store (r_id (?snap n)) = Some ?cur" for n
    unfolding id by (simp add: find_run_def waited_store_eq(1) sample_run_def)
  have w: "audit_window (?snap n) 7 (transition_audit waited_store (r_id (?snap n))) =
      (if n < 6 then [\<lparr>te_from = ''collecting'', te_to = ''waiting_approval'', te_revision = 6, te_error = []\<rparr>] else []) @
      (if n < 7 then [\<lparr>te_from = ''waiting_approval'', te_to = ''collecting'', te_revision = 7, te_error = []\<rparr>] else [])" for n
    unfolding id waited_store_eq(2)
    by (simp add: audit_window_def decode_transition_def transition_payload_def text_member_def int_member_def sample_run_def)
  have st: "r_status (?snap n) = RunCollecting" "r_revision (?snap n) = n" "r_status ?cur = RunCollecting"
    "r_revision ?cur = 7" "same_run_write_contract (?snap n) ?cur" for n
    by (simp_all add: sample_run_def same_run_write_contract_def)
  have "reload_run_for_write (?snap 5) waited_store = Inr ?cur"
    unfolding reload_accepts [OF d f] st w
    by (auto simp: st can_transition_def intro!: exI [of _ "Suc 0"])
  moreover have odd: "7 \<noteq> 6 + 2 * int k" for k by presburger
  have "reload_run_for_write (?snap 6) waited_store \<noteq> Inr r" for r
    unfolding reload_accepts [OF d f] st using odd by auto
  ultimately show ?thesis using st(4) by blast
qed

subsection \<open>Recording the end of an execution\<close>

lemma abort_next: "abort_status ctx cause \<in> {RunInterrupted, RunCancelled, RunFailed}"
  by (simp add: abort_status_def)

text \<open>
  C21. What \<open>abort\<close> records when no other writer interferes. A run that is terminal, uncertain or
  already in the status the cause asks for (interrupted for an interrupted turn, cancelled for a
  cancellation of the cause or the context, failed otherwise) is left alone. Otherwise the run
  goes, in one transition that carries the text of the cause and denies its pending approvals, to
  \<open>uncertain\<close> when an uncompleted attempt carries the side-effect marker and to that status when
  none does; the caller gets the cause itself. When the table refuses the change nothing is
  written and the refusal is joined to the cause. In particular an interrupted run can never be
  recorded as failed.
\<close>

theorem abort_outcome:
  fixes ctx :: "engine_error option" and cause :: engine_error
  assumes "store_ok s" and "find_run s (r_id run) = Some cur"
  defines "asked \<equiv> abort_status ctx cause"
    and "nx \<equiv> if \<exists>a \<in> set (attempts s). open_side_effect (r_id run) a then RunUncertain else abort_status ctx cause"
  shows "if is_terminal (r_status cur) \<or> r_status cur = RunUncertain \<or> r_status cur = asked
    then abort (\<lambda>_ t. t) ctx run cause now s = (s, cur, Some cause)
    else if can_transition (r_status cur) nx
    then \<exists>ev. abort (\<lambda>_ t. t) ctx run cause now s =
      (run_moved (r_id run) (set_status nx (error_text cause) now) True now ev s,
       set_status nx (error_text cause) now cur, Some cause)
    else \<exists>m. abort (\<lambda>_ t. t) ctx run cause now s =
      (s, cur, Some (Joined cause (Wrapped ''record terminal research state'' (StoreFailure (Errorf m)))))"
proof -
  have id: "r_id cur = r_id run" using find_run_in [OF assms(2)] by simp
  have nx': "(if affected (open_side_effect (r_id run)) (attempts s) > 0 then RunUncertain else abort_status ctx cause) = nx"
    by (simp only: affected_pos nx_def)
  have ret: "retires_pending_approvals nx"
    using abort_next [of ctx cause] by (auto simp: nx_def retires_pending_approvals_def)
  obtain m where eight: "(8::nat) = Suc m" by (metis numeral_eq_Suc)
  have ab: "abort (\<lambda>_ t. t) ctx run cause now s = abort_loop (\<lambda>_ t. t) 1 (Suc m) asked cause cur now s"
    unfolding abort_def asked_def eight using assms(2) by (simp add: Let_def del: abort_loop.simps)
  note out = transition_outcome [OF assms(1,2), of "r_revision cur" nx "error_text cause" now]
  show ?thesis
  proof (cases "is_terminal (r_status cur) \<or> r_status cur = RunUncertain \<or> r_status cur = asked")
    case True
    moreover have "abort_loop (\<lambda>_ t. t) 1 (Suc m) asked cause cur now s = (s, cur, Some cause)" using True by auto
    ultimately show ?thesis by (simp add: ab del: abort_loop.simps)
  next
    case live: False
    show ?thesis
    proof (cases "can_transition (r_status cur) nx")
      case True
      then obtain ev where "transition_run (r_id run) (r_revision cur) nx (error_text cause) now s =
          commit (run_moved (r_id run) (set_status nx (error_text cause) now) True now ev s)
            (set_status nx (error_text cause) now cur)"
        using out ret by auto
      then have "abort_loop (\<lambda>_ t. t) 1 (Suc m) asked cause cur now s =
          (run_moved (r_id run) (set_status nx (error_text cause) now) True now ev s,
           set_status nx (error_text cause) now cur, Some cause)"
        using live nx' by (simp add: id asked_def)
      then show ?thesis unfolding ab using live True by (simp del: abort_loop.simps) blast
    next
      case False
      then obtain e where "transition_run (r_id run) (r_revision cur) nx (error_text cause) now s = fail s (Errorf e)"
        using out by auto
      then have "abort_loop (\<lambda>_ t. t) 1 (Suc m) asked cause cur now s =
          (s, cur, Some (Joined cause (Wrapped ''record terminal research state'' (StoreFailure (Errorf e)))))"
        using live nx' assms(2) by (simp add: id asked_def)
      then show ?thesis unfolding ab using live False by (simp del: abort_loop.simps)
    qed
  qed
qed

theorem abort_outcome_witness:
  "(\<exists>t r. abort (\<lambda>_ t. t) None (sample_run ''r2'' RunCollecting 5 ''2026-01-02T03:04:02Z'')
      (Wrapped ''collect'' TurnInterrupted) (at_second 9) sample_store = (t, r, Some (Wrapped ''collect'' TurnInterrupted)) \<and>
      r_status r = RunUncertain \<and> r_error r = ''collect: research turn was interrupted'')"
proof -
  let ?r = "sample_run ''r2'' RunCollecting 5 ''2026-01-02T03:04:02Z''"
  have f: "find_run sample_store (r_id ?r) = Some ?r" by (simp add: sample_rows query_defs)
  have e: "\<exists>a \<in> set (attempts sample_store). open_side_effect (r_id ?r) a"
    by (simp add: sample_rows open_side_effect_def)
  have st: "r_status ?r = RunCollecting" by (simp add: sample_run_def)
  show ?thesis
    using abort_outcome [OF sample_store_ok f, of None "Wrapped ''collect'' TurnInterrupted" "at_second 9"] e
    by (auto simp: st abort_status_def is_interrupted_def can_transition_def set_status_def)
qed

subsection \<open>Aborting among other writers\<close>

lemma transition_ok_row:
  assumes "store_ok s" and "transition_run rid ex nx msg now s = (t, Inr r)"
  shows "find_run t rid = Some r \<and> r_status r = nx"
proof (cases "find_run s rid")
  case None
  then show ?thesis using assms(2) by (simp add: transition_run_def)
next
  case (Some cur)
  note out = transition_outcome [OF assms(1) Some, of ex nx msg now]
  have rv: "r_revision cur = ex" using out assms(2) by (cases "r_revision cur = ex") auto
  moreover have "can_transition (r_status cur) nx"
    using out assms(2) rv by (cases "can_transition (r_status cur) nx") auto
  ultimately obtain ev where "t = run_moved rid (set_status nx msg now) (retires_pending_approvals nx) now ev s"
      "r = set_status nx msg now cur"
    using out assms(2) by auto
  then show ?thesis
    using Some select_key_update_where [of r_id "set_status nx msg now" "\<lambda>r. r_id r = rid" "runs s" rid]
      find_run_in [OF Some]
    by (simp add: find_run_def run_moved_def set_status_def)
qed


lemma abort_loop_recorded:
  assumes others: "\<And>k t. store_ok t \<Longrightarrow> store_ok (others k t)"
    and "store_ok s" and "find_run s rid = Some cur"
    and "abort_loop others k n asked cause cur now s = (t, r, Some e)"
  shows "if e = cause then find_run t rid = Some r \<and>
      (is_terminal (r_status r) \<or> r_status r = RunUncertain \<or> r_status r = asked)
    else \<exists>d. e = Joined cause d"
  using assms(2-)
proof (induction n arbitrary: k cur s)
  case 0
  then show ?case by auto
next
  case (Suc n)
  have id: "r_id cur = rid" using find_run_in [OF Suc.prems(2)] by simp
  define s2 where "s2 = others (k + 1) (others k s)"
  define nx where "nx = (if affected (open_side_effect rid) (attempts (others k s)) > 0 then RunUncertain else asked)"
  have ok2: "store_ok s2" using others Suc.prems(1) by (simp add: s2_def)
  obtain s3 res where tr: "transition_run rid (r_revision cur) nx (error_text cause) now s2 = (s3, res)"
    by (cases "transition_run rid (r_revision cur) nx (error_text cause) now s2") auto
  have ok3: "store_ok s3" using transition_run_sound [of s2] ok2 by (metis fst_conv sound_def tr)
  show ?case
  proof (cases "is_terminal (r_status cur) \<or> r_status cur = RunUncertain \<or> r_status cur = asked")
    case True
    then show ?thesis using Suc.prems by auto
  next
    case live: False
    show ?thesis
    proof (cases res)
      case (Inr q)
      then have "t = s3" "r = q" "e = cause"
        using Suc.prems(3) live tr by (simp_all add: Let_def id s2_def nx_def)
      then show ?thesis using transition_ok_row [OF ok2, of rid _ nx] tr Inr by (auto simp: nx_def)
    next
      case (Inl err)
      let ?s4 = "others (k + 2) s3"
      have ok4: "store_ok ?s4" using others ok3 by simp
      show ?thesis
      proof (cases "find_run ?s4 rid")
        case None
        then show ?thesis using Suc.prems(3) live tr Inl by (auto simp: Let_def id s2_def nx_def)
      next
        case (Some latest)
        show ?thesis
        proof (cases "r_revision latest = r_revision cur")
          case True
          then show ?thesis using Suc.prems(3) live tr Inl Some by (auto simp: Let_def id s2_def nx_def)
        next
          case False
          then have "abort_loop others (k + 3) n asked cause latest now ?s4 = (t, r, Some e)"
            using Suc.prems(3) live tr Inl Some by (simp add: Let_def id s2_def nx_def)
          then show ?thesis by (rule Suc.IH [OF ok4 Some])
        qed
      qed
    qed
  qed
qed

text \<open>
  C22. The end of an execution is never reported as recorded when it is not. Whatever other
  writers commit before each of its accesses, as long as they keep the store well-formed,
  \<open>abort\<close> returns after at most eight attempts, always with an error; when that error is the
  cause alone, the row it returns is the row of the store, and the run is terminal, uncertain or
  in the status the cause asks for; in every other case the failure to record is joined to the
  cause.
\<close>

theorem abort_recorded:
  assumes "\<And>k t. store_ok t \<Longrightarrow> store_ok (others k t)" and "store_ok s"
  shows "\<exists>t r e. abort others ctx run cause now s = (t, r, Some e) \<and>
    (if e = cause then find_run t (r_id run) = Some r \<and>
       (is_terminal (r_status r) \<or> r_status r = RunUncertain \<or> r_status r = abort_status ctx cause)
     else \<exists>d. e = Joined cause d)"
proof -
  have some: "\<exists>t r e. abort_loop others k n asked cause cur now s = (t, r, Some e)" for k n asked cur s
    by (induction n arbitrary: k cur s) (auto simp: Let_def split: prod.splits sum.splits option.splits)
  show ?thesis
  proof (cases "find_run (others 0 s) (r_id run)")
    case None
    then show ?thesis by (auto simp: abort_def)
  next
    case (Some cur)
    obtain t r e where l: "abort_loop others 1 8 (abort_status ctx cause) cause cur now (others 0 s) = (t, r, Some e)"
      using some by blast
    moreover have "abort others ctx run cause now s = (t, r, Some e)"
      using l Some by (simp add: abort_def Let_def del: abort_loop.simps)
    ultimately show ?thesis using abort_loop_recorded [OF assms(1) assms(1) [OF assms(2)] Some l] by blast
  qed
qed

text \<open>The run is cancelled by another writer between the inspection of its attempts and the transition.\<close>

definition cancels_first :: "nat \<Rightarrow> db \<Rightarrow> db" where
  "cancels_first k t = (if k = 2 then fst (quiesce_run ''r1'' RunCancelled [] (at_second 8) t) else t)"

theorem abort_recorded_witness:
  "\<exists>t r e. abort cancels_first None (sample_run ''r1'' RunWaitingApproval 3 ''2026-01-02T03:04:01Z'')
      (Failure ''boom'') (at_second 9) sample_store = (t, r, Some e) \<and>
    (if e = Failure ''boom'' then find_run t ''r1'' = Some r \<and>
       (is_terminal (r_status r) \<or> r_status r = RunUncertain \<or> r_status r = RunFailed)
     else \<exists>d. e = Joined (Failure ''boom'') d)"
proof -
  have "store_ok (cancels_first k t)" if "store_ok t" for k t
    using quiesce_run_sound [of t "''r1''" RunCancelled "[]" "at_second 8"] that
    by (simp add: cancels_first_def sound_def)
  moreover have "abort_status None (Failure ''boom'') = RunFailed"
    by (simp add: abort_status_def is_interrupted_def is_canceled_def)
  moreover have "r_id (sample_run ''r1'' st n c) = ''r1''" for st n c by (simp add: sample_run_def)
  ultimately show ?thesis
    using abort_recorded [of cancels_first, OF _ sample_store_ok, of None
        "sample_run ''r1'' RunWaitingApproval 3 ''2026-01-02T03:04:01Z''" "Failure ''boom''" "at_second 9"]
    by (simp only: simp_thms)
qed

end
