(* ===== verification/Checks.thy ===== *)
theory Checks
  imports Prelude
begin

section \<open>Sequences of checks\<close>

text \<open>
  The shape the validators of the code share: a check is an error or nothing, checks run in order
  and the first error ends the function, a loop checks each element, and a loop with a map of the
  keys seen so far also refuses a repeated key between two groups of checks on the element.
\<close>

type_synonym check = "string option"

abbreviation require :: "bool \<Rightarrow> string \<Rightarrow> check" where
  "require ok msg \<equiv> (if ok then None else Some msg)"

definition and_check :: "check \<Rightarrow> check \<Rightarrow> check" where
  "and_check a b = (case a of None \<Rightarrow> b | Some e \<Rightarrow> Some e)"

fun check_each :: "('a \<Rightarrow> check) \<Rightarrow> 'a list \<Rightarrow> check" where
  "check_each f [] = None"
| "check_each f (x # xs) = and_check (f x) (check_each f xs)"

fun check_unique :: "('a \<Rightarrow> check) \<Rightarrow> ('a \<Rightarrow> 'k) \<Rightarrow> string \<Rightarrow> ('a \<Rightarrow> check) \<Rightarrow> 'k list \<Rightarrow> 'a list \<Rightarrow> check" where
  "check_unique pre key msg post seen [] = None"
| "check_unique pre key msg post seen (x # xs) =
     and_check (pre x) (and_check (require (key x \<notin> set seen) msg)
       (and_check (post x) (check_unique pre key msg post (key x # seen) xs)))"

lemma require_None: "(require ok msg = None) = ok"
  by simp

lemma and_check_None [simp]: "and_check a b = None \<longleftrightarrow> a = None \<and> b = None"
  by (simp add: and_check_def split: option.split)

lemma check_each_None [simp]: "check_each f xs = None \<longleftrightarrow> (\<forall>x \<in> set xs. f x = None)"
  by (induction xs) auto

lemma check_unique_None [simp]:
  "check_unique pre key msg post seen xs = None \<longleftrightarrow>
     (\<forall>x \<in> set xs. pre x = None \<and> post x = None \<and> key x \<notin> set seen) \<and> distinct (map key xs)"
  by (induction xs arbitrary: seen) (auto simp: image_iff)

text \<open>A Go slice: \<open>None\<close> is nil, which is empty when it is read.\<close>

definition elems :: "'a list option \<Rightarrow> 'a list" where
  "elems s = (case s of None \<Rightarrow> [] | Some xs \<Rightarrow> xs)"

lemma elems_simps [simp]: "elems None = []" "elems (Some xs) = xs"
  by (simp_all add: elems_def)

end
