(* ===== verification/Evidence_Contract.thy ===== *)
theory Evidence_Contract
  imports Checks Go_Time Cas_Store
begin

section \<open>Evidence bundles\<close>

text \<open>
  \<^verbatim>\<open>src/internal/core/types.go\<close>, \<^verbatim>\<open>src/internal/research/validation.go\<close> and
  \<^verbatim>\<open>src/internal/research/collector_evidence.go\<close>: the evidence a collector returns, its checks before
  and after the engineering receipts are resolved, the canonical names of its claims and the check
  of all bundles together. \<open>pub\<close> says whether \<^verbatim>\<open>url.Parse\<close> finds an http or https address with a
  host name, and \<open>sha\<close> is the hexadecimal SHA-256 of a text.
\<close>

record evidence_source =
  es_id :: string
  es_url :: string
  es_title :: string
  es_publisher :: string
  es_captured :: gotime
  es_blob :: string

record evidence_claim =
  ec_id :: string
  ec_statement :: string
  ec_sources :: "string list"
  ec_counter :: string

record evidence_bundle =
  eb_workstream :: string
  eb_summary :: string
  eb_claims :: "evidence_claim list option"
  eb_sources :: "evidence_source list option"
  eb_limitations :: "string list option"

subsection \<open>Sources\<close>

definition receipt_urn_prefix :: string where
  "receipt_urn_prefix = ''urn:aetherops:engineering-receipt:''"

definition is_receipt_artifact_id :: "string \<Rightarrow> bool" where
  "is_receipt_artifact_id a \<longleftrightarrow>
     take 4 a = ''art_'' \<and> length a = 36 \<and> list_all is_lower_hex (drop 4 a)"

definition zero_hash :: string where
  "zero_hash = replicate 64 (CHR ''0'')"

definition minimum_capture_time :: gotime where
  "minimum_capture_time =
     \<lparr>t_year = 2000, t_month = 1, t_day = 1, t_hour = 0, t_min = 0, t_sec = 0, t_nano = 0\<rparr>"

definition receipt_evidence_source :: "string \<Rightarrow> string \<Rightarrow> string \<Rightarrow> gotime \<Rightarrow> string + evidence_source" where
  "receipt_evidence_source aid operation blob captured =
     (if \<not> is_receipt_artifact_id aid \<or> blank operation \<or> \<not> valid_hash blob \<or> blob = zero_hash \<or>
         time_before captured minimum_capture_time
      then Inl ''engineering receipt evidence metadata is invalid''
      else Inr \<lparr>es_id = aid, es_url = receipt_urn_prefix @ aid,
                es_title = ''AetherOps engineering receipt: '' @ operation,
                es_publisher = ''AetherOps engineering runtime'', es_captured = captured, es_blob = blob\<rparr>)"

definition receipt_artifact_id :: "evidence_source \<Rightarrow> string option" where
  "receipt_artifact_id x =
     (let n = length receipt_urn_prefix; aid = drop n (es_url x) in
      if take n (es_url x) \<noteq> receipt_urn_prefix \<or> es_id x \<noteq> aid \<or> \<not> is_receipt_artifact_id aid
      then None else Some aid)"

definition validate_source :: "(string \<Rightarrow> bool) \<Rightarrow> evidence_source \<Rightarrow> check" where
  "validate_source pub x =
     and_check (require (\<not> (es_id x = [] \<or> es_title x = [] \<or> receipt_artifact_id x = None \<and> \<not> pub (es_url x)))
       ''evidence source id, title, and public URL are required'')
     (and_check (require (valid_hash (es_blob x) \<and> es_blob x \<noteq> zero_hash) ''evidence source has an invalid blob hash'')
       (require (\<not> time_before (es_captured x) minimum_capture_time) ''evidence source has an invalid capture time''))"

subsection \<open>Bundles\<close>

definition known_sources :: "string list \<Rightarrow> evidence_claim \<Rightarrow> check" where
  "known_sources ids c =
     check_each (\<lambda>i. require (i \<in> set ids) ''claim references unknown source'') (ec_sources c)"

definition validate_core_bundle :: "(string \<Rightarrow> bool) \<Rightarrow> string \<Rightarrow> evidence_bundle \<Rightarrow> check" where
  "validate_core_bundle pub expected b =
     and_check (require (\<not> (eb_workstream b = [] \<or> expected \<noteq> [] \<and> eb_workstream b \<noteq> expected))
       ''evidence bundle workstream does not match the plan'')
     (and_check (require (\<not> blank (eb_summary b) \<and> elems (eb_claims b) \<noteq> [] \<and> elems (eb_sources b) \<noteq> [])
       ''evidence bundle requires a summary, claims, and sources'')
     (and_check (check_unique (validate_source pub) es_id ''duplicate evidence source id'' (\<lambda>x. None) []
       (elems (eb_sources b)))
     (check_unique
       (\<lambda>c. require (ec_id c \<noteq> [] \<and> \<not> blank (ec_statement c) \<and> ec_sources c \<noteq> [])
          ''evidence claims require id, statement, and sources'')
       ec_id ''duplicate evidence claim id'' (known_sources (map es_id (elems (eb_sources b)))) []
       (elems (eb_claims b)))))"

text \<open>The stricter check of the research engine.\<close>

definition validate_evidence_bundle :: "(string \<Rightarrow> bool) \<Rightarrow> string \<Rightarrow> evidence_bundle \<Rightarrow> check" where
  "validate_evidence_bundle pub expected b =
     and_check (require (\<not> blank (eb_workstream b)) ''evidence workstream id is required'')
     (and_check (require (expected = [] \<or> eb_workstream b = expected) ''evidence workstream is another one'')
     (and_check (require (\<not> blank (eb_summary b)) ''evidence summary is required'')
     (and_check (require (eb_claims b \<noteq> None \<and> eb_sources b \<noteq> None \<and> eb_limitations b \<noteq> None)
       ''evidence bundle omits a required array field'')
     (and_check (check_unique
       (\<lambda>x. and_check (require (\<not> blank (es_id x) \<and> \<not> blank (es_title x)) ''evidence source id and title are required'')
         (and_check (require (receipt_artifact_id x \<noteq> None \<or> pub (es_url x)) ''evidence source must use a captured public URL'')
         (and_check (require (\<not> time_before (es_captured x) minimum_capture_time) ''evidence source has an invalid capture time'')
         (and_check (require (\<not> blank (es_blob x)) ''evidence source is missing its blob hash'')
           (require (es_blob x \<noteq> zero_hash) ''evidence source has a placeholder blob hash'')))))
       es_id ''duplicate evidence source id'' (\<lambda>x. None) [] (elems (eb_sources b)))
     (check_unique
       (\<lambda>c. require (\<not> blank (ec_id c) \<and> \<not> blank (ec_statement c)) ''evidence claim id and statement are required'')
       ec_id ''duplicate evidence claim id''
       (\<lambda>c. and_check (require (ec_sources c \<noteq> []) ''evidence claim has no source ids'')
          (known_sources (map es_id (elems (eb_sources b))) c)) []
       (elems (eb_claims b)))))))"

subsection \<open>What a collector returns\<close>

record collector_output =
  co_workstream :: string
  co_summary :: string
  co_claims :: "evidence_claim list option"
  co_sources :: "evidence_source list option"
  co_receipts :: "string list option"
  co_limitations :: "string list option"

definition canonical_prefix :: string where
  "canonical_prefix = ''ecl_''"

definition has_canonical_prefix :: "string \<Rightarrow> bool" where
  "has_canonical_prefix s \<longleftrightarrow> take 4 s = canonical_prefix"

definition is_canonical_claim_id :: "string \<Rightarrow> bool" where
  "is_canonical_claim_id s \<longleftrightarrow> has_canonical_prefix s \<and> valid_hash (drop 4 s)"

definition validate_collector_output :: "(string \<Rightarrow> bool) \<Rightarrow> string \<Rightarrow> collector_output \<Rightarrow> check" where
  "validate_collector_output pub expected out =
     and_check (require (\<not> blank (co_workstream out)) ''evidence workstream id is required'')
     (and_check (require (expected = [] \<or> co_workstream out = expected) ''evidence workstream is another one'')
     (and_check (require (\<not> blank (co_summary out)) ''evidence summary is required'')
     (and_check (require (co_claims out \<noteq> None \<and> co_sources out \<noteq> None \<and> co_receipts out \<noteq> None \<and> co_limitations out \<noteq> None)
       ''collector evidence output omits a required array field'')
     (and_check (require (elems (co_sources out) \<noteq> [] \<or> elems (co_receipts out) \<noteq> [])
       ''collector evidence output requires a captured public source or engineering receipt artifact id'')
     (and_check (check_unique
       (\<lambda>x. and_check (require (receipt_artifact_id x = None) ''engineering receipt must be referenced by its artifact id'')
          (validate_source pub x))
       es_id ''duplicate evidence source id'' (\<lambda>x. None) [] (elems (co_sources out)))
     (and_check (check_unique
       (\<lambda>a. require (is_receipt_artifact_id a) ''engineering receipt artifact id is invalid'')
       (\<lambda>a. a) ''duplicate evidence source id'' (\<lambda>a. None) (map es_id (elems (co_sources out))) (elems (co_receipts out)))
     (check_unique
       (\<lambda>c. and_check (require (\<not> blank (ec_id c) \<and> \<not> blank (ec_statement c)) ''evidence claim id and statement are required'')
          (require (\<not> has_canonical_prefix (ec_id c)) ''evidence claim id uses the reserved canonical namespace''))
       ec_id ''duplicate evidence claim id''
       (\<lambda>c. and_check (require (ec_sources c \<noteq> []) ''evidence claim has no source ids'')
          (known_sources (map es_id (elems (co_sources out)) @ elems (co_receipts out)) c)) []
       (elems (co_claims out)))))))))"

definition canonical_bundle :: "collector_output \<Rightarrow> evidence_source list \<Rightarrow> evidence_bundle" where
  "canonical_bundle out sources =
     \<lparr>eb_workstream = co_workstream out, eb_summary = co_summary out, eb_claims = Some (elems (co_claims out)),
      eb_sources = Some sources, eb_limitations = Some (elems (co_limitations out))\<rparr>"

text \<open>The planned screening owner: only what the model says of public sources is kept.\<close>

definition public_claims :: "collector_output \<Rightarrow> evidence_claim list" where
  "public_claims out =
     filter (\<lambda>c. ec_sources c \<noteq> [] \<and> (\<forall>i \<in> set (ec_sources c). i \<in> es_id ` set (elems (co_sources out))))
       (elems (co_claims out))"

definition screening_owner_public_evidence ::
    "(string \<Rightarrow> bool) \<Rightarrow> collector_output \<Rightarrow> string \<Rightarrow> string + evidence_bundle" where
  "screening_owner_public_evidence pub out expected =
     (case and_check (require (\<not> blank (co_workstream out)) ''evidence workstream id is required'')
       (and_check (require (expected = [] \<or> co_workstream out = expected) ''evidence workstream is another one'')
       (and_check (require (\<not> blank (co_summary out)) ''evidence summary is required'')
         (require (co_claims out \<noteq> None \<and> co_sources out \<noteq> None \<and> co_receipts out \<noteq> None \<and> co_limitations out \<noteq> None)
           ''collector evidence output omits a required array field''))) of
        Some e \<Rightarrow> Inl e
      | None \<Rightarrow>
          let public = out\<lparr>co_claims := Some (public_claims out), co_receipts := Some []\<rparr> in
          case (if elems (co_sources public) \<noteq> [] then validate_collector_output pub expected public else None) of
            Some e \<Rightarrow> Inl e
          | None \<Rightarrow> Inr (canonical_bundle public (elems (co_sources public))))"

subsection \<open>Canonical claim names\<close>

definition claim_preimage :: "string \<Rightarrow> string \<Rightarrow> string \<Rightarrow> string" where
  "claim_preimage rid ws cid = rid @ CHR 0x00 # ws @ CHR 0x00 # cid"

fun canonicalize_claims :: "(string \<Rightarrow> string) \<Rightarrow> string \<Rightarrow> string \<Rightarrow> evidence_claim list \<Rightarrow> string + evidence_claim list" where
  "canonicalize_claims sha rid ws [] = Inr []"
| "canonicalize_claims sha rid ws (c # cs) =
     (if \<not> is_canonical_claim_id (ec_id c) \<and> has_canonical_prefix (ec_id c)
      then Inl ''claim id is an invalid canonical evidence id''
      else case canonicalize_claims sha rid ws cs of
        Inl e \<Rightarrow> Inl e
      | Inr ds \<Rightarrow> Inr ((if is_canonical_claim_id (ec_id c) then c
                       else c\<lparr>ec_id := canonical_prefix @ sha (claim_preimage rid ws (ec_id c))\<rparr>) # ds))"

definition canonicalize_evidence_claim_ids ::
    "(string \<Rightarrow> string) \<Rightarrow> string \<Rightarrow> evidence_bundle \<Rightarrow> string + evidence_bundle" where
  "canonicalize_evidence_claim_ids sha rid b =
     (if blank rid then Inl ''cannot canonicalize claims without a run id''
      else if blank (eb_workstream b) then Inl ''cannot canonicalize claims without a workstream id''
      else case canonicalize_claims sha rid (eb_workstream b) (elems (eb_claims b)) of
        Inl e \<Rightarrow> Inl e
      | Inr cs \<Rightarrow> Inr (b\<lparr>eb_claims := Some cs\<rparr>))"

text \<open>
  \<open>prepareCollectorEvidence\<close> without a planned screening: \<open>resolve\<close> reads the receipt of an artifact
  from the store and \<open>verify\<close> re-reads the captured sources.
\<close>

fun resolve_receipts :: "(string \<Rightarrow> string + evidence_source) \<Rightarrow> string list \<Rightarrow> string + evidence_source list" where
  "resolve_receipts resolve [] = Inr []"
| "resolve_receipts resolve (a # as) =
     (case resolve a of
        Inl e \<Rightarrow> Inl (''resolve engineering receipt: '' @ e)
      | Inr x \<Rightarrow> (case resolve_receipts resolve as of Inl e \<Rightarrow> Inl e | Inr xs \<Rightarrow> Inr (x # xs)))"

definition prepare_collector_evidence ::
    "(string \<Rightarrow> bool) \<Rightarrow> (string \<Rightarrow> string) \<Rightarrow> (string \<Rightarrow> string + evidence_source) \<Rightarrow> (evidence_bundle \<Rightarrow> check) \<Rightarrow>
     string \<Rightarrow> string \<Rightarrow> collector_output \<Rightarrow> string + evidence_bundle" where
  "prepare_collector_evidence pub sha resolve verify rid expected out =
     (case validate_collector_output pub expected out of
        Some e \<Rightarrow> Inl e
      | None \<Rightarrow>
       (case resolve_receipts resolve (elems (co_receipts out)) of
          Inl e \<Rightarrow> Inl e
        | Inr receipts \<Rightarrow>
         (case canonicalize_evidence_claim_ids sha rid (canonical_bundle out (elems (co_sources out) @ receipts)) of
            Inl e \<Rightarrow> Inl (''canonicalize evidence claim ids: '' @ e)
          | Inr b \<Rightarrow>
             (case and_check (validate_evidence_bundle pub expected b)
                (and_check (validate_core_bundle pub expected b) (verify b)) of
                Some e \<Rightarrow> Inl e
              | None \<Rightarrow> Inr b))))"

subsection \<open>All bundles of a run\<close>

fun check_identities ::
    "(string \<Rightarrow> bool) \<Rightarrow> string list \<Rightarrow> string list \<Rightarrow> string list \<Rightarrow> evidence_bundle list \<Rightarrow> check" where
  "check_identities pub works sources claims [] = None"
| "check_identities pub works sources claims (b # bs) =
     and_check (validate_evidence_bundle pub (eb_workstream b) b)
     (and_check (require (eb_workstream b \<notin> set works) ''duplicate evidence workstream id'')
     (and_check (check_unique (\<lambda>x. None) es_id ''duplicate evidence source id across workstreams'' (\<lambda>x. None)
       sources (elems (eb_sources b)))
     (and_check (check_unique (\<lambda>c. require (is_canonical_claim_id (ec_id c)) ''evidence claim id is not canonical'')
       ec_id ''duplicate evidence claim id across workstreams'' (\<lambda>c. None) claims (elems (eb_claims b)))
     (check_identities pub (eb_workstream b # works) (map es_id (elems (eb_sources b)) @ sources)
       (map ec_id (elems (eb_claims b)) @ claims) bs))))"

definition validate_global_evidence_identity :: "(string \<Rightarrow> bool) \<Rightarrow> evidence_bundle list \<Rightarrow> check" where
  "validate_global_evidence_identity pub bs = check_identities pub [] [] [] bs"

end
