(* ===== verification/Knowledge_Units.thy ===== *)
theory Knowledge_Units
  imports Complex_Main Go_Strings Go_Time
begin

section \<open>Units of knowledge literals\<close>

text \<open>
  \<^verbatim>\<open>src/internal/core/units.go\<close>: decimal literals as exact rationals, the registry of units, the
  projection of a value to its SI unit with eighteen decimals, its validation and its
  canonicalization. \<^verbatim>\<open>big.Rat\<close> is \<open>rat\<close>.
\<close>

subsection \<open>Literals\<close>

record typed_literal =
  l_lexical :: string
  l_datatype :: string
  l_language :: string
  l_unit :: string
  l_si_value :: string
  l_si_unit :: string

definition is_non_finite_literal :: "string \<Rightarrow> bool" where
  "is_non_finite_literal v \<longleftrightarrow> go_lower (trim_space v) \<in>
     set [''nan'', ''+nan'', ''-nan'', ''inf'', ''+inf'', ''-inf'', ''infinity'', ''+infinity'', ''-infinity'']"

subsection \<open>Decimals\<close>

fun drop_sign :: "string \<Rightarrow> string" where
  "drop_sign [] = []"
| "drop_sign (c # s) = (if c = CHR ''+'' \<or> c = CHR ''-'' then s else c # s)"

fun negative_sign :: "string \<Rightarrow> bool" where
  "negative_sign [] = False"
| "negative_sign (c # s) = (c = CHR ''-'')"

definition all_digits :: "string \<Rightarrow> bool" where
  "all_digits s \<longleftrightarrow> s \<noteq> [] \<and> list_all is_digit s"

definition exponent_char :: "char \<Rightarrow> bool" where
  "exponent_char c \<longleftrightarrow> c = CHR ''e'' \<or> c = CHR ''E''"

text \<open>\<open>decimalRationalPattern\<close>, read from left to right.\<close>

fun exponent_part :: "string \<Rightarrow> bool" where
  "exponent_part [] = True"
| "exponent_part (c # s) = (exponent_char c \<and> all_digits (drop_sign s))"

definition decimal_pattern :: "string \<Rightarrow> bool" where
  "decimal_pattern s =
     (let t = drop_sign s; r = dropWhile is_digit t in
      if takeWhile is_digit t \<noteq> []
      then (case r of [] \<Rightarrow> True
            | c # u \<Rightarrow> if c = CHR ''.'' then exponent_part (dropWhile is_digit u) else exponent_part r)
      else (case r of [] \<Rightarrow> False
            | c # u \<Rightarrow> c = CHR ''.'' \<and> takeWhile is_digit u \<noteq> [] \<and> exponent_part (dropWhile is_digit u)))"

definition digit_value :: "char \<Rightarrow> int" where
  "digit_value c = of_char c - 48"

definition digits_value :: "string \<Rightarrow> int" where
  "digits_value s = foldl (\<lambda>n c. 10 * n + digit_value c) 0 s"

definition signed_value :: "string \<Rightarrow> int" where
  "signed_value s = (if negative_sign s then - digits_value (drop_sign s) else digits_value (drop_sign s))"

definition parse_decimal_rational :: "string \<Rightarrow> string + rat" where
  "parse_decimal_rational raw =
     (let value = trim_space raw in
      if value = [] \<or> is_non_finite_literal value \<or> \<not> decimal_pattern value
      then Inl ''is not a finite decimal''
      else
        let mantissa = takeWhile (\<lambda>c. \<not> exponent_char c) value;
            tail = dropWhile (\<lambda>c. \<not> exponent_char c) value;
            exponent = (if tail = [] then 0 else signed_value (tl tail)) in
        if exponent < -1000 \<or> exponent > 1000
        then Inl ''decimal exponent is outside the supported range''
        else
          let unsigned = drop_sign mantissa;
              whole = takeWhile (\<lambda>c. c \<noteq> CHR ''.'') unsigned;
              fraction = tl (dropWhile (\<lambda>c. c \<noteq> CHR ''.'') unsigned);
              numerator = (if negative_sign mantissa then - digits_value (whole @ fraction)
                           else digits_value (whole @ fraction));
              denominator = 10 ^ length fraction in
          Inr (if exponent > 0 then Fract (numerator * 10 ^ nat exponent) denominator
               else if exponent < 0 then Fract numerator (denominator * 10 ^ nat (- exponent))
               else Fract numerator denominator))"

subsection \<open>The registry\<close>

record unit_definition =
  u_dimension :: string
  u_si :: string
  u_factor :: string
  u_offset :: string

definition squared :: string where
  "squared = [CHR 0xC2, CHR 0xB2]"

definition degree :: string where
  "degree = [CHR 0xC2, CHR 0xB0]"

definition unit_entry :: "string \<Rightarrow> string \<Rightarrow> string \<Rightarrow> string \<Rightarrow> unit_definition" where
  "unit_entry d si factor offset = \<lparr>u_dimension = d, u_si = si, u_factor = factor, u_offset = offset\<rparr>"

definition unit_registry_v1 :: "(string \<times> unit_definition) list" where
  "unit_registry_v1 =
     [(''1'', unit_entry ''dimensionless'' ''1'' ''1'' ''0''),
      (''m'', unit_entry ''length'' ''m'' ''1'' ''0''),
      (''mm'', unit_entry ''length'' ''m'' ''0.001'' ''0''),
      (''cm'', unit_entry ''length'' ''m'' ''0.01'' ''0''),
      (''km'', unit_entry ''length'' ''m'' ''1000'' ''0''),
      (''m2'', unit_entry ''area'' ''m2'' ''1'' ''0''),
      (''m'' @ squared, unit_entry ''area'' ''m2'' ''1'' ''0''),
      (''mm2'', unit_entry ''area'' ''m2'' ''0.000001'' ''0''),
      (''mm'' @ squared, unit_entry ''area'' ''m2'' ''0.000001'' ''0''),
      (''cm2'', unit_entry ''area'' ''m2'' ''0.0001'' ''0''),
      (''cm'' @ squared, unit_entry ''area'' ''m2'' ''0.0001'' ''0''),
      (''km2'', unit_entry ''area'' ''m2'' ''1000000'' ''0''),
      (''km'' @ squared, unit_entry ''area'' ''m2'' ''1000000'' ''0''),
      (''kg'', unit_entry ''mass'' ''kg'' ''1'' ''0''),
      (''g'', unit_entry ''mass'' ''kg'' ''0.001'' ''0''),
      (''s'', unit_entry ''time'' ''s'' ''1'' ''0''),
      (''ms'', unit_entry ''time'' ''s'' ''0.001'' ''0''),
      (''min'', unit_entry ''time'' ''s'' ''60'' ''0''),
      (''h'', unit_entry ''time'' ''s'' ''3600'' ''0''),
      (''m/s'', unit_entry ''speed'' ''m/s'' ''1'' ''0''),
      (''km/h'', unit_entry ''speed'' ''m/s'' ''5/18'' ''0''),
      (''Pa'', unit_entry ''pressure'' ''Pa'' ''1'' ''0''),
      (''kPa'', unit_entry ''pressure'' ''Pa'' ''1000'' ''0''),
      (''MPa'', unit_entry ''pressure'' ''Pa'' ''1000000'' ''0''),
      (''rad'', unit_entry ''angle'' ''rad'' ''1'' ''0''),
      (''deg'', unit_entry ''angle'' ''rad'' ''0.017453292519943295'' ''0''),
      (''K'', unit_entry ''temperature'' ''K'' ''1'' ''0''),
      (''C'', unit_entry ''temperature'' ''K'' ''1'' ''273.15''),
      (degree @ ''C'', unit_entry ''temperature'' ''K'' ''1'' ''273.15'')]"

definition dimensioned_knowledge_datatypes :: "(string \<times> string) list" where
  "dimensioned_knowledge_datatypes =
     [(''aetherops:length'', ''length''), (''aetherops:area'', ''area''), (''aetherops:mass'', ''mass''),
      (''aetherops:time'', ''time''), (''aetherops:speed'', ''speed''), (''aetherops:pressure'', ''pressure''),
      (''aetherops:angle'', ''angle''), (''aetherops:temperature'', ''temperature'')]"

text \<open>
  A registry text is a fraction of two numerals or a decimal; the code panics on anything else,
  which no entry is (\<open>registry_texts\<close> below).
\<close>

definition registry_rational :: "string \<Rightarrow> rat option" where
  "registry_rational v =
     (let a = takeWhile (\<lambda>c. c \<noteq> CHR ''/'') v; b = dropWhile (\<lambda>c. c \<noteq> CHR ''/'') v in
      if b \<noteq> [] then (if all_digits a \<and> all_digits (tl b) \<and> digits_value (tl b) \<noteq> 0
                      then Some (Fract (digits_value a) (digits_value (tl b))) else None)
      else case parse_decimal_rational v of Inl e \<Rightarrow> None | Inr x \<Rightarrow> Some x)"

definition si_projection :: "unit_definition \<Rightarrow> rat \<Rightarrow> rat" where
  "si_projection u x = x * the (registry_rational (u_factor u)) + the (registry_rational (u_offset u))"

subsection \<open>The canonical projection\<close>

fun decimal_text :: "nat \<Rightarrow> string" where
  "decimal_text n = (if n < 10 then [digit_char n] else decimal_text (n div 10) @ [digit_char (n mod 10)])"

declare decimal_text.simps [simp del]

text \<open>\<open>big.Rat.FloatString\<close>: rounded to nearest, halves away from zero.\<close>

definition float_string :: "nat \<Rightarrow> rat \<Rightarrow> string" where
  "float_string prec x =
     (let (a, b) = quotient_of x; n = nat \<bar>a\<bar>; d = nat b;
          q = n div d; scaled = n mod d * 10 ^ prec; r = scaled div d; r2 = 2 * (scaled mod d);
          up = (if d \<le> r2 then r + 1 else r);
          q1 = (if up \<ge> 10 ^ prec then q + 1 else q);
          r1 = (if up \<ge> 10 ^ prec then up - 10 ^ prec else up) in
      (if a < 0 then ''-'' else []) @ decimal_text q1 @
      (if prec > 0 then ''.'' @ pad prec r1 else []))"

definition trim_right :: "char \<Rightarrow> string \<Rightarrow> string" where
  "trim_right c s = rev (dropWhile (\<lambda>x. x = c) (rev s))"

definition canonical_unit_projection_v1 :: "rat \<Rightarrow> string" where
  "canonical_unit_projection_v1 x =
     (let t = trim_right (CHR ''.'') (trim_right (CHR ''0'') (float_string 18 x)) in
      if t = [] \<or> t = ''-0'' then ''0'' else t)"

subsection \<open>Validation and canonicalization\<close>

definition last_separator :: "string \<Rightarrow> string" where
  "last_separator s = rev (takeWhile (\<lambda>c. c \<noteq> CHR ''#'' \<and> c \<noteq> CHR '':'') (rev s))"

definition is_numeric_knowledge_datatype :: "string \<Rightarrow> bool" where
  "is_numeric_knowledge_datatype d \<longleftrightarrow> last_separator (go_lower (trim_space d)) \<in>
     set [''decimal'', ''double'', ''float'', ''integer'', ''int'', ''long'', ''short'', ''byte'',
       ''nonnegativeinteger'', ''nonpositiveinteger'', ''positiveinteger'', ''negativeinteger'',
       ''unsignedlong'', ''unsignedint'', ''unsignedshort'', ''unsignedbyte'']"

definition UnitRegistryVersionV1 :: string where
  "UnitRegistryVersionV1 = ''unit_registry_v1''"

definition CurrentUnitRegistryVersion :: string where
  "CurrentUnitRegistryVersion = UnitRegistryVersionV1"

definition validate_knowledge_unit_projection :: "typed_literal \<Rightarrow> string \<Rightarrow> string option" where
  "validate_knowledge_unit_projection l version =
     (if version \<noteq> UnitRegistryVersionV1 then Some ''unsupported knowledge unit registry''
      else if is_non_finite_literal (l_lexical l) \<or> is_non_finite_literal (l_si_value l)
      then Some ''knowledge literal cannot be NaN or infinite''
      else
        let dimensioned = map_of dimensioned_knowledge_datatypes (l_datatype l) in
        if l_unit l = []
        then (if dimensioned \<noteq> None then Some ''dimensioned datatype requires a unit''
              else if l_si_value l \<noteq> [] \<or> l_si_unit l \<noteq> []
              then Some ''unitless knowledge literal cannot contain an SI projection''
              else if is_numeric_knowledge_datatype (l_datatype l)
              then (case parse_decimal_rational (l_lexical l) of
                      Inl e \<Rightarrow> Some (''numeric knowledge literal: '' @ e) | Inr x \<Rightarrow> None)
              else None)
        else case map_of unit_registry_v1 (l_unit l) of
          None \<Rightarrow> Some ''unsupported knowledge unit''
        | Some u \<Rightarrow>
            if dimensioned = None \<and> \<not> is_numeric_knowledge_datatype (l_datatype l)
            then Some ''unit-bearing datatype is not numeric or dimensioned''
            else if dimensioned \<noteq> None \<and> dimensioned \<noteq> Some (u_dimension u)
            then Some ''unit has another dimension''
            else if l_si_value l = [] \<or> l_si_unit l = []
            then Some ''unit-bearing knowledge literal requires an SI value and unit''
            else if l_si_unit l \<noteq> u_si u then Some ''knowledge literal SI unit is wrong''
            else case parse_decimal_rational (l_lexical l) of
              Inl e \<Rightarrow> Some (''knowledge literal source value: '' @ e)
            | Inr source \<Rightarrow>
                (case parse_decimal_rational (l_si_value l) of
                   Inl e \<Rightarrow> Some (''knowledge literal SI value: '' @ e)
                 | Inr actual \<Rightarrow>
                     let expected = si_projection u source in
                     if expected \<noteq> actual \<and> trim_space (l_si_value l) \<noteq> canonical_unit_projection_v1 expected
                     then Some ''knowledge literal SI projection does not equal deterministic conversion''
                     else None))"

definition canonicalize_literal :: "typed_literal \<Rightarrow> string + typed_literal" where
  "canonicalize_literal l =
     (if l_unit l = [] then Inr l
      else case map_of unit_registry_v1 (l_unit l) of
        None \<Rightarrow> Inl ''unsupported knowledge unit''
      | Some u \<Rightarrow>
          if l_si_unit l \<noteq> [] \<and> l_si_unit l \<noteq> u_si u then Inl ''knowledge literal SI unit is wrong''
          else case parse_decimal_rational (l_lexical l) of
            Inl e \<Rightarrow> Inl (''knowledge literal source value: '' @ e)
          | Inr source \<Rightarrow>
              Inr (l\<lparr>l_si_value := canonical_unit_projection_v1 (si_projection u source), l_si_unit := u_si u\<rparr>))"

end
