(* ===== verification/Report_Contract.thy ===== *)
theory Report_Contract
  imports Evidence_Contract Knowledge_Units
begin

section \<open>The report manifest\<close>

text \<open>
  \<^verbatim>\<open>src/internal/core/types.go\<close> and \<^verbatim>\<open>src/internal/research/validation.go\<close>: the knowledge patch, the
  engineering assessment and the report with their validators. \<open>instant\<close> reads an RFC 3339 text as
  nanoseconds since the year one, as \<^verbatim>\<open>time.Parse\<close> does.
\<close>

subsection \<open>The knowledge patch\<close>

record time_range =
  tr_start :: string
  tr_end :: string

record evidence_ref =
  er_kind :: string
  er_source :: string
  er_claim :: string
  er_blob :: string
  er_start :: int
  er_end :: int
  er_span :: string
  er_artifact :: string
  er_pointer :: string
  er_row :: int
  er_value :: string

record knowledge_alias =
  al_value :: string
  al_language :: string

record knowledge_entity =
  ke_id :: string
  ke_type :: string
  ke_name :: string
  ke_aliases :: "knowledge_alias list option"

record qualifier =
  q_predicate :: string
  q_entity :: string
  q_literal :: "typed_literal option"

record assertion =
  as_id :: string
  as_subject :: string
  as_predicate :: string
  as_entity :: string
  as_literal :: "typed_literal option"
  as_qualifiers :: "qualifier list option"
  as_time :: "time_range option"
  as_evidence :: "evidence_ref list option"

record knowledge_patch =
  kp_schema :: string
  kp_units :: string
  kp_entities :: "knowledge_entity list option"
  kp_assertions :: "assertion list option"

definition validate_literal :: "typed_literal \<Rightarrow> string \<Rightarrow> check" where
  "validate_literal l version =
     and_check (require (\<not> blank (l_lexical l) \<and> \<not> blank (l_datatype l))
       ''knowledge literal lexical form and datatype are required'')
     (validate_knowledge_unit_projection l version)"

definition validate_time_range :: "(string \<Rightarrow> int option) \<Rightarrow> time_range \<Rightarrow> check" where
  "validate_time_range instant r =
     and_check (require (\<not> (tr_start r = [] \<and> tr_end r = [])) ''knowledge time range cannot have two open boundaries'')
     (and_check (require (tr_start r = [] \<or> instant (tr_start r) \<noteq> None) ''knowledge time range start must be RFC3339'')
     (and_check (require (tr_end r = [] \<or> instant (tr_end r) \<noteq> None) ''knowledge time range end must be RFC3339'')
     (let a = (if tr_start r = [] then 0 else the (instant (tr_start r)));
          b = (if tr_end r = [] then 0 else the (instant (tr_end r)))
      in require (\<not> (a \<noteq> 0 \<and> b \<noteq> 0 \<and> a > b)) ''knowledge time range starts after it ends'')))"

definition validate_evidence_ref :: "evidence_ref \<Rightarrow> check" where
  "validate_evidence_ref r =
     (if er_kind r = ''text'' then
        and_check (require (\<not> blank (er_source r) \<and> \<not> blank (er_claim r)) ''text knowledge evidence requires source and claim ids'')
        (and_check (require (valid_hash (er_blob r) \<and> valid_hash (er_span r)) ''text knowledge evidence requires valid blob and span hashes'')
        (and_check (require (\<not> (er_start r < 0 \<or> er_end r \<le> er_start r)) ''text knowledge evidence requires a non-empty byte span'')
          (require (er_artifact r = [] \<and> er_pointer r = [] \<and> er_row r = 0 \<and> er_value r = [])
            ''text knowledge evidence contains engineering fields'')))
      else if er_kind r = ''engineering'' then
        and_check (require (er_source r = [] \<and> er_claim r = [] \<and> er_blob r = [] \<and> er_start r = 0 \<and> er_end r = 0 \<and> er_span r = [])
          ''engineering knowledge evidence contains text fields'')
        (and_check (require (valid_hash (er_artifact r) \<and> valid_hash (er_value r))
          ''engineering knowledge evidence requires valid artifact and value hashes'')
        (and_check (require (\<not> ((er_pointer r \<noteq> []) = (er_row r > 0) \<or> er_row r < 0))
          ''engineering knowledge evidence requires exactly one JSON pointer or CSV row'')
          (require (er_pointer r = [] \<or> take 1 (er_pointer r) = ''/'')
            ''engineering evidence JSON pointer must start with a slash'')))
      else Some ''unsupported knowledge evidence kind'')"

definition validate_knowledge_value :: "string \<Rightarrow> typed_literal option \<Rightarrow> string list \<Rightarrow> string \<Rightarrow> check" where
  "validate_knowledge_value entity literal entities version =
     and_check (require ((\<not> blank entity) \<noteq> (literal \<noteq> None)) ''exactly one entity or typed literal is required'')
     (case literal of
        None \<Rightarrow> require (entity \<in> set entities) ''unknown entity''
      | Some l \<Rightarrow> validate_literal l version)"

definition alias_key :: "knowledge_alias \<Rightarrow> string" where
  "alias_key a = go_lower (trim_space (al_language a)) @ CHR 0x00 # al_value a"

definition validate_entity :: "knowledge_entity \<Rightarrow> check" where
  "validate_entity e =
     and_check (require (\<not> blank (ke_id e) \<and> \<not> blank (ke_type e) \<and> \<not> blank (ke_name e))
       ''knowledge entities require id, type, and canonical name'')
     (require (ke_aliases e \<noteq> None) ''knowledge entity omits aliases'')"

definition validate_aliases :: "knowledge_entity \<Rightarrow> check" where
  "validate_aliases e =
     check_unique (\<lambda>a. require (\<not> blank (al_value a)) ''knowledge entity has an empty alias'')
       alias_key ''knowledge entity repeats alias'' (\<lambda>a. None) [] (elems (ke_aliases e))"

definition validate_assertion :: "(string \<Rightarrow> int option) \<Rightarrow> string list \<Rightarrow> string \<Rightarrow> assertion \<Rightarrow> check" where
  "validate_assertion instant entities version a =
     and_check (require (as_subject a \<in> set entities) ''knowledge assertion references unknown subject'')
     (and_check (validate_knowledge_value (as_entity a) (as_literal a) entities version)
     (and_check (require (as_qualifiers a \<noteq> None \<and> as_evidence a \<noteq> None) ''knowledge assertion omits qualifiers or evidence'')
     (and_check (check_each
        (\<lambda>q. and_check (require (\<not> blank (q_predicate q)) ''knowledge assertion has an empty qualifier predicate'')
           (validate_knowledge_value (q_entity q) (q_literal q) entities version)) (elems (as_qualifiers a)))
     (and_check (case as_time a of None \<Rightarrow> None | Some r \<Rightarrow> validate_time_range instant r)
     (and_check (require (elems (as_evidence a) \<noteq> []) ''knowledge assertion has no evidence'')
       (check_each validate_evidence_ref (elems (as_evidence a))))))))"

definition validate_patch_structure :: "(string \<Rightarrow> int option) \<Rightarrow> knowledge_patch \<Rightarrow> check" where
  "validate_patch_structure instant p =
     and_check (require (kp_schema p = ''knowledge_patch_v1'') ''unsupported knowledge patch schema'')
     (and_check (require (kp_units p = CurrentUnitRegistryVersion) ''unsupported knowledge unit registry'')
     (and_check (require (kp_entities p \<noteq> None \<and> kp_assertions p \<noteq> None) ''knowledge patch omits a required array field'')
     (and_check (check_unique validate_entity ke_id ''duplicate knowledge entity id'' validate_aliases []
       (elems (kp_entities p)))
     (check_unique
       (\<lambda>a. require (\<not> blank (as_id a) \<and> \<not> blank (as_subject a) \<and> \<not> blank (as_predicate a))
          ''knowledge assertions require id, subject, and predicate'')
       as_id ''duplicate knowledge assertion id''
       (validate_assertion instant (map ke_id (elems (kp_entities p))) (kp_units p)) []
       (elems (kp_assertions p))))))"

text \<open>
  The lineage of the collected evidence: the loop over the bundles refuses a repeated source or
  claim, so the two maps are the first entries of the lists.
\<close>

definition all_sources :: "evidence_bundle list \<Rightarrow> evidence_source list" where
  "all_sources bs = concat (map (\<lambda>b. elems (eb_sources b)) bs)"

definition all_claims :: "evidence_bundle list \<Rightarrow> evidence_claim list" where
  "all_claims bs = concat (map (\<lambda>b. elems (eb_claims b)) bs)"

fun check_lineage :: "string list \<Rightarrow> string list \<Rightarrow> evidence_bundle list \<Rightarrow> check" where
  "check_lineage sources claims [] = None"
| "check_lineage sources claims (b # bs) =
     and_check (check_unique (\<lambda>x. None) es_id ''knowledge evidence source id is ambiguous'' (\<lambda>x. None)
       sources (elems (eb_sources b)))
     (and_check (check_unique (\<lambda>c. None) ec_id ''knowledge evidence claim id is ambiguous'' (\<lambda>c. None)
       claims (elems (eb_claims b)))
     (check_lineage (map es_id (elems (eb_sources b)) @ sources) (map ec_id (elems (eb_claims b)) @ claims) bs))"

definition bind_evidence_ref :: "evidence_bundle list \<Rightarrow> string list \<Rightarrow> evidence_ref \<Rightarrow> check" where
  "bind_evidence_ref bs artifacts r =
     (if er_kind r = ''text'' then
        and_check (require (case select_key es_id (all_sources bs) (er_source r) of
            None \<Rightarrow> False | Some x \<Rightarrow> es_blob x = er_blob r) ''unknown or mismatched text source'')
        (case select_key ec_id (all_claims bs) (er_claim r) of
           None \<Rightarrow> Some ''knowledge assertion references unknown claim''
         | Some c \<Rightarrow> require (er_source r \<in> set (ec_sources c)) ''claim is not supported by source'')
      else if er_kind r = ''engineering'' then
        require (er_artifact r \<in> set artifacts) ''engineering artifact absent from the report''
      else None)"

definition validate_patch :: "(string \<Rightarrow> int option) \<Rightarrow> knowledge_patch \<Rightarrow> evidence_bundle list \<Rightarrow> string list \<Rightarrow> check" where
  "validate_patch instant p bs artifacts =
     and_check (validate_patch_structure instant p)
     (and_check (check_lineage [] [] bs)
     (check_each (\<lambda>a. check_each (bind_evidence_ref bs artifacts) (elems (as_evidence a))) (elems (kp_assertions p))))"

subsection \<open>The engineering assessment\<close>

text \<open>A Go \<^verbatim>\<open>float64\<close> as far as the checks look at it: a number, or one of the three other values.\<close>

datatype go_float = Number rat | PosInf | NegInf | NaN

fun float_le :: "go_float \<Rightarrow> go_float \<Rightarrow> bool" where
  "float_le NaN y = False"
| "float_le x NaN = False"
| "float_le NegInf y = True"
| "float_le x PosInf = True"
| "float_le (Number a) (Number b) = (a \<le> b)"
| "float_le x y = False"

definition float_finite :: "go_float \<Rightarrow> bool" where
  "float_finite x \<longleftrightarrow> x \<noteq> NaN \<and> x \<noteq> PosInf \<and> x \<noteq> NegInf"

record acceptance_check =
  ac_id :: string
  ac_class :: string
  ac_passed :: bool
  ac_detail :: string
  ac_hashes :: "string list"

record su2_case_evidence =
  sc_job :: string
  sc_artifact :: string
  sc_receipt :: string
  sc_mesh_size :: go_float
  sc_nodes :: int
  sc_volume_elements :: int
  sc_airfoil_elements :: int
  sc_cl :: go_float
  sc_cd :: go_float
  sc_hashes :: "string list"

record engineering_assessment =
  ea_profile :: string
  ea_outcome :: string
  ea_reason :: string
  ea_checks :: "acceptance_check list"
  ea_cases :: "su2_case_evidence list"

definition SU2MeshStudyProfileV1 :: string where
  "SU2MeshStudyProfileV1 = ''su2_naca0012_grid_sensitivity/v1''"

definition case_fields_ok :: "su2_case_evidence \<Rightarrow> bool" where
  "case_fields_ok c \<longleftrightarrow> \<not> (blank (sc_job c) \<or> \<not> is_receipt_artifact_id (sc_artifact c) \<or> \<not> valid_hash (sc_receipt c) \<or>
     float_le (sc_mesh_size c) (Number 0) \<or> sc_nodes c \<le> 0 \<or> sc_volume_elements c \<le> 0 \<or> sc_airfoil_elements c \<le> 0 \<or>
     \<not> float_finite (sc_cl c) \<or> \<not> float_finite (sc_cd c) \<or> sc_hashes c = [] \<or> sc_receipt c \<notin> set (sc_hashes c))"

text \<open>The loop over the cases; \<open>prev\<close> is the mesh size of the case before.\<close>

fun check_cases :: "go_float option \<Rightarrow> string list \<Rightarrow> string list \<Rightarrow> su2_case_evidence list \<Rightarrow> check" where
  "check_cases prev jobs rs [] = None"
| "check_cases prev jobs rs (c # cs) =
     and_check (require (case_fields_ok c) ''engineering SU2 case evidence is invalid'')
     (and_check (case prev of None \<Rightarrow> None
       | Some m \<Rightarrow> require (\<not> float_le m (sc_mesh_size c)) ''engineering SU2 cases are not ordered coarse to fine'')
     (and_check (require (sc_job c \<notin> set jobs) ''duplicate engineering SU2 job'')
     (and_check (require (sc_receipt c \<notin> set rs) ''duplicate engineering SU2 receipt'')
     (and_check (check_unique (\<lambda>h. require (valid_hash h) ''engineering SU2 case contains an invalid artifact hash'')
       (\<lambda>h. h) ''engineering SU2 case repeats an artifact hash'' (\<lambda>h. None) [] (sc_hashes c))
     (check_cases (Some (sc_mesh_size c)) (sc_job c # jobs) (sc_receipt c # rs) cs)))))"

definition failed_conclusion :: "acceptance_check list \<Rightarrow> bool" where
  "failed_conclusion cs \<longleftrightarrow> (\<exists>c \<in> set cs. ac_class c = ''conclusion'' \<and> \<not> ac_passed c)"

definition validate_assessment :: "engineering_assessment \<Rightarrow> check" where
  "validate_assessment a =
     and_check (require (ea_profile a = SU2MeshStudyProfileV1 \<and> ea_outcome a \<in> {''confirmed'', ''inconclusive''} \<and>
         \<not> blank (ea_reason a) \<and> ea_checks a \<noteq> [] \<and> length (ea_cases a) \<ge> 3) ''engineering assessment is incomplete'')
     (and_check (check_cases None [] [] (ea_cases a))
     (and_check (check_unique
        (\<lambda>c. require (\<not> blank (ac_id c) \<and> \<not> blank (ac_detail c) \<and> ac_class c \<in> {''hard'', ''conclusion''})
           ''engineering acceptance check is incomplete'')
        ac_id ''duplicate engineering acceptance check''
        (\<lambda>c. and_check (require (\<not> (ac_class c = ''hard'' \<and> \<not> ac_passed c)) ''hard engineering acceptance check did not pass'')
          (check_each (\<lambda>h. and_check (require (valid_hash h) ''engineering acceptance check has an invalid evidence hash'')
             (require (h \<in> set (map sc_receipt (ea_cases a))) ''engineering acceptance check references a non-case receipt''))
             (ac_hashes c)))
        [] (ea_checks a))
     (require (\<not> (ea_outcome a = ''confirmed'' \<and> failed_conclusion (ea_checks a) \<or>
                    ea_outcome a = ''inconclusive'' \<and> \<not> failed_conclusion (ea_checks a)))
       ''engineering outcome does not match its conclusion gates'')))"

subsection \<open>The report\<close>

record citation =
  ci_marker :: string
  ci_sources :: "string list"
  ci_claims :: "string list"

record report_manifest =
  rm_title :: string
  rm_answer :: string
  rm_citations :: "citation list option"
  rm_evidence :: "string list option"
  rm_artifacts :: "string list option"
  rm_uncertainties :: "string list option"
  rm_patch :: knowledge_patch
  rm_assessment :: "engineering_assessment option"

definition validate_report_manifest :: "(string \<Rightarrow> int option) \<Rightarrow> report_manifest \<Rightarrow> check" where
  "validate_report_manifest instant r =
     and_check (require (\<not> blank (rm_title r) \<and> \<not> blank (rm_answer r)) ''report title and answer markdown are required'')
     (and_check (require (rm_citations r \<noteq> None \<and> rm_evidence r \<noteq> None \<and> rm_artifacts r \<noteq> None \<and> rm_uncertainties r \<noteq> None)
       ''report omits a required array field'')
     (and_check (check_unique
        (\<lambda>c. require (\<not> blank (ci_marker c)) ''report citation marker is required'')
        ci_marker ''duplicate report citation marker''
        (\<lambda>c. and_check (require (ci_sources c \<noteq> [] \<and> ci_claims c \<noteq> []) ''report citation must include source and claim ids'')
          (and_check (check_each (\<lambda>i. require (\<not> blank i) ''report citation has an empty source id'') (ci_sources c))
             (check_each (\<lambda>i. require (\<not> blank i) ''report citation has an empty claim id'') (ci_claims c))))
        [] (elems (rm_citations r)))
     (and_check (check_each (\<lambda>h. require (\<not> blank h) ''report artifact hashes cannot contain empty values'') (elems (rm_artifacts r)))
     (and_check (validate_patch_structure instant (rm_patch r))
       (case rm_assessment r of None \<Rightarrow> None | Some a \<Rightarrow> validate_assessment a)))))"

text \<open>The loop over the bundles that fills the maps of \<open>ReportManifest.Validate\<close>.\<close>

fun check_bundles :: "string list \<Rightarrow> string list \<Rightarrow> string list \<Rightarrow> evidence_bundle list \<Rightarrow> check" where
  "check_bundles works sources claims [] = None"
| "check_bundles works sources claims (b # bs) =
     and_check (require (eb_workstream b \<notin> set works) ''duplicate evidence workstream id'')
     (and_check (check_unique (\<lambda>x. None) es_id ''duplicate evidence source id across workstreams'' (\<lambda>x. None)
       sources (elems (eb_sources b)))
     (and_check (check_unique (\<lambda>c. None) ec_id ''duplicate evidence claim id across workstreams'' (\<lambda>c. None)
       claims (elems (eb_claims b)))
     (check_bundles (eb_workstream b # works) (map es_id (elems (eb_sources b)) @ sources)
       (map ec_id (elems (eb_claims b)) @ claims) bs)))"

definition check_citation :: "evidence_bundle list \<Rightarrow> citation \<Rightarrow> check" where
  "check_citation bs c =
     and_check (check_each (\<lambda>i. require (i \<in> es_id ` set (all_sources bs)) ''citation references unknown source'') (ci_sources c))
     (check_each (\<lambda>i.
        case select_key ec_id (all_claims bs) i of
          None \<Rightarrow> Some ''citation references unknown claim''
        | Some k \<Rightarrow> require (\<exists>x \<in> set (ci_sources c). x \<in> set (ec_sources k))
            ''citation does not include a source supporting claim'') (ci_claims c))"

definition report_validate :: "(string \<Rightarrow> int option) \<Rightarrow> report_manifest \<Rightarrow> evidence_bundle list \<Rightarrow> check" where
  "report_validate instant r bs =
     and_check (require (\<not> blank (rm_title r) \<and> \<not> blank (rm_answer r)) ''report title and answer are required'')
     (and_check (check_bundles [] [] [] bs)
     (and_check (require (elems (rm_evidence r) \<noteq> []) ''report has no evidence bundle references'')
     (and_check (require (length (elems (rm_evidence r)) = length bs) ''report does not reference every collected evidence bundle'')
     (and_check (check_unique (\<lambda>i. require (i \<in> eb_workstream ` set bs) ''report references unknown evidence bundle'')
        (\<lambda>i. i) ''report repeats evidence bundle'' (\<lambda>i. None) [] (elems (rm_evidence r)))
     (and_check (require (elems (rm_citations r) \<noteq> []) ''report has no citations'')
     (and_check (check_unique
        (\<lambda>c. require (ci_marker c \<noteq> [] \<and> ci_sources c \<noteq> [] \<and> ci_claims c \<noteq> [])
           ''each report citation requires marker, sources, and claims'')
        ci_marker ''duplicate citation marker''
        (\<lambda>c. and_check (require (contains_text (rm_answer r) (ci_marker c)) ''citation marker does not appear in the report answer'')
           (check_citation bs c)) [] (elems (rm_citations r)))
     (and_check (check_each (\<lambda>h. require (valid_hash h) ''report contains an invalid artifact hash'') (elems (rm_artifacts r)))
     (and_check (validate_patch instant (rm_patch r) bs (elems (rm_artifacts r)))
       (case rm_assessment r of None \<Rightarrow> None | Some a \<Rightarrow> validate_assessment a)))))))))"

end
