(* ===== verification/Unit_Properties.thy ===== *)
theory Unit_Properties
  imports Knowledge_Units
begin

section \<open>Exactness of unit projections\<close>

text \<open>
  The decimal texts the projection writes are read back by the parser as the number they were
  written for; from this the round trip of canonicalization and the bound on every accepted
  projection.
\<close>

subsection \<open>Digits\<close>

lemma digit_char_all: "\<forall>n \<in> set [0, 1, 2, 3, 4, 5, 6, 7, 8, 9 :: nat]. is_digit (digit_char n) \<and> digit_value (digit_char n) = int n"
  by code_simp

lemma below_ten: "n < 10 \<Longrightarrow> n \<in> set [0, 1, 2, 3, 4, 5, 6, 7, 8, 9 :: nat]"
  by simp arith

lemma digit_char_digit [simp]: "n < 10 \<Longrightarrow> is_digit (digit_char n)"
  using digit_char_all below_ten by blast

lemma digit_value_char [simp]: "n < 10 \<Longrightarrow> digit_value (digit_char n) = int n"
  using digit_char_all below_ten by blast

lemma digit_chars: "map digit_char [0, 1, 2, 3, 4, 5, 6, 7, 8, 9] = ''0123456789''"
  by code_simp

lemma is_digit_enum: "is_digit c \<Longrightarrow> c \<in> set ''0123456789''"
proof -
  assume "is_digit c"
  then have b: "48 \<le> (of_char c :: nat)" "(of_char c :: nat) \<le> 57"
    by (simp_all add: is_digit_def less_eq_char_def)
  then have "c = digit_char (of_char c - 48)" by (simp add: digit_char_def)
  moreover have "of_char c - 48 \<in> set [0, 1, 2, 3, 4, 5, 6, 7, 8, 9 :: nat]"
    by (rule below_ten) (use b in arith)
  ultimately have "c \<in> set (map digit_char [0, 1, 2, 3, 4, 5, 6, 7, 8, 9])" by (metis image_eqI set_map)
  then show ?thesis unfolding digit_chars .
qed

lemma foldl_digits:
  "foldl (\<lambda>n c. 10 * n + digit_value c) m t = m * 10 ^ length t + foldl (\<lambda>n c. 10 * n + digit_value c) 0 t"
proof (induction t rule: rev_induct)
  case (snoc c t)
  then show ?case by (simp add: distrib_left)
qed simp

lemma digits_value_append: "digits_value (s @ t) = digits_value s * 10 ^ length t + digits_value t"
  using foldl_digits [of "digits_value s" t] by (simp add: digits_value_def)

lemma digits_value_Nil [simp]: "digits_value [] = 0"
  by (simp add: digits_value_def)

lemma digits_value_single [simp]: "digits_value [c] = digit_value c"
  by (simp add: digits_value_def)

lemma decimal_text_digits: "list_all is_digit (decimal_text n) \<and> decimal_text n \<noteq> [] \<and> digits_value (decimal_text n) = int n"
proof (induction n rule: decimal_text.induct)
  case (1 n)
  show ?case
  proof (cases "n < 10")
    case True
    then show ?thesis by (simp add: decimal_text.simps [of n])
  next
    case False
    then have "digits_value (decimal_text n) = 10 * int (n div 10) + int (n mod 10)"
      using 1 by (simp add: decimal_text.simps [of n] digits_value_append)
    moreover have "10 * int (n div 10) + int (n mod 10) = int n"
      by (metis div_mult_mod_eq mult.commute of_nat_add of_nat_mult of_nat_numeral)
    ultimately show ?thesis using False 1 by (simp add: decimal_text.simps [of n])
  qed
qed

lemma pad_digits: "list_all is_digit (pad w n) \<and> digits_value (pad w n) = int (n mod 10 ^ w)"
proof (induction w n rule: pad.induct)
  case (2 w n)
  have "n mod 10 ^ Suc w = 10 * (n div 10 mod 10 ^ w) + n mod 10"
    by (simp add: mod_mult2_eq)
  with 2 show ?case by (simp add: pad.simps digits_value_append)
qed (simp add: pad.simps)

lemma not_digit [simp]: "\<not> is_digit (CHR ''.'')" "\<not> is_digit (CHR ''-'')" "\<not> is_digit (CHR ''+'')"
  "\<not> is_digit (CHR ''e'')" "\<not> is_digit (CHR ''E'')" "\<not> is_digit (CHR ''/'')"
  by (simp_all add: is_digit_def less_eq_char_def)

lemma digit_ne: "is_digit c \<Longrightarrow> c \<noteq> CHR ''.'' \<and> c \<noteq> CHR ''-'' \<and> c \<noteq> CHR ''+'' \<and> \<not> exponent_char c \<and> c \<noteq> CHR ''/''"
  by (auto simp: exponent_char_def)

subsection \<open>Plain numerals\<close>

definition numeral_char :: "char \<Rightarrow> bool" where
  "numeral_char c \<longleftrightarrow> is_digit c \<or> c = CHR ''.'' \<or> c = CHR ''-''"

lemma numeral_char_all: "\<forall>c \<in> set ''0123456789.-''. \<not> ascii_space c \<and> of_char c < (0x80 :: nat) \<and> lower_ascii c = c \<and> \<not> exponent_char c"
  by code_simp

lemma numeral_char_plain:
  assumes "numeral_char c"
  shows "\<not> ascii_space c" "of_char c < (0x80 :: nat)" "lower_ascii c = c" "\<not> exponent_char c"
proof -
  have "c \<in> set ''0123456789.-''"
    using assms is_digit_enum [of c] by (auto simp: numeral_char_def)
  then show "\<not> ascii_space c" "of_char c < (0x80 :: nat)" "lower_ascii c = c" "\<not> exponent_char c"
    using numeral_char_all by blast+
qed

lemma last_space_plain:
  assumes "\<not> ascii_space a" and "of_char a < (0x80 :: nat)" shows "last_space (a # s) = 0"
proof -
  have "\<not> space2 b a" "\<not> space3 c b a" for b c
    using assms(2) by (auto simp: space2_def space3_def less_eq_char_def)
  with assms(1) show ?thesis by (cases "a # s" rule: last_space.cases) simp_all
qed

lemma trim_plain:
  assumes "list_all numeral_char s"
  shows "trim_space s = s"
proof -
  have "lead_space s = 0"
    using assms by (cases s) (auto simp: nonblank_Cons numeral_char_plain)
  moreover have "last_space (rev s) = 0"
  proof (cases "rev s")
    case (Cons a r)
    then have "a \<in> set s" by (metis list.set_intros(1) set_rev)
    then have "numeral_char a" using assms by (auto simp: list_all_iff)
    then show ?thesis using Cons by (simp add: last_space_plain numeral_char_plain)
  qed simp
  ultimately show ?thesis unfolding trim_space_def by (simp only: skip_space_stop rev_rev_ident)
qed

lemma lower_plain: "list_all numeral_char s \<Longrightarrow> go_lower s = s"
proof (induction s)
  case (Cons c s)
  then have "of_char c < (0x80 :: nat)" by (simp add: numeral_char_plain)
  then have "c \<noteq> CHR 0xC4" "c \<noteq> CHR 0xE2" by auto
  with Cons show ?case by (simp add: numeral_char_plain)
qed simp

lemma plain_finite: "list_all numeral_char s \<Longrightarrow> list_ex is_digit s \<Longrightarrow> \<not> is_non_finite_literal s"
proof -
  assume "list_all numeral_char s" "list_ex is_digit s"
  moreover have "\<forall>m \<in> set [''nan'', ''+nan'', ''-nan'', ''inf'', ''+inf'', ''-inf'', ''infinity'', ''+infinity'', ''-infinity''].
      \<not> list_ex is_digit m"
    by code_simp
  ultimately show ?thesis unfolding is_non_finite_literal_def by (metis lower_plain trim_plain)
qed

lemma takeWhile_all: "list_all p s \<Longrightarrow> takeWhile p s = s" "list_all p s \<Longrightarrow> dropWhile p s = []"
  by (simp_all add: takeWhile_eq_all_conv list_all_iff)

lemma takeWhile_stop: "list_all p s \<Longrightarrow> \<not> p c \<Longrightarrow> takeWhile p (s @ c # t) = s"
  "list_all p s \<Longrightarrow> \<not> p c \<Longrightarrow> dropWhile p (s @ c # t) = c # t"
  by (induction s) auto

lemma list_all_mono: "list_all p s \<Longrightarrow> (\<And>x. p x \<Longrightarrow> q x) \<Longrightarrow> list_all q s"
  by (auto simp: list_all_iff)

definition plain_numeral :: "bool \<Rightarrow> string \<Rightarrow> string \<Rightarrow> string" where
  "plain_numeral neg q f = (if neg then ''-'' else []) @ q @ (if f = [] then [] else CHR ''.'' # f)"

lemma parse_plain:
  assumes q: "list_all is_digit q" "q \<noteq> []" and f: "list_all is_digit f"
  shows "parse_decimal_rational (plain_numeral neg q f) =
    Inr (Fract (if neg then - digits_value (q @ f) else digits_value (q @ f)) (10 ^ length f))"
proof -
  let ?s = "plain_numeral neg q f" and ?t = "q @ (if f = [] then [] else CHR ''.'' # f)"
  have dig: "list_all is_digit u \<Longrightarrow> list_all numeral_char u" for u
    by (auto simp: list_all_iff numeral_char_def)
  have plain: "list_all numeral_char ?s"
    using dig [OF q(1)] dig [OF f] by (simp add: plain_numeral_def numeral_char_def)
  obtain c q' where c: "q = c # q'" "is_digit c" using q by (cases q) auto
  have some: "list_ex is_digit ?s" using c by (simp add: plain_numeral_def)
  have sign: "drop_sign ?s = ?t" "negative_sign ?s = neg"
    using c digit_ne [OF c(2)] by (auto simp: plain_numeral_def)
  have tq: "takeWhile is_digit ?t = q" "dropWhile is_digit ?t = (if f = [] then [] else CHR ''.'' # f)"
    using q by (simp_all add: takeWhile_all takeWhile_stop)
  have pat: "decimal_pattern ?s"
    unfolding decimal_pattern_def Let_def sign(1) tq using q(2) f by (simp add: takeWhile_all)
  have noexp: "list_all (\<lambda>c. \<not> exponent_char c) ?s"
    using plain by (rule list_all_mono) (simp add: numeral_char_plain)
  have nodot: "list_all (\<lambda>c. c \<noteq> CHR ''.'') u" if "list_all is_digit u" for u
    using that by (rule list_all_mono) auto
  have dot: "takeWhile (\<lambda>c. c \<noteq> CHR ''.'') ?t = q" "tl (dropWhile (\<lambda>c. c \<noteq> CHR ''.'') ?t) = f"
    using nodot [OF q(1)] by (auto simp: takeWhile_all takeWhile_stop)
  have ne: "?s \<noteq> []" using c by (simp add: plain_numeral_def)
  have take: "takeWhile (\<lambda>c. \<not> exponent_char c) ?s = ?s" "dropWhile (\<lambda>c. \<not> exponent_char c) ?s = []"
    using noexp by (simp_all add: takeWhile_all)
  have len: "length (tl (dropWhile (\<lambda>c. c \<noteq> CHR ''.'') ?t)) = length f" using dot(2) by simp
  show ?thesis
    unfolding parse_decimal_rational_def Let_def trim_plain [OF plain] take sign dot
    using plain_finite [OF plain some] pat ne by simp
qed


subsection \<open>The projection as a number\<close>

text \<open>The multiple of 10^-18 the projection writes, and the texts of its two parts.\<close>

definition scaled_rounded :: "nat \<Rightarrow> rat \<Rightarrow> nat" where
  "scaled_rounded prec x =
     (let (a, b) = quotient_of x; n = nat \<bar>a\<bar>; d = nat b; scaled = n mod d * 10 ^ prec; r = scaled div d in
      n div d * 10 ^ prec + (if d \<le> 2 * (scaled mod d) then r + 1 else r))"

definition rounded_projection :: "rat \<Rightarrow> rat" where
  "rounded_projection x = (if x < 0 then - of_nat (scaled_rounded 18 x) else of_nat (scaled_rounded 18 x)) / 10 ^ 18"

lemma rounded_close: "\<bar>rounded_projection x - x\<bar> \<le> 1 / (2 * 10 ^ 18)"
proof -
  obtain a b where ab: "quotient_of x = (a, b)" by (cases "quotient_of x")
  have b: "b > 0" and x: "x = of_int a / of_int b"
    using quotient_of_denom_pos [OF ab] quotient_of_div [OF ab] by simp_all
  define n d where "n = nat \<bar>a\<bar>" and "d = nat b"
  define m where "m = n mod d * 10 ^ 18 mod d"
  define k where "k = scaled_rounded 18 x"
  have d: "d > 0" using b by (simp add: d_def)
  have k: "k = n div d * 10 ^ 18 + (if d \<le> 2 * m then n mod d * 10 ^ 18 div d + 1 else n mod d * 10 ^ 18 div d)"
    by (simp add: k_def scaled_rounded_def ab Let_def n_def d_def m_def)
  have "n * 10 ^ 18 = (n div d * d + n mod d) * 10 ^ 18" by simp
  also have "\<dots> = n div d * 10 ^ 18 * d + n mod d * 10 ^ 18" by (simp only: add_mult_distrib mult.assoc mult.commute mult.left_commute)
  also have "\<dots> = n div d * 10 ^ 18 * d + (n mod d * 10 ^ 18 div d * d + m)" by (simp add: m_def)
  finally have e: "int n * 10 ^ 18 = int (n div d * 10 ^ 18 + n mod d * 10 ^ 18 div d) * int d + int m"
    by (simp add: add_mult_distrib flip: of_nat_mult of_nat_add)
  have m: "int m < int d" using d by (simp add: m_def)
  have "2 * \<bar>int k * int d - int n * 10 ^ 18\<bar> \<le> int d"
    unfolding e using m by (auto simp: k algebra_simps)
  then have "\<bar>of_int (int k * int d - int n * 10 ^ 18)\<bar> * 2 \<le> (of_int (int d) :: rat)"
    by (metis (no_types, lifting) mult.commute of_int_abs of_int_le_iff of_int_mult of_int_numeral)
  then have close: "\<bar>rat_of_nat k / 10 ^ 18 - rat_of_nat n / rat_of_nat d\<bar> \<le> 1 / (2 * 10 ^ 18)"
    using d by (simp add: field_simps abs_le_iff)
  have q: "rat_of_nat n / rat_of_nat d = \<bar>x\<bar>"
    using b by (simp add: n_def d_def x)
  show ?thesis
  proof (cases "x < 0")
    case True
    then have "rounded_projection x - x = - (rat_of_nat k / 10 ^ 18 - \<bar>x\<bar>)"
      by (simp add: rounded_projection_def k_def)
    then show ?thesis using close unfolding q by (simp only: abs_minus_cancel)
  next
    case False
    then show ?thesis using close unfolding q by (simp add: rounded_projection_def k_def)
  qed
qed


lemma float_string_split:
  "prec > 0 \<Longrightarrow> float_string prec x = (if x < 0 then ''-'' else []) @ decimal_text (scaled_rounded prec x div 10 ^ prec) @
     CHR ''.'' # pad prec (scaled_rounded prec x mod 10 ^ prec)"
proof -
  assume prec: "prec > 0"
  obtain a b where ab: "quotient_of x = (a, b)" by (cases "quotient_of x")
  have b: "b > 0" and x: "x = of_int a / of_int b"
    using quotient_of_denom_pos [OF ab] quotient_of_div [OF ab] by simp_all
  define n d where "n = nat \<bar>a\<bar>" and "d = nat b"
  define r where "r = n mod d * 10 ^ prec div d"
  define up where "up = (if d \<le> 2 * (n mod d * 10 ^ prec mod d) then r + 1 else r)"
  have d: "d > 0" using b by (simp add: d_def)
  have "n mod d * 10 ^ prec < d * 10 ^ prec" using d by simp
  then have "r < 10 ^ prec" unfolding r_def by (simp add: less_mult_imp_div_less mult.commute)
  then have up: "up \<le> 10 ^ prec" by (simp add: up_def)
  have k: "scaled_rounded prec x = n div d * 10 ^ prec + up"
    by (simp add: scaled_rounded_def ab Let_def n_def d_def r_def up_def)
  have neg: "a < 0 \<longleftrightarrow> x < 0" using b by (simp add: x divide_less_0_iff)
  have fs: "float_string prec x = (if a < 0 then ''-'' else []) @
      decimal_text (if up \<ge> 10 ^ prec then n div d + 1 else n div d) @
      CHR ''.'' # pad prec (if up \<ge> 10 ^ prec then up - 10 ^ prec else up)"
    unfolding float_string_def ab Let_def prod.case n_def d_def r_def up_def using prec by (simp only: if_True append.simps)
  show ?thesis
  proof (cases "up = 10 ^ prec")
    case True
    then have "scaled_rounded prec x = (n div d + 1) * 10 ^ prec" using k by simp
    then have "scaled_rounded prec x div 10 ^ prec = n div d + 1" "scaled_rounded prec x mod 10 ^ prec = 0" by simp_all
    moreover have "float_string prec x = (if a < 0 then ''-'' else []) @ decimal_text (n div d + 1) @ CHR ''.'' # pad prec 0"
      unfolding fs using True by simp
    ultimately show ?thesis by (simp add: neg)
  next
    case False
    then have lt: "up < 10 ^ prec" using up by simp
    then have "scaled_rounded prec x div 10 ^ prec = n div d" "scaled_rounded prec x mod 10 ^ prec = up" using k by simp_all
    moreover have "float_string prec x = (if a < 0 then ''-'' else []) @ decimal_text (n div d) @ CHR ''.'' # pad prec up"
      unfolding fs using lt by simp
    ultimately show ?thesis by (simp add: neg)
  qed
qed

lemma trim_right_split: "\<exists>k. s = trim_right c s @ replicate k c"
proof -
  have "rev s = takeWhile (\<lambda>x. x = c) (rev s) @ dropWhile (\<lambda>x. x = c) (rev s)" by simp
  then have "s = trim_right c s @ rev (takeWhile (\<lambda>x. x = c) (rev s))"
    unfolding trim_right_def by (metis rev_append rev_rev_ident)
  moreover have "takeWhile (\<lambda>x. x = c) (rev s) = replicate (length (takeWhile (\<lambda>x. x = c) (rev s))) c"
    by (rule replicate_eqI) (auto dest: set_takeWhileD)
  ultimately show ?thesis by (metis rev_replicate)
qed

lemma trim_right_stop: "d \<noteq> c \<Longrightarrow> trim_right c (s @ d # t) = s @ d # trim_right c t"
proof -
  assume "d \<noteq> c"
  then have "dropWhile (\<lambda>x. x = c) (u @ d # rev s) = dropWhile (\<lambda>x. x = c) u @ d # rev s" for u
    by (induction u) auto
  then show ?thesis by (simp add: trim_right_def)
qed

lemma trim_right_last: "s = [] \<or> last s \<noteq> c \<Longrightarrow> trim_right c s = s"
  by (cases s rule: rev_cases) (auto simp: trim_right_def)

lemma digits_no_dot: "list_all is_digit s \<Longrightarrow> s = [] \<or> last s \<noteq> CHR ''.''"
  by (cases s rule: rev_cases) auto

lemma canonical_split:
  defines "q \<equiv> \<lambda>x. decimal_text (scaled_rounded 18 x div 10 ^ 18)"
    and "f \<equiv> \<lambda>x. trim_right (CHR ''0'') (pad 18 (scaled_rounded 18 x mod 10 ^ 18))"
  shows "canonical_unit_projection_v1 x = plain_numeral (x < 0 \<and> \<not> (q x = ''0'' \<and> f x = [])) (q x) (f x)"
proof -
  have q: "list_all is_digit (q x)" "q x \<noteq> []" using decimal_text_digits by (simp_all add: q_def)
  obtain k where k: "pad 18 (scaled_rounded 18 x mod 10 ^ 18) = f x @ replicate k (CHR ''0'')"
    using trim_right_split f_def by blast
  have f: "list_all is_digit (f x)" using pad_digits [of 18 "scaled_rounded 18 x mod 10 ^ 18"] k by simp
  let ?s = "(if x < 0 then ''-'' else []) @ q x"
  have fs: "float_string 18 x = ?s @ CHR ''.'' # pad 18 (scaled_rounded 18 x mod 10 ^ 18)"
    using float_string_split [of 18 x] by (simp add: q_def)
  have "trim_right (CHR ''0'') (float_string 18 x) = ?s @ CHR ''.'' # f x"
    unfolding fs using trim_right_stop [of "CHR ''.''" "CHR ''0''" ?s] by (simp add: f_def)
  moreover have "trim_right (CHR ''.'') (?s @ CHR ''.'' # f x) = ?s @ (if f x = [] then [] else CHR ''.'' # f x)"
  proof (cases "f x = []")
    case True
    have "trim_right (CHR ''.'') (?s @ [CHR ''.'']) = trim_right (CHR ''.'') ?s" by (simp add: trim_right_def)
    moreover have "last ?s \<noteq> CHR ''.''" using digits_no_dot [OF q(1)] q(2) by simp
    ultimately show ?thesis using True by (simp add: trim_right_last)
  next
    case False
    then have "last (?s @ CHR ''.'' # f x) \<noteq> CHR ''.''" using digits_no_dot [OF f] by simp
    then show ?thesis using False by (simp add: trim_right_last)
  qed
  ultimately have t: "trim_right (CHR ''.'') (trim_right (CHR ''0'') (float_string 18 x)) = plain_numeral (x < 0) (q x) (f x)"
    by (simp add: plain_numeral_def)
  have ne: "plain_numeral (x < 0) (q x) (f x) \<noteq> []" using q(2) by (simp add: plain_numeral_def)
  have zero: "plain_numeral (x < 0) (q x) (f x) = ''-0'' \<longleftrightarrow> x < 0 \<and> q x = ''0'' \<and> f x = []"
  proof
    assume h: "plain_numeral (x < 0) (q x) (f x) = ''-0''"
    obtain c q' where c: "q x = c # q'" "is_digit c" using q by (cases "q x") auto
    have "x < 0" using h c by (cases "x < 0") (auto simp: plain_numeral_def)
    with h c show "x < 0 \<and> q x = ''0'' \<and> f x = []"
      by (auto simp: plain_numeral_def append_eq_Cons_conv split: if_splits)
  qed (simp add: plain_numeral_def)
  show ?thesis
    unfolding canonical_unit_projection_v1_def Let_def t
    using ne zero by (auto simp: plain_numeral_def)
qed

lemma div_mod_int: "int (k div n) * int n + int (k mod n) = int k"
  by (metis div_mult_mod_eq of_nat_add of_nat_mult)

lemma parse_canonical: "parse_decimal_rational (canonical_unit_projection_v1 x) = Inr (rounded_projection x)"
proof -
  define k where "k = scaled_rounded 18 x"
  define q where "q = decimal_text (k div 10 ^ 18)"
  define f where "f = trim_right (CHR ''0'') (pad 18 (k mod 10 ^ 18))"
  define neg where "neg = (x < 0 \<and> \<not> (q = ''0'' \<and> f = []))"
  have q: "list_all is_digit q" "q \<noteq> []" "digits_value q = int (k div 10 ^ 18)"
    using decimal_text_digits by (simp_all add: q_def)
  obtain z where z: "pad 18 (k mod 10 ^ 18) = f @ replicate z (CHR ''0'')" using trim_right_split f_def by blast
  have f: "list_all is_digit f" using pad_digits [of 18 "k mod 10 ^ 18"] z by simp
  have len: "length f + z = 18" using arg_cong [OF z, of length] by simp
  have "digits_value (replicate z (CHR ''0'')) = 0"
  proof (induction z)
    case (Suc z)
    have "digits_value [CHR ''0''] = 0" by code_simp
    then show ?case using digits_value_append [of "[CHR ''0'']" "replicate z (CHR ''0'')"] Suc by simp
  qed simp
  then have fv: "digits_value f * 10 ^ z = int (k mod 10 ^ 18)"
    using pad_digits [of 18 "k mod 10 ^ 18"] z by (simp add: digits_value_append)
  have "digits_value (q @ f) * 10 ^ z = int (k div 10 ^ 18) * 10 ^ (length f + z) + digits_value f * 10 ^ z"
    by (simp add: digits_value_append q(3) algebra_simps power_add)
  also have "\<dots> = int k" unfolding len fv using div_mod_int [of k "10 ^ 18"] by simp
  finally have v: "digits_value (q @ f) * 10 ^ z = int k" .
  have zero: "q = ''0'' \<and> f = [] \<Longrightarrow> k = 0"
  proof -
    assume "q = ''0'' \<and> f = []"
    moreover have "digits_value ''0'' = 0" by code_simp
    ultimately show "k = 0" using v by simp
  qed
  have "Fract (digits_value (q @ f)) (10 ^ length f) = of_nat k / 10 ^ 18"
  proof -
    have "of_int (digits_value (q @ f)) * 10 ^ z = (of_nat k :: rat)"
      using arg_cong [OF v, of rat_of_int] by simp
    moreover have "(10::rat) ^ 18 = 10 ^ length f * 10 ^ z" by (simp add: len flip: power_add)
    ultimately have "of_nat k / (10::rat) ^ 18 = of_int (digits_value (q @ f)) * 10 ^ z / (10 ^ length f * 10 ^ z)"
      by (simp only:)
    then show ?thesis by (simp add: Fract_of_int_quotient)
  qed
  then have "Fract (if neg then - digits_value (q @ f) else digits_value (q @ f)) (10 ^ length f) = rounded_projection x"
    using zero by (auto simp: neg_def rounded_projection_def k_def simp flip: minus_rat)
  moreover have "canonical_unit_projection_v1 x = plain_numeral neg q f"
    using canonical_split [of x] by (simp add: neg_def q_def f_def k_def)
  ultimately show ?thesis using parse_plain [OF q(1,2) f, of neg] by simp
qed


lemma plain_numeral_text:
  assumes "list_all is_digit q" "q \<noteq> []" "list_all is_digit f"
  shows "list_all numeral_char (plain_numeral neg q f)" and "list_ex is_digit (plain_numeral neg q f)"
proof -
  have "list_all numeral_char q" "list_all numeral_char f"
    using assms by (auto simp: list_all_iff numeral_char_def)
  then show "list_all numeral_char (plain_numeral neg q f)" by (simp add: plain_numeral_def numeral_char_def)
  show "list_ex is_digit (plain_numeral neg q f)" using assms by (cases q) (simp_all add: plain_numeral_def)
qed

lemma canonical_text:
  "trim_space (canonical_unit_projection_v1 x) = canonical_unit_projection_v1 x"
  "\<not> is_non_finite_literal (canonical_unit_projection_v1 x)" "canonical_unit_projection_v1 x \<noteq> []"
proof -
  obtain z where "pad 18 (scaled_rounded 18 x mod 10 ^ 18) =
      trim_right (CHR ''0'') (pad 18 (scaled_rounded 18 x mod 10 ^ 18)) @ replicate z (CHR ''0'')"
    using trim_right_split by blast
  then have f: "list_all is_digit (trim_right (CHR ''0'') (pad 18 (scaled_rounded 18 x mod 10 ^ 18)))"
    using pad_digits by (metis list_all_append)
  note q = conjunct1 [OF decimal_text_digits] conjunct1 [OF conjunct2 [OF decimal_text_digits]]
  note plain = plain_numeral_text [OF q f]
  show "trim_space (canonical_unit_projection_v1 x) = canonical_unit_projection_v1 x"
    unfolding canonical_split by (rule trim_plain [OF plain(1)])
  show "\<not> is_non_finite_literal (canonical_unit_projection_v1 x)"
    unfolding canonical_split by (rule plain_finite [OF plain])
  show "canonical_unit_projection_v1 x \<noteq> []"
    using q(2) by (simp add: canonical_split plain_numeral_def)
qed

lemma takeWhile_some: "takeWhile is_digit s \<noteq> [] \<Longrightarrow> list_ex is_digit s"
  by (cases s) (auto split: if_splits)

lemma pattern_digit: "decimal_pattern s \<Longrightarrow> list_ex is_digit s"
proof -
  assume p: "decimal_pattern s"
  have "list_ex is_digit (drop_sign s)"
  proof (cases "takeWhile is_digit (drop_sign s) = []")
    case False
    then show ?thesis by (rule takeWhile_some)
  next
    case True
    then obtain c u where "dropWhile is_digit (drop_sign s) = c # u" "takeWhile is_digit u \<noteq> []"
      using p by (auto simp: decimal_pattern_def Let_def split: list.splits)
    moreover have "dropWhile is_digit (drop_sign s) = drop_sign s"
      using True by (cases "drop_sign s") (auto split: if_splits)
    ultimately show ?thesis using takeWhile_some [of u] by simp
  qed
  then show ?thesis by (cases s) (auto split: if_splits)
qed

lemma high_not_digit: "\<not> is_digit (CHR 0xB0)" "\<not> is_digit (CHR 0x84)" "\<not> is_digit (CHR 0xAA)" "\<not> is_digit (CHR 0xC4)"
  "\<not> is_digit (CHR 0xE2)"
  by code_simp+

lemma lower_digit: "is_digit c \<Longrightarrow> is_digit (lower_ascii c)"
  using numeral_char_plain [of c] by (simp add: numeral_char_def)

lemma lower_has_digit: "list_ex is_digit s \<Longrightarrow> list_ex is_digit (go_lower s)"
proof (induction s rule: go_lower.induct)
  case (2 a s)
  show ?case
  proof (cases "a = CHR 0xC4 \<and> take 1 s = [CHR 0xB0]")
    case True
    then obtain u where "s = CHR 0xB0 # u" by (cases s) auto
    then show ?thesis using 2 True high_not_digit by auto
  next
    case first: False
    show ?thesis
    proof (cases "a = CHR 0xE2 \<and> take 2 s = [CHR 0x84, CHR 0xAA]")
      case True
      then obtain u where "s = CHR 0x84 # CHR 0xAA # u" by (cases s; cases "tl s") auto
      then show ?thesis using 2 True first high_not_digit by auto
    next
      case False
      then show ?thesis using 2 first lower_digit [of a] by auto
    qed
  qed
qed simp

lemma parse_finite: "parse_decimal_rational raw = Inr v \<Longrightarrow> \<not> is_non_finite_literal raw"
proof -
  assume "parse_decimal_rational raw = Inr v"
  then have "decimal_pattern (trim_space raw)"
    by (auto simp: parse_decimal_rational_def Let_def split: if_splits)
  then have "list_ex is_digit (go_lower (trim_space raw))" by (intro lower_has_digit pattern_digit)
  moreover have "\<forall>m \<in> set [''nan'', ''+nan'', ''-nan'', ''inf'', ''+inf'', ''-inf'', ''infinity'', ''+infinity'', ''-infinity''].
      \<not> list_ex is_digit m"
    by code_simp
  ultimately show ?thesis unfolding is_non_finite_literal_def by blast
qed

lemma parse_trimmed: "trim_space raw = trim_space s \<Longrightarrow> parse_decimal_rational raw = parse_decimal_rational s"
  by (simp add: parse_decimal_rational_def)

subsection \<open>Projection, validation and canonicalization\<close>

definition datatype_takes :: "string \<Rightarrow> unit_definition \<Rightarrow> bool" where
  "datatype_takes d u \<longleftrightarrow>
     (case map_of dimensioned_knowledge_datatypes d of
        None \<Rightarrow> is_numeric_knowledge_datatype d | Some m \<Rightarrow> m = u_dimension u)"

lemma registry_texts:
  "map_of unit_registry_v1 k = Some u \<Longrightarrow>
     registry_rational (u_factor u) \<noteq> None \<and> registry_rational (u_offset u) \<noteq> None \<and> u_si u \<noteq> []"
proof -
  assume "map_of unit_registry_v1 k = Some u"
  then have "(k, u) \<in> set unit_registry_v1" by (rule map_of_SomeD)
  moreover have "list_all (\<lambda>(k, u). registry_rational (u_factor u) \<noteq> None \<and> registry_rational (u_offset u) \<noteq> None \<and>
      u_si u \<noteq> []) unit_registry_v1"
    by code_simp
  ultimately show ?thesis by (auto simp: list_all_iff)
qed

text \<open>
  C23. The SI projection of a knowledge literal. The first part: canonicalizing a unit-bearing
  literal gives a literal that canonicalizes to itself, whose SI value parses to the exact
  conversion rounded to a multiple of 10^-18, and that validates whenever the datatype takes the
  dimension of the unit. The second part: whatever wrote it, a unit-bearing literal that
  validates has the SI unit of its unit and an SI value within half of 10^-18 of the exact
  conversion \<open>source * factor + offset\<close>, computed over the rationals without overflow or rounding.
\<close>

theorem unit_projection_exact:
  shows "(l_unit l \<noteq> [] \<and> canonicalize_literal l = Inr m \<longrightarrow>
      canonicalize_literal m = Inr m \<and>
      (\<exists>u x. map_of unit_registry_v1 (l_unit l) = Some u \<and> parse_decimal_rational (l_lexical l) = Inr x \<and>
         parse_decimal_rational (l_si_value m) = Inr (rounded_projection (si_projection u x)) \<and>
         (datatype_takes (l_datatype l) u \<longrightarrow> validate_knowledge_unit_projection m CurrentUnitRegistryVersion = None))) \<and>
    (l_unit l \<noteq> [] \<and> validate_knowledge_unit_projection l v = None \<longrightarrow>
      (\<exists>u x y. map_of unit_registry_v1 (l_unit l) = Some u \<and> l_si_unit l = u_si u \<and> datatype_takes (l_datatype l) u \<and>
         parse_decimal_rational (l_lexical l) = Inr x \<and> parse_decimal_rational (l_si_value l) = Inr y \<and>
         \<bar>y - si_projection u x\<bar> \<le> 1 / (2 * 10 ^ 18)))"
proof (intro conjI impI; elim conjE)
  assume unit: "l_unit l \<noteq> []" and c: "canonicalize_literal l = Inr m"
  then obtain u x where u: "map_of unit_registry_v1 (l_unit l) = Some u"
    and x: "parse_decimal_rational (l_lexical l) = Inr x"
    and m: "m = l\<lparr>l_si_value := canonical_unit_projection_v1 (si_projection u x), l_si_unit := u_si u\<rparr>"
    by (auto simp: canonicalize_literal_def split: option.splits if_splits sum.splits)
  show "canonicalize_literal m = Inr m" using unit u x by (simp add: canonicalize_literal_def m)
  have si: "u_si u \<noteq> []" using registry_texts [OF u] by simp
  have ok: "validate_knowledge_unit_projection m CurrentUnitRegistryVersion = None" if "datatype_takes (l_datatype l) u"
    using that unit u x si canonical_text parse_finite [OF x]
    by (auto simp: validate_knowledge_unit_projection_def CurrentUnitRegistryVersion_def m Let_def parse_canonical
        datatype_takes_def split: option.splits)
  show "\<exists>u x. map_of unit_registry_v1 (l_unit l) = Some u \<and> parse_decimal_rational (l_lexical l) = Inr x \<and>
      parse_decimal_rational (l_si_value m) = Inr (rounded_projection (si_projection u x)) \<and>
      (datatype_takes (l_datatype l) u \<longrightarrow> validate_knowledge_unit_projection m CurrentUnitRegistryVersion = None)"
    using u x ok parse_canonical by (intro exI [of _ u] exI [of _ x]) (simp add: m)
next
  assume unit: "l_unit l \<noteq> []" and v: "validate_knowledge_unit_projection l v = None"
  then obtain u where u: "map_of unit_registry_v1 (l_unit l) = Some u"
    by (auto simp: validate_knowledge_unit_projection_def Let_def split: option.splits if_splits)
  then have si: "l_si_unit l = u_si u" and d: "datatype_takes (l_datatype l) u"
    using unit v by (auto simp: validate_knowledge_unit_projection_def Let_def datatype_takes_def split: option.splits if_splits)
  obtain x y where x: "parse_decimal_rational (l_lexical l) = Inr x" and y: "parse_decimal_rational (l_si_value l) = Inr y"
    and e: "y = si_projection u x \<or> trim_space (l_si_value l) = canonical_unit_projection_v1 (si_projection u x)"
  proof -
    obtain x where x: "parse_decimal_rational (l_lexical l) = Inr x"
      using unit v u by (cases "parse_decimal_rational (l_lexical l)")
        (simp_all add: validate_knowledge_unit_projection_def Let_def split: if_splits)
    obtain y where y: "parse_decimal_rational (l_si_value l) = Inr y"
      using unit v u x by (cases "parse_decimal_rational (l_si_value l)")
        (simp_all add: validate_knowledge_unit_projection_def Let_def split: if_splits)
    have "si_projection u x = y \<or> trim_space (l_si_value l) = canonical_unit_projection_v1 (si_projection u x)"
      using unit v u x y by (simp add: validate_knowledge_unit_projection_def Let_def split: if_splits)
    then show ?thesis using that x y by blast
  qed
  have "\<bar>y - si_projection u x\<bar> \<le> 1 / (2 * 10 ^ 18)"
  proof (cases "y = si_projection u x")
    case False
    with e have "trim_space (l_si_value l) = trim_space (canonical_unit_projection_v1 (si_projection u x))"
      by (simp add: canonical_text)
    from parse_trimmed [OF this] have "y = rounded_projection (si_projection u x)"
      unfolding parse_canonical y by (rule sum.inject(2) [THEN iffD1])
    then show ?thesis by (simp only: rounded_close)
  qed simp
  with u si d x y show "\<exists>u x y. map_of unit_registry_v1 (l_unit l) = Some u \<and> l_si_unit l = u_si u \<and>
      datatype_takes (l_datatype l) u \<and> parse_decimal_rational (l_lexical l) = Inr x \<and>
      parse_decimal_rational (l_si_value l) = Inr y \<and> \<bar>y - si_projection u x\<bar> \<le> 1 / (2 * 10 ^ 18)"
    by blast
qed


definition sample_literal :: typed_literal where
  "sample_literal = \<lparr>l_lexical = ''36'', l_datatype = ''aetherops:speed'', l_language = [], l_unit = ''km/h'',
     l_si_value = [], l_si_unit = []\<rparr>"

theorem unit_projection_exact_witness:
  "\<exists>m y. canonicalize_literal sample_literal = Inr m \<and>
     validate_knowledge_unit_projection m CurrentUnitRegistryVersion = None \<and>
     parse_decimal_rational (l_si_value m) = Inr y \<and> \<bar>y - 10\<bar> \<le> 1 / (2 * 10 ^ 18)"
proof -
  let ?u = "unit_entry ''speed'' ''m/s'' ''5/18'' ''0''"
  have u: "map_of unit_registry_v1 ''km/h'' = Some ?u" by code_simp
  have x: "parse_decimal_rational ''36'' = Inr 36" by code_simp
  have f: "registry_rational ''5/18'' = Some (5 / 18)" "registry_rational ''0'' = Some 0" by code_simp+
  have s: "si_projection ?u 36 = 10" by (simp add: si_projection_def unit_entry_def f)
  have l: "l_unit sample_literal = ''km/h''" "l_lexical sample_literal = ''36''" "l_si_unit sample_literal = []"
    "l_datatype sample_literal = ''aetherops:speed''"
    by (simp_all add: sample_literal_def)
  obtain m where m: "canonicalize_literal sample_literal = Inr m" "l_unit m \<noteq> []" "l_unit m = ''km/h''" "l_lexical m = ''36''"
    using u x by (simp add: canonicalize_literal_def l)
  have d: "datatype_takes ''aetherops:speed'' ?u" by code_simp
  have ok: "validate_knowledge_unit_projection m CurrentUnitRegistryVersion = None"
    using unit_projection_exact [of sample_literal m v] m(1) d u x by (auto simp: l)
  then show ?thesis
    using unit_projection_exact [of m m CurrentUnitRegistryVersion] m u x s by auto
qed

end
