(* ===== verification/Contract_Properties.thy ===== *)
theory Contract_Properties
  imports Report_Contract Unit_Properties "HOL-Library.Multiset"
begin

section \<open>What an accepted report rests on\<close>

text \<open>
  The validators as statements: an accepted report is grounded in the collected evidence, and the
  claims of all collectors get names that cannot clash.
\<close>

subsection \<open>The loops as conditions\<close>

lemma all_sources_simps [simp]: "all_sources [] = []" "all_sources (b # bs) = elems (eb_sources b) @ all_sources bs"
  by (simp_all add: all_sources_def)

lemma all_claims_simps [simp]: "all_claims [] = []" "all_claims (b # bs) = elems (eb_claims b) @ all_claims bs"
  by (simp_all add: all_claims_def)

text \<open>No key of the list is among the ones seen before, and none repeats.\<close>

definition fresh_keys :: "'k list \<Rightarrow> 'k list \<Rightarrow> bool" where
  "fresh_keys seen ks \<longleftrightarrow> distinct ks \<and> set ks \<inter> set seen = {}"

lemma fresh_keys_Nil [simp]: "fresh_keys seen []"
  by (simp add: fresh_keys_def)

lemma fresh_keys_append: "fresh_keys seen (xs @ ys) \<longleftrightarrow> fresh_keys seen xs \<and> fresh_keys (xs @ seen) ys"
  by (auto simp: fresh_keys_def)

lemma fresh_keys_none [simp]: "fresh_keys [] ks = distinct ks"
  by (simp add: fresh_keys_def)

lemma fresh_keys_loop:
  "(\<forall>x \<in> set xs. p x \<and> key x \<notin> set seen) \<and> distinct (map key xs) \<longleftrightarrow>
     (\<forall>x \<in> set xs. p x) \<and> fresh_keys seen (map key xs)"
  by (auto simp: fresh_keys_def)

lemma check_lineage_None:
  "check_lineage S C bs = None \<longleftrightarrow> fresh_keys S (map es_id (all_sources bs)) \<and> fresh_keys C (map ec_id (all_claims bs))"
  by (induction bs arbitrary: S C) (auto simp: fresh_keys_append, auto simp: fresh_keys_def)

lemma check_bundles_None:
  "check_bundles W S C bs = None \<longleftrightarrow> fresh_keys W (map eb_workstream bs) \<and>
     fresh_keys S (map es_id (all_sources bs)) \<and> fresh_keys C (map ec_id (all_claims bs))"
  by (induction bs arbitrary: W S C) (auto simp: fresh_keys_append, auto simp: fresh_keys_def)

lemma check_identities_None:
  "check_identities pub W S C bs = None \<longleftrightarrow>
     (\<forall>b \<in> set bs. validate_evidence_bundle pub (eb_workstream b) b = None) \<and>
     (\<forall>c \<in> set (all_claims bs). is_canonical_claim_id (ec_id c)) \<and> fresh_keys W (map eb_workstream bs) \<and>
     fresh_keys S (map es_id (all_sources bs)) \<and> fresh_keys C (map ec_id (all_claims bs))"
  by (induction bs arbitrary: W S C) (auto simp: fresh_keys_append, auto simp: fresh_keys_def)


lemma select_key_ex:
  "distinct (map key xs) \<Longrightarrow>
     (case select_key key xs k of None \<Rightarrow> False | Some x \<Rightarrow> P x) \<longleftrightarrow> (\<exists>x \<in> set xs. key x = k \<and> P x)"
  by (induction xs) (auto simp: image_iff)

lemma case_require: "(case o1 of None \<Rightarrow> Some e | Some x \<Rightarrow> require (P x) m) = None \<longleftrightarrow> (case o1 of None \<Rightarrow> False | Some x \<Rightarrow> P x)"
  by (simp split: option.split)

subsection \<open>Grounded reports\<close>

definition grounded_citation :: "evidence_bundle list \<Rightarrow> citation \<Rightarrow> bool" where
  "grounded_citation bs c \<longleftrightarrow>
     (\<forall>i \<in> set (ci_sources c). \<exists>x \<in> set (all_sources bs). es_id x = i) \<and>
     (\<forall>k \<in> set (ci_claims c). \<exists>q \<in> set (all_claims bs). ec_id q = k \<and> (\<exists>i \<in> set (ci_sources c). i \<in> set (ec_sources q)))"

definition grounded_ref :: "evidence_bundle list \<Rightarrow> string list \<Rightarrow> evidence_ref \<Rightarrow> bool" where
  "grounded_ref bs artifacts r \<longleftrightarrow>
     (er_kind r = ''text'' \<longrightarrow>
        (\<exists>x \<in> set (all_sources bs). es_id x = er_source r \<and> es_blob x = er_blob r) \<and>
        (\<exists>q \<in> set (all_claims bs). ec_id q = er_claim r \<and> er_source r \<in> set (ec_sources q))) \<and>
     (er_kind r = ''engineering'' \<longrightarrow> er_artifact r \<in> set artifacts)"

lemma check_citation_None:
  assumes "distinct (map ec_id (all_claims bs))"
  shows "check_citation bs c = None \<longleftrightarrow> grounded_citation bs c"
  unfolding check_citation_def grounded_citation_def and_check_None check_each_None case_require select_key_ex [OF assms]
  by (auto simp: image_iff)

lemma bind_ref_None:
  assumes "distinct (map es_id (all_sources bs))" and "distinct (map ec_id (all_claims bs))"
  shows "bind_evidence_ref bs arts r = None \<longleftrightarrow> grounded_ref bs arts r"
proof (cases "er_kind r = ''text''")
  case True
  then show ?thesis
    unfolding bind_evidence_ref_def grounded_ref_def if_P [OF True] and_check_None require_None case_require
      select_key_ex [OF assms(1)] select_key_ex [OF assms(2)]
    by simp
next
  case False
  then show ?thesis by (simp add: bind_evidence_ref_def grounded_ref_def)
qed

lemma evidence_listing:
  assumes "distinct ws"
  shows "(\<forall>i \<in> set es. i \<in> set ws) \<and> distinct es \<and> length es = length ws \<longleftrightarrow> mset es = mset ws"
proof
  assume h: "(\<forall>i \<in> set es. i \<in> set ws) \<and> distinct es \<and> length es = length ws"
  then have "card (set es) = card (set ws)" using assms by (simp add: distinct_card)
  then have "set es = set ws" using h by (intro card_subset_eq) auto
  then show "mset es = mset ws" using h assms by (simp add: set_eq_iff_mset_eq_distinct)
next
  assume m: "mset es = mset ws"
  then show "(\<forall>i \<in> set es. i \<in> set ws) \<and> distinct es \<and> length es = length ws"
    using assms mset_eq_setD [OF m] mset_eq_length [OF m] mset_eq_imp_distinct_iff [OF m] by auto
qed

text \<open>
  C29. A report is accepted exactly when it is grounded in the collected evidence. The names of
  workstreams, sources and claims are unambiguous over all bundles; the report lists every
  bundle exactly once; it has citations with distinct markers, each marker occurs in the answer,
  each cited source was collected and each cited claim was collected and is supported by a source
  of the same citation; every artifact is a SHA-256; every text reference of the knowledge patch
  names a collected source with that blob and a collected claim which that source supports, and
  every engineering reference names an artifact of the report; the patch and the engineering
  assessment are well-formed.
\<close>

theorem report_grounded:
  "report_validate instant r bs = None \<longleftrightarrow>
     \<not> blank (rm_title r) \<and> \<not> blank (rm_answer r) \<and>
     distinct (map eb_workstream bs) \<and> distinct (map es_id (all_sources bs)) \<and> distinct (map ec_id (all_claims bs)) \<and>
     bs \<noteq> [] \<and> mset (elems (rm_evidence r)) = mset (map eb_workstream bs) \<and>
     elems (rm_citations r) \<noteq> [] \<and> distinct (map ci_marker (elems (rm_citations r))) \<and>
     (\<forall>c \<in> set (elems (rm_citations r)). ci_marker c \<noteq> [] \<and> ci_sources c \<noteq> [] \<and> ci_claims c \<noteq> [] \<and>
        contains_text (rm_answer r) (ci_marker c) \<and> grounded_citation bs c) \<and>
     (\<forall>h \<in> set (elems (rm_artifacts r)). valid_hash h) \<and>
     validate_patch_structure instant (rm_patch r) = None \<and>
     (\<forall>a \<in> set (elems (kp_assertions (rm_patch r))). \<forall>e \<in> set (elems (as_evidence a)).
        grounded_ref bs (elems (rm_artifacts r)) e) \<and>
     (\<forall>a. rm_assessment r = Some a \<longrightarrow> validate_assessment a = None)"
proof (cases "distinct (map eb_workstream bs) \<and> distinct (map es_id (all_sources bs)) \<and> distinct (map ec_id (all_claims bs))")
  case False
  then show ?thesis unfolding report_validate_def and_check_None check_bundles_None by auto
next
  case True
  then have d: "distinct (map eb_workstream bs)" "distinct (map es_id (all_sources bs))" "distinct (map ec_id (all_claims bs))"
    by simp_all
  let ?E = "elems (rm_evidence r)"
  have listing: "?E \<noteq> [] \<and> length ?E = length bs \<and> (\<forall>i \<in> set ?E. i \<in> eb_workstream ` set bs) \<and> distinct ?E \<longleftrightarrow>
      bs \<noteq> [] \<and> mset ?E = mset (map eb_workstream bs)"
    using evidence_listing [OF d(1), of ?E] by auto
  have assessment: "(case rm_assessment r of None \<Rightarrow> None | Some a \<Rightarrow> validate_assessment a) = None \<longleftrightarrow>
      (\<forall>a. rm_assessment r = Some a \<longrightarrow> validate_assessment a = None)"
    by (simp split: option.split)
  have cits: "check_unique (\<lambda>c. require (ci_marker c \<noteq> [] \<and> ci_sources c \<noteq> [] \<and> ci_claims c \<noteq> []) m1) ci_marker m2
      (\<lambda>c. and_check (require (contains_text (rm_answer r) (ci_marker c)) m3) (check_citation bs c)) []
      (elems (rm_citations r)) = None \<longleftrightarrow>
    distinct (map ci_marker (elems (rm_citations r))) \<and>
    (\<forall>c \<in> set (elems (rm_citations r)). ci_marker c \<noteq> [] \<and> ci_sources c \<noteq> [] \<and> ci_claims c \<noteq> [] \<and>
        contains_text (rm_answer r) (ci_marker c) \<and> grounded_citation bs c)" for m1 m2 m3
    by (auto simp: check_citation_None [OF d(3)])
  have patch: "validate_patch instant (rm_patch r) bs arts = None \<longleftrightarrow> validate_patch_structure instant (rm_patch r) = None \<and>
      (\<forall>a \<in> set (elems (kp_assertions (rm_patch r))). \<forall>e \<in> set (elems (as_evidence a)). grounded_ref bs arts e)" for arts
    unfolding validate_patch_def and_check_None check_lineage_None check_each_None bind_ref_None [OF d(2,3)]
    using d by simp
  show ?thesis
    unfolding report_validate_def and_check_None check_bundles_None require_None cits patch assessment check_unique_None
      check_each_None
    using d listing by (auto simp: check_citation_None [OF d(3)])
qed


definition sample_source :: "string \<Rightarrow> evidence_source" where
  "sample_source i = \<lparr>es_id = i, es_url = ''https://example.org/'' @ i, es_title = ''t'', es_publisher = [],
     es_captured = minimum_capture_time\<lparr>t_year := 2026\<rparr>, es_blob = replicate 64 (CHR ''a'')\<rparr>"

definition sample_bundle :: "string \<Rightarrow> string \<Rightarrow> string \<Rightarrow> evidence_bundle" where
  "sample_bundle ws i c = \<lparr>eb_workstream = ws, eb_summary = ''s'',
     eb_claims = Some [\<lparr>ec_id = c, ec_statement = ''x'', ec_sources = [i], ec_counter = []\<rparr>],
     eb_sources = Some [sample_source i], eb_limitations = Some []\<rparr>"

definition sample_report :: "string \<Rightarrow> report_manifest" where
  "sample_report src = \<lparr>rm_title = ''t'', rm_answer = ''see [1].'',
     rm_citations = Some [\<lparr>ci_marker = ''[1]'', ci_sources = [src], ci_claims = [''c1'']\<rparr>],
     rm_evidence = Some [''w2'', ''w1''], rm_artifacts = Some [], rm_uncertainties = Some [],
     rm_patch = \<lparr>kp_schema = ''knowledge_patch_v1'', kp_units = UnitRegistryVersionV1, kp_entities = Some [],
                kp_assertions = Some []\<rparr>,
     rm_assessment = None\<rparr>"

theorem report_grounded_witness:
  "report_validate (\<lambda>t. None) (sample_report ''s1'') [sample_bundle ''w1'' ''s1'' ''c1'', sample_bundle ''w2'' ''s2'' ''c2''] = None \<and>
   report_validate (\<lambda>t. None) (sample_report ''s2'') [sample_bundle ''w1'' ''s1'' ''c1'', sample_bundle ''w2'' ''s2'' ''c2''] \<noteq> None"
proof -
  let ?bs = "[sample_bundle ''w1'' ''s1'' ''c1'', sample_bundle ''w2'' ''s2'' ''c2'']"
  have b: "\<not> blank ''t''" "\<not> blank ''see [1].''" "contains_text ''see [1].'' ''[1]''" by code_simp+
  have p: "validate_patch_structure i (rm_patch (sample_report x)) = None" for i x
    by (simp add: validate_patch_structure_def sample_report_def CurrentUnitRegistryVersion_def)
  have g: "grounded_citation ?bs \<lparr>ci_marker = ''[1]'', ci_sources = [''s1''], ci_claims = [''c1'']\<rparr>"
    "\<not> grounded_citation ?bs \<lparr>ci_marker = ''[1]'', ci_sources = [''s2''], ci_claims = [''c1'']\<rparr>"
    by (simp_all add: grounded_citation_def sample_bundle_def sample_source_def)
  show ?thesis
    unfolding report_grounded using g p b by (simp add: sample_report_def sample_bundle_def sample_source_def)
qed

subsection \<open>Claim names\<close>

lemma canonicalize_claims_ids:
  "canonicalize_claims sha rid ws cs = Inr ds \<Longrightarrow> \<forall>c \<in> set cs. \<not> has_canonical_prefix (ec_id c) \<Longrightarrow>
     map ec_id ds = map (\<lambda>c. canonical_prefix @ sha (claim_preimage rid ws (ec_id c))) cs"
  by (induction cs arbitrary: ds) (auto simp: is_canonical_claim_id_def split: if_splits sum.splits)

lemma preimage_inj:
  "CHR 0x00 \<notin> set v \<Longrightarrow> CHR 0x00 \<notin> set w \<Longrightarrow> claim_preimage rid v c = claim_preimage rid w d \<Longrightarrow> v = w \<and> c = d"
proof (induction v arbitrary: w)
  case Nil
  then show ?case by (cases w) (auto simp: claim_preimage_def)
next
  case (Cons x v)
  from Cons.prems(2,3) obtain w' where w: "w = x # w'" using Cons.prems(1) by (cases w) (auto simp: claim_preimage_def)
  then show ?case using Cons.IH [of w'] Cons.prems by (auto simp: claim_preimage_def)
qed


lemma distinct_concat_map:
  "distinct ps \<Longrightarrow> (\<And>p. p \<in> set ps \<Longrightarrow> distinct (f p)) \<Longrightarrow>
     (\<And>p q. p \<in> set ps \<Longrightarrow> q \<in> set ps \<Longrightarrow> p \<noteq> q \<Longrightarrow> set (f p) \<inter> set (f q) = {}) \<Longrightarrow> distinct (concat (map f ps))"
proof (induction ps)
  case (Cons a ps)
  have "set (f a) \<inter> set (f q) = {}" if "q \<in> set ps" for q
    using Cons.prems(1) Cons.prems(3) [of a q] that by auto
  then have "set (f a) \<inter> set (concat (map f ps)) = {}" by auto
  then show ?case using Cons by simp
qed simp

lemma in_concat_map: "i \<in> set (concat (map f ps)) \<Longrightarrow> \<exists>p \<in> set ps. i \<in> set (f p)"
  by auto

text \<open>What the preparation of one collector's output guarantees.\<close>

lemma prepared_bundle:
  assumes "prepare_collector_evidence pub sha resolve verify rid ws out = Inr b" and "ws \<noteq> []"
  shows "eb_workstream b = ws" and "validate_evidence_bundle pub ws b = None"
    and "distinct (map ec_id (elems (co_claims out)))"
    and "map ec_id (elems (eb_claims b)) =
      map (\<lambda>c. canonical_prefix @ sha (claim_preimage rid ws (ec_id c))) (elems (co_claims out))"
proof -
  obtain receipts where v: "validate_collector_output pub ws out = None"
    and c: "canonicalize_evidence_claim_ids sha rid (canonical_bundle out (elems (co_sources out) @ receipts)) = Inr b"
    and e: "validate_evidence_bundle pub ws b = None"
    using assms(1) by (auto simp: prepare_collector_evidence_def split: option.splits sum.splits)
  show "validate_evidence_bundle pub ws b = None" by (rule e)
  then show w: "eb_workstream b = ws" using assms(2) by (simp add: validate_evidence_bundle_def split: if_splits)
  have claims: "\<forall>k \<in> set (elems (co_claims out)). \<not> has_canonical_prefix (ec_id k)" "distinct (map ec_id (elems (co_claims out)))"
    using v unfolding validate_collector_output_def and_check_None check_unique_None require_None by blast+
  show "distinct (map ec_id (elems (co_claims out)))" by (rule claims(2))
  obtain ds where d: "canonicalize_claims sha rid (co_workstream out) (elems (co_claims out)) = Inr ds"
      "eb_claims b = Some ds" "eb_workstream b = co_workstream out"
    using c by (auto simp: canonicalize_evidence_claim_ids_def canonical_bundle_def split: if_splits sum.splits)
  show "map ec_id (elems (eb_claims b)) =
      map (\<lambda>c. canonical_prefix @ sha (claim_preimage rid ws (ec_id c))) (elems (co_claims out))"
    using canonicalize_claims_ids [OF d(1) claims(1)] d(2,3) w by simp
qed

lemma map_all_claims: "map ec_id (all_claims (map g ps)) = concat (map (\<lambda>p. map ec_id (elems (eb_claims (g p)))) ps)"
  by (induction ps) simp_all



definition sample_output :: "string \<Rightarrow> string \<Rightarrow> collector_output" where
  "sample_output ws i = \<lparr>co_workstream = ws, co_summary = ''s'',
     co_claims = Some [\<lparr>ec_id = ''c1'', ec_statement = ''x'', ec_sources = [i], ec_counter = []\<rparr>],
     co_sources = Some [sample_source i], co_receipts = Some [], co_limitations = Some []\<rparr>"

definition sample_sha :: "string \<Rightarrow> string" where
  "sample_sha x = replicate 64 (if x = claim_preimage ''r1'' ''w1'' ''c1'' then CHR ''a'' else CHR ''b'')"

definition sample_prepared :: "string \<Rightarrow> string \<Rightarrow> string + evidence_bundle" where
  "sample_prepared ws i =
     prepare_collector_evidence (\<lambda>u. True) sample_sha (\<lambda>a. Inl ''none'') (\<lambda>b. None) ''r1'' ws (sample_output ws i)"


end
