(* ===== verification/Research_Stage.thy ===== *)
theory Research_Stage
  imports Run_Guard Store_Plan_Cycles Cas_Store
begin

section \<open>One stage of the research engine\<close>

text \<open>
  \<^verbatim>\<open>src/internal/research/engine.go\<close>: \<open>runStageWithBeforeTurn\<close>, which begins an attempt, stores
  its input, runs one model turn, stores and publishes the validated output and completes the
  attempt with its execution receipt, and \<open>failStage\<close>, which records every other end.
\<close>

subsection \<open>The world of the engine\<close>

text \<open>
  What a stage touches: the database, the content-addressed store, the engine's map of threads
  with a turn in flight, and a counter of the engine's looks at the world.
\<close>

record world =
  w_db :: db
  w_cas :: cas_store
  w_active :: "(string \<times> string) set"
  w_tick :: nat

record model_profile =
  mp_model :: string
  mp_effort :: string
  mp_tier :: string

record turn_options =
  to_stage :: stage
  to_profile :: model_profile
  to_schema :: string
  to_prompt :: string

record turn_result =
  tr_thread :: string
  tr_turn :: string
  tr_profile :: model_profile
  tr_output :: string

text \<open>
  What is outside the engine, each a function of the counter: what other writers do to the
  database and to the disk before a look, what a statement fails with before it reaches the
  database (the disk, a cancelled context), the error of the run's context and of the turn's
  context, the clock, fresh identifiers, faults of the disk, and the protocol client.
\<close>

record surroundings =
  u_db :: "nat \<Rightarrow> db \<Rightarrow> db"
  u_disk :: "nat \<Rightarrow> cas_store \<Rightarrow> cas_store"
  u_db_fault :: "nat \<Rightarrow> engine_error option"
  u_ctx :: "nat \<Rightarrow> engine_error option"
  u_turn_ctx :: "nat \<Rightarrow> engine_error option"
  u_clock :: "nat \<Rightarrow> gotime"
  u_fresh :: "nat \<Rightarrow> string"
  u_fault :: "nat \<Rightarrow> string option"
  u_sha :: "string \<Rightarrow> string"
  u_timeout :: int
  u_validate_model :: "nat \<Rightarrow> model_profile \<Rightarrow> engine_error option"
  u_create_thread :: "nat \<Rightarrow> stage \<Rightarrow> model_profile \<Rightarrow> engine_error + string"
  u_turn :: "nat \<Rightarrow> string \<Rightarrow> turn_options \<Rightarrow> world \<Rightarrow> world \<times> turn_result \<times> engine_error option"

text \<open>An action of the engine: the world it leaves and an error or a value.\<close>

type_synonym ('e, 'a) act = "world \<Rightarrow> (world, 'e, 'a) outcome"

definition give :: "'a \<Rightarrow> ('e, 'a) act" where
  "give x w = commit w x"

definition raise :: "'e \<Rightarrow> ('e, 'a) act" where
  "raise e w = fail w e"

definition bind :: "('e, 'a) act \<Rightarrow> ('a \<Rightarrow> ('e, 'b) act) \<Rightarrow> ('e, 'b) act" where
  "bind m f w = (case m w of (w1, Inl e) \<Rightarrow> (w1, Inl e) | (w1, Inr x) \<Rightarrow> f x w1)"

definition relabel :: "('e \<Rightarrow> 'f) \<Rightarrow> ('e, 'a) act \<Rightarrow> ('f, 'a) act" where
  "relabel g m w = (case m w of (w1, Inl e) \<Rightarrow> (w1, Inl (g e)) | (w1, Inr x) \<Rightarrow> (w1, Inr x))"

text \<open>One look: the others have had their turn and the counter moves on.\<close>

definition pass :: "surroundings \<Rightarrow> world \<Rightarrow> world" where
  "pass E w = w\<lparr>w_db := u_db E (w_tick w) (w_db w), w_cas := u_disk E (w_tick w) (w_cas w), w_tick := Suc (w_tick w)\<rparr>"

definition look :: "surroundings \<Rightarrow> (engine_error, unit) act" where
  "look E w = (case u_ctx E (w_tick w) of None \<Rightarrow> commit (pass E w) () | Some e \<Rightarrow> fail (pass E w) e)"

definition on_db :: "surroundings \<Rightarrow> (nat \<Rightarrow> db \<Rightarrow> 'a store) \<Rightarrow> (engine_error, 'a) act" where
  "on_db E op w =
     (case u_db_fault E (w_tick w) of
        Some e \<Rightarrow> fail (pass E w) e
      | None \<Rightarrow>
          (case op (w_tick w) (w_db (pass E w)) of
             (s, Inl e) \<Rightarrow> fail ((pass E w)\<lparr>w_db := s\<rparr>) (StoreFailure e)
           | (s, Inr x) \<Rightarrow> commit ((pass E w)\<lparr>w_db := s\<rparr>) x))"

fun cas_error_text :: "cas_error \<Rightarrow> string" where
  "cas_error_text CasReadOnly = ''CAS is read-only''"
| "cas_error_text (CasIO m) = m"
| "cas_error_text (CasCollision h) = ''CAS collision for '' @ h"
| "cas_error_text CasInvalidHash = ''invalid SHA-256 hash''"
| "cas_error_text CasMissing = ''file does not exist''"
| "cas_error_text CasIrregular = ''CAS object is not a regular file''"
| "cas_error_text CasMismatch = ''CAS readback hash mismatch''"
| "cas_error_text (CasUnexpected n) = ''unexpected CAS entry '' @ n"
| "cas_error_text (CasRegistered h) = ''registered CAS hash is invalid: '' @ h"

definition put_bytes :: "surroundings \<Rightarrow> string \<Rightarrow> (engine_error, cas_receipt) act" where
  "put_bytes E d w =
     (case cas_put (u_sha E) (u_fault E (w_tick w)) d (w_cas (pass E w)) of
        (c, Inl e) \<Rightarrow> fail ((pass E w)\<lparr>w_cas := c\<rparr>) (Failure (cas_error_text e))
      | (c, Inr k) \<Rightarrow> commit ((pass E w)\<lparr>w_cas := c\<rparr>) k)"

definition read_bytes :: "surroundings \<Rightarrow> string \<Rightarrow> (engine_error, string) act" where
  "read_bytes E h w =
     (case cas_read_verified (u_sha E) (u_fault E (w_tick w)) h (w_cas (pass E w)) of
        Inl e \<Rightarrow> fail (pass E w) (Failure (cas_error_text e))
      | Inr d \<Rightarrow> commit (pass E w) d)"

subsection \<open>Profiles and the turn's result\<close>

definition planner_profile :: model_profile where
  "planner_profile = \<lparr>mp_model = ''gpt-5.6-sol'', mp_effort = ''xhigh'', mp_tier = ''default''\<rparr>"

definition collector_profile :: model_profile where
  "collector_profile = \<lparr>mp_model = ''gpt-5.6-terra'', mp_effort = ''high'', mp_tier = ''default''\<rparr>"

definition reviewer_profile :: model_profile where
  "reviewer_profile = \<lparr>mp_model = ''gpt-5.6-sol'', mp_effort = ''xhigh'', mp_tier = ''default''\<rparr>"

definition profile_for_stage :: "string \<Rightarrow> stage \<Rightarrow> engine_error + model_profile" where
  "profile_for_stage version st =
     (if version \<noteq> CurrentResearchProfileVersion then Inl (Wrapped version UnsupportedProfile)
      else case st of
        StagePlan \<Rightarrow> Inr planner_profile
      | StageSynthesize \<Rightarrow> Inr planner_profile
      | StageRevise \<Rightarrow> Inr planner_profile
      | StageCollect \<Rightarrow> Inr collector_profile
      | StageReview \<Rightarrow> Inr reviewer_profile
      | StageOther t \<Rightarrow> Inl (Failure (''research profile does not define stage '' @ t)))"

fun first_profile_error :: "string \<Rightarrow> stage list \<Rightarrow> engine_error option" where
  "first_profile_error version [] = None"
| "first_profile_error version (st # sts) =
     (case profile_for_stage version st of Inl e \<Rightarrow> Some e | Inr p \<Rightarrow> first_profile_error version sts)"

definition validate_research_profile_version :: "string \<Rightarrow> engine_error option" where
  "validate_research_profile_version version =
     first_profile_error version [StagePlan, StageCollect, StageSynthesize, StageReview, StageRevise]"

definition validate_turn_result :: "turn_result \<Rightarrow> string \<Rightarrow> model_profile \<Rightarrow> string option" where
  "validate_turn_result r thread p =
     (if blank (tr_thread r) \<or> blank (tr_turn r) then Some ''turn result is missing thread or turn id''
      else if tr_thread r \<noteq> thread then Some ''turn result thread does not match expected thread''
      else if tr_profile r \<noteq> p then Some ''turn result model differs''
      else if blank (tr_output r) then Some ''turn result is missing structured JSON''
      else None)"

subsection \<open>Recording a failed stage\<close>

definition is_substantive_collect_failure :: "engine_error \<Rightarrow> bool" where
  "is_substantive_collect_failure e \<longleftrightarrow> \<not> is_canceled e \<and> \<not> is_interrupted e"

definition fail_stage :: "surroundings \<Rightarrow> attempt_row \<Rightarrow> string \<Rightarrow> engine_error \<Rightarrow> (engine_error, 'a) act" where
  "fail_stage E a h cause w =
     (if a_stage a = StageCollect \<and> is_substantive_collect_failure cause
      then case on_db E (\<lambda>k. fail_collect_stage_and_quiesce_run (a_id a) h (error_text cause) (u_clock E k)) w of
          (w1, Inl d) \<Rightarrow> fail w1 (Joined cause (Wrapped (''record failed '' @ stage_text (a_stage a) @ '' stage and quiesce run'') d))
        | (w1, Inr r) \<Rightarrow> fail w1 cause
      else case on_db E (\<lambda>k. complete_stage (a_id a) h (error_text cause) (u_clock E k)) w of
          (w1, Inl d) \<Rightarrow> fail w1 (Joined cause (Wrapped (''record failed '' @ stage_text (a_stage a) @ '' stage'') d))
        | (w1, Inr u) \<Rightarrow> fail w1 cause)"

subsection \<open>Input and output\<close>

definition persist_input :: "surroundings \<Rightarrow> string \<Rightarrow> string \<Rightarrow> (engine_error, unit) act" where
  "persist_input E d h =
     bind (look E) (\<lambda>_.
     bind (relabel (Wrapped ''write stage input to CAS'') (put_bytes E d)) (\<lambda>k.
     if k_hash k \<noteq> h then raise (Failure ''CAS input receipt does not match encoded input'')
     else bind (relabel (Wrapped ''verify stage input CAS object'') (read_bytes E (k_hash k))) (\<lambda>back.
     if back \<noteq> d then raise (Failure ''verified stage input differs from encoded input'') else give ())))"

definition persist_output :: "surroundings \<Rightarrow> string \<Rightarrow> (engine_error, cas_receipt) act" where
  "persist_output E d =
     bind (look E) (\<lambda>_.
     bind (relabel (Wrapped ''write stage output to CAS'') (put_bytes E d)) (\<lambda>k.
     bind (relabel (Wrapped ''verify stage output CAS object'') (read_bytes E (k_hash k))) (\<lambda>back.
     if back \<noteq> d then raise (Failure ''verified stage output differs from protocol output'') else give k)))"

subsection \<open>The thread of a stage\<close>

definition list_stage_attempts :: "db \<Rightarrow> string \<Rightarrow> attempt_row list" where
  "list_stage_attempts s rid = sort_key (\<lambda>a. (a_created a, a_id a)) (filter (\<lambda>a. a_run a = rid) (attempts s))"

definition verify_fresh_reviewer_thread :: "surroundings \<Rightarrow> run_row \<Rightarrow> string \<Rightarrow> string \<Rightarrow> (engine_error, unit) act" where
  "verify_fresh_reviewer_thread E run aid thread w =
     (if thread = r_thread run then fail w (Failure ''reviewer thread matches the project research thread'')
      else case u_db_fault E (w_tick w) of Some e \<Rightarrow> fail (pass E w) e
      | None \<Rightarrow> if \<exists>a \<in> set (list_stage_attempts (w_db (pass E w)) (r_id run)). a_id a \<noteq> aid \<and> a_thread a = thread
      then fail (pass E w) (Failure ''reviewer thread was already used'')
      else commit (pass E w) ())"

definition stage_thread ::
    "surroundings \<Rightarrow> run_row \<Rightarrow> stage \<Rightarrow> model_profile \<Rightarrow> string \<Rightarrow> attempt_row \<Rightarrow> (engine_error, string) act" where
  "stage_thread E run st prof initial a =
     (if initial \<noteq> [] then give initial
      else bind (\<lambda>w. case u_create_thread E (w_tick w) st prof of
                   Inl e \<Rightarrow> fail (pass E w) (Wrapped (''create '' @ stage_text st @ '' thread'') e)
                 | Inr t \<Rightarrow> commit (pass E w) t) (\<lambda>thread.
       if blank thread then raise (Failure (''create '' @ stage_text st @ '' thread: empty thread id''))
       else bind (if st = StageReview
                  then relabel (Wrapped ''validate isolated REVIEW thread'')
                    (verify_fresh_reviewer_thread E run (a_id a) thread)
                  else give ()) (\<lambda>_.
       bind (relabel (Wrapped (''record '' @ stage_text st @ '' thread''))
               (on_db E (\<lambda>k. set_stage_turn (a_id a) thread [] (u_clock E k)))) (\<lambda>_.
       give thread))))"

subsection \<open>The turn\<close>

definition activate_thread :: "string \<Rightarrow> string \<Rightarrow> world \<Rightarrow> world" where
  "activate_thread rid thread w = w\<lparr>w_active := insert (rid, thread) (w_active w)\<rparr>"

definition deactivate_thread :: "string \<Rightarrow> string \<Rightarrow> world \<Rightarrow> world" where
  "deactivate_thread rid thread w = w\<lparr>w_active := w_active w - {(rid, thread)}\<rparr>"

text \<open>The turn itself: its result, its error and the error of its context when it returned.\<close>

definition submit_turn ::
    "surroundings \<Rightarrow> run_row \<Rightarrow> turn_options \<Rightarrow> string \<Rightarrow> (engine_error, turn_result \<times> engine_error option \<times> engine_error option) act" where
  "submit_turn E run opts thread w =
     (let review = to_stage opts = StageReview;
          w1 = (if review then w else activate_thread (r_id run) thread w);
          (w2, result, err) = u_turn E (w_tick w1) thread opts (pass E w1);
          over = u_turn_ctx E (w_tick w2);
          w3 = (if review then w2 else deactivate_thread (r_id run) thread w2)
      in commit w3 (result, err, over))"

definition exceeded :: "engine_error option \<Rightarrow> bool" where
  "exceeded over = (case over of None \<Rightarrow> False | Some e \<Rightarrow> error_is (\<lambda>x. x = DeadlineExceeded) e)"

definition run_turn ::
    "surroundings \<Rightarrow> run_row \<Rightarrow> turn_options \<Rightarrow> attempt_row \<Rightarrow> string \<Rightarrow> (engine_error, turn_result) act" where
  "run_turn E run opts a thread =
     (let name = stage_text (to_stage opts) in
      if u_timeout E \<le> 0 then raise (Failure ''research turn timeout is not configured'')
      else bind (submit_turn E run opts thread) (\<lambda>(result, err, over).
        bind (if tr_thread result \<noteq> [] \<or> tr_turn result \<noteq> []
              then relabel (Wrapped (''record '' @ name @ '' turn''))
                (on_db E (\<lambda>k. set_stage_turn (a_id a) (if tr_thread result = [] then thread else tr_thread result)
                   (tr_turn result) (u_clock E k)))
              else give ()) (\<lambda>_.
        case err of
          Some e \<Rightarrow> raise (Wrapped (''run '' @ name @ (if exceeded over then '' turn exceeded deadline'' else '' turn'')) e)
        | None \<Rightarrow>
          (case over of
             Some e \<Rightarrow> raise (Wrapped (''run '' @ name @ '' turn exceeded deadline'') e)
           | None \<Rightarrow>
             bind (look E) (\<lambda>_.
             case validate_turn_result result thread (to_profile opts) of
               Some m \<Rightarrow> raise (Wrapped (''validate '' @ name @ '' turn result'') (Failure m))
             | None \<Rightarrow> give result)))))"

subsection \<open>The stage\<close>

text \<open>
  The part between the beginning of the attempt and its end. An error carries the hash of the
  output that was stored before it. \<open>validate\<close> is the validator of the stage, which keeps the
  value it has accepted; a normalizer turns that value and the output into the stored bytes.
\<close>

definition normalized :: "stage \<Rightarrow> ('a \<Rightarrow> string \<Rightarrow> string + string) list \<Rightarrow> 'a \<Rightarrow> string \<Rightarrow> engine_error + string" where
  "normalized st norms x out =
     (case norms of
        [] \<Rightarrow> Inr out
      | [f] \<Rightarrow> (case f x out of Inl m \<Rightarrow> Inl (Wrapped (''normalize '' @ stage_text st @ '' output'') (Failure m)) | Inr d \<Rightarrow> Inr d)
      | _ \<Rightarrow> Inl (Failure (''normalize '' @ stage_text st @ '' output: multiple normalizers'')))"

definition execution_receipt ::
    "run_row \<Rightarrow> attempt_row \<Rightarrow> model_profile \<Rightarrow> turn_result \<Rightarrow> string \<Rightarrow> string \<Rightarrow> receipt_row" where
  "execution_receipt run a prof result input out =
     \<lparr>x_attempt = a_id a, x_run = r_id run, x_profile = r_profile run, x_model = mp_model prof,
      x_effort = mp_effort prof, x_tier = mp_tier prof, x_thread = tr_thread result, x_turn = tr_turn result,
      x_input = input, x_output = out, x_contract = StageExecutionContractSHA256, x_build = r_build run,
      x_completed = []\<rparr>"

definition publish_output ::
    "surroundings \<Rightarrow> run_row \<Rightarrow> attempt_row \<Rightarrow> string \<Rightarrow> model_profile \<Rightarrow> turn_result \<Rightarrow> string \<Rightarrow> cas_receipt \<Rightarrow> (engine_error, unit) act" where
  "publish_output E run a kind prof result input k =
     (let name = stage_text (a_stage a) in
      bind (look E) (\<lambda>_.
      bind (relabel (Wrapped (''publish '' @ name @ '' artifact''))
              (on_db E (\<lambda>n. publish_artifact (u_fresh E n) (r_id run) (a_id a) kind ''application/json''
                 (k_hash k) (k_size k) (u_clock E n)))) (\<lambda>_.
      bind (look E) (\<lambda>_.
      relabel (Wrapped (''complete '' @ name @ '' stage''))
        (on_db E (\<lambda>n. complete_stage_with_execution (a_id a) (k_hash k)
           (execution_receipt run a prof result input (k_hash k)) (u_clock E n)))))))"

definition stage_body ::
    "surroundings \<Rightarrow> run_row \<Rightarrow> stage \<Rightarrow> string \<Rightarrow> model_profile \<Rightarrow> turn_options \<Rightarrow> string \<Rightarrow> string \<Rightarrow>
     (attempt_row \<Rightarrow> (engine_error, unit) act) option \<Rightarrow> (string \<Rightarrow> (engine_error, 'a) act) \<Rightarrow>
     ('a \<Rightarrow> string \<Rightarrow> string + string) list \<Rightarrow> attempt_row \<Rightarrow> (string \<times> engine_error, 'a) act" where
  "stage_body E run st initial prof opts kind input preparation validate norms a =
     (let name = stage_text st; early = Pair [] in
      bind (relabel early (persist_input E input (u_sha E input))) (\<lambda>_.
      bind (relabel early (look E)) (\<lambda>_.
      bind (relabel early (case preparation of None \<Rightarrow> give () | Some f \<Rightarrow> relabel (Wrapped (''prepare '' @ name @ '' stage'')) (f a))) (\<lambda>_.
      bind (\<lambda>w. case u_validate_model E (w_tick w) prof of
              Some e \<Rightarrow> fail (pass E w) (early (Wrapped (''validate '' @ name @ '' model'') e))
            | None \<Rightarrow> commit (pass E w) ()) (\<lambda>_.
      bind (relabel early (stage_thread E run st prof initial a)) (\<lambda>thread.
      bind (relabel early (run_turn E run opts a thread)) (\<lambda>result.
      bind (relabel early (relabel (Wrapped (''validate '' @ name @ '' JSON'')) (validate (tr_output result)))) (\<lambda>x.
      case normalized st norms x (tr_output result) of
        Inl e \<Rightarrow> raise (early e)
      | Inr out \<Rightarrow>
        bind (relabel early (persist_output E out)) (\<lambda>k.
        bind (relabel (Pair (k_hash k)) (publish_output E run a kind prof result (u_sha E input) k)) (\<lambda>_.
        give x))))))))))"

text \<open>\<open>input\<close> is the encoded input or the error of its encoding; \<open>prompt\<close> is what \<^verbatim>\<open>stagePrompt\<close> makes of it.\<close>

definition run_stage ::
    "surroundings \<Rightarrow> run_row \<Rightarrow> stage \<Rightarrow> int \<Rightarrow> string \<Rightarrow> model_profile \<Rightarrow> string \<Rightarrow> (string \<Rightarrow> string \<Rightarrow> string) \<Rightarrow> string \<Rightarrow>
     string + string \<Rightarrow> (attempt_row \<Rightarrow> (engine_error, unit) act) option \<Rightarrow> (string \<Rightarrow> (engine_error, 'a) act) \<Rightarrow>
     ('a \<Rightarrow> string \<Rightarrow> string + string) list \<Rightarrow> (engine_error, 'a) act" where
  "run_stage E run st ordinal initial prof schema prompt kind encoded preparation validate norms =
     bind (look E) (\<lambda>_.
     if st = StageReview \<and> \<not> blank initial
     then raise (Failure ''REVIEW must start in a fresh reviewer-only thread'')
     else case encoded of
       Inl m \<Rightarrow> raise (Wrapped (''encode '' @ stage_text st @ '' input'') (Failure m))
     | Inr input \<Rightarrow>
       bind (relabel (Wrapped (''begin '' @ stage_text st @ '' stage''))
               (on_db E (\<lambda>k. begin_stage (u_fresh E k) (r_id run) st ordinal initial (u_sha E input) (u_clock E k)))) (\<lambda>a w.
       case stage_body E run st initial prof
              \<lparr>to_stage = st, to_profile = prof, to_schema = schema, to_prompt = prompt (a_id a) input\<rparr>
              kind input preparation validate norms a w of
         (w1, Inr x) \<Rightarrow> commit w1 x
       | (w1, Inl (h, cause)) \<Rightarrow> fail_stage E a h cause w1))"

end
