(* ===== verification/Research_Plan.thy ===== *)
theory Research_Plan
  imports Report_Contract "HOL-Library.Log_Nat"
begin

section \<open>The research plan\<close>

text \<open>
  \<^verbatim>\<open>src/internal/core/types.go\<close>: the plan the PLAN stage returns, with its two solver contracts
  (the XFOIL screening matrix and the SU2 case set), their validators, and the reading of plan
  prose that refuses XFOIL work without a screening contract.
\<close>

subsection \<open>Double arithmetic\<close>

text \<open>
  \<open>binary64\<close> rounds a rational to the nearest double, ties to even, with an unbounded exponent.
  The validators only compute on values they have bounded before, so no result overflows, and a
  result in the subnormal range is far below every threshold it is compared with.
\<close>

definition round_half_even :: "rat \<Rightarrow> int" where
  "round_half_even y =
     (let f = \<lfloor>y\<rfloor>; d = y - of_int f in
      if d < 1 / 2 then f else if d > 1 / 2 then f + 1 else if even f then f else f + 1)"

text \<open>The exponent of the leading bit of a positive rational.\<close>

definition leading_exponent :: "rat \<Rightarrow> int" where
  "leading_exponent x =
     (if x \<ge> 1 then int (floorlog 2 (nat \<lfloor>x\<rfloor>)) - 1 else - int (floorlog 2 (nat (\<lceil>1 / x\<rceil> - 1))))"

definition binary64 :: "rat \<Rightarrow> rat" where
  "binary64 x =
     (if x = 0 then 0
      else let unit = 2 powi (leading_exponent \<bar>x\<bar> - 52) in of_int (round_half_even (x / unit)) * unit)"

fun number_of :: "go_float \<Rightarrow> rat" where
  "number_of (Number a) = a"
| "number_of _ = 0"

text \<open>\<^verbatim>\<open>math.Round\<close>, half away from zero, on a value that is not negative.\<close>

definition math_round :: "rat \<Rightarrow> int" where
  "math_round x = \<lfloor>x + 1 / 2\<rfloor>"

subsection \<open>Data\<close>

record operating_point =
  op_id :: string
  op_reynolds :: go_float
  op_mach :: go_float
  op_ncrit :: go_float
  op_target_cl :: go_float
  op_minimum_cm :: go_float

record screening_plan =
  xp_naca :: string
  xp_reynolds :: go_float
  xp_mach :: go_float
  xp_alpha_start :: go_float
  xp_alpha_end :: go_float
  xp_alpha_step :: go_float
  xp_chord :: go_float
  xp_hinge_x :: go_float
  xp_hinge_y :: go_float
  xp_deflections :: "go_float list"
  xp_ncrit :: go_float
  xp_iterations :: int
  xp_panels :: int
  xp_objective :: string
  xp_target_cl :: go_float
  xp_minimum_cm :: go_float
  xp_points :: "operating_point list"

record su2_case_plan =
  cp_id :: string
  cp_mesh_source :: string
  cp_mesh :: string
  cp_mesh_sha :: string
  cp_config_source :: string
  cp_config :: string
  cp_config_sha :: string
  cp_solver :: string
  cp_turbulence :: string
  cp_overrides :: "(string \<times> string) list"
  cp_outputs :: "string list"
  cp_timeout :: int

record su2_case_set =
  cs_objective :: string
  cs_cases :: "su2_case_plan list"

record mesh_study_plan =
  ms_mode :: string
  ms_profile :: string
  ms_naca :: string
  ms_mach :: go_float
  ms_alpha :: go_float
  ms_iterations :: int
  ms_sizes :: "go_float list"
  ms_domain :: string
  ms_objective :: string
  ms_reference :: string

record workstream =
  ws_id :: string
  ws_question :: string
  ws_kinds :: "string list"
  ws_required :: "string list"

record research_plan =
  rp_question :: string
  rp_mode :: string
  rp_workstreams :: "workstream list option"
  rp_sources :: "string list option"
  rp_criteria :: "string list option"
  rp_screening :: "screening_plan option"
  rp_cases :: "su2_case_set option"
  rp_mesh_study :: "mesh_study_plan option"

definition MaxCollectors :: nat where
  "MaxCollectors = 3"

subsection \<open>The SU2 case set\<close>

text \<open>\<^verbatim>\<open>^[a-z][a-z0-9_-]{0,31}$\<close>\<close>

definition is_lower :: "char \<Rightarrow> bool" where
  "is_lower c \<longleftrightarrow> CHR ''a'' \<le> c \<and> c \<le> CHR ''z''"

definition plan_identifier :: "string \<Rightarrow> bool" where
  "plan_identifier s \<longleftrightarrow> s \<noteq> [] \<and> length s \<le> 32 \<and> is_lower (hd s) \<and>
     list_all (\<lambda>c. is_lower c \<or> is_digit c \<or> c = CHR ''_'' \<or> c = CHR ''-'') s"

definition input_source :: "string \<Rightarrow> bool" where
  "input_source s \<longleftrightarrow> s = ''artifact'' \<or> s = ''material''"

definition validate_su2_case :: "su2_case_plan \<Rightarrow> check" where
  "validate_su2_case p =
     and_check (require (plan_identifier (cp_id p) \<and> input_source (cp_mesh_source p) \<and> \<not> blank (cp_mesh p) \<and> valid_hash (cp_mesh_sha p))
       ''case id and immutable project-owned mesh identity are required'')
     (and_check (if cp_config_source p = []
        then require (cp_config p = [] \<and> cp_config_sha p = [] \<and> cp_overrides p \<noteq> [])
          ''an omitted config source requires empty config identity and non-empty overrides''
        else require (input_source (cp_config_source p) \<and> \<not> blank (cp_config p) \<and> valid_hash (cp_config_sha p))
          ''config source must bind an immutable project artifact or material'')
     (and_check (require (cp_solver p \<in> {''EULER'', ''NAVIER_STOKES'', ''RANS'', ''INC_EULER'', ''INC_NAVIER_STOKES'', ''INC_RANS''})
       ''solver must be a supported direct single-zone SU2_CFD solver'')
     (and_check (if cp_solver p = ''RANS'' \<or> cp_solver p = ''INC_RANS''
        then require (cp_turbulence p = ''SA'' \<or> cp_turbulence p = ''SST'') ''RANS requires the SA or SST turbulence model''
        else require (cp_turbulence p = ''NONE'') ''Euler and laminar Navier-Stokes cases require turbulence_model=NONE'')
     (and_check (require (length (cp_overrides p) \<le> 256) ''SU2 case has more than 256 configuration overrides'')
     (and_check (require (1 \<le> length (cp_outputs p) \<and> length (cp_outputs p) \<le> 3) ''SU2 case requires 1-3 managed output formats'')
     (and_check (check_unique (\<lambda>x. require (x \<in> {''surface_csv'', ''volume_paraview_ascii'', ''restart_ascii''}) ''unsupported managed SU2 output'')
        (\<lambda>x. x) ''duplicate managed SU2 output'' (\<lambda>x. None) [] (cp_outputs p))
     (require (60 \<le> cp_timeout p \<and> cp_timeout p \<le> 7200) ''SU2 timeout must be between 60 and 7200 seconds'')))))))"

definition validate_case_set :: "su2_case_set \<Rightarrow> check" where
  "validate_case_set p =
     and_check (require (\<not> blank (cs_objective p) \<and> 1 \<le> length (cs_cases p) \<and> length (cs_cases p) \<le> 16)
       ''SU2 case set requires an objective and 1-16 exact cases'')
     (check_unique validate_su2_case cp_id ''duplicate SU2 case id'' (\<lambda>x. None) [] (cs_cases p))"

text \<open>The legacy mesh study, whose validator still guards old checkpoints.\<close>

fun check_mesh_sizes :: "rat option \<Rightarrow> go_float list \<Rightarrow> check" where
  "check_mesh_sizes prev [] = None"
| "check_mesh_sizes prev (x # xs) =
     and_check (require (float_finite x \<and> binary64 (1 / 100) \<le> number_of x \<and> number_of x \<le> binary64 (1 / 5))
       ''SU2 mesh size is outside the supported envelope'')
     (and_check (case prev of None \<Rightarrow> None
       | Some m \<Rightarrow> require (number_of x < m) ''SU2 mesh sizes must be unique and ordered coarse to fine'')
     (check_mesh_sizes (Some (number_of x)) xs))"

definition validate_mesh_study :: "mesh_study_plan \<Rightarrow> check" where
  "validate_mesh_study p =
     and_check (require (ms_mode p = ''execute'' \<or> ms_mode p = ''readback_existing'')
       ''SU2 mesh study requires an explicit execute or readback_existing mode'')
     (and_check (require (ms_profile p = SU2MeshStudyProfileV1 \<and> ms_naca p = ''0012'' \<and>
         ms_domain p = ''rect_xm10_xp15_ym10_yp10/v1'' \<and> ms_objective p = ''assess_grid_sensitivity'' \<and>
         ms_reference p = ''qualitative_context'')
       ''SU2 mesh study requests an unsupported profile, domain, objective, or reference comparison'')
     (and_check (require (float_finite (ms_mach p) \<and> float_finite (ms_alpha p) \<and>
         binary64 (1 / 100) \<le> number_of (ms_mach p) \<and> number_of (ms_mach p) \<le> 2 \<and>
         -20 \<le> number_of (ms_alpha p) \<and> number_of (ms_alpha p) \<le> 20 \<and> 20 \<le> ms_iterations p \<and> ms_iterations p \<le> 1000)
       ''SU2 mesh study operating point is outside the supported envelope'')
     (and_check (require (3 \<le> length (ms_sizes p) \<and> length (ms_sizes p) \<le> 8) ''SU2 mesh study requires 3-8 mesh sizes'')
     (check_mesh_sizes None (ms_sizes p)))))"

subsection \<open>The XFOIL screening matrix\<close>

definition effective_operating_points :: "screening_plan \<Rightarrow> operating_point list" where
  "effective_operating_points p =
     (if xp_points p \<noteq> [] then xp_points p
      else [\<lparr>op_id = ''primary'', op_reynolds = xp_reynolds p, op_mach = xp_mach p, op_ncrit = xp_ncrit p,
             op_target_cl = xp_target_cl p, op_minimum_cm = xp_minimum_cm p\<rparr>])"

definition alpha_grid_ok :: "rat \<Rightarrow> rat \<Rightarrow> rat \<Rightarrow> bool" where
  "alpha_grid_ok first final step =
     (let steps = binary64 (binary64 (final - first) / step); rounded = math_round steps in
      \<not> (\<bar>binary64 (steps - of_int rounded)\<bar> > binary64 (binary64 (1 / 10 ^ 8) * max 1 \<bar>steps\<bar>) \<or>
         rounded < 1 \<or> rounded + 1 > 201))"

definition operating_envelope :: "go_float \<Rightarrow> go_float \<Rightarrow> bool" where
  "operating_envelope reynolds mach \<longleftrightarrow>
     50000 \<le> number_of reynolds \<and> number_of reynolds \<le> 50000000 \<and> 0 \<le> number_of mach \<and> number_of mach \<le> binary64 (7 / 10)"

definition in_range :: "rat \<Rightarrow> go_float \<Rightarrow> rat \<Rightarrow> bool" where
  "in_range lo x hi \<longleftrightarrow> lo \<le> number_of x \<and> number_of x \<le> hi"

definition operating_condition :: "operating_point \<Rightarrow> go_float list" where
  "operating_condition p = [op_reynolds p, op_mach p, op_ncrit p, op_target_cl p, op_minimum_cm p]"

text \<open>The loop over the points with its two maps.\<close>

fun check_points :: "string list \<Rightarrow> go_float list list \<Rightarrow> operating_point list \<Rightarrow> check" where
  "check_points ids conditions [] = None"
| "check_points ids conditions (p # ps) =
     and_check (require (plan_identifier (op_id p)) ''XFOIL operating point id is invalid'')
     (and_check (require (op_id p \<notin> set ids) ''XFOIL operating point ids must be unique'')
     (and_check (require (list_all float_finite (operating_condition p) \<and> operating_envelope (op_reynolds p) (op_mach p) \<and>
         in_range 1 (op_ncrit p) 14 \<and> in_range (-5) (op_target_cl p) 5 \<and> in_range (-5) (op_minimum_cm p) 5)
       ''XFOIL operating point is outside the supported envelope'')
     (and_check (require (operating_condition p \<notin> set conditions) ''XFOIL operating points must have unique numerical conditions'')
     (check_points (op_id p # ids) (operating_condition p # conditions) ps))))"

definition validate_screening :: "screening_plan \<Rightarrow> check" where
  "validate_screening p =
     and_check (require (length (xp_naca p) = 4 \<and> list_all is_digit (xp_naca p) \<and>
         list_all float_finite [xp_reynolds p, xp_mach p, xp_alpha_start p, xp_alpha_end p, xp_alpha_step p, xp_chord p,
           xp_hinge_x p, xp_hinge_y p, xp_ncrit p, xp_target_cl p, xp_minimum_cm p])
       ''XFOIL screening plan has invalid identifiers or non-finite values'')
     (and_check (require (operating_envelope (xp_reynolds p) (xp_mach p) \<and> -15 \<le> number_of (xp_alpha_start p) \<and>
         number_of (xp_alpha_end p) \<le> 20 \<and> number_of (xp_alpha_start p) < number_of (xp_alpha_end p) \<and>
         in_range (binary64 (1 / 100)) (xp_alpha_step p) 5)
       ''XFOIL screening plan is outside the supported polar envelope'')
     (and_check (require (alpha_grid_ok (number_of (xp_alpha_start p)) (number_of (xp_alpha_end p)) (number_of (xp_alpha_step p)))
       ''XFOIL screening plan alpha grid is invalid'')
     (and_check (require (0 < number_of (xp_chord p) \<and> number_of (xp_chord p) < 1 / 2 \<and>
         1 / 2 < number_of (xp_hinge_x p) \<and> number_of (xp_hinge_x p) < 1 \<and>
         \<bar>binary64 (binary64 (1 - number_of (xp_hinge_x p)) - number_of (xp_chord p))\<bar> \<le> binary64 (1 / 10 ^ 8) \<and>
         in_range (- 1 / 2) (xp_hinge_y p) (1 / 2))
       ''XFOIL screening plan flap geometry is invalid'')
     (and_check (require (1 \<le> length (xp_deflections p) \<and> length (xp_deflections p) \<le> 64)
       ''XFOIL screening plan requires 1-64 candidate deflections'')
     (and_check (check_unique (\<lambda>x. require (float_finite x \<and> in_range (-40) x 40) ''XFOIL screening candidate deflection is invalid'')
        (\<lambda>x. x) ''XFOIL screening plan has duplicate candidate deflections'' (\<lambda>x. None) [] (xp_deflections p))
     (and_check (require (in_range 1 (xp_ncrit p) 14 \<and> 50 \<le> xp_iterations p \<and> xp_iterations p \<le> 500 \<and>
         80 \<le> xp_panels p \<and> xp_panels p \<le> 300)
       ''XFOIL screening solver controls are invalid'')
     (and_check (require (xp_objective p = ''minimize_cd_at_target_cl'' \<and> in_range (-5) (xp_target_cl p) 5 \<and> in_range (-5) (xp_minimum_cm p) 5)
       ''XFOIL screening optimization contract is invalid'')
     (and_check (require (length (xp_points p) \<le> 16) ''XFOIL screening workflow supports at most 16 operating points'')
     (and_check (require (length (effective_operating_points p) * length (xp_deflections p) \<le> 64)
       ''XFOIL screening workflow supports at most 64 bounded solver calls'')
     (check_points [] [] (xp_points p)))))))))))"

subsection \<open>XFOIL in the prose of a plan\<close>

text \<open>Texts are UTF-8; the Korean words of the exclusion phrases are given by their bytes.\<close>

definition excluded_word :: string where
  "excluded_word = [CHR 0xEC, CHR 0xA0, CHR 0x9C, CHR 0xEC, CHR 0x99, CHR 0xB8]"

definition scope_word :: string where
  "scope_word = [CHR 0xEB, CHR 0xB2, CHR 0x94, CHR 0xEC, CHR 0x9C, CHR 0x84]"

definition eun :: string where
  "eun = [CHR 0xEC, CHR 0x9D, CHR 0x80]"

definition eul :: string where
  "eul = [CHR 0xEC, CHR 0x9D, CHR 0x84]"

definition reul :: string where
  "reul = [CHR 0xEB, CHR 0xA5, CHR 0xBC]"

definition unused_word :: string where
  "unused_word = [CHR 0xEB, CHR 0xAF, CHR 0xB8, CHR 0xEC, CHR 0x82, CHR 0xAC, CHR 0xEC, CHR 0x9A, CHR 0xA9]"

definition nonuse_word :: string where
  "nonuse_word = [CHR 0xEB, CHR 0xB9, CHR 0x84, CHR 0xEC, CHR 0x82, CHR 0xAC, CHR 0xEC, CHR 0x9A, CHR 0xA9]"

definition not_using :: string where
  "not_using = [CHR 0xEC, CHR 0x82, CHR 0xAC, CHR 0xEC, CHR 0x9A, CHR 0xA9, CHR 0xED, CHR 0x95, CHR 0x98, CHR 0xEC, CHR 0xA7, CHR 0x80]"

definition use_word :: string where
  "use_word = [CHR 0xEC, CHR 0x82, CHR 0xAC, CHR 0xEC, CHR 0x9A, CHR 0xA9]"

definition not_stem :: string where
  "not_stem = [CHR 0xEC, CHR 0x95, CHR 0x8A]"

definition not_word :: string where
  "not_word = [CHR 0xEC, CHR 0x95, CHR 0x88]"

definition instead_word :: string where
  "instead_word = [CHR 0xEB, CHR 0x8C, CHR 0x80, CHR 0xEC, CHR 0x8B, CHR 0xA0]"

definition wide_colon :: string where
  "wide_colon = [CHR 0xEF, CHR 0xBC, CHR 0x9A]"

definition exclusion_prefixes :: "string list" where
  "exclusion_prefixes =
   [excluded_word @ '':'', excluded_word @ wide_colon, excluded_word @ '' '' @ scope_word, ''exclude:'',
    ''excluded:'', ''exclusions:'', ''out of scope:'']"

definition exclusion_phrases :: "string list" where
  "exclusion_phrases =
   [''xfoil '' @ excluded_word, ''xfoil'' @ eun @ '' '' @ excluded_word,
    ''xfoil'' @ eul @ '' '' @ excluded_word, ''xfoil'' @ reul @ '' '' @ excluded_word,
    ''xfoil '' @ unused_word, ''xfoil '' @ nonuse_word,
    ''xfoil'' @ eul @ '' '' @ not_using @ '' '' @ not_stem, ''xfoil '' @ use_word @ '' '' @ not_word,
    ''exclude xfoil'', ''excluding xfoil'', ''excluded xfoil'', ''without xfoil'', ''do not use xfoil'',
    ''don'' @ [CHR 0x27] @ ''t use xfoil'', ''not use xfoil'', ''no xfoil'', ''xfoil is excluded'',
    ''xfoil excluded'', ''xfoil is out of scope'', ''xfoil out of scope'', ''xfoil is unsupported'',
    ''xfoil unsupported'', ''xfoil is not used'', ''xfoil not used'',
    ''xfoil'' @ eul @ '' '' @ not_using, ''xfoil'' @ reul @ '' '' @ not_using, ''xfoil '' @ not_using,
    ''xfoil '' @ instead_word]"

definition is_excluded_xfoil_clause :: "string \<Rightarrow> bool" where
  "is_excluded_xfoil_clause lower \<longleftrightarrow>
     list_ex (has_prefix lower) exclusion_prefixes \<or> list_ex (contains_text lower) exclusion_phrases"

text \<open>\<^verbatim>\<open>strings.ReplaceAll\<close> of CR LF by LF, \<^verbatim>\<open>strings.Split\<close> at LF and \<^verbatim>\<open>strings.Join\<close> with LF.\<close>

fun unix_lines :: "string \<Rightarrow> string" where
  "unix_lines [] = []"
| "unix_lines (c # cs) =
     (if c = CHR 0x0D \<and> take 1 cs = [CHR 0x0A] then CHR 0x0A # unix_lines (drop 1 cs) else c # unix_lines cs)"

fun split_lines :: "string \<Rightarrow> string list" where
  "split_lines [] = [[]]"
| "split_lines (c # cs) =
     (if c = CHR 0x0A then [] # split_lines cs
      else case split_lines cs of [] \<Rightarrow> [[c]] | l # ls \<Rightarrow> (c # l) # ls)"

fun join_lines :: "string list \<Rightarrow> string" where
  "join_lines [] = []"
| "join_lines [l] = l"
| "join_lines (l # ls) = l @ CHR 0x0A # join_lines ls"

text \<open>\<^verbatim>\<open>strings.TrimLeft\<close> and \<^verbatim>\<open>TrimRight\<close> with the cutsets of the headings; the right one holds the wide colon.\<close>

definition trim_heading_left :: "string \<Rightarrow> string" where
  "trim_heading_left s = dropWhile (\<lambda>c. c \<in> set ''#* '') s"

fun trim_reversed :: "string \<Rightarrow> string" where
  "trim_reversed [] = []"
| "trim_reversed (c # cs) =
     (if c \<in> set '':* '' then trim_reversed cs
      else if c = CHR 0x9A \<and> take 2 cs = [CHR 0xBC, CHR 0xEF] then trim_reversed (drop 2 cs)
      else c # cs)"

definition trim_heading_right :: "string \<Rightarrow> string" where
  "trim_heading_right s = rev (trim_reversed (rev s))"

definition exclusion_heading :: "string \<Rightarrow> bool" where
  "exclusion_heading line =
     (let heading = trim_space (trim_heading_right (trim_space (trim_heading_left (trim_space line))));
          lower = go_lower heading
      in lower = ''exclusions'' \<or> lower = ''excluded scope'' \<or> lower = ''out of scope'' \<or>
         heading = excluded_word \<or> heading = excluded_word @ '' '' @ scope_word)"

fun keep_lines :: "bool \<Rightarrow> string list \<Rightarrow> string list" where
  "keep_lines excluded [] = []"
| "keep_lines excluded (l # ls) =
     (if exclusion_heading l then keep_lines True ls
      else let now = (if has_prefix (trim_space l) ''#'' then False else excluded) in
        (if now then keep_lines now ls else l # keep_lines now ls))"

definition strip_excluded_plan_sections :: "string \<Rightarrow> string" where
  "strip_excluded_plan_sections s = join_lines (keep_lines False (split_lines (unix_lines s)))"

text \<open>The length of the separator at the front of a text, 0 if there is none, and \<^verbatim>\<open>strings.FieldsFunc\<close> over it.\<close>

definition clause_separator :: "string \<Rightarrow> nat" where
  "clause_separator s =
     (case s of [] \<Rightarrow> 0
      | c # cs \<Rightarrow>
          if c \<in> {CHR 0x0A, CHR 0x0D, CHR ''.'', CHR ''!'', CHR ''?'', CHR '';''} then 1
          else if take 3 s \<in> {[CHR 0xE3, CHR 0x80, CHR 0x82], [CHR 0xEF, CHR 0xBC, CHR 0x81], [CHR 0xEF, CHR 0xBC, CHR 0x9F]} then 3
          else 0)"

function clauses :: "string \<Rightarrow> string \<Rightarrow> string list" where
  "clauses field [] = (if field = [] then [] else [field])"
| "clauses field (c # cs) =
     (if clause_separator (c # cs) = 0 then clauses (field @ [c]) cs
      else (if field = [] then [] else [field]) @ clauses [] (drop (clause_separator (c # cs)) (c # cs)))"
  by pat_completeness auto

termination clauses
  by (relation "measure (length \<circ> snd)") auto

definition contains_executable_xfoil_reference :: "string \<Rightarrow> bool" where
  "contains_executable_xfoil_reference s \<longleftrightarrow>
     list_ex (\<lambda>clause. let lower = go_lower (trim_space clause) in
       contains_text lower ''xfoil'' \<and> \<not> is_excluded_xfoil_clause lower)
     (clauses [] (strip_excluded_plan_sections s))"

definition plan_prose :: "research_plan \<Rightarrow> string list" where
  "plan_prose p =
     rp_question p # elems (rp_sources p) @ elems (rp_criteria p) @
     concat (map (\<lambda>w. ws_question w # ws_kinds w @ ws_required w) (elems (rp_workstreams p)))"

definition references_xfoil :: "research_plan \<Rightarrow> bool" where
  "references_xfoil p \<longleftrightarrow> list_ex contains_executable_xfoil_reference (plan_prose p)"

subsection \<open>The plan\<close>

definition validate_plan :: "research_plan \<Rightarrow> check" where
  "validate_plan p =
     and_check (require (rp_question p \<noteq> []) ''research plan question is empty'')
     (and_check (require (rp_mode p = ''general'' \<or> rp_mode p = ''engineering'') ''unsupported research mode'')
     (and_check (case rp_screening p of
         Some x \<Rightarrow> and_check (require (rp_mode p = ''engineering'') ''XFOIL screening requires engineering research mode'') (validate_screening x)
       | None \<Rightarrow> require (\<not> references_xfoil p)
           ''XFOIL research requires the immutable supported xfoil_screening contract; arbitrary airfoil-coordinate comparisons are not supported'')
     (and_check (require (rp_mesh_study p = None) ''legacy SU2 preset plans are not executable; create an exact su2_cases contract'')
     (and_check (case rp_cases p of
         Some c \<Rightarrow> and_check (require (rp_mode p = ''engineering'') ''SU2 cases require engineering research mode'') (validate_case_set c)
       | None \<Rightarrow> None)
     (and_check (require (1 \<le> length (elems (rp_workstreams p)) \<and> length (elems (rp_workstreams p)) \<le> MaxCollectors)
       ''research plan must contain 1-3 workstreams'')
     (check_unique (\<lambda>w. require (ws_id w \<noteq> [] \<and> ws_question w \<noteq> []) ''workstream id and question are required'')
        ws_id ''duplicate workstream id'' (\<lambda>w. None) [] (elems (rp_workstreams p))))))))"

definition validate_research_plan :: "research_plan \<Rightarrow> check" where
  "validate_research_plan p =
     and_check (require (rp_workstreams p \<noteq> None \<and> rp_sources p \<noteq> None \<and> rp_criteria p \<noteq> None)
       ''research plan omits a required array field'')
     (validate_plan p)"

lemma round_half_even_nonneg: "0 \<le> y \<Longrightarrow> 0 \<le> round_half_even y"
  by (auto simp: round_half_even_def Let_def)

lemma binary64_nonneg: "0 \<le> x \<Longrightarrow> 0 \<le> binary64 x"
  by (auto simp: binary64_def Let_def intro!: mult_nonneg_nonneg round_half_even_nonneg divide_nonneg_nonneg)

lemma binary64_0 [simp]: "binary64 0 = 0"
  by (simp add: binary64_def)

lemma binary64_samples: "binary64 1 = 1" "binary64 (1 / 4) = 1 / 4" "binary64 (1 / 100) \<le> 1"
proof -
  have "leading_exponent 1 = 0" "leading_exponent (1 / 4) = -2" "leading_exponent (1 / 100) = -7"
    by (simp_all add: leading_exponent_def compute_floorlog)
  then show "binary64 1 = 1" "binary64 (1 / 4) = 1 / 4" "binary64 (1 / 100) \<le> 1"
    by (simp_all add: binary64_def round_half_even_def Let_def power_int_def field_simps)
qed
end
