(* ===== verification/Checkpoint.thy ===== *)
theory Checkpoint
  imports Research_Stage Research_Plan Review_Gate
begin

section \<open>The checkpoint of an interrupted run\<close>

text \<open>
  \<^verbatim>\<open>src/internal/research/checkpoint.go\<close>: what a resumed run rebuilds from the completed attempts
  of its stages, and the point at which it goes on; and the validator of review verdicts
  (\<^verbatim>\<open>validation.go\<close>), which the checkpoint shares with the REVIEW stage.
\<close>

subsection \<open>Review verdicts\<close>

text \<open>A decoded verdict: of its slices only whether they are nil matters beside their elements.\<close>

record verdict_document =
  vd_verdict :: review_verdict
  vd_errors_nil :: bool
  vd_requests_nil :: bool
  vd_required_nil :: "bool list"

definition supported_action :: "remediation_action \<Rightarrow> bool" where
  "supported_action a = (case a of RemOther t \<Rightarrow> t = [] | _ \<Rightarrow> True)"

definition validate_review_verdict :: "verdict_document \<Rightarrow> check" where
  "validate_review_verdict d =
     (let v = vd_verdict d in
      and_check (require (\<not> vd_errors_nil d \<and> \<not> vd_requests_nil d) ''review verdict omits a required array field'')
      (and_check (require (supported_action (remediation_action_of v)) ''unsupported review remediation action'')
      (and_check (check_each (\<lambda>(t, missing).
           and_check (require (\<not> blank (k_objective t) \<and> \<not> missing) ''review remediation task is incomplete'')
             (require (k_solver t \<longrightarrow> k_engineering t)
               ''review remediation task requests a new solver execution without engineering work''))
         (zip (remediation_tasks v) (vd_required_nil d)))
      (case passes v of Inl e \<Rightarrow> Some e | Inr b \<Rightarrow> None))))"

definition report_passes :: "review_verdict \<Rightarrow> report_manifest \<Rightarrow> string + bool" where
  "report_passes v r = passes_for_report v (rm_assessment r \<noteq> None)"

definition validate_review_verdict_for_report :: "verdict_document \<Rightarrow> report_manifest \<Rightarrow> check" where
  "validate_review_verdict_for_report d r =
     (let v = vd_verdict d; action = effective_remediation_action v in
      and_check (validate_review_verdict d)
      (and_check (case knowledge_integrity_of v of None \<Rightarrow> None
         | Some k \<Rightarrow> require (unsupported_assertions k \<le> int (length (elems (kp_assertions (rm_patch r)))))
             ''review reports more unsupported assertions than the patch contains'')
      (if remediation_action_of v = RemOther [] then None
       else case report_passes v r of
         Inl e \<Rightarrow> Some e
       | Inr ok \<Rightarrow>
           and_check (require (ok \<longrightarrow> action = RemNone) ''passing review must use remediation_action=none'')
           (and_check (require (\<not> ok \<longrightarrow> action \<noteq> RemNone) ''failing review must select a remediation action'')
           (require (restarts_research action \<longrightarrow> remediation_tasks v \<noteq> [])
             ''research remediation requires at least one concrete task'')))))"

subsection \<open>The output of one attempt\<close>

text \<open>
  The per-attempt part of \<open>loadCheckpoint\<close>: what a live attempt must show before its output is
  read. The database holds the ordinal the workflow knows as the logical ordinal.
\<close>

definition list_artifacts :: "db \<Rightarrow> string \<Rightarrow> artifact_row list" where
  "list_artifacts s rid = sort_key f_created (filter (\<lambda>f. f_run f = rid) (artifacts s))"

definition has_published_output :: "db \<Rightarrow> run_row \<Rightarrow> attempt_row \<Rightarrow> bool" where
  "has_published_output s run a \<longleftrightarrow>
     (\<exists>f \<in> set (list_artifacts s (r_id run)). f_attempt f = a_id a \<and> f_blob f = a_output a)"

definition stage_execution_receipt :: "db \<Rightarrow> string \<Rightarrow> receipt_row option" where
  "stage_execution_receipt s aid = select_key x_attempt (receipts s) aid"

definition receipt_consistent :: "run_row \<Rightarrow> attempt_row \<Rightarrow> model_profile \<Rightarrow> receipt_row \<Rightarrow> bool" where
  "receipt_consistent run a prof x \<longleftrightarrow>
     x_attempt x = a_id a \<and> x_run x = r_id run \<and> x_profile x = r_profile run \<and> x_model x = mp_model prof \<and>
     x_effort x = mp_effort prof \<and> x_tier x = mp_tier prof \<and> x_thread x = a_thread a \<and> x_turn x = a_turn a \<and>
     x_input x = a_input a \<and> x_output x = a_output a \<and> x_contract x = StageExecutionContractSHA256 \<and> x_build x = r_build run"

definition receipt_check :: "db \<Rightarrow> run_row \<Rightarrow> attempt_row \<Rightarrow> check" where
  "receipt_check s run a =
     (if \<not> a_external a then None
      else case stage_execution_receipt s (a_id a) of
        None \<Rightarrow> Some ''side-effect stage lacks a durable execution receipt''
      | Some x \<Rightarrow>
          (case profile_for_stage (r_profile run) (a_stage a) of
             Inl e \<Rightarrow> Some ''side-effect stage profile is invalid''
           | Inr prof \<Rightarrow> require (receipt_consistent run a prof x) ''side-effect stage execution receipt is inconsistent''))"

definition attempt_output :: "(string \<Rightarrow> string) \<Rightarrow> string option \<Rightarrow> db \<Rightarrow> cas_store \<Rightarrow> run_row \<Rightarrow> attempt_row \<Rightarrow> string + string" where
  "attempt_output sha fault s c run a =
     (case and_check (require (a_status a = Completed) ''stage is not completed'')
       (and_check (require (\<not> blank (a_thread a) \<and> \<not> blank (a_turn a)) ''completed stage lacks thread or turn identity'')
       (and_check (require (\<not> blank (a_output a)) ''completed stage lacks an output hash'')
       (and_check (require (has_published_output s run a) ''completed stage has no matching published artifact'')
       (receipt_check s run a)))) of
        Some e \<Rightarrow> Inl e
      | None \<Rightarrow>
          (case cas_read_verified sha fault (a_output a) c of
             Inl e \<Rightarrow> Inl (''verify output: '' @ cas_error_text e)
           | Inr d \<Rightarrow> Inr d))"

subsection \<open>The checkpoint\<close>

record checkpoint =
  kc_attempts :: bool
  kc_plan :: "research_plan option"
  kc_evidence :: "(string \<times> evidence_bundle) list"
  kc_ordinals :: "(string \<times> int) list"
  kc_reports :: "(int \<times> report_manifest) list"
  kc_reviews :: "(int \<times> verdict_document) list"

definition new_workflow_checkpoint :: checkpoint where
  "new_workflow_checkpoint =
     \<lparr>kc_attempts = False, kc_plan = None, kc_evidence = [], kc_ordinals = [], kc_reports = [], kc_reviews = []\<rparr>"

definition EngineeringVerificationOrdinal :: int where
  "EngineeringVerificationOrdinal = int MaxCollectors"

definition verification_workstream :: string where
  "verification_workstream = ''aetherops_engineering_verification''"

text \<open>The strict JSON decoders of the four stage outputs, the test of public URLs and the reader of times.\<close>

record decoders =
  dc_plan :: "string \<Rightarrow> string + research_plan"
  dc_bundle :: "string \<Rightarrow> string + evidence_bundle"
  dc_report :: "string \<Rightarrow> string + report_manifest"
  dc_verdict :: "string \<Rightarrow> string + verdict_document"
  dc_public :: "string \<Rightarrow> bool"
  dc_instant :: "string \<Rightarrow> int option"

definition accept_plan :: "decoders \<Rightarrow> string \<Rightarrow> int \<Rightarrow> string \<Rightarrow> checkpoint \<Rightarrow> string + checkpoint" where
  "accept_plan D question ordinal out k =
     (if ordinal \<noteq> 0 \<or> kc_plan k \<noteq> None then Inl ''duplicate or invalid plan checkpoint''
      else case dc_plan D out of
        Inl e \<Rightarrow> Inl (''decode plan checkpoint: '' @ e)
      | Inr p \<Rightarrow>
          (case validate_research_plan p of
             Some e \<Rightarrow> Inl (''validate plan checkpoint: '' @ e)
           | None \<Rightarrow> if rp_question p \<noteq> question then Inl ''plan checkpoint question does not match run question''
                   else Inr (k\<lparr>kc_plan := Some p\<rparr>)))"

definition accept_evidence :: "decoders \<Rightarrow> int \<Rightarrow> string \<Rightarrow> checkpoint \<Rightarrow> string + checkpoint" where
  "accept_evidence D ordinal out k =
     (if ordinal < 0 \<or> ordinal > EngineeringVerificationOrdinal then Inl ''invalid collector checkpoint ordinal''
      else case dc_bundle D out of
        Inl e \<Rightarrow> Inl (''decode evidence checkpoint: '' @ e)
      | Inr b \<Rightarrow>
          (case and_check (case validate_evidence_bundle (dc_public D) [] b of None \<Rightarrow> None | Some e \<Rightarrow> Some (''validate evidence checkpoint: '' @ e))
            (and_check (require (\<not> (ordinal = EngineeringVerificationOrdinal \<and> eb_workstream b \<noteq> verification_workstream))
               ''reserved engineering verification ordinal contains a normal collector bundle'')
            (and_check (require (\<not> (ordinal < EngineeringVerificationOrdinal \<and> eb_workstream b = verification_workstream))
               ''engineering verification bundle is not in the reserved collector ordinal'')
            (require (map_of (kc_evidence k) (eb_workstream b) = None) ''duplicate evidence checkpoint for workstream''))) of
             Some e \<Rightarrow> Inl e
           | None \<Rightarrow> Inr (k\<lparr>kc_evidence := kc_evidence k @ [(eb_workstream b, b)],
                            kc_ordinals := kc_ordinals k @ [(eb_workstream b, ordinal)]\<rparr>)))"

definition accept_report :: "decoders \<Rightarrow> int \<Rightarrow> string \<Rightarrow> checkpoint \<Rightarrow> string + checkpoint" where
  "accept_report D ordinal out k =
     (if map_of (kc_reports k) ordinal \<noteq> None then Inl ''duplicate report checkpoint''
      else case dc_report D out of
        Inl e \<Rightarrow> Inl (''decode report checkpoint: '' @ e)
      | Inr r \<Rightarrow>
          (case validate_report_manifest (dc_instant D) r of
             Some e \<Rightarrow> Inl (''validate report checkpoint: '' @ e)
           | None \<Rightarrow> Inr (k\<lparr>kc_reports := kc_reports k @ [(ordinal, r)]\<rparr>)))"

definition accept_review :: "decoders \<Rightarrow> int \<Rightarrow> string \<Rightarrow> checkpoint \<Rightarrow> string + checkpoint" where
  "accept_review D ordinal out k =
     (if ordinal < 0 \<or> ordinal > MaxRevisions then Inl ''invalid review checkpoint ordinal''
      else if map_of (kc_reviews k) ordinal \<noteq> None then Inl ''duplicate review checkpoint''
      else case dc_verdict D out of
        Inl e \<Rightarrow> Inl (''decode review checkpoint: '' @ e)
      | Inr v \<Rightarrow>
          (case validate_review_verdict v of
             Some e \<Rightarrow> Inl (''validate review checkpoint: '' @ e)
           | None \<Rightarrow> Inr (k\<lparr>kc_reviews := kc_reviews k @ [(ordinal, v)]\<rparr>)))"

definition accept :: "decoders \<Rightarrow> string \<Rightarrow> attempt_row \<Rightarrow> string \<Rightarrow> checkpoint \<Rightarrow> string + checkpoint" where
  "accept D question a out k =
     (case a_stage a of
        StagePlan \<Rightarrow> accept_plan D question (a_logical a) out k
      | StageCollect \<Rightarrow> accept_evidence D (a_logical a) out k
      | StageSynthesize \<Rightarrow>
          if a_logical a \<noteq> 0 then Inl ''invalid synthesis checkpoint ordinal'' else accept_report D 0 out k
      | StageRevise \<Rightarrow>
          if a_logical a < 1 \<or> a_logical a > MaxRevisions then Inl ''invalid revision checkpoint ordinal''
          else accept_report D (a_logical a) out k
      | StageReview \<Rightarrow> accept_review D (a_logical a) out k
      | StageOther t \<Rightarrow> Inl (''unsupported stage checkpoint '' @ t))"

fun load_attempts ::
    "decoders \<Rightarrow> (attempt_row \<Rightarrow> string + string) \<Rightarrow> string \<Rightarrow> attempt_row list \<Rightarrow> checkpoint \<Rightarrow> string + checkpoint" where
  "load_attempts D read question [] k = Inr k"
| "load_attempts D read question (a # as) k =
     (if a_status a = Superseded then load_attempts D read question as k
      else case read a of
        Inl e \<Rightarrow> Inl e
      | Inr out \<Rightarrow>
          (case accept D question a out (k\<lparr>kc_attempts := True\<rparr>) of
             Inl e \<Rightarrow> Inl e
           | Inr k1 \<Rightarrow> load_attempts D read question as k1))"

subsection \<open>The checks of the whole checkpoint\<close>

text \<open>
  The readbacks that verify a checkpoint against the content-addressed store, the captured
  sources and the solver jobs, each an argument: the sources of a bundle of a collector, the
  independent verification of a screening, the screening matrix, the artifacts of a report and
  the evidence of its knowledge patch.
\<close>

record readback =
  rb_sources :: "int \<Rightarrow> evidence_bundle \<Rightarrow> check"
  rb_verification :: "evidence_bundle \<Rightarrow> check"
  rb_coverage :: "research_plan \<Rightarrow> evidence_bundle \<Rightarrow> check"
  rb_artifacts :: "report_manifest \<Rightarrow> check"
  rb_knowledge :: "report_manifest \<Rightarrow> check"

definition workstream_ordinals :: "research_plan \<Rightarrow> (string \<times> int) list" where
  "workstream_ordinals p = zip (map ws_id (elems (rp_workstreams p))) (map int [0..<length (elems (rp_workstreams p))])"

definition check_bundle :: "decoders \<Rightarrow> readback \<Rightarrow> research_plan \<Rightarrow> checkpoint \<Rightarrow> string \<times> evidence_bundle \<Rightarrow> check" where
  "check_bundle D B p k wb =
     (case wb of (w, b) \<Rightarrow>
        if w = verification_workstream then
          and_check (require (map_of (kc_ordinals k) w = Some EngineeringVerificationOrdinal)
            ''engineering verification checkpoint ordinal is inconsistent'')
          (and_check (validate_evidence_bundle (dc_public D) verification_workstream b)
          (and_check (rb_sources B EngineeringVerificationOrdinal b) (rb_verification B b)))
        else case map_of (workstream_ordinals p) w of
          None \<Rightarrow> Some ''evidence checkpoint references unknown workstream''
        | Some n \<Rightarrow>
            and_check (require (map_of (kc_ordinals k) w = Some n) ''evidence checkpoint ordinal is inconsistent'')
            (and_check (validate_evidence_bundle (dc_public D) w b) (rb_sources B n b)))"

fun workstream_bundles :: "decoders \<Rightarrow> (string \<times> evidence_bundle) list \<Rightarrow> workstream list \<Rightarrow> string + evidence_bundle list" where
  "workstream_bundles D ev [] = Inr []"
| "workstream_bundles D ev (w # ws) =
     (case map_of ev (ws_id w) of
        None \<Rightarrow> Inl ''missing evidence checkpoint for workstream''
      | Some b \<Rightarrow>
          (case validate_evidence_bundle (dc_public D) (ws_id w) b of
             Some e \<Rightarrow> Inl e
           | None \<Rightarrow> (case workstream_bundles D ev ws of Inl e \<Rightarrow> Inl e | Inr bs \<Rightarrow> Inr (b # bs))))"

definition ordered_evidence :: "decoders \<Rightarrow> research_plan \<Rightarrow> (string \<times> evidence_bundle) list \<Rightarrow> string + evidence_bundle list" where
  "ordered_evidence D p ev =
     (case workstream_bundles D ev (elems (rp_workstreams p)) of
        Inl e \<Rightarrow> Inl e
      | Inr bs \<Rightarrow>
          let ordered = (case map_of ev verification_workstream of None \<Rightarrow> bs | Some b \<Rightarrow> bs @ [b]) in
          (case and_check (case map_of ev verification_workstream of None \<Rightarrow> None
                | Some b \<Rightarrow> validate_evidence_bundle (dc_public D) verification_workstream b)
              (validate_global_evidence_identity (dc_public D) ordered) of
             Some e \<Rightarrow> Inl e
           | None \<Rightarrow> Inr ordered))"

definition missing_workstreams :: "research_plan \<Rightarrow> (string \<times> evidence_bundle) list \<Rightarrow> nat list" where
  "missing_workstreams p ev =
     filter (\<lambda>i. map_of ev (ws_id (elems (rp_workstreams p) ! i)) = None) [0..<length (elems (rp_workstreams p))]"

definition check_reports :: "decoders \<Rightarrow> readback \<Rightarrow> checkpoint \<Rightarrow> evidence_bundle list \<Rightarrow> check" where
  "check_reports D B k bs =
     and_check (check_each (\<lambda>(n, r). and_check (report_validate (dc_instant D) r bs)
         (and_check (rb_artifacts B r) (rb_knowledge B r))) (kc_reports k))
     (check_each (\<lambda>(n, v). case map_of (kc_reports k) n of
          None \<Rightarrow> Some ''review has no matching report checkpoint''
        | Some r \<Rightarrow> validate_review_verdict_for_report v r) (kc_reviews k))"

definition check_checkpoint :: "decoders \<Rightarrow> readback \<Rightarrow> string \<Rightarrow> checkpoint \<Rightarrow> check" where
  "check_checkpoint D B question k =
     (case kc_plan k of
        None \<Rightarrow> None
      | Some p \<Rightarrow>
          and_check (validate_research_plan p)
          (and_check (require (rp_question p = question) ''plan checkpoint question does not match run'')
          (and_check (check_each (check_bundle D B p k) (kc_evidence k))
          (and_check (case elems (rp_workstreams p) of [] \<Rightarrow> None
             | w # ws \<Rightarrow> (case map_of (kc_evidence k) (ws_id w) of None \<Rightarrow> None | Some b \<Rightarrow> rb_coverage B p b))
          (case ordered_evidence D p (kc_evidence k) of
             Inl e \<Rightarrow> require (length (kc_evidence k) \<noteq> length (elems (rp_workstreams p))) e
           | Inr bs \<Rightarrow> check_reports D B k bs)))))"

definition load_checkpoint ::
    "decoders \<Rightarrow> readback \<Rightarrow> (string \<Rightarrow> string) \<Rightarrow> db \<Rightarrow> cas_store \<Rightarrow> run_row \<Rightarrow> engine_error + checkpoint" where
  "load_checkpoint D B sha s c run =
     (case load_attempts D (attempt_output sha None s c run) (r_question run)
             (list_stage_attempts s (r_id run)) new_workflow_checkpoint of
        Inl e \<Rightarrow> Inl (Wrapped e UnsafeResume)
      | Inr k \<Rightarrow>
          (case check_checkpoint D B (r_question run) k of
             Some e \<Rightarrow> Inl (Wrapped e UnsafeResume)
           | None \<Rightarrow> Inr k))"

subsection \<open>Where a resumed run goes on\<close>

datatype resume_point =
  ResumeSynthesize
| ResumeReview report_manifest int
| ResumeRevise report_manifest int
| ResumeSucceed report_manifest int
| ResumeQualityFailed report_manifest int

definition has_checkpoint_beyond :: "(int \<times> 'a) list \<Rightarrow> int \<Rightarrow> bool" where
  "has_checkpoint_beyond items n \<longleftrightarrow> list_ex (\<lambda>(k, x). k > n) items"

definition beyond :: "checkpoint \<Rightarrow> int \<Rightarrow> bool" where
  "beyond k n \<longleftrightarrow> has_checkpoint_beyond (kc_reports k) n \<or> has_checkpoint_beyond (kc_reviews k) n"

text \<open>The loop, from a report and its cycle; every round moves to a later report of the checkpoint.\<close>

function resume_from :: "checkpoint \<Rightarrow> report_manifest \<Rightarrow> int \<Rightarrow> string + resume_point" where
  "resume_from k report cycle =
     (case map_of (kc_reviews k) cycle of
        None \<Rightarrow> if beyond k cycle then Inl ''later checkpoints exist before review'' else Inr (ResumeReview report cycle)
      | Some d \<Rightarrow>
          (case report_passes (vd_verdict d) report of
             Inl e \<Rightarrow> Inl (''invalid review: '' @ e)
           | Inr True \<Rightarrow> if beyond k cycle then Inl ''checkpoints follow a passing review'' else Inr (ResumeSucceed report cycle)
           | Inr False \<Rightarrow>
               if cycle = MaxRevisions
               then (if beyond k cycle then Inl ''checkpoints exceed maximum revisions'' else Inr (ResumeQualityFailed report cycle))
               else case map_of (kc_reports k) (cycle + 1) of
                 None \<Rightarrow> if beyond k cycle then Inl ''later checkpoints exist before revision'' else Inr (ResumeRevise report cycle)
               | Some revised \<Rightarrow> resume_from k revised (cycle + 1)))"
  by pat_completeness auto

lemma later_reports:
  "map_of rs (n + 1) = Some r \<Longrightarrow> length (filter (\<lambda>(m, x). n + 1 < m) rs) < length (filter (\<lambda>(m, x). n < m) rs)"
  for n :: int
proof (induction rs)
  case (Cons a rs)
  have "length (filter (\<lambda>(m, x). n + 1 < m) rs) \<le> length (filter (\<lambda>(m, x). n < m) rs)"
    by (induction rs) auto
  with Cons show ?case by (cases a) (auto split: if_splits)
qed simp

termination resume_from
  by (relation "measure (\<lambda>(k, r, n). length (filter (\<lambda>(m, x). n < m) (kc_reports k)))") (auto intro: later_reports)

declare resume_from.simps [simp del]

definition resume_point_of :: "checkpoint \<Rightarrow> string + resume_point" where
  "resume_point_of k =
     (if kc_plan k = None then Inl ''plan checkpoint is absent''
      else case map_of (kc_reports k) 0 of
        None \<Rightarrow> if kc_reports k \<noteq> [] \<or> kc_reviews k \<noteq> [] then Inl ''later checkpoints exist without synthesis''
               else Inr ResumeSynthesize
      | Some r \<Rightarrow> resume_from k r 0)"

definition validate_resume_cycle :: "run_row \<Rightarrow> resume_point \<Rightarrow> check" where
  "validate_resume_cycle run p =
     (case p of
        ResumeSynthesize \<Rightarrow> require (r_cycle run = 0) ''synthesis checkpoint has a nonzero revision cycle''
      | ResumeReview r n \<Rightarrow> require (r_cycle run = n) ''run revision cycle differs''
      | ResumeSucceed r n \<Rightarrow> require (r_cycle run = n) ''run revision cycle differs''
      | ResumeQualityFailed r n \<Rightarrow> require (r_cycle run = n) ''run revision cycle differs''
      | ResumeRevise r n \<Rightarrow> require (r_cycle run = n \<or> r_cycle run = n + 1) ''run revision cycle differs'')"

end
