(* ===== verification/Publication_Log.thy ===== *)
theory Publication_Log
  imports Ledger_History
begin

section \<open>What has been published stays\<close>

text \<open>
  Artifacts, captured evidence and execution receipts over a history of the store: no row is ever
  deleted and none changes, except that an artifact or a piece of evidence may be adopted.
\<close>

definition artifact_step :: "artifact_row \<Rightarrow> artifact_row \<Rightarrow> bool" where
  "artifact_step f g \<longleftrightarrow> g = f \<or> g = f\<lparr>f_adopted := True\<rparr>"

definition evidence_step :: "evidence_row \<Rightarrow> evidence_row \<Rightarrow> bool" where
  "evidence_step v u \<longleftrightarrow> u = v \<or> u = v\<lparr>v_adopted := True\<rparr>"

interpretation artifact_log: row_history f_id artifact_step
  by unfold_locales (auto simp: artifact_step_def)

interpretation evidence_log: row_history v_id evidence_step
  by unfold_locales (auto simp: evidence_step_def)

interpretation receipt_log: row_history x_attempt "(=)"
  by unfold_locales simp_all

definition published :: "db \<Rightarrow> db \<Rightarrow> bool" where
  "published s t \<longleftrightarrow> rows_evolve artifact_step (artifacts s) (artifacts t) \<and>
     rows_evolve evidence_step (evidence s) (evidence t) \<and> rows_evolve (=) (receipts s) (receipts t)"

lemmas publication_refl = artifact_log.evolve_refl evidence_log.evolve_refl receipt_log.evolve_refl

interpretation published_steps: state_preorder published
proof unfold_locales
  fix s t u
  show "published s s" by (simp add: published_def publication_refl)
  show "published s t \<Longrightarrow> published t u \<Longrightarrow> published s u"
    unfolding published_def
    by (blast intro: artifact_log.evolve_trans evidence_log.evolve_trans receipt_log.evolve_trans)
qed

lemma published_same:
  "artifacts t = artifacts s \<Longrightarrow> evidence t = evidence s \<Longrightarrow> receipts t = receipts s \<Longrightarrow> published s t"
  by (simp add: published_def publication_refl)

lemma published_event: "published s t \<Longrightarrow> published s (append_event t rid k p now)"
  by (simp add: published_def)

lemma published_install_event: "published s t \<Longrightarrow> published s (append_install_event t n a d now)"
  by (simp add: published_def append_install_event_def)

lemma published_blob: "published s (insert_blob s h n m now)"
  by (rule published_same) (simp_all add: insert_blob_def)

lemma published_updates:
  "published s (fst (update_one_run p f e s))"
  "published s (fst (update_one_attempt q g e s))"
  "published s (fst (update_one_approval r h e s))"
  "published s (fst (update_cycles c cf s))"
  "published s (fst (update_installs i fi s))"
  "published s (fst (update_invocations j fj s))"
  "published s (fst (update_one_job k fk e s))"
  by (simp_all add: update_one_run_def update_one_attempt_def update_one_approval_def update_cycles_def
      update_installs_def update_invocations_def update_one_job_def Let_def published_def publication_refl)

lemma published_retire: "published s (fst (retire_pending_approvals rid reason now s))"
proof -
  have "published s (fst (retire_each rid reason now is s))" for "is" s
  proof (induction "is" arbitrary: s)
    case (Cons i "is")
    show ?case
      unfolding retire_each.simps
      by (rule published_steps.bind [OF published_updates(3)],
          rule published_steps.steps [OF published_event [OF published_steps.same] Cons.IH])
  qed (simp add: published_steps.same)
  then show ?thesis by (simp add: retire_pending_approvals_def)
qed

lemmas published_rules = published_steps.same published_event published_install_event published_updates published_retire

lemmas published_intros = published_steps.rollback published_steps.bind published_rules

subsection \<open>Runs and stages\<close>

lemma published_quiesce_transaction: "published s (fst (quiesce_run_transaction cur requested msg now s))"
  unfolding quiesce_run_transaction_def Let_def
  by (auto split: option.split intro!: published_intros)

lemma published_document: "published s (fst (publish_document rid aid doc now s))"
proof -
  have "published s (append_event (insert_blob s h n m now\<lparr>artifacts := artifacts (insert_blob s h n m now) @ [f]\<rparr>) rid k p now)"
    for h n m f k p
    by (rule published_event)
      (simp add: published_def insert_blob_def publication_refl artifact_log.evolve_append)
  then show ?thesis
    by (auto simp: publish_document_def Let_def split: option.split intro: published_steps.same)
qed

lemma published_adopt: "published s (fst (adopt_results cur rep now s))"
proof -
  have "rows_evolve artifact_step xs (update_where p (f_adopted_update (\<lambda>_. True)) xs)" for p xs
    by (rule artifact_log.evolve_update) (simp add: artifact_step_def)
  moreover have "rows_evolve evidence_step xs (update_where p (v_adopted_update (\<lambda>_. True)) xs)" for p xs
    by (rule evidence_log.evolve_update) (simp add: evidence_step_def)
  ultimately show ?thesis
    by (simp add: adopt_results_def Let_def published_def publication_refl)
qed

lemma run_publications:
  "published s (fst (transition_run rid ex nx msg now s))"
  "published s (fst (quiesce_run rid requested msg now s))"
  "published s (fst (resume_run_after_approval rid prior now s))"
  "published s (fst (set_run_cycle rid ex c now s))"
  "published s (fst (succeed_run rid ex doc now s))"
  by (auto simp: transition_run_def quiesce_run_def resume_run_after_approval_def set_run_cycle_def succeed_run_def
      split: option.split intro!: published_intros published_quiesce_transaction published_document published_adopt)

lemma succeed_document_publication: "published s (fst (succeed_run_with_report_document rid ex d now s))"
  by (simp add: succeed_run_with_report_document_def run_publications published_steps.same)

lemma stage_publications:
  "published s (fst (begin_stage fresh rid st ord thread input now s))"
  "published s (fst (set_stage_turn aid thread turn now s))"
  "published s (fst (mark_stage_external_side_effects aid now s))"
  "published s (fst (mark_active_stage_external_side_effects aid now s))"
  "published s (fst (complete_stage aid out err now s))"
  by (auto simp: begin_stage_def set_stage_turn_def mark_stage_external_side_effects_def
      mark_active_stage_external_side_effects_def complete_stage_def Let_def
      split: option.split intro!: published_intros published_same)

lemma collector_publication: "published s (fst (fail_collect_stage_and_quiesce_run aid out err now s))"
  by (auto simp: fail_collect_stage_and_quiesce_run_def split: option.split
      intro!: published_intros published_quiesce_transaction)

lemma execution_publication: "published s (fst (complete_stage_with_execution aid out x now s))"
proof -
  have r: "published s (s\<lparr>receipts := receipts s @ [y]\<rparr>)" for y
    by (simp add: published_def publication_refl receipt_log.evolve_append)
  show ?thesis
    by (auto simp: complete_stage_with_execution_def
        intro!: published_steps.rollback published_steps.same published_steps.steps [OF r published_updates(2)])
qed

lemma output_publications:
  "published s (fst (publish_artifact fresh rid aid kind media hash sz now s))"
  "published s (fst (capture_evidence fresh rid aid url title pub media hash sz origin now s))"
  by (auto simp: publish_artifact_def capture_evidence_def insert_blob_def Let_def published_def publication_refl
      artifact_log.evolve_append evidence_log.evolve_append split: option.split)

lemma archive_publications:
  "published s (fst (prepare_interrupted_run_for_resume rid now s))"
  "published s (fst (prepare_plan_contract_retry rid aid now s))"
proof -
  have "published s (fst (archive_each rid now as s))" for "as" s
  proof (induction "as" arbitrary: s)
    case (Cons a "as")
    show ?case
      unfolding archive_each.simps
      by (intro published_steps.both published_steps.bind published_updates)
        (auto intro: published_steps.same published_steps.steps [OF published_event [OF published_steps.same] Cons.IH])
  qed (simp add: published_steps.same)
  then show "published s (fst (prepare_interrupted_run_for_resume rid now s))"
    by (auto simp: prepare_interrupted_run_for_resume_def split: option.split intro!: published_intros)
  show "published s (fst (prepare_plan_contract_retry rid aid now s))"
    by (auto simp: prepare_plan_contract_retry_def split: option.split intro!: published_intros)
qed

subsection \<open>Approvals, plans, remediation and recovery\<close>

lemma approval_publications:
  "published s (fst (create_approval cx fresh p now s))"
  "published s (fst (decide_approval pid d active now s))"
proof -
  have stale: "published s (fst (retire_stale p reason now s))" for p reason
  proof -
    let ?m = "update_one_approval (\<lambda>q. p_id q = p_id p \<and> p_status q = Pending) (deny_row now)
        (Errorf ''stale approval retirement lost concurrency race'') s"
    have "published s (fst ?m)" by (rule published_updates)
    then show ?thesis
      unfolding retire_stale_def by (cases ?m; cases "snd ?m") (auto intro: published_event published_steps.same)
  qed
  have "published s (fst (record_decision p d now s))" for p d and s :: db
    unfolding record_decision_def by (intro published_steps.bind published_rules) (auto intro: published_rules)
  then show "published s (fst (decide_approval pid d active now s))"
    unfolding decide_approval_def by (auto split: option.split intro!: published_intros stale)
  show "published s (fst (create_approval cx fresh p now s))"
    by (auto simp: create_approval_def Let_def published_def publication_refl split: option.split)
qed

lemma run_creation_publications:
  "published s (fst (create_conversation_run fresh build rq now s))"
  "published s (fst (create_planned_conversation_run fresh build rq now s))"
proof -
  have new: "published u (append_event (u\<lparr>runs := rs\<rparr>) rid k p now)" for u rs rid k p
    by (rule published_event, rule published_same) simp_all
  show c: "published s (fst (create_conversation_run fresh build rq now s))" for rq
    by (auto simp: create_conversation_run_def Let_def split: option.split sum.split
        intro!: published_steps.rollback published_steps.same new
          published_steps.steps [OF new published_steps.bind [OF published_updates(4)]])
  show "published s (fst (create_planned_conversation_run fresh build rq now s))"
    by (auto simp: create_planned_conversation_run_def intro: c published_steps.same)
qed

lemma plan_publications:
  "published s (fst (begin_plan_cycle fresh sid txt now s))"
  "published s (fst (complete_plan_cycle sid cid txt now s))"
  by (auto simp: begin_plan_cycle_def complete_plan_cycle_def Let_def split: option.split
      intro!: published_intros published_same)

lemma remediation_publication: "published s (fst (prepare_research_remediation rid ex ord v now s))"
proof -
  have seal: "published s (fst (seal_each r now minimum as s))" for r minimum "as" s
  proof (induction "as" arbitrary: minimum s)
    case (Cons a "as")
    show ?case
      unfolding seal_each.simps Let_def by (intro published_steps.bind published_updates Cons.IH)
  qed (simp add: published_steps.same)
  have restart: "published s (fst (seal_and_restart current m now s))" for current m s
    unfolding seal_and_restart_def Let_def
    by (auto intro!: published_steps.bind seal published_rules)
  have "published s (fst (seal_and_restart current m now (s\<lparr>remediations := ms\<rparr>)))" for current m ms
    by (rule published_steps.steps [OF published_same restart]) simp_all
  then show ?thesis
    by (auto simp: prepare_research_remediation_def Let_def split: option.split intro!: published_intros)
qed

lemma recovery_publication: "published s (fst (recover_in_flight now s))"
proof -
  have each: "published s (fst (recover_each now items s))" for items s
  proof (induction now items s rule: recover_each.induct)
    case (2 now rid rv ext items s)
    have "published u (append_event (u\<lparr>attempts := as\<rparr>) rid k p now)" for u as k p
      by (rule published_event, rule published_same) simp_all
    then show ?case
      unfolding recover_each.simps
      by (intro published_steps.bind published_updates) (rule published_steps.steps, assumption, rule 2)
  qed (simp add: published_steps.same)
  have installs: "published s (fst (interrupt_each now ns s))" for ns s
  proof (induction ns arbitrary: s)
    case (Cons n ns)
    show ?case
      unfolding interrupt_each.simps Let_def
      by (intro published_steps.bind published_updates)
        (rule published_steps.steps [OF published_install_event [OF published_steps.same] Cons.IH])
  qed (simp add: published_steps.same)
  have calls: "published s (fst (uncertain_each now qs s))" for qs s
  proof (induction qs arbitrary: s)
    case (Cons q qs)
    show ?case
      unfolding uncertain_each.simps Let_def
      by (intro published_steps.bind published_updates)
        (rule published_steps.steps [OF published_event [OF published_steps.same] Cons.IH])
  qed (simp add: published_steps.same)
  have e: "published u (expire_approvals now u)" "published u (lose_jobs now u)" for u
    by (rule published_same; simp add: expire_approvals_def lose_jobs_def)+
  have "published u (fst (recover_each now items (lose_jobs now (expire_approvals now u))))" for u items
    by (rule published_steps.steps [OF e(1)], rule published_steps.steps [OF e(2)], rule each)
  then show ?thesis
    unfolding recover_in_flight_def recover_tool_work_def
    by (intro published_steps.rollback published_steps.bind installs calls) (auto intro: published_steps.same)
qed

subsection \<open>Tools and solver jobs\<close>

lemma published_change_install: "published s (fst (change_install p f lost cur action d now s))"
  unfolding change_install_def
  by (intro published_steps.rollback published_steps.bind published_updates) (auto intro: published_rules)

lemma published_close_invocation: "published s (fst (close_invocation f lost cur k p now s))"
  unfolding close_invocation_def
  by (intro published_steps.rollback published_steps.bind published_updates) (auto intro: published_rules)

lemma installation_publications:
  "published s (fst (begin_tool_installation fresh n now s))"
  "published s (fst (update_tool_installation cx nid st u now s))"
  "published s (fst (complete_tool_installation nid tree ep probe now s))"
  "published s (fst (fail_tool_installation nid cause now s))"
  "published s (fst (create_tool_stage_grant fresh g now s))"
proof -
  have new: "published s (append_install_event (s\<lparr>tools := u\<rparr>) m a d now)" for u m a d
    by (rule published_install_event, rule published_same) simp_all
  show "published s (fst (begin_tool_installation fresh n now s))"
    by (auto simp: begin_tool_installation_def Let_def split: option.split intro: new published_steps.same)
  show "published s (fst (update_tool_installation cx nid st u now s))"
    "published s (fst (complete_tool_installation nid tree ep probe now s))"
    "published s (fst (fail_tool_installation nid cause now s))"
    by (auto simp: update_tool_installation_def complete_tool_installation_def fail_tool_installation_def Let_def
        split: option.split intro: published_change_install published_steps.same)
  show "published s (fst (create_tool_stage_grant fresh g now s))"
    by (auto simp: create_tool_stage_grant_def Let_def published_def publication_refl split: option.split)
qed

lemma invocation_publications:
  "published s (fst (reserve_tool_invocation fresh q now s))"
  "published s (fst (complete_tool_invocation qid out err code now s))"
  "published s (fst (fail_tool_invocation qid cause now s))"
proof -
  have new: "published s (append_event (s\<lparr>tools := u\<rparr>) rid k p now)" for s u rid k p
    by (rule published_event, rule published_same) simp_all
  show "published s (fst (reserve_tool_invocation fresh q now s))"
    unfolding reserve_tool_invocation_def Let_def
    by (auto split: option.split intro!: published_steps.rollback published_steps.bind new published_steps.same
        published_updates)
  show "published s (fst (complete_tool_invocation qid out err code now s))"
    "published s (fst (fail_tool_invocation qid cause now s))"
    by (auto simp: complete_tool_invocation_def fail_tool_invocation_def Let_def
        split: option.split intro: published_close_invocation published_steps.same)
qed

lemma job_publications:
  "published s (fst (begin_engineering_job cx fresh j now s))"
  "published s (fst (complete_engineering_job jid rc xs now s))"
  "published s (fst (fail_engineering_job jid cause now s))"
  "published s (fst (authorize_engineering_receipt_reuses rid aid js now s))"
proof -
  have link: "published s (fst (link_artifacts j xs s))" for j xs s
  proof (induction xs arbitrary: s)
    case (Cons x xs)
    have "published s (fst (link_artifacts j xs (s\<lparr>eng := e\<rparr>)))" for e
      by (rule published_steps.steps [OF published_same Cons.IH]) simp_all
    then show ?case by (auto simp: Let_def split: option.split intro: published_steps.same)
  qed (simp add: published_steps.same)
  have each: "published s (fst (authorize_each rid aid now js s))" for rid aid js s
  proof (induction js arbitrary: rid aid s)
    case (Cons x xs)
    have "published s (fst (authorize_each rid aid now xs (s\<lparr>eng := e\<rparr>)))" for e rid aid
      by (rule published_steps.steps [OF published_same Cons.IH]) simp_all
    then show ?case by (auto simp: Let_def intro: published_steps.same Cons.IH)
  qed (simp add: published_steps.same)
  show "published s (fst (begin_engineering_job cx fresh j now s))"
    by (auto simp: begin_engineering_job_def Let_def split: option.split intro!: published_intros published_same)
  show "published s (fst (complete_engineering_job jid rc xs now s))"
    by (auto simp: complete_engineering_job_def Let_def split: option.split intro!: published_intros link)
  show "published s (fst (fail_engineering_job jid cause now s))"
    by (auto simp: fail_engineering_job_def Let_def split: option.split intro!: published_intros)
  show "published s (fst (authorize_engineering_receipt_reuses rid aid js now s))"
    by (auto simp: authorize_engineering_receipt_reuses_def Let_def split: option.split intro!: published_intros each)
qed

subsection \<open>Every history\<close>

lemmas published_operations = run_publications succeed_document_publication stage_publications collector_publication execution_publication
  output_publications archive_publications approval_publications run_creation_publications plan_publications
  remediation_publication recovery_publication installation_publications invocation_publications job_publications

lemma history_published: "store_step\<^sup>*\<^sup>* s t \<Longrightarrow> published s t"
proof (induction rule: rtranclp_induct)
  case (step t u)
  have "published t u"
    using step.hyps(2) by (induction rule: store_step.induct) (rule published_operations)+
  with step.IH show ?case by (rule published_steps.steps)
qed (rule published_steps.same)

end
