(* ===== verification/Stage_Log.thy ===== *)
theory Stage_Log
  imports Checkpoint Publication_Log
begin

section \<open>A stage as a history\<close>

text \<open>
  Whatever a stage does to the world is a history of the store and only adds objects to the
  content-addressed store, as long as what surrounds it does the same; so everything proved of
  histories holds across a stage.
\<close>

subsection \<open>Histories of the world\<close>

definition keeps_objects :: "cas_store \<Rightarrow> cas_store \<Rightarrow> bool" where
  "keeps_objects c d \<longleftrightarrow> (\<forall>h x. cas_lookup c h = Some x \<longrightarrow> cas_lookup d h = Some x)"

definition world_history :: "world \<Rightarrow> world \<Rightarrow> bool" where
  "world_history w v \<longleftrightarrow> store_step\<^sup>*\<^sup>* (w_db w) (w_db v) \<and> keeps_objects (w_cas w) (w_cas v)"

lemma world_history_refl [simp]: "world_history w w"
  by (simp add: world_history_def keeps_objects_def)

lemma world_history_trans: "world_history w v \<Longrightarrow> world_history v u \<Longrightarrow> world_history w u"
  by (auto simp: world_history_def keeps_objects_def)

text \<open>An action that only extends the world.\<close>

definition extends :: "(world \<Rightarrow> world \<times> 'r) \<Rightarrow> bool" where
  "extends m \<longleftrightarrow> (\<forall>w. world_history w (fst (m w)))"

named_theorems extending \<open>actions that only extend the world\<close>

lemma extendsD: "extends m \<Longrightarrow> m w = (v, r) \<Longrightarrow> world_history w v"
  unfolding extends_def by (metis fst_conv)

lemma extends_give [extending]: "extends (give x)" and extends_raise [extending]: "extends (raise e)"
  by (simp_all add: extends_def give_def raise_def)

lemma extends_bind [extending]:
  assumes "extends m" and "\<And>x. extends (f x)" shows "extends (bind m f)"
  unfolding extends_def
proof
  fix w
  obtain v r where m: "m w = (v, r)" by (cases "m w")
  have "world_history w v" using extendsD [OF assms(1) m] .
  moreover have "world_history v (fst (f x v))" for x using assms(2) by (simp add: extends_def)
  ultimately show "world_history w (fst (bind m f w))"
    using m by (auto simp: bind_def split: sum.split intro: world_history_trans)
qed

lemma extends_relabel [extending]: "extends m \<Longrightarrow> extends (relabel g m)"
  unfolding extends_def
proof
  fix w assume m: "\<forall>w. world_history w (fst (m w))"
  obtain v r where e: "m w = (v, r)" by (cases "m w")
  have "fst (relabel g m w) = v" by (simp add: relabel_def e split: sum.split)
  moreover have "world_history w v" using m e by (metis fst_conv)
  ultimately show "world_history w (fst (relabel g m w))" by simp
qed

lemma extends_if [extending]: "extends m \<Longrightarrow> extends n \<Longrightarrow> extends (if b then m else n)"
  by simp

text \<open>Success of a composed action.\<close>

lemma bind_Inr: "bind m f w = (v, Inr y) \<longleftrightarrow> (\<exists>u x. m w = (u, Inr x) \<and> f x u = (v, Inr y))"
  by (auto simp: bind_def split: prod.splits sum.splits)

lemma relabel_Inr: "relabel g m w = (v, Inr x) \<longleftrightarrow> m w = (v, Inr x)"
  by (auto simp: relabel_def split: prod.splits sum.splits)

lemma give_Inr: "give x w = (v, Inr y) \<longleftrightarrow> v = w \<and> y = x"
  by (auto simp: give_def)

lemma raise_Inr: "raise e w = (v, Inr y) \<longleftrightarrow> False"
  by (simp add: raise_def)

lemmas act_results = bind_Inr relabel_Inr give_Inr raise_Inr

lemma case_raise_Inr:
  "(case r of Inl e \<Rightarrow> raise (g e) | Inr y \<Rightarrow> m y) w = (v, Inr x) \<longleftrightarrow> (\<exists>y. r = Inr y \<and> m y w = (v, Inr x))"
  by (auto simp: raise_Inr split: sum.split)

lemma if_raise_Inr: "(if b then raise e else m) w = (v, Inr x) \<longleftrightarrow> \<not> b \<and> m w = (v, Inr x)"
  by (simp add: raise_Inr)

lemma unit_ex: "(\<exists>x :: unit. P x) \<longleftrightarrow> P ()"
  by (metis unit.exhaust)

lemma fail_stage_never: "fail_stage E a h cause w \<noteq> (v, Inr x)"
  by (auto simp: fail_stage_def split: prod.split sum.split)

lemma recorded_Inr:
  "(case r of (w1, Inr x) \<Rightarrow> commit w1 x | (w1, Inl (h, cause)) \<Rightarrow> fail_stage E a h cause w1) = (v, Inr y) \<longleftrightarrow> r = (v, Inr y)"
  by (auto simp: fail_stage_never split: prod.split sum.split)

subsection \<open>What surrounds the engine\<close>

text \<open>
  The other writers make histories of the store and never remove an object, the context errors
  are the two of the context package, and SHA-256 gives well-formed digests.
\<close>

definition orderly :: "surroundings \<Rightarrow> bool" where
  "orderly E \<longleftrightarrow> (\<forall>k s. store_step\<^sup>*\<^sup>* s (u_db E k s)) \<and> (\<forall>k c. keeps_objects c (u_disk E k c)) \<and>
     (\<forall>k t opts w. world_history w (fst (u_turn E k t opts w))) \<and>
     (\<forall>k e. u_ctx E k = Some e \<longrightarrow> e = ContextCanceled \<or> e = DeadlineExceeded) \<and>
     (\<forall>d. valid_hash (u_sha E d))"

lemma pass_history: "orderly E \<Longrightarrow> world_history w (pass E w)"
  by (simp add: orderly_def world_history_def pass_def)

lemma extends_look: "orderly E \<Longrightarrow> extends (look E)"
  using pass_history [of E] by (auto simp: extends_def look_def split: option.split)

lemma extends_on_db:
  assumes "orderly E" and "\<And>k s. store_step\<^sup>*\<^sup>* s (fst (op k s))"
  shows "extends (on_db E op)"
  unfolding extends_def
proof
  fix w
  have p: "world_history w (pass E w)" by (rule pass_history) (rule assms(1))
  have "world_history (pass E w) ((pass E w)\<lparr>w_db := fst (op (w_tick w) (w_db (pass E w)))\<rparr>)"
    using assms(2) by (simp add: world_history_def keeps_objects_def)
  then have "world_history w ((pass E w)\<lparr>w_db := fst (op (w_tick w) (w_db (pass E w)))\<rparr>)"
    using p by (rule world_history_trans [rotated])
  then show "world_history w (fst (on_db E op w))"
    using p by (auto simp: on_db_def split: option.split prod.split sum.split)
qed

lemma on_db_Inr:
  "on_db E op w = (v, Inr x) \<longleftrightarrow>
     u_db_fault E (w_tick w) = None \<and> op (w_tick w) (w_db (pass E w)) = (w_db v, Inr x) \<and> v = (pass E w)\<lparr>w_db := w_db v\<rparr>"
  by (auto simp: on_db_def split: option.splits prod.splits sum.splits)

lemma cas_put_keeps: "keeps_objects c (fst (cas_put sha fault d c))"
proof (cases "mkdir_prefix (take 2 (sha d)) (cas_prefixes c)")
  case None
  then show ?thesis by (simp add: cas_put_def Let_def keeps_objects_def split: option.split)
next
  case (Some ps)
  let ?c = "c\<lparr>cas_prefixes := ps\<rparr>"
  have same: "cas_lookup ?c h = cas_lookup c h" for h by (rule mkdir_prefix_lookup [OF Some])
  obtain fs where fs: "dir_entry ps (take 2 (sha d)) = Some (PrefixDir fs)" using mkdir_prefix_entry [OF Some] by blast
  show ?thesis
    using Some same add_file_lookup [OF fs, of c]
    by (auto simp: cas_put_def Let_def keeps_objects_def split: option.split cas_node.split)
qed

lemma extends_put: "orderly E \<Longrightarrow> extends (put_bytes E d)"
  unfolding extends_def
proof
  fix w assume E: "orderly E"
  have p: "world_history w (pass E w)" by (rule pass_history [OF E])
  obtain c r where c: "cas_put (u_sha E) (u_fault E (w_tick w)) d (w_cas (pass E w)) = (c, r)" by fastforce
  have "keeps_objects (w_cas (pass E w)) c" using cas_put_keeps [of "w_cas (pass E w)"] c by (metis fst_conv)
  then have "world_history (pass E w) ((pass E w)\<lparr>w_cas := c\<rparr>)" by (simp add: world_history_def)
  then have "world_history w ((pass E w)\<lparr>w_cas := c\<rparr>)" using p by (rule world_history_trans [rotated])
  then show "world_history w (fst (put_bytes E d w))"
    by (auto simp: put_bytes_def c split: sum.split)
qed

lemma extends_read: "orderly E \<Longrightarrow> extends (read_bytes E h)"
  using pass_history [of E] by (auto simp: extends_def read_bytes_def split: sum.split)

lemma read_bytes_Inr:
  "read_bytes E h w = (v, Inr d) \<longleftrightarrow>
     cas_read_verified (u_sha E) (u_fault E (w_tick w)) h (w_cas (pass E w)) = Inr d \<and> v = pass E w"
  by (auto simp: read_bytes_def split: sum.splits)

lemma read_verified_Inr:
  "cas_read_verified sha fault h c = Inr d \<longleftrightarrow>
     valid_hash h \<and> cas_lookup c h = Some (Regular d) \<and> fault = None \<and> sha d = h"
  by (auto simp: cas_read_verified_def cas_path_def split: option.splits if_splits cas_node.splits)

lemma read_later: "cas_read_verified sha fault h c = Inr d \<Longrightarrow> keeps_objects c c' \<Longrightarrow> cas_read_verified sha None h c' = Inr d"
  by (auto simp: read_verified_Inr keeps_objects_def)

subsection \<open>The parts of a stage\<close>

lemma one_store_step: "store_step s t \<Longrightarrow> store_step\<^sup>*\<^sup>* s t"
  by (rule r_into_rtranclp)

lemmas stage_steps = one_store_step [OF store_step.stage] one_store_step [OF store_step.stage_turn]
  one_store_step [OF store_step.stage_done] one_store_step [OF store_step.stage_failed]
  one_store_step [OF store_step.stage_executed] one_store_step [OF store_step.publish]

lemma extends_fail_stage: "orderly E \<Longrightarrow> extends (fail_stage E a h cause)"
  unfolding extends_def
proof
  fix w assume E: "orderly E"
  have c: "extends (on_db E (\<lambda>k. fail_collect_stage_and_quiesce_run (a_id a) h (error_text cause) (u_clock E k)))"
    by (rule extends_on_db [OF E]) (rule stage_steps)
  have d: "extends (on_db E (\<lambda>k. complete_stage (a_id a) h (error_text cause) (u_clock E k)))"
    by (rule extends_on_db [OF E]) (rule stage_steps)
  show "world_history w (fst (fail_stage E a h cause w))"
    using extendsD [OF c, of w] extendsD [OF d, of w] by (auto simp: fail_stage_def split: prod.split sum.split)
qed

lemma extends_persist:
  assumes "orderly E"
  shows "extends (persist_input E d h)" and "extends (persist_output E d)"
  unfolding persist_input_def persist_output_def
  by (intro extending extends_look extends_put extends_read assms)+

lemma extends_thread:
  assumes E: "orderly E"
  shows "extends (stage_thread E run st prof initial a)"
proof -
  have c: "extends (\<lambda>w. case u_create_thread E (w_tick w) st prof of
      Inl e \<Rightarrow> fail (pass E w) (f e) | Inr t \<Rightarrow> commit (pass E w) t)" for f :: "engine_error \<Rightarrow> engine_error"
    using pass_history [OF E] by (auto simp: extends_def split: sum.split)
  have v: "extends (verify_fresh_reviewer_thread E run i t)" for i t
    using pass_history [OF E] by (auto simp: extends_def verify_fresh_reviewer_thread_def split: option.split)
  show ?thesis
    unfolding stage_thread_def
    by (intro extending c v) (rule extends_on_db [OF E], rule stage_steps)
qed

lemma extends_submit: "orderly E \<Longrightarrow> extends (submit_turn E run opts thread)"
  unfolding extends_def
proof
  fix w assume E: "orderly E"
  have t: "world_history v (fst (u_turn E k t o' v))" for k t o' v using E by (simp add: orderly_def)
  have same: "world_history v (v\<lparr>w_active := A\<rparr>)" "world_history (v\<lparr>w_active := A\<rparr>) v" for v A
    by (simp_all add: world_history_def keeps_objects_def)
  let ?w1 = "if to_stage opts = StageReview then w else activate_thread (r_id run) thread w"
  have "world_history w ?w1" using same by (simp add: activate_thread_def)
  then have "world_history w (pass E ?w1)" using pass_history [OF E] by (rule world_history_trans)
  then have h: "world_history w (fst (u_turn E (w_tick ?w1) thread opts (pass E ?w1)))" using t by (rule world_history_trans)
  obtain u r e where u: "u_turn E (w_tick ?w1) thread opts (pass E ?w1) = (u, r, e)" by (metis prod_cases3)
  then have "world_history w u" using h by simp
  moreover have "world_history u (deactivate_thread (r_id run) thread u)" using same by (simp add: deactivate_thread_def)
  ultimately show "world_history w (fst (submit_turn E run opts thread w))"
    using u by (auto simp: submit_turn_def Let_def intro: world_history_trans)
qed

lemma extends_turn:
  assumes E: "orderly E"
  shows "extends (run_turn E run opts a thread)"
proof -
  have "extends (on_db E (\<lambda>k. set_stage_turn (a_id a) t n (u_clock E k)))" for t n
    by (rule extends_on_db [OF E]) (rule stage_steps)
  then show ?thesis
    unfolding run_turn_def Let_def
    by (auto split: option.split intro!: extending extends_submit [OF E] extends_look [OF E])
qed

lemma extends_publish:
  assumes E: "orderly E"
  shows "extends (publish_output E run a kind prof result input k)"
  unfolding publish_output_def Let_def
  by (intro extending extends_look [OF E]) (rule extends_on_db [OF E], rule stage_steps)+

lemma extends_stage_body:
  fixes validate :: "string \<Rightarrow> (engine_error, 'b) act"
  assumes E: "orderly E" and validate: "\<forall>d. extends (validate d)"
    and before: "\<forall>f a. before = Some f \<longrightarrow> extends (f a)"
  shows "extends (stage_body E run st initial prof opts kind input before validate norms a)"
proof -
  have v: "extends (\<lambda>w. case u_validate_model E (w_tick w) prof of
      Some e \<Rightarrow> fail (pass E w) (f e) | None \<Rightarrow> commit (pass E w) ())" for f :: "engine_error \<Rightarrow> string \<times> engine_error"
    using pass_history [OF E] by (auto simp: extends_def split: option.split)
  have p: "extends (case before of None \<Rightarrow> give () | Some f \<Rightarrow> relabel g (f a))" for g :: "engine_error \<Rightarrow> engine_error"
    by (cases before) (simp_all add: before extends_give extends_relabel)
  have n: "extends (case r of Inl e \<Rightarrow> raise (g e) | Inr out \<Rightarrow> m out)" if "\<And>out. extends (m out)"
    for r :: "engine_error + string" and g :: "engine_error \<Rightarrow> string \<times> engine_error"
      and m :: "string \<Rightarrow> (string \<times> engine_error, 'b) act"
    using that by (simp add: extends_raise split: sum.split)
  show ?thesis
    unfolding stage_body_def Let_def
    by (intro extending p v n extends_look [OF E] extends_persist [OF E] extends_thread [OF E] extends_turn [OF E]
          extends_publish [OF E] validate [rule_format])
qed

lemma extends_run_stage:
  assumes E: "orderly E" and validate: "\<forall>d. extends (validate d)"
    and before: "\<forall>f a. before = Some f \<longrightarrow> extends (f a)"
  shows "extends (run_stage E run st ordinal initial prof schema prompt kind encoded before validate norms)"
proof -
  have b: "extends (\<lambda>w. case stage_body E run st initial prof opts kind input before validate norms a w of
      (w1, Inr x) \<Rightarrow> commit w1 x | (w1, Inl (h, cause)) \<Rightarrow> fail_stage E a h cause w1)" for opts input a
    unfolding extends_def
  proof
    fix w
    obtain v r where m: "stage_body E run st initial prof opts kind input before validate norms a w = (v, r)" by fastforce
    have "world_history w v" by (rule extendsD [OF extends_stage_body m]) (use assms in auto)
    moreover have "world_history v (fst (fail_stage E a h c v))" for h c
      by (rule extends_fail_stage [OF E, unfolded extends_def, rule_format])
    ultimately show "world_history w (fst (case stage_body E run st initial prof opts kind input before validate norms a w of
      (w1, Inr x) \<Rightarrow> commit w1 x | (w1, Inl (h, cause)) \<Rightarrow> fail_stage E a h cause w1))"
      using m by (auto split: sum.split intro: world_history_trans)
  qed
  have db: "extends (on_db E (\<lambda>k. begin_stage (u_fresh E k) (r_id run) st ordinal initial input (u_clock E k)))" for input
    by (rule extends_on_db [OF E]) (rule stage_steps)
  show ?thesis
    unfolding run_stage_def
    by (auto split: sum.split intro!: extending extends_look [OF E] db b)
qed

end
