(* ===== verification/Stage_Properties.thy ===== *)
theory Stage_Properties
  imports Stage_Log Store_Samples
begin

section \<open>What a stage leaves\<close>

subsection \<open>A stage that succeeds\<close>

lemma last_space_Cons:
  assumes "\<not> ascii_space a" and "of_char a < (0x80 :: nat)" shows "last_space (a # s) = 0"
proof -
  have "\<not> space2 b a" "\<not> space3 c b a" for b c
    using assms(2) by (auto simp: space2_def space3_def less_eq_char_def)
  with assms(1) show ?thesis by (cases "a # s" rule: last_space.cases) simp_all
qed

lemma hex_not_space: "is_lower_hex c \<Longrightarrow> \<not> ascii_space c \<and> of_char c < (0x80 :: nat)"
  by (auto simp: is_lower_hex_def is_digit_def ascii_space_def less_eq_char_def)

lemma blank_hash: "valid_hash h \<Longrightarrow> \<not> blank h"
proof
  assume v: "valid_hash h" and b: "blank h"
  have hex: "is_lower_hex c" if "c \<in> set h" for c using v that by (simp add: valid_hash_def list_all_iff)
  obtain c cs where h: "h = c # cs" using v by (cases h) (auto simp: valid_hash_def)
  obtain d ds where r: "rev h = d # ds" using h by (cases "rev h") auto
  have d: "d \<in> set h" by (metis list.set_intros(1) r set_rev)
  have "lead_space h = 0" using nonblank_Cons [of c cs] hex_not_space [OF hex [of c]] by (simp add: h)
  moreover have "last_space (rev h) = 0" using last_space_Cons [of d ds] hex_not_space [OF hex [OF d]] by (simp add: r)
  ultimately have "trim_space h = h" by (simp add: trim_space_def skip_space_stop)
  then show False using b h by (simp add: blank_def)
qed

text \<open>The execution receipt and the close of the attempt.\<close>

lemma completed_execution:
  assumes ok: "store_ok s" and c: "complete_stage_with_execution aid out x now s = (t, Inr u)"
  shows "\<exists>a. find_attempt s aid = Some a \<and> find_attempt t aid = Some (close_attempt Completed out [] now a) \<and>
    a_run a = x_run x \<and> a_thread a = x_thread x \<and> a_turn a = x_turn x \<and> a_input a = x_input x \<and>
    x_attempt x = aid \<and> x_output x = out \<and> x_contract x = StageExecutionContractSHA256 \<and>
    stage_execution_receipt t aid = Some (x\<lparr>x_completed := format_time now\<rparr>)"
proof -
  let ?s = "s\<lparr>receipts := receipts s @ [x\<lparr>x_completed := format_time now\<rparr>]\<rparr>"
  have full: "receipt_complete aid out x" and guard: "receipt_guard s x"
    and t: "t = ?s\<lparr>attempts := update_where (\<lambda>a. a_id a = aid \<and> a_status a = InProgress) (close_attempt Completed out [] now) (attempts s)\<rparr>"
    using c by (auto simp: complete_stage_with_execution_def update_one_attempt_def Let_def store_results split: if_splits)
  obtain a r where "attempt_of_run s (x_attempt x) (x_run x) = Some (a, r)"
    and g: "a_status a = InProgress" "a_thread a = x_thread x" "a_turn a = x_turn x" "a_input a = x_input x"
    and fresh: "x_attempt x \<notin> x_attempt ` set (receipts s)"
    using guard by (auto simp: receipt_guard_def split: option.splits)
  then have a: "find_attempt s (x_attempt x) = Some a" "a_run a = x_run x" using attempt_of_run_SomeD by blast+
  have aid: "x_attempt x = aid" using full by (simp add: receipt_complete_def)
  have "find_attempt t aid = Some (close_attempt Completed out [] now a)"
    using a(1) g(1) aid find_attempt_in [of s aid a]
    by (simp add: t find_attempt_def select_key_update_where close_attempt_def)
  moreover have "stage_execution_receipt t aid = Some (x\<lparr>x_completed := format_time now\<rparr>)"
    using fresh aid by (simp add: t stage_execution_receipt_def select_key_append select_key_None [THEN iffD2] aid)
  ultimately show ?thesis using a g aid full by (auto simp: receipt_complete_def)
qed

lemma published_artifact:
  assumes "publish_artifact fresh rid aid kind media hash sz now s = (t, Inr f)"
  shows "f \<in> set (artifacts t) \<and> f_run f = rid \<and> f_attempt f = aid \<and> f_blob f = hash"
  using assms by (auto simp: publish_artifact_def Let_def split: option.splits if_splits)

text \<open>The last part of a stage: what is published stays published until the attempt is completed.\<close>

lemma publish_output_result:
  assumes E: "orderly E" and ok: "store_ok (w_db w)"
    and run: "publish_output E run a kind prof result input k w = (v, Inr u)"
  shows "\<exists>s b. store_step\<^sup>*\<^sup>* (w_db w) s \<and> find_attempt s (a_id a) = Some b \<and> a_run b = r_id run \<and>
    (\<exists>now. find_attempt (w_db v) (a_id a) = Some (close_attempt Completed (k_hash k) [] now b) \<and>
      stage_execution_receipt (w_db v) (a_id a) =
        Some ((execution_receipt run a prof result input (k_hash k))\<lparr>x_completed := format_time now\<rparr>)) \<and>
    a_thread b = tr_thread result \<and> a_turn b = tr_turn result \<and> a_input b = input \<and>
    (\<exists>f \<in> set (artifacts (w_db v)). f_run f = r_id run \<and> f_attempt f = a_id a \<and> f_blob f = k_hash k)"
proof -
  let ?x = "execution_receipt run a prof result input (k_hash k)"
  obtain w1 w2 w3 f where l1: "look E w = (w1, Inr ())"
    and p: "on_db E (\<lambda>n. publish_artifact (u_fresh E n) (r_id run) (a_id a) kind ''application/json'' (k_hash k) (k_size k) (u_clock E n)) w1 = (w2, Inr f)"
    and l2: "look E w2 = (w3, Inr ())"
    and c: "on_db E (\<lambda>n. complete_stage_with_execution (a_id a) (k_hash k) ?x (u_clock E n)) w3 = (v, Inr u)"
    using run by (auto simp: publish_output_def Let_def act_results)
  let ?s = "w_db (pass E w3)"
  have h1: "world_history w w1" and h3: "world_history w2 w3"
    using extendsD [OF extends_look [OF E] l1] extendsD [OF extends_look [OF E] l2] .
  have h2: "world_history w1 w2"
    by (rule extendsD [OF extends_on_db [OF E] p]) (rule stage_steps)
  have h4: "store_step\<^sup>*\<^sup>* (w_db w2) ?s"
    using h3 pass_history [OF E, of w3] by (auto simp: world_history_def intro: rtranclp_trans)
  have hs: "store_step\<^sup>*\<^sup>* (w_db w) ?s"
    using h1 h2 h4 by (auto simp: world_history_def intro: rtranclp_trans)
  have fin: "complete_stage_with_execution (a_id a) (k_hash k) ?x (u_clock E (w_tick w3)) ?s = (w_db v, Inr u)"
    using c by (simp add: on_db_Inr)
  obtain b where b: "find_attempt ?s (a_id a) = Some b"
    "find_attempt (w_db v) (a_id a) = Some (close_attempt Completed (k_hash k) [] (u_clock E (w_tick w3)) b)"
    "a_run b = r_id run" "a_thread b = tr_thread result" "a_turn b = tr_turn result" "a_input b = input"
    "stage_execution_receipt (w_db v) (a_id a) = Some (?x\<lparr>x_completed := format_time (u_clock E (w_tick w3))\<rparr>)"
    using completed_execution [OF history_ok [OF hs ok, THEN conjunct1] fin] by (auto simp: execution_receipt_def)
  have f: "f \<in> set (artifacts (w_db w2))" "f_run f = r_id run" "f_attempt f = a_id a" "f_blob f = k_hash k"
    using published_artifact p by (auto simp: on_db_Inr)
  have "store_step ?s (w_db v)" using fin store_step.stage_executed [of ?s "a_id a" "k_hash k" ?x "u_clock E (w_tick w3)"] by simp
  then have "published (w_db w2) (w_db v)" using h4 by (intro history_published) (rule rtranclp.rtrancl_into_rtrancl)
  then obtain g where "g \<in> set (artifacts (w_db v))" "artifact_step f g"
    using artifact_log.member_later f(1) by (fastforce simp: published_def)
  moreover from this have "f_run g = r_id run \<and> f_attempt g = a_id a \<and> f_blob g = k_hash k"
    using f by (auto simp: artifact_step_def)
  ultimately have "\<exists>f \<in> set (artifacts (w_db v)). f_run f = r_id run \<and> f_attempt f = a_id a \<and> f_blob f = k_hash k"
    by blast
  with hs b show ?thesis by blast
qed

lemma turn_result:
  assumes "run_turn E run opts a thread w = (v, Inr result)"
  shows "validate_turn_result result thread (to_profile opts) = None"
  using assms by (auto simp: run_turn_def Let_def act_results raise_Inr split: if_splits option.splits)

lemma persisted_output:
  assumes "persist_output E out w = (v, Inr k)"
  shows "cas_read_verified (u_sha E) None (k_hash k) (w_cas v) = Inr out"
  using assms by (auto simp: persist_output_def act_results read_bytes_Inr read_verified_Inr split: if_splits)

lemma begun_stage:
  assumes "begin_stage fresh rid st ordinal thread input now s = (t, Inr a)"
  shows "find_attempt t (a_id a) = Some a \<and> a = new_attempt fresh rid st ordinal thread input now"
proof -
  let ?a = "new_attempt fresh rid st ordinal thread input now"
  have "a = ?a" "attempts t = attempts s @ [?a]" "a_id ?a \<notin> a_id ` set (attempts s)"
    using assms by (auto simp: begin_stage_def Let_def new_attempt_def split: if_splits)
  then show ?thesis by (simp add: find_attempt_def select_key_append select_key_None [THEN iffD2])
qed

lemma stage_body_result:
  fixes validate :: "string \<Rightarrow> (engine_error, 'b) act"
  assumes E: "orderly E" and validate: "\<forall>d. extends (validate d)"
    and before: "\<forall>f a. before = Some f \<longrightarrow> extends (f a)"
    and run: "stage_body E run st initial prof opts kind input before validate norms a w = (v, Inr x)"
  shows "\<exists>w1 w2 result thread out k u1 u2. world_history w w1 \<and>
    validate_turn_result result thread (to_profile opts) = None \<and> validate (tr_output result) u1 = (u2, Inr x) \<and>
    normalized st norms x (tr_output result) = Inr out \<and> persist_output E out w1 = (w2, Inr k) \<and>
    publish_output E run a kind prof result (u_sha E input) k w2 = (v, Inr ())"
proof -
  let ?model = "\<lambda>w. case u_validate_model E (w_tick w) prof of
      Some e \<Rightarrow> fail (pass E w) ([] :: string, Wrapped (''validate '' @ stage_text st @ '' model'') e) | None \<Rightarrow> commit (pass E w) ()"
  obtain w1 w2 w3 w4 w5 w6 w7 w8 thread result out k
    where s: "persist_input E input (u_sha E input) w = (w1, Inr ())" "look E w1 = (w2, Inr ())"
      "(case before of None \<Rightarrow> give () | Some f \<Rightarrow> relabel (Wrapped (''prepare '' @ stage_text st @ '' stage'')) (f a)) w2 = (w3, Inr ())"
      "?model w3 = (w4, Inr ())" "stage_thread E run st prof initial a w4 = (w5, Inr thread)"
      "run_turn E run opts a thread w5 = (w6, Inr result)" "validate (tr_output result) w6 = (w7, Inr x)"
      "normalized st norms x (tr_output result) = Inr out" "persist_output E out w7 = (w8, Inr k)"
      "publish_output E run a kind prof result (u_sha E input) k w8 = (v, Inr ())"
    using run unfolding stage_body_def Let_def act_results case_raise_Inr unit_ex by blast
  have p: "extends (case before of None \<Rightarrow> give () | Some f \<Rightarrow> relabel g (f a))" for g :: "engine_error \<Rightarrow> engine_error"
    by (cases before) (simp_all add: before extends_give extends_relabel)
  have m: "world_history w3 w4" using s(4) pass_history [OF E, of w3] by (auto split: option.splits)
  have "world_history w w7"
    using extendsD [OF extends_persist(1) [OF E] s(1)] extendsD [OF extends_look [OF E] s(2)] extendsD [OF p s(3)] m
      extendsD [OF extends_thread [OF E] s(5)] extendsD [OF extends_turn [OF E] s(6)] extendsD [OF validate [rule_format] s(7)]
    by (meson world_history_trans)
  then show ?thesis using turn_result [OF s(6)] s(7-10) by blast
qed

text \<open>
  C33. What a stage completes, a resumed run reads back. If \<open>runStage\<close> returns without an error, whatever the other
  writers and the model client did meanwhile, the store holds an attempt of this run, stage and
  ordinal that is completed, and the checks the checkpoint loader makes of an attempt (status,
  thread and turn, published artifact, execution receipt, SHA-256 of the stored bytes) all pass:
  it reads exactly the bytes that the stage's validator accepted, as the stage normalised them.
\<close>

theorem stage_durable:
  fixes validate :: "string \<Rightarrow> (engine_error, 'b) act"
  assumes E: "orderly E" and validate: "\<forall>d. extends (validate d)"
    and before: "\<forall>f a. before = Some f \<longrightarrow> extends (f a)"
    and ok: "store_ok (w_db w)" and prof: "profile_for_stage (r_profile run) st = Inr prof"
    and run: "run_stage E run st ordinal initial prof schema prompt kind encoded before validate norms w = (v, Inr x)"
  shows "\<exists>a raw out u1 u2. find_attempt (w_db v) (a_id a) = Some a \<and> a_run a = r_id run \<and> a_stage a = st \<and>
    a_logical a = ordinal \<and> a_status a = Completed \<and>
    attempt_output (u_sha E) None (w_db v) (w_cas v) run a = Inr out \<and>
    validate raw u1 = (u2, Inr x) \<and> normalized st norms x raw = Inr out"
proof -
  obtain w1 w2 input a where l: "look E w = (w1, Inr ())" and enc: "encoded = Inr input"
    and b: "on_db E (\<lambda>k. begin_stage (u_fresh E k) (r_id run) st ordinal initial (u_sha E input) (u_clock E k)) w1 = (w2, Inr a)"
    and body: "stage_body E run st initial prof
      \<lparr>to_stage = st, to_profile = prof, to_schema = schema, to_prompt = prompt (a_id a) input\<rparr>
      kind input before validate norms a w2 = (v, Inr x)"
    using run unfolding run_stage_def act_results if_raise_Inr case_raise_Inr recorded_Inr unit_ex by blast
  have hb: "world_history w1 w2" by (rule extendsD [OF extends_on_db [OF E] b]) (rule stage_steps)
  have h2: "world_history w w2" using extendsD [OF extends_look [OF E] l] hb by (rule world_history_trans)
  have a: "find_attempt (w_db w2) (a_id a) = Some a" "a_run a = r_id run" "a_stage a = st" "a_logical a = ordinal"
    "a_input a = u_sha E input"
    using b begun_stage by (force simp: on_db_Inr new_attempt_def)+
  obtain w3 w4 result thread out k u1 u2
    where c: "world_history w2 w3" "validate_turn_result result thread prof = None"
      "validate (tr_output result) u1 = (u2, Inr x)" "normalized st norms x (tr_output result) = Inr out"
      "persist_output E out w3 = (w4, Inr k)"
      "publish_output E run a kind prof result (u_sha E input) k w4 = (v, Inr ())"
    using stage_body_result [of E validate before run st initial prof _ kind input norms a w2 v x, OF E validate before body] by auto
  have h4: "world_history w w4"
    using h2 c(1) extendsD [OF extends_persist(2) [OF E] c(5)] by (meson world_history_trans)
  have ok4: "store_ok (w_db w4)" using h4 history_ok ok by (auto simp: world_history_def)
  obtain s d now where d: "store_step\<^sup>*\<^sup>* (w_db w4) s" "find_attempt s (a_id a) = Some d"
    "find_attempt (w_db v) (a_id a) = Some (close_attempt Completed (k_hash k) [] now d)"
    "stage_execution_receipt (w_db v) (a_id a) =
       Some ((execution_receipt run a prof result (u_sha E input) (k_hash k))\<lparr>x_completed := format_time now\<rparr>)"
    "a_thread d = tr_thread result" "a_turn d = tr_turn result"
    and f: "\<exists>f \<in> set (artifacts (w_db v)). f_run f = r_id run \<and> f_attempt f = a_id a \<and> f_blob f = k_hash k"
    using publish_output_result [OF E ok4 c(6)] by blast
  have ev: "evolves (w_db w2) s" and ok2: "store_ok (w_db w2)"
    using history_ok [of "w_db w2" s] history_ok [of "w_db w" "w_db w2"] ok h2 c(1) d(1)
      extendsD [OF extends_persist(2) [OF E] c(5)]
    by (auto simp: world_history_def dest: rtranclp_trans)
  then obtain d' where "find_attempt s (a_id a) = Some d'" "attempt_step a d'"
    using attempt_log.select_later a(1) by (fastforce simp: evolves_def find_attempt_def)
  then have same: "a_run d = r_id run" "a_stage d = st" "a_logical d = ordinal" "a_input d = u_sha E input" "a_id d = a_id a"
    using d(2) a by (auto simp: attempt_step_def)
  let ?a = "close_attempt Completed (k_hash k) [] now d"
  have fields: "a_id ?a = a_id a" "a_run ?a = r_id run" "a_stage ?a = st" "a_logical ?a = ordinal" "a_status ?a = Completed"
    "a_thread ?a = tr_thread result" "a_turn ?a = tr_turn result" "a_input ?a = u_sha E input" "a_output ?a = k_hash k"
    using same d by (simp_all add: close_attempt_def)
  have reread: "cas_read_verified (u_sha E) None (k_hash k) (w_cas v) = Inr out"
    using read_later [OF persisted_output [OF c(5)]] extendsD [OF extends_publish [OF E] c(6)]
    by (simp add: world_history_def)
  have thread: "\<not> blank (tr_thread result)" "\<not> blank (tr_turn result)"
    using c(2) by (auto simp: validate_turn_result_def split: if_splits)
  have hash: "\<not> blank (k_hash k)" using reread blank_hash by (simp add: read_verified_Inr)
  have pub: "has_published_output (w_db v) run ?a" using f fields by (auto simp: has_published_output_def list_artifacts_def)
  have "receipt_check (w_db v) run ?a = None"
    using d(4) prof by (simp add: receipt_check_def fields receipt_consistent_def execution_receipt_def)
  then have "attempt_output (u_sha E) None (w_db v) (w_cas v) run ?a = Inr out"
    using thread hash pub reread by (simp add: attempt_output_def fields and_check_def)
  then show ?thesis
    using d(3) fields c(3,4) by (intro exI [of _ ?a] exI [of _ "tr_output result"] exI [of _ out] exI [of _ u1] exI [of _ u2]) simp
qed

text \<open>A REVIEW stage of \<open>r2\<close> in a world where nobody else does anything.\<close>

definition stage_sha :: "string \<Rightarrow> string" where
  "stage_sha d = replicate 64 (if d = ''in'' then CHR ''a'' else CHR ''b'')"

definition midnight :: gotime where
  "midnight = \<lparr>t_year = 0, t_month = 0, t_day = 0, t_hour = 0, t_min = 0, t_sec = 0, t_nano = 0\<rparr>"

definition calm :: surroundings where
  "calm =
     \<lparr>u_db = \<lambda>k s. s, u_disk = \<lambda>k c. c, u_db_fault = \<lambda>k. None, u_ctx = \<lambda>k. None, u_turn_ctx = \<lambda>k. None,
      u_clock = \<lambda>k. midnight, u_fresh = \<lambda>k. ''n'' @ [char_of (k + 48)], u_fault = \<lambda>k. None,
      u_sha = stage_sha, u_timeout = 7200, u_validate_model = \<lambda>k p. None, u_create_thread = \<lambda>k st p. Inr ''rv'',
      u_turn = \<lambda>k t opts w. (w, \<lparr>tr_thread = t, tr_turn = ''t1'', tr_profile = to_profile opts, tr_output = ''{}''\<rparr>, None)\<rparr>"

definition sample_world :: world where
  "sample_world = \<lparr>w_db = sample_store, w_cas = \<lparr>cas_read_only = False, cas_prefixes = [], cas_tmp = []\<rparr>, w_active = {}, w_tick = 0\<rparr>"

definition sample_stage :: "world \<Rightarrow> world \<times> (engine_error + unit)" where
  "sample_stage =
     run_stage calm (sample_run ''r2'' RunCollecting 5 ''2026-01-02T03:04:02Z'') StageReview 0 [] reviewer_profile
       ''{}'' (\<lambda>aid d. d) ''research.review'' (Inr ''in'') None (\<lambda>d. give ()) []"

lemma calm_orderly: "orderly calm"
proof -
  have "list_all is_lower_hex (replicate 64 c)" if "is_lower_hex c" for c
    using that by (simp add: list_all_iff)
  moreover have "is_lower_hex CHR ''a''" "is_lower_hex CHR ''b''" by code_simp+
  ultimately show ?thesis
    by (auto simp: orderly_def calm_def keeps_objects_def stage_sha_def valid_hash_def)
qed

lemma sample_stage_succeeds: "is_ok (snd (sample_stage sample_world))"
  by code_simp

theorem stage_durable_witness:
  "\<exists>v a out. sample_stage sample_world = (v, Inr ()) \<and> find_attempt (w_db v) (a_id a) = Some a \<and>
     a_stage a = StageReview \<and> a_status a = Completed \<and>
     attempt_output stage_sha None (w_db v) (w_cas v) (sample_run ''r2'' RunCollecting 5 ''2026-01-02T03:04:02Z'') a = Inr out"
proof -
  obtain v where v: "sample_stage sample_world = (v, Inr ())"
    using sample_stage_succeeds by (cases "sample_stage sample_world") (auto simp: is_ok_conv)
  have ok: "store_ok (w_db sample_world)" by (simp add: sample_world_def sample_store_ok)
  have prof: "profile_for_stage (r_profile (sample_run ''r2'' RunCollecting 5 ''2026-01-02T03:04:02Z'')) StageReview = Inr reviewer_profile"
    by (simp add: profile_for_stage_def sample_run_def CurrentResearchProfileVersion_def)
  show ?thesis
    using stage_durable [OF calm_orderly _ _ ok prof v [unfolded sample_stage_def]] v
    by (auto simp: extends_give calm_def)
qed

end
