(* ===== verification/Stage_Failures.thy ===== *)
theory Stage_Failures
  imports Stage_Properties Run_Outcomes
begin

section \<open>How a stage fails\<close>

subsection \<open>Every failure says something\<close>

text \<open>
  An attempt is closed as failed exactly when its error text is not empty, so the errors that
  reach \<open>failStage\<close> must never be silent.
\<close>

definition fails_with :: "('e \<Rightarrow> bool) \<Rightarrow> ('e, 'a) act \<Rightarrow> bool" where
  "fails_with P m \<longleftrightarrow> (\<forall>w v e. m w = (v, Inl e) \<longrightarrow> P e)"

named_theorems failing \<open>what an action can fail with\<close>

lemma fails_give [failing]: "fails_with P (give x)"
  by (simp add: fails_with_def give_def)

lemma fails_raise [failing]: "P e \<Longrightarrow> fails_with P (raise e)"
  by (simp add: fails_with_def raise_def)

lemma fails_bind [failing]: "fails_with P m \<Longrightarrow> (\<And>x. fails_with P (f x)) \<Longrightarrow> fails_with P (bind m f)"
  by (auto simp: fails_with_def bind_def split: prod.splits sum.splits)

lemma fails_relabel [failing]: "(\<And>e. P (g e)) \<Longrightarrow> fails_with P (relabel g m)"
  by (auto simp: fails_with_def relabel_def split: prod.splits sum.splits)

lemma fails_if [failing]: "fails_with P m \<Longrightarrow> fails_with P n \<Longrightarrow> fails_with P (if b then m else n)"
  by simp

lemma fails_pair: "fails_with (\<lambda>e. P e) m \<Longrightarrow> fails_with (\<lambda>he. P (snd he)) (relabel (Pair h) m)"
  by (auto simp: fails_with_def relabel_def split: prod.splits sum.splits)

definition audible :: "engine_error \<Rightarrow> bool" where
  "audible e \<longleftrightarrow> error_text e \<noteq> []"

lemma audible_simps [simp]: "audible (Wrapped m e)" "audible (Failure m) = (m \<noteq> [])"
  "audible ContextCanceled" "audible DeadlineExceeded"
  by (simp_all add: audible_def)

lemma fails_look: "orderly E \<Longrightarrow> fails_with audible (look E)"
  unfolding fails_with_def
proof (intro allI impI)
  fix w v e assume E: "orderly E" and l: "look E w = (v, Inl e)"
  then have "u_ctx E (w_tick w) = Some e" by (auto simp: look_def split: option.splits)
  with E have "e = ContextCanceled \<or> e = DeadlineExceeded" unfolding orderly_def by blast
  then show "audible e" by auto
qed

lemma fails_persist:
  assumes "orderly E"
  shows "fails_with audible (persist_input E d h)" and "fails_with audible (persist_output E d)"
  unfolding persist_input_def persist_output_def by (intro failing fails_look assms; simp)+

lemma fails_thread: "fails_with audible (stage_thread E run st prof initial a)"
proof -
  have "fails_with audible (\<lambda>w. case u_create_thread E (w_tick w) st prof of
      Inl e \<Rightarrow> fail (pass E w) (Wrapped m e) | Inr t \<Rightarrow> commit (pass E w) t)" for m
    by (auto simp: fails_with_def split: sum.splits)
  then show ?thesis unfolding stage_thread_def by (intro failing; simp)
qed

lemma fails_turn: "orderly E \<Longrightarrow> fails_with audible (run_turn E run opts a thread)"
proof -
  assume E: "orderly E"
  have "fails_with audible (submit_turn E run opts thread)"
    by (auto simp: fails_with_def submit_turn_def Let_def split: prod.splits)
  then show ?thesis
    unfolding run_turn_def Let_def
    by (auto split: option.split intro!: failing fails_look [OF E])
qed

lemma fails_publish: "orderly E \<Longrightarrow> fails_with audible (publish_output E run a kind prof result input k)"
  unfolding publish_output_def Let_def by (intro failing fails_look; simp)

lemma fails_stage_body:
  assumes E: "orderly E"
  shows "fails_with (\<lambda>he. audible (snd he)) (stage_body E run st initial prof opts kind input before validate norms a)"
proof -
  have m: "fails_with (\<lambda>he. audible (snd he)) (\<lambda>w. case u_validate_model E (w_tick w) prof of
      Some e \<Rightarrow> fail (pass E w) ([], Wrapped t e) | None \<Rightarrow> commit (pass E w) ())" for t
    by (auto simp: fails_with_def split: option.splits)
  have p: "fails_with audible (case before of None \<Rightarrow> give () | Some f \<Rightarrow> relabel (Wrapped t) (f a))" for t
    by (cases before) (simp_all add: fails_give fails_relabel)
  have n: "fails_with (\<lambda>he. audible (snd he)) (case normalized st norms x d of Inl e \<Rightarrow> raise ([], e) | Inr out \<Rightarrow> m out)"
    if "\<And>out. fails_with (\<lambda>he. audible (snd he)) (m out)" for x d and m :: "string \<Rightarrow> (string \<times> engine_error, 'b) act"
  proof (cases "normalized st norms x d")
    case (Inl e)
    then have "audible e" by (auto simp: normalized_def split: list.splits sum.splits)
    with Inl show ?thesis by (simp add: fails_raise)
  qed (use that in simp)
  show ?thesis
    unfolding stage_body_def Let_def
    by (intro fails_bind fails_pair m n p fails_look [OF E] fails_persist [OF E] fails_thread fails_turn [OF E]
        fails_publish [OF E] fails_relabel fails_give; simp)
qed

subsection \<open>The record of a failure\<close>

definition run_ended :: "db \<Rightarrow> string \<Rightarrow> bool" where
  "run_ended s rid \<longleftrightarrow> (\<exists>r. find_run s rid = Some r \<and>
     (is_terminal (r_status r) \<or> r_status r = RunInterrupted \<or> r_status r = RunUncertain))"

lemma quiesced_run:
  assumes keys: "distinct (map p_id (approvals s))" and cur: "find_run s (r_id cur) = Some cur"
    and q: "quiesce_run_transaction cur RunFailed msg now s = (t, Inr r)"
  shows "run_ended t (r_id cur) \<and> attempts t = attempts s"
proof -
  define nx where "nx = (if affected (open_side_effect (r_id cur)) (attempts s) > 0 then RunUncertain else RunFailed)"
  obtain s1 s2 where u: "update_one_run (\<lambda>r. r_id r = r_id cur \<and> r_revision r = r_revision cur) (set_status nx msg now)
      (Errorf ''run quiescence lost optimistic concurrency race'') s = (s1, Inr ())"
    and p: "retire_pending_approvals (r_id cur) (''run_'' @ status_text nx) now s1 = (s2, Inr ())"
    and t: "runs t = runs s2" "attempts t = attempts s2"
    using q by (auto simp: quiesce_run_transaction_def Let_def nx_def store_results append_event_def split: option.splits)
  have s1: "s1 = s\<lparr>runs := update_where (\<lambda>r. r_id r = r_id cur \<and> r_revision r = r_revision cur) (set_status nx msg now) (runs s)\<rparr>"
    using u by (auto simp: update_one_run_def split: if_splits)
  have "\<exists>ev. s2 = s1\<lparr>approvals := update_where (pending_of (r_id cur)) (deny_row now) (approvals s1), events := events s1 @ ev\<rparr>"
    using retire_pending_ok [of s1 "r_id cur" "''run_'' @ status_text nx" now] keys p by (auto simp: s1)
  then have same: "runs t = runs s1" "attempts t = attempts s" using t by (auto simp: s1)
  have "find_run t (r_id cur) = Some (set_status nx msg now cur)"
    using cur by (simp add: find_run_def same s1 select_key_update_where set_status_def)
  moreover have "nx = RunUncertain \<or> nx = RunFailed" by (simp add: nx_def)
  ultimately show ?thesis using same by (auto simp: run_ended_def set_status_def)
qed

text \<open>The two ways \<open>failStage\<close> writes to the store.\<close>

lemma closed_failed:
  assumes keys: "distinct (map a_id (attempts s))"
    and u: "update_one_attempt (\<lambda>a. a_id a = aid \<and> a_status a = InProgress) (close_attempt st out err now) e s = (t, Inr x)"
  shows "\<exists>b. find_attempt s aid = Some b \<and> find_attempt t aid = Some (close_attempt st out err now b) \<and>
    t = s\<lparr>attempts := attempts t\<rparr>"
proof -
  have t: "t = s\<lparr>attempts := update_where (\<lambda>a. a_id a = aid \<and> a_status a = InProgress) (close_attempt st out err now) (attempts s)\<rparr>"
    and one: "affected (\<lambda>a. a_id a = aid \<and> a_status a = InProgress) (attempts s) = 1"
    using u by (auto simp: update_one_attempt_def Let_def split: if_splits)
  obtain b where b: "b \<in> set (attempts s)" "a_id b = aid" "a_status b = InProgress"
    using affected_pos [of "\<lambda>a. a_id a = aid \<and> a_status a = InProgress" "attempts s"] by (auto simp: one)
  have "find_attempt s aid = Some b" using select_key_unique [OF keys b(1)] b(2) by (simp add: find_attempt_def)
  moreover from this have "find_attempt t aid = Some (close_attempt st out err now b)"
    using b by (simp add: t find_attempt_def select_key_update_where)
  moreover have "t = s\<lparr>attempts := attempts t\<rparr>" by (simp add: t)
  ultimately show ?thesis by blast
qed

lemma on_db_Inl:
  "on_db E op w = (v, Inl e) \<Longrightarrow>
     v = pass E w \<or> (\<exists>f. op (w_tick w) (w_db (pass E w)) = (w_db v, Inl f) \<and> v = (pass E w)\<lparr>w_db := w_db v\<rparr>)"
  by (auto simp: on_db_def split: option.splits prod.splits sum.splits)

lemma collector_closed:
  assumes ok: "store_ok s" and c: "fail_collect_stage_and_quiesce_run aid out err now s = (t, Inr r)"
  shows "\<exists>b. find_attempt s aid = Some b \<and> find_attempt t aid = Some (close_attempt AttemptFailed out err now b) \<and>
    run_ended t (a_run b)"
proof -
  obtain a cur s1 where a: "find_attempt s aid = Some a" and cur: "find_run s (a_run a) = Some cur"
    and u: "update_one_attempt (\<lambda>q. a_id q = aid \<and> a_status q = InProgress)
      (close_attempt AttemptFailed out err now) (Errorf ''stage was not active'') s = (s1, Inr ())"
    and q: "(if is_terminal (r_status cur) \<or> r_status cur = RunInterrupted \<or> r_status cur = RunUncertain
      then commit s1 cur else quiesce_run_transaction cur RunFailed err now s1) = (t, Inr r)"
    using c by (auto simp: fail_collect_stage_and_quiesce_run_def store_results split: if_splits option.splits)
  obtain b where b: "find_attempt s aid = Some b" "find_attempt s1 aid = Some (close_attempt AttemptFailed out err now b)"
    "s1 = s\<lparr>attempts := attempts s1\<rparr>"
    using closed_failed [OF ok_keys(2) [OF ok] u] by blast
  have id: "r_id cur = a_run a" using find_run_in [OF cur] by simp
  have "runs s1 = runs s" "approvals s1 = approvals s" using b(3) by (cases s1; cases s; simp)+
  then have cur1: "find_run s1 (r_id cur) = Some cur" and k: "distinct (map p_id (approvals s1))"
    using cur ok_keys(3) [OF ok] by (simp_all add: find_run_def id)
  have "find_attempt t aid = find_attempt s1 aid \<and> run_ended t (a_run a)"
  proof (cases "is_terminal (r_status cur) \<or> r_status cur = RunInterrupted \<or> r_status cur = RunUncertain")
    case True
    then have "run_ended s1 (r_id cur)" using cur1 by (auto simp: run_ended_def)
    then show ?thesis using True q by (auto simp: id)
  next
    case False
    then show ?thesis using quiesced_run [OF k cur1, of err now t r] q by (auto simp: id find_attempt_def)
  qed
  with a b show ?thesis by auto
qed

lemma fail_stage_recorded:
  assumes E: "orderly E" and ok: "store_ok (w_db w)" and loud: "error_text cause \<noteq> []"
    and run: "fail_stage E a h cause w = (v, Inl e)"
  shows "(\<exists>d. e = Joined cause d) \<or> e = cause \<and>
    (\<exists>s b now. store_step\<^sup>*\<^sup>* (w_db w) s \<and> find_attempt s (a_id a) = Some b \<and>
      find_attempt (w_db v) (a_id a) = Some (close_attempt AttemptFailed h (error_text cause) now b) \<and>
      (a_stage a = StageCollect \<and> is_substantive_collect_failure cause \<longrightarrow> run_ended (w_db v) (a_run b)))"
proof -
  let ?s = "w_db (pass E w)" and ?now = "u_clock E (w_tick w)"
  have hs: "store_step\<^sup>*\<^sup>* (w_db w) ?s" using pass_history [OF E, of w] by (simp add: world_history_def)
  have ok1: "store_ok ?s" using history_ok [OF hs ok] ..
  have plain: ?thesis if r: "complete_stage (a_id a) h (error_text cause) ?now ?s = (w_db v, Inr u)"
    and e: "e = cause" and c: "\<not> (a_stage a = StageCollect \<and> is_substantive_collect_failure cause)" for u
  proof -
    obtain b where "find_attempt ?s (a_id a) = Some b"
      "find_attempt (w_db v) (a_id a) = Some (close_attempt AttemptFailed h (error_text cause) ?now b)"
      using closed_failed [OF ok_keys(2) [OF ok1]] r loud unfolding complete_stage_def by force
    with e c hs show ?thesis by blast
  qed
  have collector: ?thesis if r: "fail_collect_stage_and_quiesce_run (a_id a) h (error_text cause) ?now ?s = (w_db v, Inr u)"
    and e: "e = cause" for u
  proof -
    obtain b where "find_attempt ?s (a_id a) = Some b"
      "find_attempt (w_db v) (a_id a) = Some (close_attempt AttemptFailed h (error_text cause) ?now b)"
      "run_ended (w_db v) (a_run b)"
      using collector_closed [OF ok1 r] by blast
    with e hs show ?thesis by blast
  qed
  show ?thesis
  proof (cases "a_stage a = StageCollect \<and> is_substantive_collect_failure cause")
    case True
    obtain w1 r where o: "on_db E (\<lambda>k. fail_collect_stage_and_quiesce_run (a_id a) h (error_text cause) (u_clock E k)) w = (w1, r)"
      by fastforce
    show ?thesis
    proof (cases r)
      case (Inr x)
      then have "e = cause" "w1 = v" using run True o by (simp_all add: fail_stage_def)
      then show ?thesis using collector o Inr by (simp add: on_db_Inr)
    qed (use run True o in \<open>auto simp: fail_stage_def\<close>)
  next
    case False
    obtain w1 r where o: "on_db E (\<lambda>k. complete_stage (a_id a) h (error_text cause) (u_clock E k)) w = (w1, r)"
      by fastforce
    show ?thesis
    proof (cases r)
      case (Inr x)
      then have "e = cause" "w1 = v" using run False o by (auto simp: fail_stage_def split: if_splits)
      then show ?thesis using plain [OF _ _ False] o Inr by (simp add: on_db_Inr)
    qed (use run False o in \<open>auto simp: fail_stage_def split: if_splits\<close>)
  qed
qed

subsection \<open>A stage that fails\<close>

lemma bind_Inl:
  "bind m f w = (v, Inl e) \<longleftrightarrow> m w = (v, Inl e) \<or> (\<exists>u x. m w = (u, Inr x) \<and> f x u = (v, Inl e))"
  by (auto simp: bind_def split: prod.splits sum.splits)

lemma relabel_Inl: "relabel g m w = (v, Inl e) \<longleftrightarrow> (\<exists>d. m w = (v, Inl d) \<and> e = g d)"
  by (auto simp: relabel_def split: prod.splits sum.splits)

lemma look_world: "look E w = (v, r) \<Longrightarrow> v = pass E w"
  by (auto simp: look_def split: option.splits)

lemma begin_stage_refused: "begin_stage fresh rid st ordinal thread input now s = (t, Inl e) \<Longrightarrow> t = s"
  by (auto simp: begin_stage_def Let_def split: if_splits)

lemma begin_refused:
  assumes "on_db E (\<lambda>k. begin_stage (u_fresh E k) rid st ordinal thread input (u_clock E k)) w = (v, Inl e)"
  shows "v = pass E w"
proof -
  consider "v = pass E w" | f where "begin_stage (u_fresh E (w_tick w)) rid st ordinal thread input
      (u_clock E (w_tick w)) (w_db (pass E w)) = (w_db v, Inl f)" "v = (pass E w)\<lparr>w_db := w_db v\<rparr>"
    using on_db_Inl [OF assms] by auto
  then show ?thesis
  proof cases
    case (2 f)
    show ?thesis using begin_stage_refused [OF 2(1)] 2(2) by simp
  qed
qed

text \<open>Either nothing was begun, or an attempt was and its end went through \<open>failStage\<close>.\<close>

lemma run_stage_failure:
  fixes validate :: "string \<Rightarrow> (engine_error, 'b) act"
  assumes run: "run_stage E run st ordinal initial prof schema prompt kind encoded before validate norms w = (v, Inl e)"
  shows "(\<exists>n \<le> 2. v = (pass E ^^ n) w) \<or>
    (\<exists>input a w1 w2 w3 h cause opts. encoded = Inr input \<and> look E w = (w1, Inr ()) \<and>
      on_db E (\<lambda>k. begin_stage (u_fresh E k) (r_id run) st ordinal initial (u_sha E input) (u_clock E k)) w1 = (w2, Inr a) \<and>
      stage_body E run st initial prof opts kind input before validate norms a w2 = (w3, Inl (h, cause)) \<and>
      fail_stage E a h cause w3 = (v, Inl e :: engine_error + 'b))"
proof (cases "look E w")
  case (Pair w1 r)
  have w1: "w1 = pass E w" using look_world [OF Pair] .
  have one: ?thesis if "v = pass E w" using that by (intro disjI1 exI [of _ 1]) simp
  have two: ?thesis if "v = pass E w1" using that w1 by (intro disjI1 exI [of _ 2]) (simp add: numeral_2_eq_2)
  show ?thesis
  proof (cases r)
    case Inl
    then show ?thesis using run Pair w1 by (intro one) (simp add: run_stage_def bind_def)
  next
    case (Inr u)
    show ?thesis
    proof (cases "(st = StageReview \<and> \<not> blank initial) \<or> (\<exists>m. encoded = Inl m)")
      case True
      then have "v = w1"
        using run Pair Inr by (auto simp: run_stage_def bind_Inl raise_def split: if_splits sum.splits)
      then show ?thesis using w1 by (intro one) simp
    next
      case False
      then obtain input where enc: "encoded = Inr input" by (cases encoded) auto
      let ?opening = "on_db E (\<lambda>k. begin_stage (u_fresh E k) (r_id run) st ordinal initial (u_sha E input) (u_clock E k))"
      obtain w2 q where b: "?opening w1 = (w2, q)" by fastforce
      show ?thesis
      proof (cases q)
        case (Inl d)
        then have "v = w2"
          using run Pair Inr False enc b by (auto simp: run_stage_def bind_def relabel_def)
        then show ?thesis using begin_refused b Inl by (intro two) blast
      next
        case (Inr a)
        let ?opts = "\<lparr>to_stage = st, to_profile = prof, to_schema = schema, to_prompt = prompt (a_id a) input\<rparr>"
        obtain w3 s where body: "stage_body E run st initial prof ?opts kind input before validate norms a w2 = (w3, s)"
          by fastforce
        have "(case (w3, s) of (w1, Inr x) \<Rightarrow> commit w1 x | (w1, Inl (h, cause)) \<Rightarrow> fail_stage E a h cause w1) = (v, Inl e)"
          using run Pair \<open>r = Inr u\<close> False enc b Inr body by (auto simp: run_stage_def bind_def relabel_def)
        then obtain h cause where "s = Inl (h, cause)" "fail_stage E a h cause w3 = (v, Inl e :: engine_error + 'b)"
          by (auto split: sum.splits)
        then show ?thesis
          using Pair \<open>r = Inr u\<close> enc b Inr body
          by (intro disjI2 exI [of _ input] exI [of _ a] exI [of _ w1] exI [of _ w2] exI [of _ w3] exI [of _ h]
              exI [of _ cause] exI [of _ ?opts]) simp
      qed
    qed
  qed
qed

text \<open>
  C34. No failure of a stage goes unrecorded. If \<open>runStage\<close> returns an error, then either it has
  written nothing at all (the context was done, the input could not be encoded or the attempt
  could not be begun), or the attempt it began is closed as failed with exactly the error's
  text as its message, and a collector that failed for another reason than a cancellation or an
  interruption has ended its run in the same write (as failed, or as uncertain when a side effect
  is open); the only other case is an error that joins the cause with the failure to record it.
\<close>

theorem stage_failed:
  fixes validate :: "string \<Rightarrow> (engine_error, 'b) act"
  assumes E: "orderly E" and validate: "\<forall>d. extends (validate d)"
    and before: "\<forall>f a. before = Some f \<longrightarrow> extends (f a)" and ok: "store_ok (w_db w)"
    and run: "run_stage E run st ordinal initial prof schema prompt kind encoded before validate norms w = (v, Inl e)"
  shows "(\<exists>n \<le> 2. v = (pass E ^^ n) w) \<or> (\<exists>cause d. e = Joined cause d) \<or>
    (\<exists>a. find_attempt (w_db v) (a_id a) = Some a \<and> a_run a = r_id run \<and> a_stage a = st \<and> a_logical a = ordinal \<and>
      a_status a = AttemptFailed \<and> a_error a = error_text e \<and>
      (st = StageCollect \<and> is_substantive_collect_failure e \<longrightarrow> run_ended (w_db v) (r_id run)))"
proof (cases "\<exists>n \<le> 2. v = (pass E ^^ n) w")
  case False
  obtain input a w1 w2 w3 h cause opts where l: "look E w = (w1, Inr ())"
    and b: "on_db E (\<lambda>k. begin_stage (u_fresh E k) (r_id run) st ordinal initial (u_sha E input) (u_clock E k)) w1 = (w2, Inr a)"
    and body: "stage_body E run st initial prof opts kind input before validate norms a w2 = (w3, Inl (h, cause))"
    and f: "fail_stage E a h cause w3 = (v, Inl e :: engine_error + 'b)"
    using run_stage_failure [OF run] False by blast
  have hb: "world_history w1 w2" by (rule extendsD [OF extends_on_db [OF E] b]) (rule stage_steps)
  have h2: "store_step\<^sup>*\<^sup>* (w_db w) (w_db w2)" and h3: "store_step\<^sup>*\<^sup>* (w_db w2) (w_db w3)"
    using extendsD [OF extends_look [OF E] l] hb extendsD [OF extends_stage_body [OF E validate before] body]
    by (auto simp: world_history_def)
  have ok2: "store_ok (w_db w2)" using history_ok [OF h2 ok] ..
  have ok3: "store_ok (w_db w3)" using history_ok [OF h3 ok2] ..
  have loud: "error_text cause \<noteq> []"
    using fails_stage_body [OF E, of run st initial prof opts kind input before validate norms a] body
    by (force simp: fails_with_def audible_def)
  consider d where "e = Joined cause d" | s c now where "e = cause" "store_step\<^sup>*\<^sup>* (w_db w3) s"
      "find_attempt s (a_id a) = Some c"
      "find_attempt (w_db v) (a_id a) = Some (close_attempt AttemptFailed h (error_text cause) now c)"
      "a_stage a = StageCollect \<and> is_substantive_collect_failure cause \<longrightarrow> run_ended (w_db v) (a_run c)"
    using fail_stage_recorded [OF E ok3 loud f] by blast
  then show ?thesis
  proof cases
    case (2 s c now)
    have a: "find_attempt (w_db w2) (a_id a) = Some a" "a_run a = r_id run" "a_stage a = st" "a_logical a = ordinal"
      using b begun_stage by (force simp: on_db_Inr new_attempt_def)+
    have "evolves (w_db w2) s" using history_ok [OF rtranclp_trans [OF h3 2(2)] ok2] ..
    then obtain c' where "find_attempt s (a_id a) = Some c'" "attempt_step a c'"
      using attempt_log.select_later a(1) by (fastforce simp: evolves_def find_attempt_def)
    then have "a_run c = r_id run" "a_stage c = st" "a_logical c = ordinal" "a_id c = a_id a"
      using 2(3) a by (auto simp: attempt_step_def)
    then show ?thesis
      using 2 a by (intro disjI2 exI [of _ "close_attempt AttemptFailed h (error_text cause) now c"])
        (simp add: close_attempt_def)
  qed blast
qed blast

text \<open>The sample stage with a validator that refuses the output.\<close>

definition refused_stage :: "world \<Rightarrow> world \<times> (engine_error + unit)" where
  "refused_stage =
     run_stage calm (sample_run ''r2'' RunCollecting 5 ''2026-01-02T03:04:02Z'') StageReview 0 [] reviewer_profile
       ''{}'' (\<lambda>aid d. d) ''research.review'' (Inr ''in'') None (\<lambda>d. raise (Failure ''bad'')) []"

lemma refused_stage_fails:
  "(case refused_stage sample_world of (v, r) \<Rightarrow>
      w_tick v > 2 \<and> r = Inl (Wrapped ''validate review JSON'' (Failure ''bad'')))"
  by code_simp

lemma pass_ticks: "w_tick ((pass E ^^ n) w) = w_tick w + n"
  by (induction n) (simp_all add: pass_def)

theorem stage_failed_witness:
  "\<exists>v a. fst (refused_stage sample_world) = v \<and> find_attempt (w_db v) (a_id a) = Some a \<and> a_stage a = StageReview \<and>
     a_status a = AttemptFailed \<and> a_error a = ''validate review JSON: bad''"
proof -
  obtain v where v: "refused_stage sample_world = (v, Inl (Wrapped ''validate review JSON'' (Failure ''bad'')))"
    and n: "w_tick v > 2"
    using refused_stage_fails by (cases "refused_stage sample_world") auto
  have ok: "store_ok (w_db sample_world)" by (simp add: sample_world_def sample_store_ok)
  have "\<not> (\<exists>n \<le> 2. v = (pass calm ^^ n) sample_world)"
    using n by (auto simp: pass_ticks sample_world_def)
  then show ?thesis
    using stage_failed [OF calm_orderly _ _ ok v [unfolded refused_stage_def]] v
    by (auto simp: extends_raise)
qed

end
