(* ===== verification/Research_Stages.thy ===== *)
theory Research_Stages
  imports Checkpoint Store_Remediation Engineering_Jobs
begin

section \<open>The five stages of the research engine\<close>

text \<open>
  \<^verbatim>\<open>src/internal/research/engine.go\<close>: planning with its contract retries, the collectors and
  the independent verification of a screening, synthesis, review and revision, each as a use of
  \<^const>\<open>run_stage\<close> with its input, its validator and its normalizer; and the readbacks of
  \<^verbatim>\<open>validation.go\<close>, \<^verbatim>\<open>collector_evidence.go\<close> and \<^verbatim>\<open>xfoil_matrix.go\<close> they share.
\<close>

type_synonym 'a eact = "(engine_error, 'a) act"

subsection \<open>What the stages are given\<close>

record ontology_term =
  ot_key :: string
  ot_kind :: string
  ot_value :: string

record ontology_contract =
  oc_id :: string
  oc_classes :: "ontology_term list"
  oc_properties :: "ontology_term list"

text \<open>The inputs of the stages, without the fixed policy texts of their JSON documents.\<close>

datatype stage_input =
  PlanInput string string "remediation_row option" "su2_case_set option" "job_row list"
| CollectInput string research_plan workstream "string list" string "job_row list"
| VerificationInput string research_plan "evidence_bundle list" "string list"
| SynthesizeInput string research_plan "evidence_bundle list" "job_row list" ontology_contract "engineering_assessment option"
| ReviewInput string research_plan "evidence_bundle list" "job_row list" report_manifest
| ReviseInput string research_plan "evidence_bundle list" "job_row list" report_manifest verdict_document
    ontology_contract "engineering_assessment option"

text \<open>
  The arguments of the stages: JSON in both directions, the pattern of stage capabilities, the
  readbacks of the solver results and of the ontology (functions of the database and the
  content-addressed store), the runner and authorizer of a screening, the renderer of the report
  document, and what one of several collectors sees (its siblings among the other writers).
\<close>

record toolkit =
  tk_decode :: decoders
  tk_output :: "string \<Rightarrow> string + collector_output"
  tk_encode :: "stage_input \<Rightarrow> string + string"
  tk_marshal_plan :: "research_plan \<Rightarrow> string + string"
  tk_marshal_bundle :: "evidence_bundle \<Rightarrow> string + string"
  tk_marshal_report :: "report_manifest \<Rightarrow> string + string"
  tk_prompt :: "stage \<Rightarrow> string \<Rightarrow> string \<Rightarrow> string \<Rightarrow> string"
  tk_schema :: "stage \<Rightarrow> string"
  tk_report_schema :: "evidence_bundle list \<Rightarrow> ontology_contract \<Rightarrow> string + string"
  tk_capability :: "string \<Rightarrow> bool"
  tk_feedback :: "nat \<Rightarrow> string \<Rightarrow> string"
  tk_reusable :: "db \<Rightarrow> cas_store \<Rightarrow> string \<Rightarrow> int \<Rightarrow> string + (su2_case_set \<times> job_row list) option"
  tk_purpose :: "string \<Rightarrow> string + string \<times> string"
  tk_receipt :: "db \<Rightarrow> cas_store \<Rightarrow> string \<Rightarrow> int \<Rightarrow> string \<Rightarrow> string + evidence_source"
  tk_rehydrate :: "db \<Rightarrow> cas_store \<Rightarrow> string \<Rightarrow> research_plan \<Rightarrow> evidence_bundle \<Rightarrow> string + evidence_bundle"
  tk_sources :: "db \<Rightarrow> cas_store \<Rightarrow> string \<Rightarrow> int \<Rightarrow> evidence_bundle \<Rightarrow> check"
  tk_coverage :: "db \<Rightarrow> cas_store \<Rightarrow> string \<Rightarrow> research_plan \<Rightarrow> evidence_bundle \<Rightarrow> check"
  tk_cases :: "db \<Rightarrow> cas_store \<Rightarrow> string \<Rightarrow> research_plan \<Rightarrow> evidence_bundle \<Rightarrow> check"
  tk_assessment :: "db \<Rightarrow> cas_store \<Rightarrow> string \<Rightarrow> research_plan \<Rightarrow> string + engineering_assessment option"
  tk_ontology :: "db \<Rightarrow> string \<Rightarrow> string + ontology_contract"
  tk_assemble :: "db \<Rightarrow> cas_store \<Rightarrow> string \<Rightarrow> research_plan \<Rightarrow> report_manifest \<Rightarrow> string + report_manifest"
  tk_package :: "db \<Rightarrow> cas_store \<Rightarrow> string \<Rightarrow> research_plan \<Rightarrow> report_manifest \<Rightarrow> check"
  tk_knowledge :: "db \<Rightarrow> cas_store \<Rightarrow> string \<Rightarrow> report_manifest \<Rightarrow> check"
  tk_screened :: "db \<Rightarrow> string \<Rightarrow> bool \<Rightarrow> string + nat"
  tk_runner :: bool
  tk_cell :: "string \<Rightarrow> string \<Rightarrow> screening_plan \<Rightarrow> operating_point \<Rightarrow> go_float \<Rightarrow> string + string"
  tk_authorize :: "run_row \<Rightarrow> attempt_row \<Rightarrow> string list \<Rightarrow> unit eact"
  tk_run_cell :: "string \<Rightarrow> string \<Rightarrow> screening_plan \<Rightarrow> operating_point \<Rightarrow> go_float \<Rightarrow> string eact"
  tk_render :: "run_row \<Rightarrow> report_manifest \<Rightarrow> review_verdict \<Rightarrow> gotime \<Rightarrow> string + string"
  tk_worker :: "nat \<Rightarrow> surroundings"

text \<open>One read of the database and the content-addressed store.\<close>

definition peek :: "surroundings \<Rightarrow> (db \<Rightarrow> cas_store \<Rightarrow> engine_error + 'a) \<Rightarrow> 'a eact" where
  "peek E f w =
     (case u_db_fault E (w_tick w) of
        Some e \<Rightarrow> fail (pass E w) e
      | None \<Rightarrow> (case f (w_db (pass E w)) (w_cas (pass E w)) of
           Inl e \<Rightarrow> fail (pass E w) e
         | Inr x \<Rightarrow> commit (pass E w) x))"

fun told :: "string + 'a \<Rightarrow> engine_error + 'a" where
  "told (Inl m) = Inl (Failure m)"
| "told (Inr x) = Inr x"

definition checked :: "check \<Rightarrow> string + unit" where
  "checked c = (case c of None \<Rightarrow> Inr () | Some m \<Rightarrow> Inl m)"

text \<open>A sequence of steps that may refuse with a message.\<close>

definition then_try :: "string + 'a \<Rightarrow> ('a \<Rightarrow> string + 'b) \<Rightarrow> string + 'b" where
  "then_try r f = (case r of Inl m \<Rightarrow> Inl m | Inr x \<Rightarrow> f x)"

fun try_each :: "('a \<Rightarrow> string + 'b) \<Rightarrow> 'a list \<Rightarrow> string + 'b list" where
  "try_each f [] = Inr []"
| "try_each f (x # xs) = then_try (f x) (\<lambda>y. then_try (try_each f xs) (\<lambda>ys. Inr (y # ys)))"

subsection \<open>The plan\<close>

definition strip_workstream :: "(string \<Rightarrow> bool) \<Rightarrow> workstream \<Rightarrow> string + workstream" where
  "strip_workstream cap w =
     (if cap (ws_id w) \<or> cap (ws_question w) then Inl ''workstream contains stage capability identity''
      else Inr (w\<lparr>ws_kinds := filter (\<lambda>x. \<not> cap x) (ws_kinds w), ws_required := filter (\<lambda>x. \<not> cap x) (ws_required w)\<rparr>))"

text \<open>The filtered arrays are never nil, the workstreams stay nil when they are.\<close>

definition strip_stage_capability_identity :: "(string \<Rightarrow> bool) \<Rightarrow> research_plan \<Rightarrow> string + research_plan" where
  "strip_stage_capability_identity cap p =
     (if cap (rp_mode p) then Inl ''research plan mode contains stage capability identity''
      else then_try (try_each (strip_workstream cap) (elems (rp_workstreams p))) (\<lambda>ws.
        Inr (p\<lparr>rp_workstreams := map_option (\<lambda>_. ws) (rp_workstreams p),
               rp_sources := Some (filter (\<lambda>x. \<not> cap x) (elems (rp_sources p))),
               rp_criteria := Some (filter (\<lambda>x. \<not> cap x) (elems (rp_criteria p)))\<rparr>)))"

definition plan_candidate :: "toolkit \<Rightarrow> run_row \<Rightarrow> (su2_case_set \<times> job_row list) option \<Rightarrow> string \<Rightarrow> string + research_plan" where
  "plan_candidate T run reuse out =
     then_try (dc_plan (tk_decode T) out) (\<lambda>p.
     let owned = p\<lparr>rp_question := r_question run\<rparr>;
         cased = (case reuse of None \<Rightarrow> owned | Some (c, js) \<Rightarrow> owned\<lparr>rp_cases := Some c\<rparr>)
     in then_try (strip_stage_capability_identity (tk_capability T) cased) (\<lambda>q.
        then_try (checked (validate_research_plan q)) (\<lambda>_. Inr q)))"

definition recoverable_markers :: "string list" where
  "recoverable_markers = [''xfoil_screening'', ''xfoil screening'', ''tool package'', ''capability contract'',
     ''typed tool'', ''bounded workflow'']"

definition is_recoverable_plan_contract_error :: "engine_error \<Rightarrow> bool" where
  "is_recoverable_plan_contract_error e \<longleftrightarrow>
     contains_text ''validate plan JSON:'' (error_text e) \<and>
     list_ex (\<lambda>m. contains_text m (go_lower (error_text e))) recoverable_markers"

definition remediation_needs_new_solver_execution :: "remediation_row \<Rightarrow> bool" where
  "remediation_needs_new_solver_execution m \<longleftrightarrow> list_ex k_solver (m_tasks m)"

definition latest_stage_attempt :: "db \<Rightarrow> string \<Rightarrow> attempt_row option" where
  "latest_stage_attempt s rid = (case rev (list_stage_attempts s rid) of [] \<Rightarrow> None | a # _ \<Rightarrow> Some a)"

definition plan_stage ::
    "surroundings \<Rightarrow> toolkit \<Rightarrow> run_row \<Rightarrow> model_profile \<Rightarrow> remediation_row option \<Rightarrow>
     (su2_case_set \<times> job_row list) option \<Rightarrow> string \<Rightarrow> research_plan eact" where
  "plan_stage E T run prof rem reuse feedback =
     run_stage E run StagePlan 0 (r_thread run) prof (tk_schema T StagePlan) (tk_prompt T StagePlan (r_id run))
       ''research.plan''
       (tk_encode T (PlanInput (r_question run) feedback rem (map_option fst reuse)
          (case reuse of None \<Rightarrow> [] | Some (c, js) \<Rightarrow> js)))
       None (\<lambda>out. peek E (\<lambda>s c. told (plan_candidate T run reuse out))) [\<lambda>p out. tk_marshal_plan T p]"

text \<open>The attempt that failed its contract is archived before the next one.\<close>

definition prepare_plan_retry :: "surroundings \<Rightarrow> run_row \<Rightarrow> engine_error \<Rightarrow> unit eact" where
  "prepare_plan_retry E run e =
     bind (relabel (\<lambda>d. Joined e (Wrapped ''load failed PLAN recovery checkpoint'' d))
             (peek E (\<lambda>s c. case latest_stage_attempt s (r_id run) of None \<Rightarrow> Inl (StoreFailure NoRows) | Some a \<Rightarrow> Inr a))) (\<lambda>a.
     if a_stage a \<noteq> StagePlan \<or> a_status a \<noteq> AttemptFailed
     then raise (Joined e (Failure ''latest PLAN recovery checkpoint is not a failed PLAN attempt''))
     else relabel (\<lambda>d. Joined e (Wrapped ''prepare PLAN contract retry'' d))
            (on_db E (\<lambda>k. prepare_plan_contract_retry (r_id run) (a_id a) (u_clock E k))))"

definition maxPlanCapabilityRecoveryAttempts :: nat where
  "maxPlanCapabilityRecoveryAttempts = 3"

text \<open>The first number is how many attempts may still follow this one.\<close>

primrec plan_attempts ::
    "nat \<Rightarrow> surroundings \<Rightarrow> toolkit \<Rightarrow> run_row \<Rightarrow> model_profile \<Rightarrow> remediation_row option \<Rightarrow>
     (su2_case_set \<times> job_row list) option \<Rightarrow> string \<Rightarrow> research_plan eact" where
  "plan_attempts 0 E T run prof rem reuse feedback = plan_stage E T run prof rem reuse feedback"
| "plan_attempts (Suc n) E T run prof rem reuse feedback =
     (\<lambda>w. case plan_stage E T run prof rem reuse feedback w of
        (w1, Inr p) \<Rightarrow> commit w1 p
      | (w1, Inl e) \<Rightarrow>
          if \<not> is_recoverable_plan_contract_error e then fail w1 e
          else bind (prepare_plan_retry E run e) (\<lambda>_.
            plan_attempts n E T run prof rem reuse
              (tk_feedback T (maxPlanCapabilityRecoveryAttempts - Suc n) (error_text e))) w1)"

definition reusable_cases ::
    "surroundings \<Rightarrow> toolkit \<Rightarrow> run_row \<Rightarrow> remediation_row option \<Rightarrow> (su2_case_set \<times> job_row list) option eact" where
  "reusable_cases E T run rem =
     (case rem of
        None \<Rightarrow> give None
      | Some m \<Rightarrow> if remediation_needs_new_solver_execution m then give None
               else peek E (\<lambda>s c. told (tk_reusable T s c (r_id run) (m_cycle m))))"

definition profile_act :: "run_row \<Rightarrow> stage \<Rightarrow> model_profile eact" where
  "profile_act run st = (case profile_for_stage (r_profile run) st of Inl e \<Rightarrow> raise e | Inr p \<Rightarrow> give p)"

definition engine_plan :: "surroundings \<Rightarrow> toolkit \<Rightarrow> run_row \<Rightarrow> research_plan eact" where
  "engine_plan E T run =
     bind (profile_act run StagePlan) (\<lambda>prof.
     bind (relabel (Wrapped ''load research remediation context'')
             (peek E (\<lambda>s c. Inr (latest_research_remediation s (r_id run))))) (\<lambda>rem.
     bind (relabel (Wrapped ''prepare general SU2 remediation readback'') (reusable_cases E T run rem)) (\<lambda>reuse.
     plan_attempts (maxPlanCapabilityRecoveryAttempts - 1) E T run prof rem reuse [])))"

subsection \<open>The screening matrix\<close>

text \<open>Every candidate at every operating point, in the order of the plan, after one authorization of all of them.\<close>

definition screening_cells ::
    "toolkit \<Rightarrow> run_row \<Rightarrow> attempt_row \<Rightarrow> screening_plan \<Rightarrow> string + (operating_point \<times> go_float \<times> string) list" where
  "screening_cells T run a x =
     try_each (\<lambda>(p, d). then_try (tk_cell T (r_id run) (a_id a) x p d) (\<lambda>args. Inr (p, d, args)))
       (concat (map (\<lambda>p. map (\<lambda>d. (p, d)) (xp_deflections x)) (effective_operating_points x)))"

fun run_cells ::
    "toolkit \<Rightarrow> run_row \<Rightarrow> attempt_row \<Rightarrow> screening_plan \<Rightarrow> (operating_point \<times> go_float \<times> string) list \<Rightarrow> unit eact" where
  "run_cells T run a x [] = give ()"
| "run_cells T run a x ((p, d, args) # cs) =
     bind (relabel (Wrapped ''execute planned XFOIL cell'') (tk_run_cell T (r_id run) (a_id a) x p d)) (\<lambda>receipt.
     if receipt = [] then raise (Failure ''planned XFOIL cell completed without a receipt'')
     else run_cells T run a x cs)"

definition execute_planned_xfoil_screening ::
    "surroundings \<Rightarrow> toolkit \<Rightarrow> run_row \<Rightarrow> attempt_row \<Rightarrow> screening_plan \<Rightarrow> unit eact" where
  "execute_planned_xfoil_screening E T run a x =
     (if \<not> tk_runner T then raise (Failure ''planned XFOIL screening requires the app-owned runner and authorizer'')
      else case validate_screening x of
        Some m \<Rightarrow> raise (Failure m)
      | None \<Rightarrow>
          bind (peek E (\<lambda>s c. told (tk_screened T s (r_id run) False))) (\<lambda>n.
          if n \<noteq> 0 then raise (Wrapped ''planned XFOIL screening already has job records'' UnsafeResume)
          else case screening_cells T run a x of
            Inl m \<Rightarrow> raise (Failure m)
          | Inr cells \<Rightarrow>
              bind (tk_authorize T run a (map (\<lambda>(p, d, args). args) cells)) (\<lambda>_.
              run_cells T run a x cells)))"

subsection \<open>The evidence of one collector\<close>

definition finish_collector_evidence ::
    "surroundings \<Rightarrow> toolkit \<Rightarrow> (evidence_bundle \<Rightarrow> check) \<Rightarrow> string \<Rightarrow> string \<Rightarrow> evidence_bundle \<Rightarrow> string + evidence_bundle" where
  "finish_collector_evidence E T verify rid expected b =
     (case canonicalize_evidence_claim_ids (u_sha E) rid b of
        Inl m \<Rightarrow> Inl (''canonicalize evidence claim ids: '' @ m)
      | Inr k \<Rightarrow>
          (case and_check (validate_evidence_bundle (dc_public (tk_decode T)) expected k)
             (and_check (validate_core_bundle (dc_public (tk_decode T)) expected k) (verify k)) of
             Some m \<Rightarrow> Inl m
           | None \<Rightarrow> Inr k))"

definition collector_evidence ::
    "surroundings \<Rightarrow> toolkit \<Rightarrow> db \<Rightarrow> cas_store \<Rightarrow> run_row \<Rightarrow> int \<Rightarrow> string \<Rightarrow> research_plan option \<Rightarrow> string \<Rightarrow> string + evidence_bundle" where
  "collector_evidence E T s c run ordinal expected p raw =
     then_try (tk_output T raw) (\<lambda>out.
     let pub = dc_public (tk_decode T); verify = tk_sources T s c (r_id run) ordinal in
     case p of
       Some q \<Rightarrow>
         if ordinal = EngineeringScreeningOwnerOrdinal \<and> rp_screening q \<noteq> None
         then then_try (screening_owner_public_evidence pub out expected) (\<lambda>b.
              case tk_rehydrate T s c (r_id run) q b of
                Inl m \<Rightarrow> Inl (''rehydrate planned XFOIL screening receipts: '' @ m)
              | Inr k \<Rightarrow> finish_collector_evidence E T verify (r_id run) expected k)
         else prepare_collector_evidence pub (u_sha E) (tk_receipt T s c (r_id run) ordinal) verify (r_id run) expected out
     | None \<Rightarrow> prepare_collector_evidence pub (u_sha E) (tk_receipt T s c (r_id run) ordinal) verify (r_id run) expected out)"

definition canonical_evidence_output :: "toolkit \<Rightarrow> evidence_bundle \<Rightarrow> string \<Rightarrow> string + string" where
  "canonical_evidence_output T b raw =
     (if eb_workstream b = [] then Inl ''canonical collector evidence is unavailable'' else tk_marshal_bundle T b)"

definition collect_candidate ::
    "surroundings \<Rightarrow> toolkit \<Rightarrow> db \<Rightarrow> cas_store \<Rightarrow> run_row \<Rightarrow> research_plan \<Rightarrow> nat \<Rightarrow> workstream \<Rightarrow> string \<Rightarrow> string + evidence_bundle" where
  "collect_candidate E T s c run p i ws raw =
     then_try (collector_evidence E T s c run (int i) (ws_id ws) (Some p) raw) (\<lambda>b.
     if int i \<noteq> EngineeringScreeningOwnerOrdinal then Inr b
     else case tk_coverage T s c (r_id run) p b of
       Some m \<Rightarrow> Inl (''verify planned XFOIL screening sweep: '' @ m)
     | None \<Rightarrow> (case tk_cases T s c (r_id run) p b of
         Some m \<Rightarrow> Inl (''verify planned SU2 case set: '' @ m)
       | None \<Rightarrow> Inr b))"

text \<open>What the owner of the screening does before its turn, and the results it may read back.\<close>

definition owner_reuse :: "surroundings \<Rightarrow> toolkit \<Rightarrow> run_row \<Rightarrow> research_plan \<Rightarrow> job_row list option eact" where
  "owner_reuse E T run p =
     bind (relabel (Wrapped ''load collector remediation context'')
             (peek E (\<lambda>s c. Inr (latest_research_remediation s (r_id run))))) (\<lambda>rem.
     bind (reusable_cases E T run rem) (\<lambda>reuse.
     case reuse of
       None \<Rightarrow> give None
     | Some (cases, js) \<Rightarrow>
         if rp_cases p \<noteq> Some cases
         then raise (Failure ''active general SU2 plan does not match the core-reconstructed remediation receipt set'')
         else give (Some js)))"

definition before_collect ::
    "surroundings \<Rightarrow> toolkit \<Rightarrow> run_row \<Rightarrow> research_plan \<Rightarrow> nat \<Rightarrow> job_row list option \<Rightarrow> (attempt_row \<Rightarrow> unit eact) option" where
  "before_collect E T run p i reuse =
     (if int i \<noteq> EngineeringScreeningOwnerOrdinal then None
      else case reuse of
        Some js \<Rightarrow> Some (\<lambda>a. on_db E (\<lambda>k. authorize_engineering_receipt_reuses (r_id run) (a_id a) js (u_clock E k)))
      | None \<Rightarrow> map_option (\<lambda>x a. execute_planned_xfoil_screening E T run a x) (rp_screening p))"

definition screening_role :: "nat \<Rightarrow> job_row list option \<Rightarrow> string" where
  "screening_role i reuse =
     (if int i \<noteq> EngineeringScreeningOwnerOrdinal then ''public_research_only''
      else if reuse \<noteq> None then ''receipt_readback_owner'' else ''owner'')"

definition collect_workstream :: "surroundings \<Rightarrow> toolkit \<Rightarrow> run_row \<Rightarrow> research_plan \<Rightarrow> nat \<Rightarrow> evidence_bundle eact" where
  "collect_workstream E T run p i =
     (if i \<ge> length (elems (rp_workstreams p)) then raise (Failure ''collector workstream index is outside plan'')
      else let ws = elems (rp_workstreams p) ! i in
        bind (profile_act run StageCollect) (\<lambda>prof.
        bind (if int i = EngineeringScreeningOwnerOrdinal then owner_reuse E T run p else give None) (\<lambda>reuse.
        run_stage E run StageCollect (int i) [] prof (tk_schema T StageCollect) (tk_prompt T StageCollect (r_id run))
          ''research.evidence''
          (tk_encode T (CollectInput (r_question run) p ws (elems (rp_sources p)) (screening_role i reuse)
             (case reuse of None \<Rightarrow> [] | Some js \<Rightarrow> js)))
          (before_collect E T run p i reuse)
          (\<lambda>out. peek E (\<lambda>s c. told (collect_candidate E T s c run p i ws out)))
          [canonical_evidence_output T])))"

subsection \<open>All collectors\<close>

text \<open>
  The missing workstreams in the order of the queue. Once a collector has failed the context of
  the workers is cancelled, so the rest is not started; the first failure that is not a
  cancellation or an interruption also aborts the run. What the collectors that run at the same
  time do to one another is in the surroundings of each.
\<close>

definition engine_abort :: "surroundings \<Rightarrow> engine_error option \<Rightarrow> run_row \<Rightarrow> engine_error \<Rightarrow> world \<Rightarrow> world \<times> run_row \<times> engine_error option" where
  "engine_abort E ctx run cause w =
     (let n = w_tick w; w1 = pass E w;
          (s, r, e) = abort (\<lambda>k. u_db E (n + Suc k)) ctx run cause (u_clock E n) (w_db w1)
      in (w1\<lparr>w_db := s, w_tick := n + 32\<rparr>, r, e))"

definition stopped :: "run_row \<Rightarrow> bool" where
  "stopped r \<longleftrightarrow> is_terminal (r_status r) \<or> r_status r = RunUncertain"

definition quiesce_collection :: "surroundings \<Rightarrow> run_row \<Rightarrow> engine_error \<Rightarrow> world \<Rightarrow> world \<times> engine_error" where
  "quiesce_collection E run e w =
     (let (w1, r, d) = engine_abort E None run e w
      in (w1, if stopped r then e
              else Joined e (Wrapped ''quiesce collection after first worker failure'' (case d of Some x \<Rightarrow> x | None \<Rightarrow> e))))"

fun collect_each ::
    "surroundings \<Rightarrow> toolkit \<Rightarrow> run_row \<Rightarrow> research_plan \<Rightarrow> bool \<Rightarrow> bool \<Rightarrow> nat list \<Rightarrow> world \<Rightarrow>
     world \<times> (nat \<times> (engine_error + evidence_bundle)) list" where
  "collect_each E T run p cancelled quiesced [] w = (w, [])"
| "collect_each E T run p cancelled quiesced (i # is) w =
     (if cancelled
      then (let (v, os) = collect_each E T run p cancelled quiesced is w in (v, (i, Inl ContextCanceled) # os))
      else case collect_workstream (tk_worker T i) T run p i w of
        (w1, Inr b) \<Rightarrow> (let (v, os) = collect_each E T run p False quiesced is w1 in (v, (i, Inr b) # os))
      | (w1, Inl e) \<Rightarrow>
          let (w2, d) = (if is_substantive_collect_failure e \<and> \<not> quiesced then quiesce_collection E run e w1 else (w1, e));
              (v, os) = collect_each E T run p True (quiesced \<or> is_substantive_collect_failure e) is w2
          in (v, (i, Inl d) # os))"

text \<open>The error of the lowest index, unless it is a cancellation and a later one is not.\<close>

fun first_error :: "engine_error option \<Rightarrow> (nat \<times> (engine_error + evidence_bundle)) list \<Rightarrow> engine_error option" where
  "first_error e [] = e"
| "first_error e ((i, Inr b) # os) = first_error e os"
| "first_error e ((i, Inl d) # os) =
     first_error (case e of None \<Rightarrow> Some d | Some x \<Rightarrow> if is_canceled x \<and> \<not> is_canceled d then Some d else Some x) os"

definition checkpointed :: "toolkit \<Rightarrow> (string \<times> evidence_bundle) list \<Rightarrow> workstream \<Rightarrow> check" where
  "checkpointed T existing ws =
     (case map_of existing (ws_id ws) of None \<Rightarrow> None
      | Some b \<Rightarrow> validate_evidence_bundle (dc_public (tk_decode T)) (ws_id ws) b)"

definition bundle_at ::
    "(string \<times> evidence_bundle) list \<Rightarrow> (nat \<times> (engine_error + evidence_bundle)) list \<Rightarrow> nat \<times> workstream \<Rightarrow> evidence_bundle option" where
  "bundle_at existing os iw =
     (case map_of existing (ws_id (snd iw)) of
        Some b \<Rightarrow> Some b
      | None \<Rightarrow> (case map_of os (fst iw) of Some (Inr b) \<Rightarrow> Some b | _ \<Rightarrow> None))"

definition engine_collect ::
    "surroundings \<Rightarrow> toolkit \<Rightarrow> run_row \<Rightarrow> research_plan \<Rightarrow> (string \<times> evidence_bundle) list \<Rightarrow> evidence_bundle list eact" where
  "engine_collect E T run p existing =
     (case and_check (validate_plan p) (check_each (checkpointed T existing) (elems (rp_workstreams p))) of
        Some m \<Rightarrow> raise (Failure m)
      | None \<Rightarrow> (\<lambda>w.
          let (v, os) = collect_each E T run p False False (missing_workstreams p existing) w
          in case first_error None os of
               Some e \<Rightarrow> fail v e
             | None \<Rightarrow> commit v (List.map_filter (bundle_at existing os) (enumerate 0 (elems (rp_workstreams p))))))"

subsection \<open>The independent verification of a screening\<close>

text \<open>The XFOIL jobs of the live attempts of a run: the succeeded screenings, all screenings and those without a purpose.\<close>

fun screening_scan :: "(string \<Rightarrow> string + string \<times> string) \<Rightarrow> job_row list \<Rightarrow> string + string list \<times> nat \<times> nat" where
  "screening_scan purpose [] = Inr ([], 0, 0)"
| "screening_scan purpose (j # js) =
     then_try (purpose (j_spec j)) (\<lambda>(use, source).
     if use \<notin> {''screening'', ''independent_verification'', []}
     then Inl ''XFOIL job has an unsupported execution purpose''
     else then_try (screening_scan purpose js) (\<lambda>(ids, n, legacy).
       Inr (if use = ''screening'' then (if j_status j = JobSucceeded then j_id j # ids else ids, n + 1, legacy)
            else if use = [] then (ids, n, legacy + 1) else (ids, n, legacy))))"

definition live_job :: "db \<Rightarrow> string \<Rightarrow> job_row \<Rightarrow> bool" where
  "live_job s rid j \<longleftrightarrow> j_run j = rid \<and>
     (\<exists>a \<in> set (attempts s). a_id a = j_attempt j \<and> a_run a = j_run j \<and> a_status a \<noteq> Superseded)"

definition xfoil_screening_job_ids :: "toolkit \<Rightarrow> db \<Rightarrow> string \<Rightarrow> string + string list \<times> nat" where
  "xfoil_screening_job_ids T s rid =
     then_try (screening_scan (tk_purpose T) (sort_key (\<lambda>j. (j_created j, j_id j))
        (filter (\<lambda>j. live_job s rid j \<and> j_operation j = ''xfoil_polar'') (jobs (eng s))))) (\<lambda>(ids, n, legacy).
     if n + legacy \<ge> 2 \<and> legacy \<noteq> 0
     then Inl ''multi-candidate XFOIL research requires every candidate to use execution_purpose=screening''
     else Inr (ids, n))"

definition verification_job :: "db \<Rightarrow> string \<Rightarrow> job_row \<Rightarrow> bool" where
  "verification_job s rid j \<longleftrightarrow> j_run j = rid \<and>
     (\<exists>a \<in> set (attempts s). a_id a = j_attempt j \<and> a_run a = j_run j \<and> a_stage a = StageCollect \<and>
        a_logical a = EngineeringVerificationOrdinal \<and> a_status a \<noteq> Superseded)"

definition check_verification_job :: "toolkit \<Rightarrow> string list \<Rightarrow> job_row \<Rightarrow> check" where
  "check_verification_job T allowed j =
     and_check (require (j_operation j = ''xfoil_polar'' \<and> j_status j = JobSucceeded \<and> j_receipt j \<noteq> [])
       ''verification attempt contains a non-XFOIL, failed, or receipt-less engineering job'')
     (case tk_purpose T (j_spec j) of
        Inl m \<Rightarrow> Some m
      | Inr (use, source) \<Rightarrow>
          and_check (require (use = ''independent_verification'') ''verification attempt contains a non-verification XFOIL job'')
            (require (source \<in> set allowed) ''verification job references an unapproved screening set''))"

definition validate_engineering_verification_bundle ::
    "toolkit \<Rightarrow> db \<Rightarrow> string \<Rightarrow> evidence_bundle \<Rightarrow> string list \<Rightarrow> check" where
  "validate_engineering_verification_bundle T s rid b allowed =
     (let js = filter (verification_job s rid) (jobs (eng s)) in
      and_check (require (eb_workstream b = verification_workstream) ''engineering verification bundle has the wrong workstream id'')
      (and_check (check_each (check_verification_job T allowed) js)
      (and_check (require (length js = 1) ''engineering verification requires exactly one engineering job'')
      (and_check (require (\<not> (\<exists>v \<in> set (evidence s). v_run v = rid \<and>
           (\<exists>a \<in> set (attempts s). a_id a = v_attempt v \<and> a_run a = v_run v \<and> a_stage a = StageCollect \<and>
              a_logical a = EngineeringVerificationOrdinal)))
         ''engineering verification attempt must not capture unrelated public evidence'')
      (require (\<exists>x \<in> set (elems (eb_sources b)). receipt_artifact_id x = Some (j_receipt (hd js)))
         ''engineering verification bundle does not cite its new execution receipt'')))))"

definition verification_candidate ::
    "surroundings \<Rightarrow> toolkit \<Rightarrow> db \<Rightarrow> cas_store \<Rightarrow> run_row \<Rightarrow> string list \<Rightarrow> string \<Rightarrow> string + evidence_bundle" where
  "verification_candidate E T s c run ids raw =
     then_try (collector_evidence E T s c run EngineeringVerificationOrdinal verification_workstream None raw) (\<lambda>b.
     then_try (checked (validate_engineering_verification_bundle T s (r_id run) b ids)) (\<lambda>_. Inr b))"

definition collect_engineering_verification ::
    "surroundings \<Rightarrow> toolkit \<Rightarrow> run_row \<Rightarrow> research_plan \<Rightarrow> evidence_bundle list \<Rightarrow> string list \<Rightarrow> evidence_bundle eact" where
  "collect_engineering_verification E T run p bs ids =
     bind (profile_act run StageCollect) (\<lambda>prof.
     run_stage E run StageCollect EngineeringVerificationOrdinal [] prof (tk_schema T StageCollect)
       (tk_prompt T StageCollect (r_id run)) ''research.evidence.verification''
       (tk_encode T (VerificationInput (r_question run) p bs ids)) None
       (\<lambda>out. peek E (\<lambda>s c. told (verification_candidate E T s c run ids out))) [canonical_evidence_output T])"

definition owner_checks :: "toolkit \<Rightarrow> db \<Rightarrow> cas_store \<Rightarrow> string \<Rightarrow> research_plan \<Rightarrow> evidence_bundle \<Rightarrow> check" where
  "owner_checks T s c rid p b =
     and_check (case tk_coverage T s c rid p b of None \<Rightarrow> None | Some m \<Rightarrow> Some (''revalidate planned XFOIL screening sweep: '' @ m))
       (case tk_cases T s c rid p b of None \<Rightarrow> None | Some m \<Rightarrow> Some (''revalidate planned SU2 case set: '' @ m))"

text \<open>A matrix of operating points has no single verification: its cells are covered one by one.\<close>

definition ensure_engineering_verification ::
    "surroundings \<Rightarrow> toolkit \<Rightarrow> run_row \<Rightarrow> research_plan \<Rightarrow> evidence_bundle list \<Rightarrow> (string \<times> evidence_bundle) list \<Rightarrow>
     evidence_bundle list eact" where
  "ensure_engineering_verification E T run p bs existing =
     (case bs of
        [] \<Rightarrow> raise (Failure ''engineering verification requires the owner collector evidence'')
      | owner # others \<Rightarrow>
          bind (peek E (\<lambda>s c. told (checked (owner_checks T s c (r_id run) p owner)))) (\<lambda>_.
          if (case rp_screening p of None \<Rightarrow> False | Some x \<Rightarrow> xp_points x \<noteq> []) then give bs
          else bind (peek E (\<lambda>s c. told (xfoil_screening_job_ids T s (r_id run)))) (\<lambda>(ids, n).
          if n < 2 then give bs
          else if length ids < 2
          then raise (Failure ''multi-candidate XFOIL sweep has fewer than two successful screening receipts'')
          else case map_of existing verification_workstream of
            Some b \<Rightarrow>
              bind (peek E (\<lambda>s c. told (checked (validate_engineering_verification_bundle T s (r_id run) b ids)))) (\<lambda>_. give (bs @ [b]))
          | None \<Rightarrow> bind (collect_engineering_verification E T run p bs ids) (\<lambda>b. give (bs @ [b])))))"

subsection \<open>The report\<close>

definition canonicalize_optional :: "typed_literal option \<Rightarrow> string + typed_literal option" where
  "canonicalize_optional l = (case l of None \<Rightarrow> Inr None | Some x \<Rightarrow> then_try (canonicalize_literal x) (\<lambda>y. Inr (Some y)))"

definition canonicalize_assertion :: "assertion \<Rightarrow> string + assertion" where
  "canonicalize_assertion a =
     then_try (canonicalize_optional (as_literal a)) (\<lambda>l.
     then_try (try_each (\<lambda>q. then_try (canonicalize_optional (q_literal q)) (\<lambda>y. Inr (q\<lparr>q_literal := y\<rparr>))) (elems (as_qualifiers a))) (\<lambda>qs.
     Inr (a\<lparr>as_literal := l, as_qualifiers := map_option (\<lambda>_. qs) (as_qualifiers a)\<rparr>)))"

definition canonicalize_unit_projections :: "knowledge_patch \<Rightarrow> string + knowledge_patch" where
  "canonicalize_unit_projections p =
     (if kp_units p \<noteq> UnitRegistryVersionV1 then Inl ''unsupported knowledge unit registry''
      else then_try (try_each canonicalize_assertion (elems (kp_assertions p))) (\<lambda>as.
        Inr (p\<lparr>kp_assertions := map_option (\<lambda>_. as) (kp_assertions p)\<rparr>)))"

text \<open>A later property of the same key replaces an earlier one in the map.\<close>

definition validate_property :: "ontology_contract \<Rightarrow> string \<Rightarrow> bool \<Rightarrow> check" where
  "validate_property k key entity =
     (case select_key ot_key (rev (oc_properties k)) key of
        None \<Rightarrow> Some ''unsupported ontology property''
      | Some t \<Rightarrow>
          and_check (require (entity \<longrightarrow> ot_kind t = ''object_property'' \<and> ot_value t = ''entity'')
            ''ontology property does not accept entity values'')
          (require (\<not> entity \<longrightarrow> ot_kind t = ''datatype_property'' \<and> ot_value t \<noteq> ''entity'')
            ''ontology property does not accept literal values''))"

definition validate_patch_ontology :: "knowledge_patch \<Rightarrow> ontology_contract \<Rightarrow> check" where
  "validate_patch_ontology p k =
     and_check (check_each (\<lambda>e. require (ke_type e \<in> ot_key ` set (oc_classes k)) ''entity references unsupported ontology class'')
       (elems (kp_entities p)))
     (check_each (\<lambda>a. and_check (validate_property k (as_predicate a) (as_entity a \<noteq> []))
        (check_each (\<lambda>q. validate_property k (q_predicate q) (q_entity q \<noteq> [])) (elems (as_qualifiers a))))
       (elems (kp_assertions p)))"

definition verify_report_artifacts :: "(string \<Rightarrow> string) \<Rightarrow> db \<Rightarrow> cas_store \<Rightarrow> string \<Rightarrow> report_manifest \<Rightarrow> check" where
  "verify_report_artifacts sha s c rid r =
     and_check (require (verify_run_artifact_hashes s rid (elems (rm_artifacts r))) ''artifact hash is not owned by run'')
     (check_each (\<lambda>h. and_check (require (h \<in> b_hash ` set (blobs s)) ''report artifact is not registered'')
        (case cas_read_verified sha None h c of Inl e \<Rightarrow> Some (''verify report artifact: '' @ cas_error_text e) | Inr d \<Rightarrow> None))
       (elems (rm_artifacts r)))"

text \<open>A revision keeps a citation of the same marker when it drops one of its arrays.\<close>

definition stable_citation :: "report_manifest \<Rightarrow> string \<Rightarrow> citation option" where
  "stable_citation previous marker =
     select_key ci_marker (rev (filter (\<lambda>c. ci_marker c \<noteq> [] \<and> ci_sources c \<noteq> [] \<and> ci_claims c \<noteq> [])
       (elems (rm_citations previous)))) marker"

definition repair_citation :: "report_manifest \<Rightarrow> citation \<Rightarrow> citation" where
  "repair_citation previous c =
     (case stable_citation previous (ci_marker c) of
        None \<Rightarrow> c
      | Some k \<Rightarrow> c\<lparr>ci_sources := (if ci_sources c = [] then ci_sources k else ci_sources c),
                   ci_claims := (if ci_claims c = [] then ci_claims k else ci_claims c)\<rparr>)"

definition repair_revised_report_structure :: "report_manifest \<Rightarrow> report_manifest \<Rightarrow> report_manifest" where
  "repair_revised_report_structure previous r =
     r\<lparr>rm_citations := map_option (map (repair_citation previous)) (rm_citations r),
       rm_evidence := (if elems (rm_evidence r) = [] \<and> elems (rm_evidence previous) \<noteq> []
                       then Some (elems (rm_evidence previous)) else rm_evidence r)\<rparr>"

text \<open>The candidate of a synthesis (without a previous report) or of a revision.\<close>

definition report_checks ::
    "surroundings \<Rightarrow> toolkit \<Rightarrow> db \<Rightarrow> cas_store \<Rightarrow> string \<Rightarrow> research_plan \<Rightarrow> evidence_bundle list \<Rightarrow> ontology_contract \<Rightarrow>
     report_manifest \<Rightarrow> check" where
  "report_checks E T s c rid p bs k r =
     and_check (validate_report_manifest (dc_instant (tk_decode T)) r)
     (and_check (validate_patch_ontology (rm_patch r) k)
     (and_check (report_validate (dc_instant (tk_decode T)) r bs)
     (and_check (verify_report_artifacts (u_sha E) s c rid r)
     (and_check (tk_package T s c rid p r) (tk_knowledge T s c rid r)))))"

definition report_candidate ::
    "surroundings \<Rightarrow> toolkit \<Rightarrow> db \<Rightarrow> cas_store \<Rightarrow> run_row \<Rightarrow> research_plan \<Rightarrow> evidence_bundle list \<Rightarrow> ontology_contract \<Rightarrow>
     report_manifest option \<Rightarrow> string \<Rightarrow> string + report_manifest" where
  "report_candidate E T s c run p bs k previous raw =
     then_try (dc_report (tk_decode T) raw) (\<lambda>decoded.
     let r = (case previous of None \<Rightarrow> decoded | Some q \<Rightarrow> repair_revised_report_structure q decoded) in
     then_try (canonicalize_unit_projections (rm_patch r)) (\<lambda>patch.
     then_try (tk_assemble T s c (r_id run) p (r\<lparr>rm_patch := patch\<rparr>)) (\<lambda>full.
     then_try (checked (report_checks E T s c (r_id run) p bs k full)) (\<lambda>_. Inr full))))"

definition canonical_report_output :: "toolkit \<Rightarrow> report_manifest \<Rightarrow> string \<Rightarrow> string + string" where
  "canonical_report_output T r raw =
     (if blank (rm_title r) then Inl ''canonical research report is unavailable'' else tk_marshal_report T r)"

definition list_run_engineering_results :: "db \<Rightarrow> string \<Rightarrow> job_row list" where
  "list_run_engineering_results s rid =
     sort_key (\<lambda>j. (j_created j, j_id j)) (filter (\<lambda>j. live_job s rid j \<and> j_status j = JobSucceeded) (jobs (eng s)))"

definition report_context ::
    "surroundings \<Rightarrow> toolkit \<Rightarrow> run_row \<Rightarrow> research_plan \<Rightarrow> evidence_bundle list \<Rightarrow>
     (job_row list \<times> engineering_assessment option \<times> ontology_contract \<times> string) eact" where
  "report_context E T run p bs =
     bind (relabel (Wrapped ''load engineering results'') (peek E (\<lambda>s c. Inr (list_run_engineering_results s (r_id run))))) (\<lambda>js.
     bind (relabel (Wrapped ''verify engineering acceptance'') (peek E (\<lambda>s c. told (tk_assessment T s c (r_id run) p)))) (\<lambda>ea.
     bind (relabel (Wrapped ''load ontology contract'') (peek E (\<lambda>s c. told (tk_ontology T s (r_id run))))) (\<lambda>k.
     case tk_report_schema T bs k of
       Inl m \<Rightarrow> raise (Wrapped ''build report schema'' (Failure m))
     | Inr schema \<Rightarrow> give (js, ea, k, schema))))"

definition synthesize :: "surroundings \<Rightarrow> toolkit \<Rightarrow> run_row \<Rightarrow> research_plan \<Rightarrow> evidence_bundle list \<Rightarrow> report_manifest eact" where
  "synthesize E T run p bs =
     (case validate_global_evidence_identity (dc_public (tk_decode T)) bs of
        Some m \<Rightarrow> raise (Wrapped ''validate synthesis evidence identity'' (Failure m))
      | None \<Rightarrow>
          bind (profile_act run StageSynthesize) (\<lambda>prof.
          bind (report_context E T run p bs) (\<lambda>(js, ea, k, schema).
          run_stage E run StageSynthesize 0 (r_thread run) prof schema (tk_prompt T StageSynthesize (r_id run))
            ''research.report'' (tk_encode T (SynthesizeInput (r_question run) p bs js k ea)) None
            (\<lambda>out. peek E (\<lambda>s c. told (report_candidate E T s c run p bs k None out))) [canonical_report_output T])))"

definition review_candidate :: "toolkit \<Rightarrow> report_manifest \<Rightarrow> string \<Rightarrow> string + verdict_document" where
  "review_candidate T r raw =
     then_try (dc_verdict (tk_decode T) raw) (\<lambda>v.
     then_try (checked (validate_review_verdict_for_report v r)) (\<lambda>_. Inr v))"

definition review ::
    "surroundings \<Rightarrow> toolkit \<Rightarrow> run_row \<Rightarrow> research_plan \<Rightarrow> evidence_bundle list \<Rightarrow> report_manifest \<Rightarrow> int \<Rightarrow> verdict_document eact" where
  "review E T run p bs r ordinal =
     bind (profile_act run StageReview) (\<lambda>prof.
     bind (relabel (Wrapped ''load engineering results'') (peek E (\<lambda>s c. Inr (list_run_engineering_results s (r_id run))))) (\<lambda>js.
     bind (peek E (\<lambda>s c. told (checked (tk_package T s c (r_id run) p r)))) (\<lambda>_.
     run_stage E run StageReview ordinal [] prof (tk_schema T StageReview) (tk_prompt T StageReview (r_id run))
       ''research.review'' (tk_encode T (ReviewInput (r_question run) p bs js r)) None
       (\<lambda>out. case review_candidate T r out of Inl m \<Rightarrow> raise (Failure m) | Inr v \<Rightarrow> give v) [])))"

definition revise ::
    "surroundings \<Rightarrow> toolkit \<Rightarrow> run_row \<Rightarrow> research_plan \<Rightarrow> evidence_bundle list \<Rightarrow> report_manifest \<Rightarrow> verdict_document \<Rightarrow> int \<Rightarrow>
     report_manifest eact" where
  "revise E T run p bs r v ordinal =
     bind (profile_act run StageRevise) (\<lambda>prof.
     bind (report_context E T run p bs) (\<lambda>(js, ea, k, schema).
     run_stage E run StageRevise ordinal (r_thread run) prof schema (tk_prompt T StageRevise (r_id run))
       ''research.report.revision'' (tk_encode T (ReviseInput (r_question run) p bs js r v k ea)) None
       (\<lambda>out. peek E (\<lambda>s c. told (report_candidate E T s c run p bs k (Some r) out))) [canonical_report_output T]))"

end
