(* ===== verification/Research_Engine.thy ===== *)
theory Research_Engine
  imports Research_Stages
begin

section \<open>The research engine\<close>

text \<open>
  \<^verbatim>\<open>src/internal/research/engine.go\<close>: \<open>Execute\<close>, which starts a queued run or continues an
  interrupted one from its checkpoint, the way from the plan over the collection to the report,
  and the loop of reviews and revisions with the remediation that starts the research over.
\<close>

subsection \<open>Writes of the run\<close>

text \<open>A step of the engine leaves the run it goes on with and its error, if any.\<close>

type_synonym run_step = "world \<Rightarrow> world \<times> run_row \<times> engine_error option"

definition engine_step :: "surroundings \<Rightarrow> run_row \<Rightarrow> (engine_error option \<Rightarrow> gotime \<Rightarrow> db \<Rightarrow> step_result) \<Rightarrow> run_step" where
  "engine_step E run op w =
     (let w1 = pass E w in
      case u_db_fault E (w_tick w) of
        Some e \<Rightarrow> (w1, run, Some e)
      | None \<Rightarrow>
          (let (s, r, e) = op (u_ctx E (w_tick w)) (u_clock E (w_tick w)) (w_db w1) in (w1\<lparr>w_db := s\<rparr>, r, e)))"

definition move_run :: "surroundings \<Rightarrow> run_row \<Rightarrow> run_status \<Rightarrow> run_step" where
  "move_run E run next = engine_step E run (\<lambda>ctx now. engine_transition ctx run next now)"

definition move_interrupted :: "surroundings \<Rightarrow> run_row \<Rightarrow> run_status \<Rightarrow> run_step" where
  "move_interrupted E run next w =
     (case move_run E run next w of
        (w1, r, None) \<Rightarrow> (w1, r, None)
      | (w1, r, Some e) \<Rightarrow>
          let ctx = u_ctx E (w_tick w1) in
          if is_canceled e \<or> (case ctx of None \<Rightarrow> False | Some c \<Rightarrow> is_canceled c)
          then engine_abort E ctx r e w1 else (w1, r, Some e))"

definition reviewing :: "surroundings \<Rightarrow> run_row \<Rightarrow> run_step" where
  "reviewing E run w =
     (if r_status run = RunReviewing then (w, run, None)
      else engine_step E run (\<lambda>ctx now. ensure_reviewing ctx run now) w)"

definition revising :: "surroundings \<Rightarrow> run_row \<Rightarrow> run_step" where
  "revising E run w =
     (if r_status run = RunRevising then (w, run, None)
      else engine_step E run (\<lambda>ctx now. ensure_revising ctx run now) w)"

definition move_cycle :: "surroundings \<Rightarrow> run_row \<Rightarrow> int \<Rightarrow> run_step" where
  "move_cycle E run n = engine_step E run (\<lambda>ctx now. engine_set_run_cycle ctx run n now)"

text \<open>The report document of a successful run is rendered, stored, read back and adopted.\<close>

definition store_document ::
    "surroundings \<Rightarrow> toolkit \<Rightarrow> run_row \<Rightarrow> report_manifest \<Rightarrow> review_verdict \<Rightarrow> cas_receipt eact" where
  "store_document E T cur rep v =
     bind (relabel (Wrapped ''load report project'') (peek E (\<lambda>s c. if r_project cur \<in> set (projects s) then Inr () else Inl (StoreFailure NoRows)))) (\<lambda>_.
     bind (\<lambda>w. case tk_render T cur rep v (u_clock E (w_tick w)) of
             Inl m \<Rightarrow> fail (pass E w) (Wrapped ''render report document'' (Failure m))
           | Inr d \<Rightarrow> commit (pass E w) d) (\<lambda>d.
     bind (relabel (Wrapped ''write report document to CAS'') (put_bytes E d)) (\<lambda>k.
     bind (relabel (Wrapped ''verify report document CAS object'') (read_bytes E (k_hash k))) (\<lambda>back.
     if back \<noteq> d \<or> int (length d) \<noteq> k_size k then raise (Failure ''report document CAS readback mismatch'') else give k))))"

definition engine_succeed :: "surroundings \<Rightarrow> toolkit \<Rightarrow> run_row \<Rightarrow> report_manifest \<Rightarrow> review_verdict \<Rightarrow> run_step" where
  "engine_succeed E T run rep v w =
     (case bind (relabel (Pair run) (look E)) (\<lambda>_.
           bind (relabel (Pair run) (peek E (\<lambda>s c. reload_run_for_write run s))) (\<lambda>cur.
           relabel (Pair cur)
             (bind (store_document E T cur rep v) (\<lambda>k.
              bind (look E) (\<lambda>_.
              on_db E (\<lambda>n. succeed_run_with_report_document (r_id cur) (r_revision cur)
                \<lparr>o_artifact = u_fresh E n, o_hash = k_hash k, o_size = k_size k\<rparr> (u_clock E n))))))) w of
        (w1, Inl (r, e)) \<Rightarrow> (w1, r, Some e)
      | (w1, Inr r) \<Rightarrow> (w1, r, None))"

subsection \<open>The progress of an execution\<close>

record review_state =
  rs_run :: run_row
  rs_plan :: research_plan
  rs_evidence :: "evidence_bundle list"
  rs_report :: report_manifest
  rs_cycle :: int
  rs_reviews :: "(int \<times> verdict_document) list"
  rs_revisions :: "(int \<times> report_manifest) list"

text \<open>An execution has returned, or it is at the head of the loop of \<open>runReviewCycles\<close>.\<close>

datatype progress = Finished run_row "engine_error option" | Reviewing review_state

definition aborted :: "surroundings \<Rightarrow> run_row \<Rightarrow> engine_error \<Rightarrow> world \<Rightarrow> world \<times> progress" where
  "aborted E run e w = (let (w1, r, d) = engine_abort E (u_ctx E (w_tick w)) run e w in (w1, Finished r d))"

definition settle :: "surroundings \<Rightarrow> run_row \<Rightarrow> 'a eact \<Rightarrow> ('a \<Rightarrow> world \<Rightarrow> world \<times> progress) \<Rightarrow> world \<Rightarrow> world \<times> progress" where
  "settle E run m f w = (case m w of (w1, Inl e) \<Rightarrow> aborted E run e w1 | (w1, Inr x) \<Rightarrow> f x w1)"

definition settle_run :: "surroundings \<Rightarrow> run_step \<Rightarrow> (run_row \<Rightarrow> world \<Rightarrow> world \<times> progress) \<Rightarrow> world \<Rightarrow> world \<times> progress" where
  "settle_run E m f w = (case m w of (w1, r, Some e) \<Rightarrow> aborted E r e w1 | (w1, r, None) \<Rightarrow> f r w1)"

text \<open>The same where the code aborts with the run it had before the step.\<close>

definition settle_kept :: "surroundings \<Rightarrow> run_row \<Rightarrow> run_step \<Rightarrow> (run_row \<Rightarrow> world \<Rightarrow> world \<times> progress) \<Rightarrow> world \<Rightarrow> world \<times> progress" where
  "settle_kept E run m f w = (case m w of (w1, r, Some e) \<Rightarrow> aborted E run e w1 | (w1, r, None) \<Rightarrow> f r w1)"

text \<open>The same where the code returns its error without recording it.\<close>

definition attempt_to :: "run_row \<Rightarrow> 'a eact \<Rightarrow> ('a \<Rightarrow> world \<Rightarrow> world \<times> progress) \<Rightarrow> world \<Rightarrow> world \<times> progress" where
  "attempt_to run m f w = (case m w of (w1, Inl e) \<Rightarrow> (w1, Finished run (Some e)) | (w1, Inr x) \<Rightarrow> f x w1)"

definition attempt_run :: "run_step \<Rightarrow> (run_row \<Rightarrow> world \<Rightarrow> world \<times> progress) \<Rightarrow> world \<Rightarrow> world \<times> progress" where
  "attempt_run m f w = (case m w of (w1, r, Some e) \<Rightarrow> (w1, Finished r (Some e)) | (w1, r, None) \<Rightarrow> f r w1)"

definition completed :: "run_row \<Rightarrow> world \<Rightarrow> world \<times> progress" where
  "completed r w = (w, Finished r None)"

subsection \<open>From the plan to the review\<close>

fun check_review_bundles ::
    "toolkit \<Rightarrow> db \<Rightarrow> cas_store \<Rightarrow> string \<Rightarrow> (string \<times> int) list \<Rightarrow> string list \<Rightarrow> evidence_bundle list \<Rightarrow> check" where
  "check_review_bundles T s c rid ordinals seen [] = None"
| "check_review_bundles T s c rid ordinals seen (b # bs) =
     (case map_of ordinals (eb_workstream b) of
        None \<Rightarrow> Some ''review evidence references unknown workstream''
      | Some n \<Rightarrow>
          and_check (require (eb_workstream b \<notin> set seen) ''review evidence duplicates workstream'')
          (and_check (validate_evidence_bundle (dc_public (tk_decode T)) (eb_workstream b) b)
          (and_check (tk_sources T s c rid n b)
          (check_review_bundles T s c rid ordinals (eb_workstream b # seen) bs))))"

text \<open>The owner bundle is the one of the first workstream; the ordinals give the reserved name its own.\<close>

definition verify_review_evidence_integrity ::
    "toolkit \<Rightarrow> db \<Rightarrow> cas_store \<Rightarrow> string \<Rightarrow> research_plan \<Rightarrow> evidence_bundle list \<Rightarrow> check" where
  "verify_review_evidence_integrity T s c rid p bs =
     (let ws = elems (rp_workstreams p);
          ordinals = (verification_workstream, EngineeringVerificationOrdinal) # workstream_ordinals p in
      and_check (require (distinct (map ws_id ws)) ''duplicate planned evidence workstream'')
      (and_check (check_review_bundles T s c rid ordinals [] bs)
      (and_check (require (\<forall>w \<in> set ws. ws_id w \<in> eb_workstream ` set bs) ''review evidence omits planned workstream'')
      (case (case ws of [] \<Rightarrow> None | w # others \<Rightarrow> select_key eb_workstream bs (ws_id w)) of
         None \<Rightarrow> Some ''review evidence omits the deterministic screening owner workstream''
       | Some owner \<Rightarrow> (case tk_coverage T s c rid p owner of
           None \<Rightarrow> None | Some m \<Rightarrow> Some (''review planned XFOIL screening sweep: '' @ m))))))"

definition verify_patch_ontology :: "toolkit \<Rightarrow> db \<Rightarrow> string \<Rightarrow> knowledge_patch \<Rightarrow> check" where
  "verify_patch_ontology T s rid p = (case tk_ontology T s rid of Inl m \<Rightarrow> Some m | Inr k \<Rightarrow> validate_patch_ontology p k)"

text \<open>\<open>runReviewCycles\<close> before its loop.\<close>

definition start_review_cycles :: "surroundings \<Rightarrow> toolkit \<Rightarrow> review_state \<Rightarrow> world \<Rightarrow> world \<times> progress" where
  "start_review_cycles E T st =
     (let run = rs_run st; cycle = rs_cycle st in
      if cycle < 0 \<or> cycle > MaxRevisions then aborted E run (Failure ''review cycle outside allowed range'')
      else if cycle > 0 \<and> r_cycle run < cycle
      then aborted E run (Failure ''run revision cycle does not cover review checkpoint'')
      else settle E run (relabel (Wrapped ''verify review evidence integrity'')
             (peek E (\<lambda>s c. told (checked (verify_review_evidence_integrity T s c (r_id run) (rs_plan st) (rs_evidence st)))))) (\<lambda>_.
           settle E run (relabel (Wrapped ''verify report ontology contract'')
             (peek E (\<lambda>s c. told (checked (verify_patch_ontology T s (r_id run) (rm_patch (rs_report st))))))) (\<lambda>_ w.
           (w, Reviewing st))))"

definition continue_collection ::
    "surroundings \<Rightarrow> toolkit \<Rightarrow> run_row \<Rightarrow> research_plan \<Rightarrow> (string \<times> evidence_bundle) list \<Rightarrow> world \<Rightarrow> world \<times> progress" where
  "continue_collection E T run p existing =
     settle E run (engine_collect E T run p existing) (\<lambda>bs.
     settle E run (ensure_engineering_verification E T run p bs existing) (\<lambda>ev.
     case validate_global_evidence_identity (dc_public (tk_decode T)) ev of
       Some m \<Rightarrow> aborted E run (Wrapped ''validate collected evidence identity'' (Failure m))
     | None \<Rightarrow>
         settle_run E (move_run E run RunSynthesizing) (\<lambda>r1.
         settle E r1 (synthesize E T r1 p ev) (\<lambda>rep.
         settle_run E (move_run E r1 RunReviewing) (\<lambda>r2.
         start_review_cycles E T \<lparr>rs_run = r2, rs_plan = p, rs_evidence = ev, rs_report = rep, rs_cycle = 0,
           rs_reviews = [], rs_revisions = []\<rparr>)))))"

definition continue_after_plan ::
    "surroundings \<Rightarrow> toolkit \<Rightarrow> run_row \<Rightarrow> research_plan \<Rightarrow> (string \<times> evidence_bundle) list \<Rightarrow> world \<Rightarrow> world \<times> progress" where
  "continue_after_plan E T run p existing =
     (if r_status run = RunCollecting then continue_collection E T run p existing
      else settle_run E (move_run E run RunCollecting) (\<lambda>r. continue_collection E T r p existing))"

subsection \<open>One round of the review loop\<close>

definition quality_failed :: "surroundings \<Rightarrow> run_row \<Rightarrow> world \<Rightarrow> world \<times> progress" where
  "quality_failed E run = settle_kept E run (move_run E run RunQualityFailed) completed"

definition remediate :: "surroundings \<Rightarrow> toolkit \<Rightarrow> review_state \<Rightarrow> review_verdict \<Rightarrow> world \<Rightarrow> world \<times> progress" where
  "remediate E T st v =
     settle_run E (reviewing E (rs_run st)) (\<lambda>run w.
     case on_db E (\<lambda>k. prepare_research_remediation (r_id run) (r_revision run) (rs_cycle st) v (u_clock E k)) w of
       (w1, Inl e) \<Rightarrow>
         if error_is (\<lambda>x. x = StoreFailure ErrResearchRemediationLimit) e
         then (case move_run E run RunQualityFailed w1 of
             (w2, r, None) \<Rightarrow> (w2, Finished r None)
           | (w2, r, Some d) \<Rightarrow> aborted E run (Joined e d) w2)
         else aborted E run (Wrapped ''prepare research remediation'' e) w1
     | (w1, Inr (next, m)) \<Rightarrow>
         settle E next (relabel (Wrapped ''replan after review'') (engine_plan E T next)) (\<lambda>p.
         continue_after_plan E T next p []) w1)"

definition revise_next :: "surroundings \<Rightarrow> toolkit \<Rightarrow> review_state \<Rightarrow> verdict_document \<Rightarrow> world \<Rightarrow> world \<times> progress" where
  "revise_next E T st v =
     (let next = rs_cycle st + 1;
          go_on = (\<lambda>run rep known. settle_run E (reviewing E run) (\<lambda>r w.
            (w, Reviewing (st\<lparr>rs_run := r, rs_report := rep, rs_cycle := next, rs_revisions := known\<rparr>))))
      in case map_of (rs_revisions st) next of
        Some rep \<Rightarrow>
          if r_cycle (rs_run st) \<noteq> next
          then aborted E (rs_run st) (Failure ''revision checkpoint does not match run revision cycle'')
          else go_on (rs_run st) rep (rs_revisions st)
      | None \<Rightarrow>
          settle_run E (revising E (rs_run st)) (\<lambda>run.
          if r_cycle run > next then aborted E run (Failure ''run revision cycle exceeds next revision'')
          else settle_run E (if r_cycle run < next then move_cycle E run next else (\<lambda>w. (w, run, None))) (\<lambda>run.
          settle E run (revise E T run (rs_plan st) (rs_evidence st) (rs_report st) v next) (\<lambda>rep.
          go_on run rep ((next, rep) # rs_revisions st)))))"

definition after_verdict :: "surroundings \<Rightarrow> toolkit \<Rightarrow> review_state \<Rightarrow> verdict_document \<Rightarrow> world \<Rightarrow> world \<times> progress" where
  "after_verdict E T st v =
     (case report_passes (vd_verdict v) (rs_report st) of
        Inl m \<Rightarrow> aborted E (rs_run st) (Failure m)
      | Inr True \<Rightarrow>
          settle_run E (reviewing E (rs_run st)) (\<lambda>run.
          settle_kept E run (engine_succeed E T run (rs_report st) (vd_verdict v)) completed)
      | Inr False \<Rightarrow>
          if restarts_research (effective_remediation_action (vd_verdict v)) then remediate E T st (vd_verdict v)
          else if rs_cycle st = MaxRevisions
          then settle_run E (reviewing E (rs_run st)) (quality_failed E)
          else revise_next E T st v)"

definition report_still_valid :: "surroundings \<Rightarrow> toolkit \<Rightarrow> db \<Rightarrow> cas_store \<Rightarrow> review_state \<Rightarrow> check" where
  "report_still_valid E T s c st =
     and_check (report_validate (dc_instant (tk_decode T)) (rs_report st) (rs_evidence st))
     (and_check (verify_report_artifacts (u_sha E) s c (r_id (rs_run st)) (rs_report st))
       (tk_knowledge T s c (r_id (rs_run st)) (rs_report st)))"

definition review_step :: "surroundings \<Rightarrow> toolkit \<Rightarrow> review_state \<Rightarrow> world \<Rightarrow> world \<times> progress" where
  "review_step E T st =
     (case map_of (rs_reviews st) (rs_cycle st) of
        Some v \<Rightarrow> after_verdict E T st v
      | None \<Rightarrow>
          settle E (rs_run st) (peek E (\<lambda>s c. told (checked (report_still_valid E T s c st)))) (\<lambda>_.
          settle_run E (reviewing E (rs_run st)) (\<lambda>run.
          settle E run (review E T run (rs_plan st) (rs_evidence st) (rs_report st) (rs_cycle st)) (\<lambda>v.
          after_verdict E T (st\<lparr>rs_run := run, rs_reviews := (rs_cycle st, v) # rs_reviews st\<rparr>) v))))"

text \<open>The loop; \<^const>\<open>None\<close> is a loop that never ends.\<close>

partial_function (option) review_cycles ::
    "surroundings \<Rightarrow> toolkit \<Rightarrow> review_state \<Rightarrow> world \<Rightarrow> (world \<times> run_row \<times> engine_error option) option" where
  "review_cycles E T st w =
     (case review_step E T st w of
        (w1, Finished r e) \<Rightarrow> Some (w1, r, e)
      | (w1, Reviewing st1) \<Rightarrow> review_cycles E T st1 w1)"

declare review_cycles.simps [code]

subsection \<open>Executing a queued run\<close>

definition require_main_thread :: "db \<Rightarrow> run_row \<Rightarrow> engine_error + unit" where
  "require_main_thread s run =
     (case select_key s_id (filter (\<lambda>x. \<not> s_deleted x) (sessions s)) (r_session run) of
        None \<Rightarrow> Inl (StoreFailure NoRows)
      | Some x \<Rightarrow>
          if s_project x \<noteq> r_project run then Inl MainThreadMismatch
          else if blank (s_thread x) \<or> blank (r_thread run) then Inl MainThreadMissing
          else if s_thread x \<noteq> r_thread run then Inl MainThreadMismatch
          else Inr ())"

definition profile_check :: "run_row \<Rightarrow> unit eact" where
  "profile_check run = (case validate_research_profile_version (r_profile run) of None \<Rightarrow> give () | Some e \<Rightarrow> raise e)"

definition plan_and_continue :: "surroundings \<Rightarrow> toolkit \<Rightarrow> run_row \<Rightarrow> world \<Rightarrow> world \<times> progress" where
  "plan_and_continue E T run = settle E run (engine_plan E T run) (\<lambda>p. continue_after_plan E T run p [])"

definition execute_queued :: "surroundings \<Rightarrow> toolkit \<Rightarrow> run_row \<Rightarrow> world \<Rightarrow> world \<times> progress" where
  "execute_queued E T run =
     settle E run (look E) (\<lambda>_ w.
     case move_run E run RunPlanning w of
       (w1, r, Some e) \<Rightarrow>
         if is_canceled e \<or> (case u_ctx E (w_tick w1) of None \<Rightarrow> False | Some c \<Rightarrow> is_canceled c)
         then aborted E r e w1 else (w1, Finished r (Some e))
     | (w1, r, None) \<Rightarrow>
         settle E r (profile_check r) (\<lambda>_.
         settle E r (peek E (\<lambda>s c. require_main_thread s r)) (\<lambda>_.
         plan_and_continue E T r)) w1)"

subsection \<open>Resuming an interrupted run\<close>

definition readback_of :: "toolkit \<Rightarrow> db \<Rightarrow> cas_store \<Rightarrow> (string \<Rightarrow> string) \<Rightarrow> run_row \<Rightarrow> readback" where
  "readback_of T s c sha run =
     \<lparr>rb_sources = tk_sources T s c (r_id run),
      rb_verification = (\<lambda>b. case xfoil_screening_job_ids T s (r_id run) of
         Inl m \<Rightarrow> Some (''load screening jobs: '' @ m)
       | Inr (ids, n) \<Rightarrow>
           and_check (require (n \<ge> 2 \<and> length ids \<ge> 2) ''engineering verification has an incomplete screening set'')
             (validate_engineering_verification_bundle T s (r_id run) b ids)),
      rb_coverage = tk_coverage T s c (r_id run),
      rb_artifacts = verify_report_artifacts sha s c (r_id run),
      rb_knowledge = tk_knowledge T s c (r_id run)\<rparr>"

definition run_checkpoint :: "surroundings \<Rightarrow> toolkit \<Rightarrow> run_row \<Rightarrow> checkpoint eact" where
  "run_checkpoint E T run =
     peek E (\<lambda>s c. load_checkpoint (tk_decode T) (readback_of T s c (u_sha E) run) (u_sha E) s c run)"

definition unsafe :: "string \<Rightarrow> engine_error" where
  "unsafe m = Wrapped m UnsafeResume"

definition to_unsafe :: "string + 'a \<Rightarrow> engine_error + 'a" where
  "to_unsafe r = (case r of Inl m \<Rightarrow> Inl (unsafe m) | Inr x \<Rightarrow> Inr x)"

definition act_of :: "engine_error + 'a \<Rightarrow> 'a eact" where
  "act_of r = (case r of Inl e \<Rightarrow> raise e | Inr x \<Rightarrow> give x)"

definition resume_at ::
    "surroundings \<Rightarrow> toolkit \<Rightarrow> run_row \<Rightarrow> research_plan \<Rightarrow> evidence_bundle list \<Rightarrow> checkpoint \<Rightarrow> resume_point \<Rightarrow> world \<Rightarrow> world \<times> progress" where
  "resume_at E T run p bs k point =
     (let loop = (\<lambda>r rep n reviews revisions. start_review_cycles E T
            \<lparr>rs_run = r, rs_plan = p, rs_evidence = bs, rs_report = rep, rs_cycle = n, rs_reviews = reviews, rs_revisions = revisions\<rparr>)
      in case point of
        ResumeSynthesize \<Rightarrow>
          attempt_run (move_interrupted E run RunSynthesizing) (\<lambda>r1.
          settle E r1 (synthesize E T r1 p bs) (\<lambda>rep.
          settle_run E (move_interrupted E r1 RunReviewing) (\<lambda>r2. loop r2 rep 0 [] [])))
      | ResumeReview rep n \<Rightarrow>
          attempt_run (move_run E run RunReviewing) (\<lambda>r. loop r rep n (kc_reviews k) (kc_reports k))
      | ResumeRevise rep n \<Rightarrow>
          attempt_run (move_interrupted E run RunRevising) (\<lambda>r. loop r rep n (kc_reviews k) (kc_reports k))
      | ResumeSucceed rep n \<Rightarrow>
          attempt_run (move_interrupted E run RunReviewing) (\<lambda>r.
          case map_of (kc_reviews k) n of
            None \<Rightarrow> aborted E r (Failure ''review checkpoint is absent'')
          | Some v \<Rightarrow> settle_kept E r (engine_succeed E T r rep (vd_verdict v)) completed)
      | ResumeQualityFailed rep n \<Rightarrow>
          attempt_run (move_interrupted E run RunReviewing) (quality_failed E))"

definition resume_after_collection ::
    "surroundings \<Rightarrow> toolkit \<Rightarrow> run_row \<Rightarrow> research_plan \<Rightarrow> checkpoint \<Rightarrow> world \<Rightarrow> world \<times> progress" where
  "resume_after_collection E T run p k =
     attempt_to run (act_of (to_unsafe (resume_point_of k))) (\<lambda>point.
     attempt_to run (act_of (to_unsafe (checked (validate_resume_cycle run point)))) (\<lambda>_.
     attempt_to run (act_of (to_unsafe (ordered_evidence (tk_decode T) p (kc_evidence k)))) (\<lambda>bs.
     resume_at E T run p bs k point)))"

definition no_review :: "checkpoint \<Rightarrow> bool" where
  "no_review k \<longleftrightarrow> kc_reports k = [] \<and> kc_reviews k = []"

definition resume_collection ::
    "surroundings \<Rightarrow> toolkit \<Rightarrow> run_row \<Rightarrow> research_plan \<Rightarrow> checkpoint \<Rightarrow> string \<Rightarrow> world \<Rightarrow> world \<times> progress" where
  "resume_collection E T run p k msg =
     (if \<not> no_review k then attempt_to run (raise (unsafe msg)) (\<lambda>_ :: unit. completed run)
      else attempt_run (move_interrupted E run RunCollecting) (\<lambda>r. continue_collection E T r p (kc_evidence k)))"

definition resume_interrupted :: "surroundings \<Rightarrow> toolkit \<Rightarrow> run_row \<Rightarrow> world \<Rightarrow> world \<times> progress" where
  "resume_interrupted E T run =
     settle E run (look E) (\<lambda>_.
     attempt_to run (profile_check run) (\<lambda>_.
     attempt_to run (peek E (\<lambda>s c. require_main_thread s run)) (\<lambda>_.
     attempt_to run (run_checkpoint E T run) (\<lambda>k.
     case kc_plan k of
       None \<Rightarrow>
         if kc_attempts k then attempt_to run (raise (unsafe ''stages exist without a plan checkpoint'')) (\<lambda>_ :: unit. completed run)
         else attempt_run (move_interrupted E run RunPlanning) (plan_and_continue E T)
     | Some p \<Rightarrow>
         if missing_workstreams p (kc_evidence k) \<noteq> []
         then resume_collection E T run p k ''later checkpoints exist while collectors are missing''
         else attempt_to run (peek E (\<lambda>s c. told (xfoil_screening_job_ids T s (r_id run)))) (\<lambda>(ids, n).
           if n \<ge> 2 \<and> length ids < 2
           then attempt_to run (raise (unsafe ''multi-candidate XFOIL sweep has fewer than two successful screening receipts'')) (\<lambda>_ :: unit. completed run)
           else if n \<ge> 2 \<and> map_of (kc_evidence k) verification_workstream = None
           then resume_collection E T run p k ''later checkpoints exist without engineering verification''
           else resume_after_collection E T run p k)))))"

subsection \<open>Execute\<close>

text \<open>
  \<open>build\<close> is the build of the running product and \<open>snapshot\<close> the verification of the knowledge
  generation the run is pinned to. Marking a corrupt knowledge head is left to the surroundings.
\<close>

definition execute_step ::
    "surroundings \<Rightarrow> toolkit \<Rightarrow> build_binding \<Rightarrow> (db \<Rightarrow> cas_store \<Rightarrow> run_row \<Rightarrow> check) \<Rightarrow> run_row \<Rightarrow> world \<Rightarrow> world \<times> progress" where
  "execute_step E T build snapshot run =
     (let begins = (\<lambda>f. if r_build run \<noteq> build
            then attempt_to run (raise (unsafe ''run belongs to a different product build'')) (\<lambda>_ :: unit. completed run)
            else settle E run (relabel (Wrapped ''verify run-pinned knowledge generation'')
              (peek E (\<lambda>s c. told (checked (snapshot s c run))))) (\<lambda>_. f E T run))
      in case r_status run of
        RunQueued \<Rightarrow> begins execute_queued
      | RunInterrupted \<Rightarrow> begins resume_interrupted
      | RunUncertain \<Rightarrow> attempt_to run (raise UncertainResume) (\<lambda>_ :: unit. completed run)
      | _ \<Rightarrow> attempt_to run (raise NotRunnable) (\<lambda>_ :: unit. completed run))"

definition execute ::
    "surroundings \<Rightarrow> toolkit \<Rightarrow> build_binding \<Rightarrow> (db \<Rightarrow> cas_store \<Rightarrow> run_row \<Rightarrow> check) \<Rightarrow> string \<Rightarrow> world \<Rightarrow>
     (world \<times> run_row option \<times> engine_error option) option" where
  "execute E T build snapshot rid w =
     (if blank rid then Some (w, None, Some (Failure ''research run id is required''))
      else case peek E (\<lambda>s c. case find_run s rid of None \<Rightarrow> Inl (StoreFailure NoRows) | Some r \<Rightarrow> Inr r) w of
        (w1, Inl e) \<Rightarrow> Some (w1, None, Some e)
      | (w1, Inr run) \<Rightarrow>
          (case execute_step E T build snapshot run w1 of
             (w2, Finished r e) \<Rightarrow> Some (w2, Some r, e)
           | (w2, Reviewing st) \<Rightarrow> map_option (\<lambda>(w3, r, e). (w3, Some r, e)) (review_cycles E T st w2)))"

end
