(* ===== verification/Engine_Log.thy ===== *)
theory Engine_Log
  imports Research_Engine Stage_Log
begin

section \<open>An execution as a history\<close>

text \<open>
  Every operation of the engine is a history of the store that only adds objects to the
  content-addressed store, and it goes on with the run it was given.
\<close>

subsection \<open>Reads, aborts and writes of the run\<close>

lemma extends_peek: "orderly E \<Longrightarrow> extends (peek E f)"
  using pass_history [of E] by (auto simp: extends_def peek_def split: option.split sum.split)

lemma orderly_db: "orderly E \<Longrightarrow> store_step\<^sup>*\<^sup>* s (u_db E k s)"
  by (simp add: orderly_def)

lemma store_step_transition: "store_step\<^sup>*\<^sup>* s (fst (transition_run rid ex nx msg now s))"
  by (rule one_store_step [OF store_step.transition])

lemma transition_then: "transition_run rid ex nx msg now s = (t, r) \<Longrightarrow> store_step\<^sup>*\<^sup>* s t"
  using store_step_transition [of s rid ex nx msg now] by simp

lemma abort_loop_history:
  assumes others: "\<And>k s. store_step\<^sup>*\<^sup>* s (others k s)"
  shows "store_step\<^sup>*\<^sup>* s (fst (abort_loop others k n next cause cur now s))"
proof (induction n arbitrary: k cur s)
  case (Suc n)
  let ?s2 = "others (k + 1) (others k s)"
  have h: "store_step\<^sup>*\<^sup>* s ?s2" using others rtranclp_trans by metis
  show ?case
  proof (cases "is_terminal (r_status cur) \<or> r_status cur = RunUncertain \<or> r_status cur = next")
    case False
    let ?nx = "if affected (open_side_effect (r_id cur)) (attempts (others k s)) > 0 then RunUncertain else next"
    obtain s3 r where t: "transition_run (r_id cur) (r_revision cur) ?nx (error_text cause) now ?s2 = (s3, r)" by fastforce
    have h3: "store_step\<^sup>*\<^sup>* s s3" using h transition_then [OF t] by (rule rtranclp_trans)
    then have h4: "store_step\<^sup>*\<^sup>* s (others (k + 2) s3)" using others by (rule rtranclp_trans)
    have "store_step\<^sup>*\<^sup>* s (fst (abort_loop others (k + 3) n next cause latest now (others (k + 2) s3)))" for latest
      using h4 Suc.IH by (rule rtranclp_trans)
    then show ?thesis
      using False t h3 h4 by (simp add: Let_def split: option.split sum.split)
  qed simp
qed simp

lemma abort_history:
  assumes others: "\<And>k s. store_step\<^sup>*\<^sup>* s (others k s)"
  shows "store_step\<^sup>*\<^sup>* s (fst (abort others ctx run cause now s))"
proof -
  have "store_step\<^sup>*\<^sup>* s (fst (abort_loop others 1 8 next cause cur now (others 0 s)))" for "next" cur
    using others [of s 0] abort_loop_history [OF others] by (rule rtranclp_trans)
  then show ?thesis using others by (auto simp: abort_def Let_def split: option.split)
qed

lemma world_db:
  fixes w :: world
  shows "store_step\<^sup>*\<^sup>* (w_db w) s \<Longrightarrow> world_history w (w\<lparr>w_db := s, w_tick := n\<rparr>)"
  by (simp add: world_history_def keeps_objects_def)

lemma world_db':
  fixes w :: world
  shows "store_step\<^sup>*\<^sup>* (w_db w) s \<Longrightarrow> world_history w (w\<lparr>w_db := s\<rparr>)"
  by (simp add: world_history_def keeps_objects_def)

lemma extends_abort: "orderly E \<Longrightarrow> extends (engine_abort E ctx run e)"
  unfolding extends_def
proof
  fix w :: world assume E: "orderly E"
  let ?others = "\<lambda>k. u_db E (w_tick w + Suc k)"
  obtain s r d where a: "abort ?others ctx run e (u_clock E (w_tick w)) (w_db (pass E w)) = (s, r, d)" by (metis prod_cases3)
  have "store_step\<^sup>*\<^sup>* (w_db (pass E w)) s"
    using abort_history [of ?others, OF orderly_db [OF E]] a by (metis fst_conv)
  then show "world_history w (fst (engine_abort E ctx run e w))"
    using world_history_trans [OF pass_history [OF E] world_db] a by (simp add: engine_abort_def Let_def)
qed

lemma extends_engine_step:
  assumes E: "orderly E" and op: "\<And>ctx now s. store_step\<^sup>*\<^sup>* s (fst (op ctx now s))"
  shows "extends (engine_step E run op)"
  unfolding extends_def
proof
  fix w :: world
  obtain s r d where o: "op (u_ctx E (w_tick w)) (u_clock E (w_tick w)) (w_db (pass E w)) = (s, r, d)" by (metis prod_cases3)
  then have "store_step\<^sup>*\<^sup>* (w_db (pass E w)) s" using op by (metis fst_conv)
  then show "world_history w (fst (engine_step E run op w))"
    using world_history_trans [OF pass_history [OF E] world_db'] pass_history [OF E] o
    by (simp add: engine_step_def Let_def split: option.split)
qed

lemma cycle_then: "set_run_cycle rid ex n now s = (t, r) \<Longrightarrow> store_step\<^sup>*\<^sup>* s t"
  using one_store_step [OF store_step.cycle [of s rid ex n now]] by simp

lemma transition_steps: "store_step\<^sup>*\<^sup>* s (fst (engine_transition ctx run nx now s))"
  by (auto simp: engine_transition_def split: option.split sum.split prod.split dest: transition_then)

lemma cycle_steps: "store_step\<^sup>*\<^sup>* s (fst (engine_set_run_cycle ctx run n now s))"
  by (auto simp: engine_set_run_cycle_def split: option.split sum.split prod.split dest: cycle_then)

lemma review_steps:
  "store_step\<^sup>*\<^sup>* s (fst (ensure_reviewing ctx run now s))"
  "store_step\<^sup>*\<^sup>* s (fst (ensure_revising ctx run now s))"
  by (simp_all add: ensure_reviewing_def ensure_revising_def transition_steps)

lemma extends_writes:
  assumes E: "orderly E"
  shows "extends (move_run E run next)" and "extends (reviewing E run)" and "extends (revising E run)"
    and "extends (move_cycle E run n)"
proof -
  have r: "extends (engine_step E run (\<lambda>ctx now. ensure_reviewing ctx run now))"
    and v: "extends (engine_step E run (\<lambda>ctx now. ensure_revising ctx run now))"
    by (rule extends_engine_step [OF E], rule review_steps)+
  show "extends (move_run E run next)" unfolding move_run_def by (rule extends_engine_step [OF E], rule transition_steps)
  show "extends (move_cycle E run n)" unfolding move_cycle_def by (rule extends_engine_step [OF E], rule cycle_steps)
  show "extends (reviewing E run)" using r by (simp add: extends_def reviewing_def)
  show "extends (revising E run)" using v by (simp add: extends_def revising_def)
qed

lemma extends_moved_interrupted:
  assumes E: "orderly E"
  shows "extends (move_interrupted E run next)"
  unfolding extends_def
proof
  fix w :: world
  obtain v r e where m: "move_run E run next w = (v, r, e)" by (metis prod_cases3)
  have "world_history w v" by (rule extendsD [OF extends_writes(1) [OF E] m])
  moreover have "world_history v (fst (engine_abort E ctx r x v))" for ctx x
    using extends_abort [OF E] by (simp add: extends_def)
  ultimately show "world_history w (fst (move_interrupted E run next w))"
    using m by (auto simp: move_interrupted_def Let_def split: option.split intro: world_history_trans)
qed

lemma extends_document: "orderly E \<Longrightarrow> extends (store_document E T cur rep v)"
proof -
  assume E: "orderly E"
  have "extends (\<lambda>w. case tk_render T cur rep v (u_clock E (w_tick w)) of
      Inl m \<Rightarrow> fail (pass E w) (f m) | Inr d \<Rightarrow> commit (pass E w) d)" for f :: "string \<Rightarrow> engine_error"
    using pass_history [OF E] by (auto simp: extends_def split: sum.split)
  then show ?thesis
    unfolding store_document_def by (intro extending extends_peek extends_put extends_read E)
qed

lemma extends_succeed: "orderly E \<Longrightarrow> extends (engine_succeed E T run rep v)"
proof -
  assume E: "orderly E"
  let ?m = "bind (relabel (Pair run) (look E)) (\<lambda>_.
     bind (relabel (Pair run) (peek E (\<lambda>s c. reload_run_for_write run s))) (\<lambda>cur.
     relabel (Pair cur)
       (bind (store_document E T cur rep v) (\<lambda>k.
        bind (look E) (\<lambda>_.
        on_db E (\<lambda>n. succeed_run_with_report_document (r_id cur) (r_revision cur)
          \<lparr>o_artifact = u_fresh E n, o_hash = k_hash k, o_size = k_size k\<rparr> (u_clock E n)))))))"
  have "extends ?m"
    by (intro extending extends_look [OF E] extends_peek [OF E] extends_document [OF E])
      (rule extends_on_db [OF E], rule one_store_step [OF store_step.succeed_document])
  then have "world_history w (fst (?m w))" for w by (simp add: extends_def)
  moreover have "fst (engine_succeed E T run rep v w) = fst (?m w)" for w
    by (simp add: engine_succeed_def split: prod.split sum.split)
  ultimately show ?thesis by (simp add: extends_def)
qed

subsection \<open>The stages\<close>

text \<open>
  The runner and the authorizer of a screening make histories, and so does what each collector
  sees of the others.
\<close>

definition trusty :: "toolkit \<Rightarrow> bool" where
  "trusty T \<longleftrightarrow> (\<forall>run a args. extends (tk_authorize T run a args)) \<and>
     (\<forall>rid aid x p d. extends (tk_run_cell T rid aid x p d)) \<and> (\<forall>i. orderly (tk_worker T i))"

lemma extends_profile [extending]: "extends (profile_act run st)"
  by (simp add: profile_act_def extends_give extends_raise split: sum.split)

lemma extends_case_raise [extending]:
  assumes "\<And>x. extends (f x)" shows "extends (case r of Inl m \<Rightarrow> raise (g m) | Inr x \<Rightarrow> f x)"
  using assms by (simp add: extends_raise split: sum.split)

lemma extends_case_option [extending]:
  assumes "extends m" and "\<And>x. extends (f x)" shows "extends (case r of None \<Rightarrow> m | Some x \<Rightarrow> f x)"
  using assms by (simp split: option.split)

lemma extends_case_prod [extending]:
  assumes "\<And>x y. extends (f x y)" shows "extends (case r of (x, y) \<Rightarrow> f x y)"
  using assms by (simp split: prod.split)

lemma extends_plan_stage: "orderly E \<Longrightarrow> extends (plan_stage E T run prof rem reuse feedback)"
  unfolding plan_stage_def by (rule extends_run_stage) (simp_all add: extends_peek)

lemma extends_plan_retry: "orderly E \<Longrightarrow> extends (prepare_plan_retry E run e)"
  unfolding prepare_plan_retry_def
  by (intro extending extends_peek; (rule extends_on_db, assumption, rule one_store_step [OF store_step.plan_retry])?)

lemma extends_plan_attempts: "orderly E \<Longrightarrow> extends (plan_attempts n E T run prof rem reuse feedback)"
proof (induction n arbitrary: feedback)
  case 0
  then show ?case by (simp add: extends_plan_stage)
next
  case (Suc n)
  show ?case
    unfolding extends_def
  proof
    fix w :: world
    obtain v r where m: "plan_stage E T run prof rem reuse feedback w = (v, r)" by fastforce
    have "world_history w v" by (rule extendsD [OF extends_plan_stage [OF Suc.prems] m])
    moreover have "world_history v (fst (bind (prepare_plan_retry E run e) (\<lambda>_. plan_attempts n E T run prof rem reuse f) v))" for e f
      by (rule extends_bind [OF extends_plan_retry [OF Suc.prems] Suc.IH [OF Suc.prems], unfolded extends_def, rule_format])
    ultimately show "world_history w (fst (plan_attempts (Suc n) E T run prof rem reuse feedback w))"
      using m by (auto split: sum.split intro: world_history_trans)
  qed
qed

lemma extends_reusable: "orderly E \<Longrightarrow> extends (reusable_cases E T run rem)"
  unfolding reusable_cases_def by (intro extending extends_peek)

lemma extends_plan: "orderly E \<Longrightarrow> extends (engine_plan E T run)"
  unfolding engine_plan_def by (intro extending extends_peek extends_reusable extends_plan_attempts)

lemma extends_run_cells: "trusty T \<Longrightarrow> extends (run_cells T run a x cs)"
proof (induction cs)
  case (Cons c cs)
  obtain p d args where c: "c = (p, d, args)" by (metis prod_cases3)
  have "extends (tk_run_cell T (r_id run) (a_id a) x p d)" using Cons.prems by (simp add: trusty_def)
  then show ?case unfolding c run_cells.simps by (intro extending Cons)
qed (simp add: extends_give)

lemma extends_screening: "orderly E \<Longrightarrow> trusty T \<Longrightarrow> extends (execute_planned_xfoil_screening E T run a x)"
proof -
  assume E: "orderly E" and T: "trusty T"
  have "extends (tk_authorize T run a args)" for args using T by (simp add: trusty_def)
  then show ?thesis
    unfolding execute_planned_xfoil_screening_def
    by (intro extending extends_peek [OF E] extends_run_cells [OF T])
qed

lemma extends_collect_workstream: "orderly E \<Longrightarrow> trusty T \<Longrightarrow> extends (collect_workstream E T run p i)"
proof -
  assume E: "orderly E" and T: "trusty T"
  have reuse: "extends (owner_reuse E T run p)"
    unfolding owner_reuse_def by (intro extending extends_peek [OF E] extends_reusable [OF E])
  have "extends (on_db E (\<lambda>k. authorize_engineering_receipt_reuses rid aid js (u_clock E k)))" for rid aid js
    by (rule extends_on_db [OF E], rule one_store_step [OF store_step.reuse])
  then have before: "\<forall>f a. before_collect E T run p i r = Some f \<longrightarrow> extends (f a)" for r
    by (auto simp: before_collect_def extends_screening [OF E T] split: if_splits option.splits)
  show ?thesis
    unfolding collect_workstream_def Let_def
    by (intro extending reuse extends_run_stage [OF E] before) (simp add: extends_peek [OF E])
qed

lemma collect_each_history: "orderly E \<Longrightarrow> trusty T \<Longrightarrow> world_history w (fst (collect_each E T run p c q is w))"
proof (induction "is" arbitrary: c q w)
  case (Cons i "is")
  have W: "orderly (tk_worker T i)" using Cons.prems(2) by (simp add: trusty_def)
  have IH: "world_history w' (fst (collect_each E T run p c' q' is w'))" for c' q' w' by (rule Cons.IH [OF Cons.prems])
  show ?case
  proof (cases c)
    case True
    then show ?thesis using IH [of w] by (simp add: case_prod_beta Let_def)
  next
    case False
    obtain w1 r where m: "collect_workstream (tk_worker T i) T run p i w = (w1, r)" by fastforce
    have h: "world_history w w1" by (rule extendsD [OF extends_collect_workstream [OF W Cons.prems(2)] m])
    have a: "world_history w1 (fst (quiesce_collection E run e w1))" for e
      using extends_abort [OF Cons.prems(1), of None run e] by (simp add: quiesce_collection_def extends_def case_prod_beta Let_def)
    have b: "world_history w1 (fst (collect_each E T run p c' q' is (fst (quiesce_collection E run e w1))))" for e c' q'
      using a IH by (rule world_history_trans)
    show ?thesis
      using False m h IH b by (auto simp: case_prod_beta Let_def split: sum.split intro: world_history_trans)
  qed
qed simp

lemma extends_collect: "orderly E \<Longrightarrow> trusty T \<Longrightarrow> extends (engine_collect E T run p existing)"
proof -
  assume E: "orderly E" and T: "trusty T"
  have "extends (\<lambda>w. let (v, os) = collect_each E T run p False False ms w
      in case first_error None os of Some e \<Rightarrow> fail v e | None \<Rightarrow> commit v (g os))"
    for ms and g :: "(nat \<times> (engine_error + evidence_bundle)) list \<Rightarrow> evidence_bundle list"
    using collect_each_history [OF E T] by (simp add: extends_def case_prod_beta Let_def split: option.split)
  then show ?thesis
    unfolding engine_collect_def by (simp add: extends_raise split: option.split)
qed

lemma extends_verification: "orderly E \<Longrightarrow> extends (ensure_engineering_verification E T run p bs existing)"
proof -
  assume E: "orderly E"
  have "extends (collect_engineering_verification E T run p bs' ids)" for bs' ids
    unfolding collect_engineering_verification_def
    by (intro extending extends_run_stage [OF E]) (simp_all add: extends_peek [OF E])
  then show ?thesis
    unfolding ensure_engineering_verification_def
    by (cases bs) (auto intro!: extending extends_peek [OF E])
qed

lemma extends_report_context: "orderly E \<Longrightarrow> extends (report_context E T run p bs)"
  unfolding report_context_def by (intro extending extends_peek)

lemma extends_synthesize: "orderly E \<Longrightarrow> extends (synthesize E T run p bs)"
proof -
  assume E: "orderly E"
  have "extends (case r of Some m \<Rightarrow> raise (g m) | None \<Rightarrow> f)" if "extends f"
    for r :: check and g :: "string \<Rightarrow> engine_error" and f :: "report_manifest eact"
    using that by (simp add: extends_raise split: option.split)
  then show ?thesis
    unfolding synthesize_def
    by (simp add: extends_raise split: option.split)
      (intro impI extending extends_report_context [OF E] extends_run_stage [OF E]; simp add: extends_peek [OF E])
qed

lemma extends_review: "orderly E \<Longrightarrow> extends (review E T run p bs r n)"
proof -
  assume E: "orderly E"
  have v: "extends (case review_candidate T r out of Inl m \<Rightarrow> raise (Failure m) | Inr v \<Rightarrow> give v)" for out
    by (simp add: extends_raise extends_give split: sum.split)
  show ?thesis
    unfolding review_def by (intro extending extends_peek [OF E] extends_run_stage [OF E]) (simp_all add: v)
qed

lemma extends_revise: "orderly E \<Longrightarrow> extends (revise E T run p bs r v n)"
  unfolding revise_def
  by (intro extending extends_report_context extends_run_stage; (simp add: extends_peek)?)

end
