(* ===== verification/Engine_Flow.thy ===== *)
theory Engine_Flow
  imports Engine_Log Run_Success
begin

section \<open>Where an execution goes\<close>

text \<open>
  Post-conditions of the operations of the engine that hold whatever surrounds them, and the
  rules that carry them through the composition of an execution.
\<close>

subsection \<open>Post-conditions\<close>

definition gives :: "('a \<Rightarrow> bool) \<Rightarrow> ('e, 'a) act \<Rightarrow> bool" where
  "gives P m \<longleftrightarrow> (\<forall>w v x. m w = (v, Inr x) \<longrightarrow> P x)"

definition moves :: "(run_row \<Rightarrow> bool) \<Rightarrow> run_step \<Rightarrow> bool" where
  "moves P m \<longleftrightarrow> (\<forall>w v r. m w = (v, r, None) \<longrightarrow> P r)"

text \<open>
  A part of an execution only extends the world; when it stops at the head of the review loop the
  state there satisfies \<open>Q\<close>, and when it returns without an error \<open>F\<close> holds of the run and the
  world it leaves.
\<close>

definition leads :: "(review_state \<Rightarrow> bool) \<Rightarrow> (run_row \<Rightarrow> world \<Rightarrow> bool) \<Rightarrow> (world \<Rightarrow> world \<times> progress) \<Rightarrow> bool" where
  "leads Q F m \<longleftrightarrow> (\<forall>w v p. m w = (v, p) \<longrightarrow> world_history w v \<and>
     (case p of Reviewing st \<Rightarrow> Q st | Finished r e \<Rightarrow> e = None \<longrightarrow> F r v))"

named_theorems leading \<open>rules for the parts of an execution\<close>

lemma leadsD:
  "leads Q F m \<Longrightarrow> m w = (v, p) \<Longrightarrow> world_history w v \<and>
     (case p of Reviewing st \<Rightarrow> Q st | Finished r e \<Rightarrow> e = None \<longrightarrow> F r v)"
  by (simp add: leads_def)

lemma leads_history: "leads Q F m \<Longrightarrow> m w = (v, p) \<Longrightarrow> world_history w v"
  using leadsD [of Q F m w v p] by simp

lemma leads_reviewing: "leads Q F m \<Longrightarrow> m w = (v, Reviewing st) \<Longrightarrow> Q st"
  using leadsD [of Q F m w v "Reviewing st"] by simp

lemma leads_finished: "leads Q F m \<Longrightarrow> m w = (v, Finished r None) \<Longrightarrow> F r v"
  using leadsD [of Q F m w v "Finished r None"] by simp

lemma leadsI:
  assumes "extends m" and "\<And>w v st. m w = (v, Reviewing st) \<Longrightarrow> Q st" and "\<And>w v r. m w = (v, Finished r None) \<Longrightarrow> F r v"
  shows "leads Q F m"
  unfolding leads_def using assms extendsD by (fastforce split: progress.split)

lemma leads_weaken: "leads Q F m \<Longrightarrow> (\<And>st. Q st \<Longrightarrow> Q' st) \<Longrightarrow> (\<And>r v. F r v \<Longrightarrow> F' r v) \<Longrightarrow> leads Q' F' m"
  unfolding leads_def by (fastforce split: progress.splits)

lemma abort_error: "abort others ctx run cause now s = (t, r, e) \<Longrightarrow> e \<noteq> None"
proof -
  have loop: "abort_loop others k n nx cause cur now s = (t, r, e) \<Longrightarrow> e \<noteq> None" for k n nx cur s
    by (induction n arbitrary: k cur s) (auto simp: Let_def split: if_splits option.splits prod.splits sum.splits)
  show "abort others ctx run cause now s = (t, r, e) \<Longrightarrow> e \<noteq> None"
    by (auto simp: abort_def Let_def split: option.splits dest: loop)
qed

lemma engine_abort_error: "engine_abort E ctx run cause w = (v, r, e) \<Longrightarrow> e \<noteq> None"
  by (auto simp: engine_abort_def Let_def split: prod.splits dest: abort_error)

lemma engine_abort_None [simp]: "engine_abort E ctx run cause w \<noteq> (v, r, None)"
  using engine_abort_error [of E ctx run cause w v r None] by auto

lemma leads_aborted [leading]:
  assumes "orderly E" shows "leads Q F (aborted E run e)"
  unfolding leads_def
proof (intro allI impI)
  fix w v p assume a: "aborted E run e w = (v, p)"
  obtain u r d where b: "engine_abort E (u_ctx E (w_tick w)) run e w = (u, r, d)" by (metis prod_cases3)
  have "world_history w u" by (rule extendsD [OF extends_abort [OF assms] b])
  moreover have "d \<noteq> None" by (rule engine_abort_error [OF b])
  ultimately show "world_history w v \<and> (case p of Reviewing st \<Rightarrow> Q st | Finished r e \<Rightarrow> e = None \<longrightarrow> F r v)"
    using a b by (auto simp: aborted_def)
qed

lemma leads_after:
  assumes "world_history w u" and "leads Q F f" and "f u = (v, p)"
  shows "world_history w v \<and> (case p of Reviewing st \<Rightarrow> Q st | Finished r e \<Rightarrow> e = None \<longrightarrow> F r v)"
  using assms by (auto simp: leads_def intro: world_history_trans)

lemma leads_settle:
  assumes E: "orderly E" and m: "extends m" "gives P m" and f: "\<And>x. P x \<Longrightarrow> leads Q F (f x)"
  shows "leads Q F (settle E run m f)"
  unfolding leads_def
proof (intro allI impI)
  fix w v p assume s: "settle E run m f w = (v, p)"
  obtain u x where u: "m w = (u, x)" by fastforce
  have h: "world_history w u" by (rule extendsD [OF m(1) u])
  show "world_history w v \<and> (case p of Reviewing st \<Rightarrow> Q st | Finished r e \<Rightarrow> e = None \<longrightarrow> F r v)"
  proof (cases x)
    case (Inl e)
    then have "aborted E run e u = (v, p)" using s u by (simp add: settle_def)
    then show ?thesis by (rule leads_after [OF h leads_aborted [OF E]])
  next
    case (Inr y)
    then have "P y" using m(2) u by (auto simp: gives_def)
    then show ?thesis using s u Inr by (intro leads_after [OF h f]) (simp_all add: settle_def)
  qed
qed

lemma leads_step:
  assumes m: "extends m" "moves P m" and f: "\<And>r. P r \<Longrightarrow> leads Q F (f r)"
    and e: "\<And>r e. leads Q F (g r e)"
  shows "leads Q F (\<lambda>w. case m w of (w1, r, Some e) \<Rightarrow> g r e w1 | (w1, r, None) \<Rightarrow> f r w1)"
  unfolding leads_def
proof (intro allI impI)
  fix w v p assume s: "(case m w of (w1, r, Some e) \<Rightarrow> g r e w1 | (w1, r, None) \<Rightarrow> f r w1) = (v, p)"
  obtain u r d where u: "m w = (u, r, d)" by (metis prod_cases3)
  have h: "world_history w u" by (rule extendsD [OF m(1) u])
  show "world_history w v \<and> (case p of Reviewing st \<Rightarrow> Q st | Finished r e \<Rightarrow> e = None \<longrightarrow> F r v)"
  proof (cases d)
    case None
    then have "P r" using m(2) u by (auto simp: moves_def)
    then show ?thesis using s u None by (intro leads_after [OF h f]) simp_all
  next
    case (Some e')
    then show ?thesis using s u by (intro leads_after [OF h e, of r e']) simp
  qed
qed

lemma leads_settle_run:
  assumes "orderly E" "extends m" "moves P m" "\<And>r. P r \<Longrightarrow> leads Q F (f r)"
  shows "leads Q F (settle_run E m f)" "leads Q F (settle_kept E run m f)"
  unfolding settle_run_def settle_kept_def
  by (rule leads_step [OF assms(2,3,4)], assumption, rule leads_aborted [OF assms(1)])+

lemma leads_returned [leading]: "leads Q F (\<lambda>w. (w, Finished r (Some e)))"
  by (simp add: leads_def)

lemma leads_attempt_run:
  assumes "extends m" "moves P m" "\<And>r. P r \<Longrightarrow> leads Q F (f r)"
  shows "leads Q F (attempt_run m f)"
  unfolding attempt_run_def by (rule leads_step [OF assms], assumption, rule leads_returned)

lemma leads_attempt_to:
  assumes m: "extends m" "gives P m" and f: "\<And>x. P x \<Longrightarrow> leads Q F (f x)"
  shows "leads Q F (attempt_to run m f)"
  unfolding leads_def
proof (intro allI impI)
  fix w v p assume s: "attempt_to run m f w = (v, p)"
  obtain u x where u: "m w = (u, x)" by fastforce
  have h: "world_history w u" by (rule extendsD [OF m(1) u])
  show "world_history w v \<and> (case p of Reviewing st \<Rightarrow> Q st | Finished r e \<Rightarrow> e = None \<longrightarrow> F r v)"
  proof (cases x)
    case (Inl e)
    then show ?thesis using s u h by (auto simp: attempt_to_def)
  next
    case (Inr y)
    then have "P y" using m(2) u by (auto simp: gives_def)
    then show ?thesis using s u Inr by (intro leads_after [OF h f]) (simp_all add: attempt_to_def)
  qed
qed

lemma gives_any: "gives (\<lambda>x. True) m"
  by (simp add: gives_def)

lemma leads_unsafe [leading]: "leads Q F (attempt_to run (raise e) f)"
  by (simp add: leads_def attempt_to_def raise_def)

subsection \<open>The run an operation goes on with\<close>

definition same_run :: "string \<Rightarrow> run_status \<Rightarrow> run_row \<Rightarrow> bool" where
  "same_run rid st r \<longleftrightarrow> r_id r = rid \<and> r_status r = st"

lemma transition_run_row: "transition_run rid ex nx msg now s = (t, Inr r) \<Longrightarrow> r_id r = rid \<and> r_status r = nx"
  by (auto simp: transition_run_def store_results set_status_def Let_def dest!: find_run_in split: option.splits if_splits)

lemma set_run_cycle_row: "set_run_cycle rid ex n now s = (t, Inr r) \<Longrightarrow> r_id r = rid"
  using find_run_in [of t rid r]
  by (auto simp: set_run_cycle_def store_results Let_def split: option.splits if_splits)

lemma reloaded_id: "reload_run_for_write run s = Inr cur \<Longrightarrow> r_id cur = r_id run"
  by (auto simp: reload_run_for_write_def dest!: find_run_in split: option.splits if_splits)

lemma engine_transition_row: "engine_transition ctx run nx now s = (t, r, None) \<Longrightarrow> same_run (r_id run) nx r"
  using reloaded_id transition_run_row
  by (auto simp: engine_transition_def same_run_def split: option.splits sum.splits prod.splits)

lemma moves_move: "moves (same_run (r_id run) nx) (move_run E run nx)"
  using engine_transition_row by (auto simp: moves_def move_run_def engine_step_def Let_def split: option.splits prod.splits)

lemma moves_interrupted: "moves (same_run (r_id run) nx) (move_interrupted E run nx)"
  using moves_move [of run nx E]
  by (auto simp: moves_def move_interrupted_def Let_def split: prod.splits option.splits if_splits)

lemma moves_reviewing: "moves (same_run (r_id run) RunReviewing) (reviewing E run)"
  using engine_transition_row
  by (auto simp: moves_def reviewing_def engine_step_def ensure_reviewing_def same_run_def Let_def split: option.splits prod.splits if_splits)

lemma moves_revising: "moves (same_run (r_id run) RunRevising) (revising E run)"
  using engine_transition_row
  by (auto simp: moves_def revising_def engine_step_def ensure_revising_def same_run_def Let_def split: option.splits prod.splits if_splits)

lemma moves_cycle: "moves (\<lambda>r. r_id r = r_id run) (move_cycle E run n)"
  using reloaded_id set_run_cycle_row
  by (auto simp: moves_def move_cycle_def engine_step_def engine_set_run_cycle_def Let_def
      split: option.splits sum.splits prod.splits)

subsection \<open>What the stages give\<close>

lemma stage_validated:
  assumes "run_stage E run st n initial prof schema prompt kind encoded before validate norms w = (v, Inr x)"
  shows "\<exists>raw u1 u2. validate raw u1 = (u2, Inr x)"
  using assms
  unfolding run_stage_def stage_body_def Let_def act_results if_raise_Inr case_raise_Inr recorded_Inr unit_ex by blast

lemma gives_run_stage:
  "(\<And>raw. gives P (validate raw)) \<Longrightarrow>
     gives P (run_stage E run st n initial prof schema prompt kind encoded before validate norms)"
  unfolding gives_def by (meson stage_validated)

lemma gives_bind: "(\<And>x. gives P (f x)) \<Longrightarrow> gives P (bind m f)"
  unfolding gives_def bind_Inr by blast

lemma gives_relabel: "gives P m \<Longrightarrow> gives P (relabel g m)"
  by (simp add: gives_def relabel_Inr)

lemma gives_raise: "gives P (raise e)"
  by (simp add: gives_def raise_def)

lemma peek_Inr: "peek E f w = (v, Inr x) \<longleftrightarrow>
    u_db_fault E (w_tick w) = None \<and> v = pass E w \<and> f (w_db v) (w_cas v) = Inr x"
  by (auto simp: peek_def split: option.splits sum.splits)

lemma told_Inr [simp]: "told r = Inr x \<longleftrightarrow> r = Inr x"
  by (cases r) simp_all

lemma checked_Inr [simp]: "checked c = Inr x \<longleftrightarrow> c = None"
  by (simp add: checked_def split: option.split)

lemma then_try_Inr: "then_try r f = Inr y \<longleftrightarrow> (\<exists>x. r = Inr x \<and> f x = Inr y)"
  by (cases r) (auto simp: then_try_def)

lemma gives_peek: "(\<And>s c x. f s c = Inr x \<Longrightarrow> P x) \<Longrightarrow> gives P (peek E f)"
  by (auto simp: gives_def peek_Inr)

lemma gives_plan: "gives (\<lambda>p. validate_research_plan p = None) (engine_plan E T run)"
proof -
  have c: "validate_research_plan p = None" if "plan_candidate T run reuse out = Inr p" for reuse out p
    using that by (auto simp: plan_candidate_def then_try_Inr Let_def)
  have s: "gives (\<lambda>p. validate_research_plan p = None) (plan_stage E T run prof rem reuse feedback)" for prof rem reuse feedback
    unfolding plan_stage_def by (intro gives_run_stage gives_peek) (simp add: c)
  have "gives (\<lambda>p. validate_research_plan p = None) (plan_attempts n E T run prof rem reuse feedback)" for n prof rem reuse feedback
  proof (induction n arbitrary: feedback)
    case (Suc n)
    have b: "gives (\<lambda>p. validate_research_plan p = None)
        (bind (prepare_plan_retry E run e) (\<lambda>_. plan_attempts n E T run prof rem reuse f))" for e f
      by (rule gives_bind) (rule Suc.IH)
    show ?case
      unfolding gives_def
    proof (intro allI impI)
      fix w v x assume p: "plan_attempts (Suc n) E T run prof rem reuse feedback w = (v, Inr x)"
      obtain u r where m: "plan_stage E T run prof rem reuse feedback w = (u, r)" by fastforce
      show "validate_research_plan x = None"
        using p m s [of prof rem reuse feedback] b by (cases r) (auto simp: gives_def split: if_splits)
    qed
  qed (simp add: s)
  then show ?thesis unfolding engine_plan_def by (intro gives_bind)
qed

lemma report_candidate_valid:
  "report_candidate E T s c run p bs k prev raw = Inr r \<Longrightarrow> report_validate (dc_instant (tk_decode T)) r bs = None"
  by (auto simp: report_candidate_def then_try_Inr Let_def report_checks_def)

lemma gives_case_prod: "(\<And>x y. gives P (f x y)) \<Longrightarrow> gives P (case r of (x, y) \<Rightarrow> f x y)"
  by (simp split: prod.split)

lemma gives_synthesize: "gives (\<lambda>r. report_validate (dc_instant (tk_decode T)) r bs = None) (synthesize E T run p bs)"
  unfolding synthesize_def
  by (simp add: gives_raise split: option.split)
    (intro impI gives_bind gives_case_prod gives_run_stage gives_peek; simp add: report_candidate_valid)

lemma gives_revise: "gives (\<lambda>x. report_validate (dc_instant (tk_decode T)) x bs = None) (revise E T run p bs r v n)"
  unfolding revise_def by (intro gives_bind gives_case_prod gives_run_stage gives_peek; simp add: report_candidate_valid)

lemma gives_review: "gives (\<lambda>v. validate_review_verdict_for_report v r = None) (review E T run p bs r n)"
proof -
  have c: "validate_review_verdict_for_report v r = None" if "review_candidate T r raw = Inr v" for raw v
    using that by (auto simp: review_candidate_def then_try_Inr)
  have "gives (\<lambda>v. validate_review_verdict_for_report v r = None)
      (case review_candidate T r raw of Inl m \<Rightarrow> raise (Failure m) | Inr v \<Rightarrow> give v)" for raw
    using c [of raw] by (auto simp: gives_def give_Inr raise_Inr split: sum.splits)
  then show ?thesis unfolding review_def by (intro gives_bind gives_run_stage)
qed

subsection \<open>The success of a run\<close>

text \<open>
  The document the success of a run adopts is the rendering of a report and a verdict: its bytes
  are in the content-addressed store and an artifact of the run names them.
\<close>

definition document_of :: "toolkit \<Rightarrow> (string \<Rightarrow> string) \<Rightarrow> world \<Rightarrow> run_row \<Rightarrow> report_manifest \<Rightarrow> review_verdict \<Rightarrow> bool" where
  "document_of T sha w r rep v \<longleftrightarrow> (\<exists>cur t d. tk_render T cur rep v t = Inr d \<and> r_id cur = r_id r \<and>
     cas_read_verified sha None (sha d) (w_cas w) = Inr d \<and>
     (\<exists>f \<in> set (artifacts (w_db w)). f_run f = r_id r \<and> f_kind f = ''research.report.document'' \<and> f_blob f = sha d))"

lemma published_member:
  "published s t \<Longrightarrow> f \<in> set (artifacts s) \<Longrightarrow> \<exists>g \<in> set (artifacts t). artifact_step f g"
  unfolding published_def using artifact_log.member_later by blast

lemma succeed_document:
  assumes "succeed_run rid ex (Some d) now s = (t, Inr r)"
  shows "r_id r = rid \<and> r_status r = RunSucceeded \<and>
    (\<exists>f \<in> set (artifacts t). f_run f = rid \<and> f_kind f = ''research.report.document'' \<and> f_blob f = o_hash d)"
proof (rule succeed_run_chain [OF assms])
  fix cur rep s1 s2 s3 s4
  assume cur: "find_run s rid = Some cur" and "r_revision cur = ex" and "can_transition (r_status cur) RunSucceeded"
    and "newest_artifact (filter (final_report s cur) (artifacts s)) = Some rep"
    and s1: "publish_document rid (f_attempt rep) (Some d) now s = (s1, Inr ())"
    and s2: "s2 = s1\<lparr>runs := update_where (\<lambda>r. r_id r = rid \<and> r_revision r = ex)
             (set_succeeded (f_id rep) now) (runs s1)\<rparr>"
    and s3: "adopt_results cur (f_id rep) now s2 = (s3, Inr ())"
    and s4: "retire_pending_approvals rid (''run_'' @ status_text RunSucceeded) now s3 = (s4, Inr ())"
    and e: "t = append_event s4 rid ''run.transition''
       [(''from'', JStr (status_text (r_status cur))), (''to'', JStr (status_text RunSucceeded)),
        (''revision'', JInt (ex + 1)), (''report_artifact_id'', JStr (f_id rep))] now"
    and r: "r = set_succeeded (f_id rep) now cur"
  have t: "artifacts t = artifacts s4" by (simp add: e)
  have "published s1 s2" by (rule published_same) (simp_all add: s2)
  moreover have "published s2 s3" using published_adopt [of s2 cur "f_id rep" now] s3 by simp
  moreover have "published s3 s4" using published_retire [of s3 rid _ now] s4 by (metis fst_conv)
  ultimately have p: "published s1 s4" by (blast intro: published_steps.steps)
  have "\<exists>f \<in> set (artifacts s1). f_run f = rid \<and> f_kind f = ''research.report.document'' \<and> f_blob f = o_hash d"
    using publish_document_result [OF s1] by (simp add: document_rows_def)
  then obtain f where f: "f \<in> set (artifacts s1)" "f_run f = rid" "f_kind f = ''research.report.document''" "f_blob f = o_hash d"
    by blast
  obtain g where "g \<in> set (artifacts s4)" "artifact_step f g" using published_member [OF p f(1)] by blast
  then have "\<exists>f \<in> set (artifacts t). f_run f = rid \<and> f_kind f = ''research.report.document'' \<and> f_blob f = o_hash d"
    using f by (intro bexI [of _ g]) (auto simp: t artifact_step_def)
  then show ?thesis using find_run_in [OF cur] by (simp add: r set_succeeded_def)
qed

lemma render_Inr:
  "(case r of Inl m \<Rightarrow> fail w (f m) | Inr d \<Rightarrow> commit w d) = (v, Inr x) \<longleftrightarrow> r = Inr x \<and> v = w"
  by (auto split: sum.split)

lemma engine_succeed_result:
  assumes E: "orderly E" and s: "engine_succeed E T run rep v w = (u, r, None)"
  shows "r_id r = r_id run \<and> r_status r = RunSucceeded \<and> document_of T (u_sha E) u r rep v"
proof -
  obtain w1 w2 w3 w4 cur k where c: "reload_run_for_write run (w_db w2) = Inr cur"
    and d: "store_document E T cur rep v w2 = (w3, Inr k)" and l: "look E w3 = (w4, Inr ())"
    and o: "on_db E (\<lambda>n. succeed_run_with_report_document (r_id cur) (r_revision cur)
        \<lparr>o_artifact = u_fresh E n, o_hash = k_hash k, o_size = k_size k\<rparr> (u_clock E n)) w4 = (u, Inr r)"
    using s by (auto simp: engine_succeed_def act_results peek_Inr unit_ex split: prod.splits sum.splits)
  have id: "r_id cur = r_id run" by (rule reloaded_id [OF c])
  obtain w5 t doc where doc: "tk_render T cur rep v t = Inr doc"
    and rd: "read_bytes E (k_hash k) w5 = (w3, Inr doc)"
    using d by (auto simp: store_document_def act_results if_raise_Inr render_Inr)
  have read: "cas_read_verified (u_sha E) None (k_hash k) (w_cas w3) = Inr doc" and hash: "k_hash k = u_sha E doc"
    using rd by (auto simp: read_bytes_Inr read_verified_Inr)
  have x: "extends (on_db E (\<lambda>n. succeed_run_with_report_document (r_id cur) (r_revision cur)
        \<lparr>o_artifact = u_fresh E n, o_hash = k_hash k, o_size = k_size k\<rparr> (u_clock E n)))"
    by (rule extends_on_db [OF E], rule one_store_step [OF store_step.succeed_document])
  have "world_history w3 u"
    using extendsD [OF extends_look [OF E] l] extendsD [OF x o] by (rule world_history_trans)
  then have kept: "cas_read_verified (u_sha E) None (u_sha E doc) (w_cas u) = Inr doc"
    using read_later [OF read] hash by (simp add: world_history_def)
  obtain n where "succeed_run (r_id cur) (r_revision cur) (Some \<lparr>o_artifact = u_fresh E n, o_hash = k_hash k, o_size = k_size k\<rparr>)
      (u_clock E n) (w_db (pass E w4)) = (w_db u, Inr r)"
    using o by (auto simp: on_db_Inr succeed_run_with_report_document_def split: if_splits)
  from succeed_document [OF this] show ?thesis
    using id doc kept hash by (auto simp: document_of_def)
qed

subsection \<open>The state of the review loop\<close>

text \<open>
  What holds at the head of the loop: the cycle is in its range, the report was validated against
  the evidence, and every verdict and revision the loop may still meet belongs together.
\<close>

definition loop_state :: "toolkit \<Rightarrow> string \<Rightarrow> review_state \<Rightarrow> bool" where
  "loop_state T rid st \<longleftrightarrow>
     r_id (rs_run st) = rid \<and> 0 \<le> rs_cycle st \<and> rs_cycle st \<le> MaxRevisions \<and>
     report_validate (dc_instant (tk_decode T)) (rs_report st) (rs_evidence st) = None \<and>
     (\<forall>n r. map_of (rs_revisions st) n = Some r \<longrightarrow> report_validate (dc_instant (tk_decode T)) r (rs_evidence st) = None) \<and>
     (\<forall>v. map_of (rs_reviews st) (rs_cycle st) = Some v \<longrightarrow> validate_review_verdict_for_report v (rs_report st) = None) \<and>
     (\<forall>n v. rs_cycle st < n \<longrightarrow> map_of (rs_reviews st) n = Some v \<longrightarrow>
        (\<exists>r. map_of (rs_revisions st) n = Some r \<and> validate_review_verdict_for_report v r = None))"

text \<open>A run that has ended without an error.\<close>

definition approved_success :: "toolkit \<Rightarrow> (string \<Rightarrow> string) \<Rightarrow> run_row \<Rightarrow> world \<Rightarrow> bool" where
  "approved_success T sha r w \<longleftrightarrow> (\<exists>rep bs d.
     report_validate (dc_instant (tk_decode T)) rep bs = None \<and> validate_review_verdict_for_report d rep = None \<and>
     report_passes (vd_verdict d) rep = Inr True \<and> document_of T sha w r rep (vd_verdict d))"

definition ends_well :: "toolkit \<Rightarrow> (string \<Rightarrow> string) \<Rightarrow> string \<Rightarrow> run_row \<Rightarrow> world \<Rightarrow> bool" where
  "ends_well T sha rid r w \<longleftrightarrow> r_id r = rid \<and>
     (r_status r = RunQualityFailed \<or> r_status r = RunSucceeded \<and> approved_success T sha r w)"

abbreviation progresses :: "surroundings \<Rightarrow> toolkit \<Rightarrow> string \<Rightarrow> (world \<Rightarrow> world \<times> progress) \<Rightarrow> bool" where
  "progresses E T rid m \<equiv> leads (loop_state T rid) (ends_well T (u_sha E) rid) m"

lemma leads_done: "(\<And>w. F r w) \<Longrightarrow> leads Q F (completed r)"
  by (simp add: leads_def completed_def)

lemma quality_failed_progresses:
  assumes E: "orderly E" and id: "r_id run = rid" shows "progresses E T rid (quality_failed E run)"
  unfolding quality_failed_def
  by (rule leads_settle_run(2) [OF E extends_writes(1) [OF E] moves_move], rule leads_done)
    (use id in \<open>simp add: ends_well_def same_run_def\<close>)

lemma succeed_progresses:
  assumes E: "orderly E" and id: "r_id run = rid"
    and ok: "report_validate (dc_instant (tk_decode T)) rep bs = None" "validate_review_verdict_for_report d rep = None"
      "report_passes (vd_verdict d) rep = Inr True"
  shows "progresses E T rid (settle_kept E run (engine_succeed E T run rep (vd_verdict d)) completed)"
  unfolding leads_def
proof (intro allI impI)
  fix w v p assume s: "settle_kept E run (engine_succeed E T run rep (vd_verdict d)) completed w = (v, p)"
  obtain u r e where u: "engine_succeed E T run rep (vd_verdict d) w = (u, r, e)" by (metis prod_cases3)
  have h: "world_history w u" by (rule extendsD [OF extends_succeed [OF E] u])
  show "world_history w v \<and> (case p of Reviewing st \<Rightarrow> loop_state T rid st
      | Finished r e \<Rightarrow> e = None \<longrightarrow> ends_well T (u_sha E) rid r v)"
  proof (cases e)
    case None
    then have "r_id r = rid \<and> r_status r = RunSucceeded \<and> document_of T (u_sha E) u r rep (vd_verdict d)"
      using engine_succeed_result [OF E] u id by blast
    moreover have "v = u" "p = Finished r None" using s u None by (simp_all add: settle_kept_def completed_def)
    ultimately show ?thesis using h ok by (auto simp: ends_well_def approved_success_def)
  next
    case (Some x)
    then have "aborted E run x u = (v, p)" using s u by (simp add: settle_kept_def)
    then show ?thesis by (rule leads_after [OF h leads_aborted [OF E]])
  qed
qed

lemma start_progresses:
  assumes E: "orderly E"
    and st: "0 \<le> rs_cycle st \<longrightarrow> rs_cycle st \<le> MaxRevisions \<longrightarrow> loop_state T rid st"
  shows "progresses E T rid (start_review_cycles E T st)"
proof (cases "rs_cycle st < 0 \<or> rs_cycle st > MaxRevisions")
  case False
  have "leads (loop_state T rid) F (\<lambda>w. (w, Reviewing st))" for F using st False by (simp add: leads_def)
  then show ?thesis
    using False
    by (auto simp: start_review_cycles_def Let_def
        intro!: leads_aborted [OF E] leads_settle [OF E _ gives_any] extending extends_peek [OF E])
qed (use leads_aborted [OF E] in \<open>auto simp: start_review_cycles_def Let_def\<close>)

subsection \<open>The parts of an execution\<close>

lemma collection_progresses:
  assumes E: "orderly E" and T: "trusty T" and id: "r_id run = rid"
  shows "progresses E T rid (continue_collection E T run p existing)"
proof -
  have s: "progresses E T rid (start_review_cycles E T \<lparr>rs_run = r2, rs_plan = p, rs_evidence = ev, rs_report = rep,
      rs_cycle = 0, rs_reviews = [], rs_revisions = []\<rparr>)"
    if "r_id r2 = rid" "report_validate (dc_instant (tk_decode T)) rep ev = None" for r2 ev rep
    by (rule start_progresses [OF E]) (use that in \<open>simp add: loop_state_def\<close>)
  have r: "progresses E T rid (settle_run E (move_run E r1 RunReviewing) (\<lambda>r2. start_review_cycles E T
      \<lparr>rs_run = r2, rs_plan = p, rs_evidence = ev, rs_report = rep, rs_cycle = 0, rs_reviews = [], rs_revisions = []\<rparr>))"
    if "r_id r1 = rid" "report_validate (dc_instant (tk_decode T)) rep ev = None" for r1 ev rep
    by (rule leads_settle_run(1) [OF E extends_writes(1) [OF E] moves_move]) (rule s, use that in \<open>auto simp: same_run_def\<close>)
  have y: "progresses E T rid (settle E r1 (synthesize E T r1 p ev) (\<lambda>rep. settle_run E (move_run E r1 RunReviewing)
      (\<lambda>r2. start_review_cycles E T
      \<lparr>rs_run = r2, rs_plan = p, rs_evidence = ev, rs_report = rep, rs_cycle = 0, rs_reviews = [], rs_revisions = []\<rparr>)))"
    if "r_id r1 = rid" for r1 ev
    by (rule leads_settle [OF E extends_synthesize [OF E] gives_synthesize], rule r [OF that])
  have m: "progresses E T rid (settle_run E (move_run E run RunSynthesizing) (\<lambda>r1. settle E r1 (synthesize E T r1 p ev)
      (\<lambda>rep. settle_run E (move_run E r1 RunReviewing) (\<lambda>r2. start_review_cycles E T
      \<lparr>rs_run = r2, rs_plan = p, rs_evidence = ev, rs_report = rep, rs_cycle = 0, rs_reviews = [], rs_revisions = []\<rparr>))))" for ev
    by (rule leads_settle_run(1) [OF E extends_writes(1) [OF E] moves_move]) (rule y, simp add: same_run_def id)
  show ?thesis
    unfolding continue_collection_def
    by (rule leads_settle [OF E extends_collect [OF E T] gives_any],
        rule leads_settle [OF E extends_verification [OF E] gives_any])
      (auto split: option.split intro: m leads_aborted [OF E])
qed

lemma after_plan_progresses:
  assumes "orderly E" "trusty T" "r_id run = rid"
  shows "progresses E T rid (continue_after_plan E T run p existing)"
  using collection_progresses [OF assms]
  by (auto simp: continue_after_plan_def same_run_def assms
      intro!: leads_settle_run(1) [OF assms(1) extends_writes(1) [OF assms(1)] moves_move] collection_progresses)

lemma plan_progresses:
  assumes "orderly E" "trusty T" "r_id run = rid"
  shows "progresses E T rid (plan_and_continue E T run)"
  unfolding plan_and_continue_def
  by (rule leads_settle [OF assms(1) extends_plan [OF assms(1)] gives_any]) (rule after_plan_progresses [OF assms])

lemma remediation_row: "prepare_research_remediation rid ex n v now s = (t, Inr (r, m)) \<Longrightarrow> r_id r = rid"
  using prepare_remediation_result [of rid ex n v now s t r m]
  by (auto simp: seal_and_restart_def Let_def store_results restart_row_def dest!: find_run_in split: if_splits)

text \<open>The way from a permitted remediation.\<close>

abbreviation replan :: "surroundings \<Rightarrow> toolkit \<Rightarrow> run_row \<Rightarrow> world \<Rightarrow> world \<times> progress" where
  "replan E T run \<equiv> settle E run (relabel (Wrapped ''replan after review'') (engine_plan E T run))
     (\<lambda>p. continue_after_plan E T run p [])"

lemma replan_progresses:
  assumes "orderly E" "trusty T" "r_id run = rid" shows "progresses E T rid (replan E T run)"
  by (rule leads_settle [OF assms(1) extends_relabel [OF extends_plan [OF assms(1)]] gives_any])
    (rule after_plan_progresses [OF assms])

abbreviation prepare :: "surroundings \<Rightarrow> review_state \<Rightarrow> review_verdict \<Rightarrow> run_row \<Rightarrow> (run_row \<times> remediation_row) eact" where
  "prepare E st v run \<equiv>
     on_db E (\<lambda>k. prepare_research_remediation (r_id run) (r_revision run) (rs_cycle st) v (u_clock E k))"

lemma extends_prepare: "orderly E \<Longrightarrow> extends (prepare E st v run)"
  by (rule extends_on_db) (assumption, rule one_store_step [OF store_step.remediate])

lemma remediate_progresses:
  assumes E: "orderly E" and T: "trusty T" and id: "r_id (rs_run st) = rid"
  shows "progresses E T rid (remediate E T st v)"
  unfolding remediate_def
proof (rule leads_settle_run(1) [OF E extends_writes(2) [OF E] moves_reviewing])
  fix run assume "same_run (r_id (rs_run st)) RunReviewing run"
  then have id: "r_id run = rid" using id by (simp add: same_run_def)
  show "progresses E T rid (\<lambda>w. case prepare E st v run w of
      (w1, Inl e) \<Rightarrow>
         if error_is (\<lambda>x. x = StoreFailure ErrResearchRemediationLimit) e
         then (case move_run E run RunQualityFailed w1 of
             (w2, r, None) \<Rightarrow> (w2, Finished r None)
           | (w2, r, Some d) \<Rightarrow> aborted E run (Joined e d) w2)
         else aborted E run (Wrapped ''prepare research remediation'' e) w1
     | (w1, Inr (next, m)) \<Rightarrow> replan E T next w1)"
    unfolding leads_def
  proof (intro allI impI)
    fix w v' p
    assume s: "(case prepare E st v run w of
      (w1, Inl e) \<Rightarrow>
         if error_is (\<lambda>x. x = StoreFailure ErrResearchRemediationLimit) e
         then (case move_run E run RunQualityFailed w1 of
             (w2, r, None) \<Rightarrow> (w2, Finished r None)
           | (w2, r, Some d) \<Rightarrow> aborted E run (Joined e d) w2)
         else aborted E run (Wrapped ''prepare research remediation'' e) w1
     | (w1, Inr (next, m)) \<Rightarrow> replan E T next w1) = (v', p)"
    obtain u r where u: "prepare E st v run w = (u, r)" by fastforce
    have h: "world_history w u" by (rule extendsD [OF extends_prepare [OF E] u])
    show "world_history w v' \<and> (case p of Reviewing st \<Rightarrow> loop_state T rid st
        | Finished r e \<Rightarrow> e = None \<longrightarrow> ends_well T (u_sha E) rid r v')"
    proof (cases r)
      case (Inl e)
      have "progresses E T rid (\<lambda>w1. case move_run E run RunQualityFailed w1 of
             (w2, r, None) \<Rightarrow> (w2, Finished r None)
           | (w2, r, Some d) \<Rightarrow> aborted E run (Joined e d) w2)"
        using id by (intro leads_step [OF extends_writes(1) [OF E] moves_move] leads_aborted [OF E])
          (simp add: leads_def ends_well_def same_run_def)
      then have "progresses E T rid (if error_is (\<lambda>x. x = StoreFailure ErrResearchRemediationLimit) e
         then (\<lambda>w1. case move_run E run RunQualityFailed w1 of
             (w2, r, None) \<Rightarrow> (w2, Finished r None)
           | (w2, r, Some d) \<Rightarrow> aborted E run (Joined e d) w2)
         else aborted E run (Wrapped ''prepare research remediation'' e))"
        by (simp add: leads_aborted [OF E])
      then show ?thesis by (rule leads_after [OF h]) (use s u Inl in \<open>simp split: if_splits\<close>)
    next
      case (Inr x)
      obtain nx m where x: "x = (nx, m)" by fastforce
      then have "r_id nx = rid" using u Inr id remediation_row by (auto simp: on_db_Inr)
      then show ?thesis
        using s u Inr x leads_after [OF h replan_progresses [OF E T]] by simp
    qed
  qed
qed

lemma revise_progresses:
  assumes E: "orderly E" and st: "loop_state T rid st" and c: "rs_cycle st \<noteq> MaxRevisions"
  shows "leads (\<lambda>st'. loop_state T rid st' \<and> rs_cycle st' = rs_cycle st + 1) (ends_well T (u_sha E) rid) (revise_next E T st v)"
proof -
  let ?Q = "\<lambda>st'. loop_state T rid st' \<and> rs_cycle st' = rs_cycle st + 1"
  let ?n = "rs_cycle st + 1"
  let ?ok = "\<lambda>r. report_validate (dc_instant (tk_decode T)) r (rs_evidence st) = None"
  have "\<forall>n v. rs_cycle st < n \<longrightarrow> map_of (rs_reviews st) n = Some v \<longrightarrow>
        (\<exists>r. map_of (rs_revisions st) n = Some r \<and> validate_review_verdict_for_report v r = None)"
    using st by (simp add: loop_state_def)
  from this [rule_format, of ?n] have nx: "map_of (rs_reviews st) ?n = Some v \<Longrightarrow>
      \<exists>r. map_of (rs_revisions st) ?n = Some r \<and> validate_review_verdict_for_report v r = None" for v
    by simp
  have go: "leads ?Q (ends_well T (u_sha E) rid) (settle_run E (reviewing E run) (\<lambda>r w.
      (w, Reviewing (st\<lparr>rs_run := r, rs_report := rep, rs_cycle := ?n, rs_revisions := known\<rparr>))))"
    if "r_id run = rid" "?ok rep" "known = rs_revisions st \<and> map_of known ?n = Some rep \<or>
        known = (?n, rep) # rs_revisions st \<and> map_of (rs_revisions st) ?n = None" for run rep known
  proof (rule leads_settle_run(1) [OF E extends_writes(2) [OF E] moves_reviewing])
    fix r assume "same_run (r_id run) RunReviewing r"
    then show "leads ?Q (ends_well T (u_sha E) rid) (\<lambda>w.
        (w, Reviewing (st\<lparr>rs_run := r, rs_report := rep, rs_cycle := ?n, rs_revisions := known\<rparr>)))"
      using that st c by (auto simp: leads_def loop_state_def same_run_def split: if_splits dest: nx)
  qed
  show ?thesis
  proof (cases "map_of (rs_revisions st) ?n")
    case (Some rep)
    have "?ok rep" using st Some by (auto simp: loop_state_def)
    then show ?thesis
      using Some st go [of "rs_run st" rep "rs_revisions st"]
      by (auto simp: revise_next_def Let_def loop_state_def intro!: leads_aborted [OF E])
  next
    case None
    have a: "leads ?Q (ends_well T (u_sha E) rid) (settle E run (revise E T run (rs_plan st) (rs_evidence st) (rs_report st) v ?n)
        (\<lambda>rep. settle_run E (reviewing E run) (\<lambda>r w.
      (w, Reviewing (st\<lparr>rs_run := r, rs_report := rep, rs_cycle := ?n, rs_revisions := (?n, rep) # rs_revisions st\<rparr>)))))"
      if "r_id run = rid" for run
      by (rule leads_settle [OF E extends_revise [OF E] gives_revise], rule go) (use that None in auto)
    have k: "extends (\<lambda>w. (w, run, None))" "moves (\<lambda>r. r_id r = r_id run) (\<lambda>w. (w, run, None))" for run :: run_row
      by (simp_all add: extends_def moves_def)
    have b: "leads ?Q (ends_well T (u_sha E) rid)
        (settle_run E (if r_cycle run < ?n then move_cycle E run ?n else (\<lambda>w. (w, run, None))) (\<lambda>run.
          settle E run (revise E T run (rs_plan st) (rs_evidence st) (rs_report st) v ?n)
        (\<lambda>rep. settle_run E (reviewing E run) (\<lambda>r w.
      (w, Reviewing (st\<lparr>rs_run := r, rs_report := rep, rs_cycle := ?n, rs_revisions := (?n, rep) # rs_revisions st\<rparr>))))))"
      if "r_id run = rid" for run
      by (rule leads_settle_run(1) [OF E, where P = "\<lambda>r. r_id r = r_id run"])
        (use extends_writes(4) [OF E] moves_cycle k a that in \<open>auto split: if_splits\<close>)
    show ?thesis
      unfolding revise_next_def Let_def None option.case
      by (rule leads_settle_run(1) [OF E extends_writes(3) [OF E] moves_revising])
        (use b st in \<open>auto simp: same_run_def loop_state_def intro!: leads_aborted [OF E]\<close>)
  qed
qed

lemma verdict_progresses:
  assumes E: "orderly E" and T: "trusty T" and st: "loop_state T rid st"
    and v: "validate_review_verdict_for_report v (rs_report st) = None"
  shows "progresses E T rid (after_verdict E T st v)"
proof -
  have id: "r_id (rs_run st) = rid" using st by (simp add: loop_state_def)
  have valid: "report_validate (dc_instant (tk_decode T)) (rs_report st) (rs_evidence st) = None"
    using st by (simp add: loop_state_def)
  have "progresses E T rid (settle_run E (reviewing E (rs_run st)) (\<lambda>run.
      settle_kept E run (engine_succeed E T run (rs_report st) (vd_verdict v)) completed))"
    if "report_passes (vd_verdict v) (rs_report st) = Inr True"
    by (rule leads_settle_run(1) [OF E extends_writes(2) [OF E] moves_reviewing], rule succeed_progresses [OF E _ valid v that])
      (simp add: same_run_def id)
  moreover have "progresses E T rid (settle_run E (reviewing E (rs_run st)) (quality_failed E))"
    by (rule leads_settle_run(1) [OF E extends_writes(2) [OF E] moves_reviewing], rule quality_failed_progresses [OF E])
      (simp add: same_run_def id)
  moreover have "progresses E T rid (revise_next E T st v)" if "rs_cycle st \<noteq> MaxRevisions"
    using revise_progresses [OF E st that] by (rule leads_weaken) simp_all
  ultimately show ?thesis
    by (auto simp: after_verdict_def leads_aborted [OF E] remediate_progresses [OF E T id] split: sum.split bool.split)
qed

lemma step_progresses:
  assumes E: "orderly E" and T: "trusty T" and st: "loop_state T rid st"
  shows "progresses E T rid (review_step E T st)"
proof (cases "map_of (rs_reviews st) (rs_cycle st)")
  case (Some v)
  then have "validate_review_verdict_for_report v (rs_report st) = None" using st by (simp add: loop_state_def)
  with Some show ?thesis by (simp add: review_step_def verdict_progresses [OF E T st])
next
  case None
  have "progresses E T rid (settle E run (review E T run (rs_plan st) (rs_evidence st) (rs_report st) (rs_cycle st)) (\<lambda>v.
          after_verdict E T (st\<lparr>rs_run := run, rs_reviews := (rs_cycle st, v) # rs_reviews st\<rparr>) v))"
    if "same_run (r_id (rs_run st)) RunReviewing run" for run
    by (rule leads_settle [OF E extends_review [OF E] gives_review], rule verdict_progresses [OF E T])
      (use that st in \<open>auto simp: loop_state_def same_run_def\<close>)
  then have "progresses E T rid (settle_run E (reviewing E (rs_run st)) (\<lambda>run.
          settle E run (review E T run (rs_plan st) (rs_evidence st) (rs_report st) (rs_cycle st)) (\<lambda>v.
          after_verdict E T (st\<lparr>rs_run := run, rs_reviews := (rs_cycle st, v) # rs_reviews st\<rparr>) v)))"
    by (rule leads_settle_run(1) [OF E extends_writes(2) [OF E] moves_reviewing])
  then show ?thesis
    unfolding review_step_def None option.case
    by (intro leads_settle [OF E extends_peek [OF E] gives_any])
qed

lemma queued_progresses:
  assumes E: "orderly E" and T: "trusty T" and id: "r_id run = rid"
  shows "progresses E T rid (execute_queued E T run)"
proof -
  have p: "extends (profile_check r)" for r by (simp add: profile_check_def extends_give extends_raise split: option.split)
  have "progresses E T rid (settle E r (profile_check r) (\<lambda>_.
         settle E r (peek E (\<lambda>s c. require_main_thread s r)) (\<lambda>_. plan_and_continue E T r)))"
    if "same_run (r_id run) RunPlanning r" for r
    by (intro leads_settle [OF E p gives_any] leads_settle [OF E extends_peek [OF E] gives_any] plan_progresses [OF E T])
      (use that id in \<open>simp add: same_run_def\<close>)
  moreover have "progresses E T rid (\<lambda>w1. if is_canceled e \<or> (case u_ctx E (w_tick w1) of None \<Rightarrow> False | Some c \<Rightarrow> is_canceled c)
         then aborted E r e w1 else (w1, Finished r (Some e)))" for r e
    using leads_aborted [OF E, of _ _ r e] by (simp add: leads_def)
  ultimately have "progresses E T rid (\<lambda>w. case move_run E run RunPlanning w of
       (w1, r, Some e) \<Rightarrow>
         if is_canceled e \<or> (case u_ctx E (w_tick w1) of None \<Rightarrow> False | Some c \<Rightarrow> is_canceled c)
         then aborted E r e w1 else (w1, Finished r (Some e))
     | (w1, r, None) \<Rightarrow>
         settle E r (profile_check r) (\<lambda>_.
         settle E r (peek E (\<lambda>s c. require_main_thread s r)) (\<lambda>_.
         plan_and_continue E T r)) w1)"
    by (rule leads_step [OF extends_writes(1) [OF E] moves_move])
  then show ?thesis
    unfolding execute_queued_def by (intro leads_settle [OF E extends_look [OF E] gives_any])
qed

end
