(* ===== verification/Engine_Resume.thy ===== *)
theory Engine_Resume
  imports Engine_Flow
begin

section \<open>Resumed executions\<close>

subsection \<open>What a checkpoint vouches for\<close>

lemma gives_checkpoint:
  "gives (\<lambda>k. \<exists>B. check_checkpoint (tk_decode T) B (r_question run) k = None) (run_checkpoint E T run)"
  unfolding run_checkpoint_def
proof (rule gives_peek)
  fix s c k
  assume "load_checkpoint (tk_decode T) (readback_of T s c (u_sha E) run) (u_sha E) s c run = Inr k"
  then have "check_checkpoint (tk_decode T) (readback_of T s c (u_sha E) run) (r_question run) k = None"
    by (auto simp: load_checkpoint_def split: sum.splits option.splits)
  then show "\<exists>B. check_checkpoint (tk_decode T) B (r_question run) k = None" by blast
qed

text \<open>A checked checkpoint whose evidence is complete: reports and verdicts belong together.\<close>

definition vouched :: "toolkit \<Rightarrow> checkpoint \<Rightarrow> evidence_bundle list \<Rightarrow> bool" where
  "vouched T k bs \<longleftrightarrow>
     (\<forall>n r. map_of (kc_reports k) n = Some r \<longrightarrow> report_validate (dc_instant (tk_decode T)) r bs = None) \<and>
     (\<forall>n v. map_of (kc_reviews k) n = Some v \<longrightarrow>
        (\<exists>r. map_of (kc_reports k) n = Some r \<and> validate_review_verdict_for_report v r = None))"

lemma checked_vouched:
  assumes "check_checkpoint D B q k = None" and "kc_plan k = Some p" and "ordered_evidence D p (kc_evidence k) = Inr bs"
    and "D = tk_decode T"
  shows "vouched T k bs"
proof -
  have c: "check_reports D B k bs = None" using assms(1-3) by (simp add: check_checkpoint_def)
  have "report_validate (dc_instant D) r bs = None" if "map_of (kc_reports k) n = Some r" for n r
    using c map_of_SomeD [OF that] by (fastforce simp: check_reports_def)
  moreover have "\<exists>r. map_of (kc_reports k) n = Some r \<and> validate_review_verdict_for_report v r = None"
    if "map_of (kc_reviews k) n = Some v" for n v
    using c map_of_SomeD [OF that] by (fastforce simp: check_reports_def split: option.splits)
  ultimately show ?thesis using assms(4) by (simp add: vouched_def)
qed

text \<open>The point a run goes on from is one of the checkpoint.\<close>

definition point_stored :: "checkpoint \<Rightarrow> resume_point \<Rightarrow> bool" where
  "point_stored k point = (case point of
      ResumeSynthesize \<Rightarrow> True
    | ResumeReview r n \<Rightarrow> 0 \<le> n \<and> map_of (kc_reports k) n = Some r
    | ResumeRevise r n \<Rightarrow> 0 \<le> n \<and> map_of (kc_reports k) n = Some r
    | ResumeQualityFailed r n \<Rightarrow> 0 \<le> n \<and> map_of (kc_reports k) n = Some r
    | ResumeSucceed r n \<Rightarrow> 0 \<le> n \<and> map_of (kc_reports k) n = Some r \<and>
        (\<exists>d. map_of (kc_reviews k) n = Some d \<and> report_passes (vd_verdict d) r = Inr True))"

lemma resume_from_stored:
  "resume_from k r n = Inr point \<Longrightarrow> map_of (kc_reports k) n = Some r \<Longrightarrow> 0 \<le> n \<Longrightarrow> point_stored k point"
proof (induction k r n rule: resume_from.induct)
  case (1 k r n)
  show ?case
  proof (cases "map_of (kc_reviews k) n")
    case None
    then show ?thesis using "1.prems" by (subst (asm) resume_from.simps) (auto simp: point_stored_def split: if_splits)
  next
    case (Some d)
    show ?thesis
    proof (cases "report_passes (vd_verdict d) r")
      case (Inl e)
      then show ?thesis using "1.prems" Some by (subst (asm) resume_from.simps) simp
    next
      case (Inr b)
      show ?thesis
      proof (cases b)
        case True
        then show ?thesis
          using "1.prems" Some Inr by (subst (asm) resume_from.simps) (auto simp: point_stored_def split: if_splits)
      next
        case False
        have r: "resume_from k r n = Inr point" by (rule "1.prems")
        show ?thesis
          using r [unfolded resume_from.simps [of k r n]] "1.prems"(2,3) "1.IH" [OF Some Inr] Some Inr False
          by (auto simp: point_stored_def split: if_splits option.splits)
      qed
    qed
  qed
qed

lemma resume_point_stored: "resume_point_of k = Inr point \<Longrightarrow> point_stored k point"
  by (auto simp: resume_point_of_def point_stored_def split: if_splits option.splits
      intro: resume_from_stored [unfolded point_stored_def])

subsection \<open>The parts of a resumed execution\<close>

lemma gives_act_of: "(\<And>x. r = Inr x \<Longrightarrow> P x) \<Longrightarrow> gives P (act_of r)"
  by (auto simp: gives_def act_of_def raise_def give_def split: sum.splits)

lemma extends_act_of: "extends (act_of r)"
  by (simp add: act_of_def extends_give extends_raise split: sum.split)

lemma to_unsafe_Inr [simp]: "to_unsafe r = Inr x \<longleftrightarrow> r = Inr x"
  by (cases r) (simp_all add: to_unsafe_def)

lemma resumed_loop_state:
  assumes k: "vouched T k bs" and n: "0 \<le> n" "n \<le> MaxRevisions" and r: "map_of (kc_reports k) n = Some rep" and id: "r_id run = rid"
  shows "loop_state T rid \<lparr>rs_run = run, rs_plan = p, rs_evidence = bs, rs_report = rep, rs_cycle = n,
    rs_reviews = kc_reviews k, rs_revisions = kc_reports k\<rparr>"
  using k n r id unfolding vouched_def loop_state_def by fastforce

lemma resume_at_progresses:
  assumes E: "orderly E" and T: "trusty T" and id: "r_id run = rid" and k: "vouched T k bs" and p: "point_stored k point"
  shows "progresses E T rid (resume_at E T run p bs k point)"
proof -
  note mi = extends_moved_interrupted [OF E] moves_interrupted
  have loop: "progresses E T rid (start_review_cycles E T \<lparr>rs_run = r, rs_plan = p, rs_evidence = bs, rs_report = rep,
      rs_cycle = n, rs_reviews = kc_reviews k, rs_revisions = kc_reports k\<rparr>)"
    if "0 \<le> n" "map_of (kc_reports k) n = Some rep" "r_id r = rid" for r rep n
    by (rule start_progresses [OF E]) (use resumed_loop_state [OF k _ _ that(2,3)] that(1) in simp)
  show ?thesis
  proof (cases point)
    case ResumeSynthesize
    have s: "progresses E T rid (start_review_cycles E T \<lparr>rs_run = r, rs_plan = p, rs_evidence = bs, rs_report = rep,
        rs_cycle = 0, rs_reviews = [], rs_revisions = []\<rparr>)"
      if "r_id r = rid" "report_validate (dc_instant (tk_decode T)) rep bs = None" for r rep
      by (rule start_progresses [OF E]) (use that in \<open>simp add: loop_state_def\<close>)
    have "progresses E T rid (settle E r1 (synthesize E T r1 p bs) (\<lambda>rep.
          settle_run E (move_interrupted E r1 RunReviewing) (\<lambda>r2. start_review_cycles E T \<lparr>rs_run = r2, rs_plan = p,
          rs_evidence = bs, rs_report = rep, rs_cycle = 0, rs_reviews = [], rs_revisions = []\<rparr>)))"
      if "r_id r1 = rid" for r1
      by (rule leads_settle [OF E extends_synthesize [OF E] gives_synthesize], rule leads_settle_run(1) [OF E mi], rule s)
        (use that in \<open>simp_all add: same_run_def\<close>)
    then have "progresses E T rid (attempt_run (move_interrupted E run RunSynthesizing) (\<lambda>r1. settle E r1 (synthesize E T r1 p bs) (\<lambda>rep.
          settle_run E (move_interrupted E r1 RunReviewing) (\<lambda>r2. start_review_cycles E T \<lparr>rs_run = r2, rs_plan = p,
          rs_evidence = bs, rs_report = rep, rs_cycle = 0, rs_reviews = [], rs_revisions = []\<rparr>))))"
      by (intro leads_attempt_run [OF mi]) (simp add: same_run_def id)
    then show ?thesis by (simp add: resume_at_def ResumeSynthesize)
  next
    case (ResumeReview rep n)
    have q: "0 \<le> n" "map_of (kc_reports k) n = Some rep" using p ResumeReview by (simp_all add: point_stored_def)
    show ?thesis
      by (simp add: resume_at_def ResumeReview, rule leads_attempt_run [OF extends_writes(1) [OF E] moves_move], rule loop [OF q])
        (simp add: same_run_def id)
  next
    case (ResumeRevise rep n)
    have q: "0 \<le> n" "map_of (kc_reports k) n = Some rep" using p ResumeRevise by (simp_all add: point_stored_def)
    show ?thesis
      by (simp add: resume_at_def ResumeRevise, rule leads_attempt_run [OF mi], rule loop [OF q]) (simp add: same_run_def id)
  next
    case (ResumeSucceed rep n)
    obtain d where r: "map_of (kc_reports k) n = Some rep" and d: "map_of (kc_reviews k) n = Some d"
      and ok: "report_passes (vd_verdict d) rep = Inr True"
      using p ResumeSucceed by (auto simp: point_stored_def)
    have v: "report_validate (dc_instant (tk_decode T)) rep bs = None" "validate_review_verdict_for_report d rep = None"
      using k r d by (force simp: vouched_def)+
    have "progresses E T rid (attempt_run (move_interrupted E run RunReviewing)
        (\<lambda>r. settle_kept E r (engine_succeed E T r rep (vd_verdict d)) completed))"
      by (rule leads_attempt_run [OF mi], rule succeed_progresses [OF E _ v ok]) (simp add: same_run_def id)
    then show ?thesis by (simp add: resume_at_def ResumeSucceed d)
  next
    case (ResumeQualityFailed rep n)
    then show ?thesis
      using id by (auto simp: resume_at_def same_run_def intro!: leads_attempt_run [OF mi] quality_failed_progresses [OF E])
  qed
qed

lemma resume_after_progresses:
  assumes E: "orderly E" and T: "trusty T" and id: "r_id run = rid"
    and k: "check_checkpoint (tk_decode T) B q k = None" and p: "kc_plan k = Some p"
  shows "progresses E T rid (resume_after_collection E T run p k)"
  unfolding resume_after_collection_def
proof (rule leads_attempt_to [OF extends_act_of])
  show "gives (\<lambda>x. resume_point_of k = Inr x) (act_of (to_unsafe (resume_point_of k)))"
    by (rule gives_act_of) simp
  fix point assume "resume_point_of k = Inr point"
  then have pt: "point_stored k point" by (rule resume_point_stored)
  show "progresses E T rid (attempt_to run (act_of (to_unsafe (checked (validate_resume_cycle run point)))) (\<lambda>_.
     attempt_to run (act_of (to_unsafe (ordered_evidence (tk_decode T) p (kc_evidence k)))) (\<lambda>bs.
     resume_at E T run p bs k point)))"
  proof (rule leads_attempt_to [OF extends_act_of gives_any], rule leads_attempt_to [OF extends_act_of])
    show "gives (\<lambda>x. ordered_evidence (tk_decode T) p (kc_evidence k) = Inr x)
        (act_of (to_unsafe (ordered_evidence (tk_decode T) p (kc_evidence k))))"
      by (rule gives_act_of) simp
    fix bs assume "ordered_evidence (tk_decode T) p (kc_evidence k) = Inr bs"
    then have "vouched T k bs" using checked_vouched [OF k p _ refl] by simp
    then show "progresses E T rid (resume_at E T run p bs k point)" by (rule resume_at_progresses [OF E T id _ pt])
  qed
qed

lemma resume_collection_progresses:
  assumes E: "orderly E" and T: "trusty T" and id: "r_id run = rid"
  shows "progresses E T rid (resume_collection E T run p k m)"
  unfolding resume_collection_def
  by (auto simp: same_run_def id intro!: leads_unsafe leads_attempt_run [OF extends_moved_interrupted [OF E] moves_interrupted]
      collection_progresses [OF E T])

lemma extends_profile_check: "extends (profile_check r)"
  by (simp add: profile_check_def extends_give extends_raise split: option.split)

lemma extends_checkpoint: "orderly E \<Longrightarrow> extends (run_checkpoint E T run)"
  unfolding run_checkpoint_def by (rule extends_peek)

lemma interrupted_progresses:
  assumes E: "orderly E" and T: "trusty T" and id: "r_id run = rid"
  shows "progresses E T rid (resume_interrupted E T run)"
proof -
  have fresh: "progresses E T rid (attempt_run (move_interrupted E run RunPlanning) (plan_and_continue E T))"
    by (rule leads_attempt_run [OF extends_moved_interrupted [OF E] moves_interrupted], rule plan_progresses [OF E T])
      (simp add: same_run_def id)
  have stored: "progresses E T rid (attempt_to run (peek E (\<lambda>s c. told (xfoil_screening_job_ids T s (r_id run)))) (\<lambda>(ids, n).
           if n \<ge> 2 \<and> length ids < 2
           then attempt_to run (raise (unsafe m1)) (\<lambda>_ :: unit. completed run)
           else if n \<ge> 2 \<and> map_of (kc_evidence k) verification_workstream = None
           then resume_collection E T run p k m2
           else resume_after_collection E T run p k))"
    if "check_checkpoint (tk_decode T) B (r_question run) k = None" "kc_plan k = Some p" for k p B m1 m2
    by (rule leads_attempt_to [OF extends_peek [OF E] gives_any])
      (auto simp: split_beta intro!: leads_unsafe resume_collection_progresses [OF E T id] resume_after_progresses [OF E T id that])
  show ?thesis
    unfolding resume_interrupted_def
    by (rule leads_settle [OF E extends_look [OF E] gives_any],
        rule leads_attempt_to [OF extends_profile_check gives_any],
        rule leads_attempt_to [OF extends_peek [OF E] gives_any],
        rule leads_attempt_to [OF extends_checkpoint [OF E] gives_checkpoint])
      (auto split: option.split intro!: leads_unsafe resume_collection_progresses [OF E T id] fresh stored)
qed

lemma execute_progresses:
  assumes E: "orderly E" and T: "trusty T" and id: "r_id run = rid"
  shows "progresses E T rid (execute_step E T build snapshot run)"
proof -
  have b: "progresses E T rid (if r_build run \<noteq> build
            then attempt_to run (raise (unsafe m1)) (\<lambda>_ :: unit. completed run)
            else settle E run (relabel (Wrapped m2) (peek E (\<lambda>s c. told (checked (snapshot s c run))))) (\<lambda>_. f E T run))"
    if "progresses E T rid (f E T run)" for f m1 m2
    using that by (auto intro!: leads_unsafe leads_settle [OF E extends_relabel [OF extends_peek [OF E]] gives_any])
  show ?thesis
    unfolding execute_step_def Let_def
    by (cases "r_status run")
      (simp_all add: leads_unsafe b queued_progresses [OF E T id] interrupted_progresses [OF E T id])
qed

end
