(* ===== verification/Engine_Samples.thy ===== *)
theory Engine_Samples
  imports Engine_Resume Stage_Properties
begin

section \<open>A complete research run\<close>

text \<open>
  A queued run with one workstream, its models and its tools, all of it concrete: the model
  answers every stage with the stage's name, and the decoders know what each name stands for.
\<close>

definition run_sha :: "string \<Rightarrow> string" where
  "run_sha d = replicate 64 (''0123456789'' ! ((length d + (if d = [] then 0 else of_char (last d))) mod 10))"

definition quiet :: surroundings where
  "quiet =
     \<lparr>u_db = \<lambda>k s. s, u_disk = \<lambda>k c. c, u_db_fault = \<lambda>k. None, u_ctx = \<lambda>k. None, u_turn_ctx = \<lambda>k. None,
      u_clock = \<lambda>k. midnight, u_fresh = \<lambda>k. ''n'' @ [char_of k], u_fault = \<lambda>k. None,
      u_sha = run_sha, u_timeout = 7200, u_validate_model = \<lambda>k p. None,
      u_create_thread = \<lambda>k st p. Inr (''t'' @ stage_text st),
      u_turn = \<lambda>k t opts w. (w, \<lparr>tr_thread = t, tr_turn = ''t1'', tr_profile = to_profile opts,
        tr_output = stage_text (to_stage opts)\<rparr>, None)\<rparr>"

definition small_plan :: research_plan where
  "small_plan =
     \<lparr>rp_question = ''q'', rp_mode = ''general'',
      rp_workstreams = Some [\<lparr>ws_id = ''w1'', ws_question = ''q1'', ws_kinds = [], ws_required = []\<rparr>],
      rp_sources = Some [], rp_criteria = Some [], rp_screening = None, rp_cases = None, rp_mesh_study = None\<rparr>"

definition small_output :: collector_output where
  "small_output =
     \<lparr>co_workstream = ''w1'', co_summary = ''s'',
      co_claims = Some [\<lparr>ec_id = ''c1'', ec_statement = ''x'', ec_sources = [''s1''], ec_counter = []\<rparr>],
      co_sources = Some [\<lparr>es_id = ''s1'', es_url = ''https://example.org/'', es_title = ''t'', es_publisher = [],
        es_captured = minimum_capture_time\<lparr>t_year := 2026\<rparr>, es_blob = replicate 64 (CHR ''a'')\<rparr>],
      co_receipts = Some [], co_limitations = Some []\<rparr>"

definition small_report :: "string \<Rightarrow> report_manifest" where
  "small_report marker =
     \<lparr>rm_title = ''t'', rm_answer = ''see [1].'',
      rm_citations = Some [\<lparr>ci_marker = ''[1]'', ci_sources = [''s1''],
        ci_claims = [canonical_prefix @ run_sha (claim_preimage ''r1'' ''w1'' ''c1'')]\<rparr>],
      rm_evidence = Some [''w1''], rm_artifacts = Some [], rm_uncertainties = Some [],
      rm_patch = \<lparr>kp_schema = ''knowledge_patch_v1'', kp_units = UnitRegistryVersionV1, kp_entities = Some [],
                 kp_assertions = Some []\<rparr>,
      rm_assessment = None\<rparr>"

definition small_verdict :: "int \<Rightarrow> remediation_action \<Rightarrow> verdict_document" where
  "small_verdict n a =
     \<lparr>vd_verdict = \<lparr>citation_integrity_percent = n,
        knowledge_integrity_of = Some \<lparr>evidence_integrity_percent = 100, unsupported_assertions = 0\<rparr>,
        critical_errors = [], scores = \<lparr>task_fulfillment = 4, claim_support = 4, source_quality = 4, completeness = 4,
          reasoning_and_uncertainty = 4, clarity_and_reproducibility = 4\<rparr>,
        revision_requests = [], remediation_action_of = a, remediation_tasks = [], verdict_summary = ''s''\<rparr>,
      vd_errors_nil = False, vd_requests_nil = False, vd_required_nil = []\<rparr>"

definition small_bundle :: evidence_bundle where
  "small_bundle = projr (canonicalize_evidence_claim_ids run_sha ''r1'' (canonical_bundle small_output (elems (co_sources small_output))))"

definition small_tools :: "verdict_document \<Rightarrow> toolkit" where
  "small_tools v =
     \<lparr>tk_decode = \<lparr>dc_plan = \<lambda>d. Inr small_plan, dc_bundle = \<lambda>d. Inr small_bundle, dc_report = \<lambda>d. Inr (small_report ''[1]''),
        dc_verdict = \<lambda>d. Inr v, dc_public = \<lambda>u. True, dc_instant = \<lambda>t. None\<rparr>,
      tk_output = \<lambda>d. Inr small_output, tk_encode = \<lambda>i. Inr ''in'', tk_marshal_plan = \<lambda>p. Inr ''plan'',
      tk_marshal_bundle = \<lambda>b. Inr ''collect'', tk_marshal_report = \<lambda>r. Inr ''synthesize'',
      tk_prompt = \<lambda>st rid aid d. d, tk_schema = \<lambda>st. ''{}'', tk_report_schema = \<lambda>bs k. Inr ''{}'',
      tk_capability = \<lambda>t. False, tk_feedback = \<lambda>n t. t, tk_reusable = \<lambda>s c rid n. Inr None,
      tk_purpose = \<lambda>d. Inr ([], []), tk_receipt = \<lambda>s c rid n a. Inl ''none'', tk_rehydrate = \<lambda>s c rid p b. Inr b,
      tk_sources = \<lambda>s c rid n b. None, tk_coverage = \<lambda>s c rid p b. None, tk_cases = \<lambda>s c rid p b. None,
      tk_assessment = \<lambda>s c rid p. Inr None, tk_ontology = \<lambda>s rid. Inr \<lparr>oc_id = ''o'', oc_classes = [], oc_properties = []\<rparr>,
      tk_assemble = \<lambda>s c rid p r. Inr r, tk_package = \<lambda>s c rid p r. None, tk_knowledge = \<lambda>s c rid r. None,
      tk_screened = \<lambda>s rid b. Inr 0, tk_runner = False, tk_cell = \<lambda>rid aid x p d. Inl ''none'',
      tk_authorize = \<lambda>run a args. give (), tk_run_cell = \<lambda>rid aid x p d. give ''k'',
      tk_render = \<lambda>run r v t. Inr ''doc.'', tk_worker = \<lambda>i. quiet\<rparr>"

text \<open>A run interrupted after its four stages, with the outputs they stored.\<close>

definition stored_stage :: "string \<Rightarrow> stage \<Rightarrow> attempt_row" where
  "stored_stage aid st = (sample_attempt aid ''r1'' st 0 Completed False)\<lparr>a_output := run_sha (stage_text st)\<rparr>"

definition stored_output :: "string \<Rightarrow> stage \<Rightarrow> string \<Rightarrow> artifact_row" where
  "stored_output aid st kind = \<lparr>f_id = ''f'' @ aid, f_run = ''r1'', f_attempt = aid, f_kind = kind, f_blob = run_sha (stage_text st),
     f_adopted = False, f_created = []\<rparr>"

definition stored_object :: "stage \<Rightarrow> string \<times> cas_prefix" where
  "stored_object st = (take 2 (run_sha (stage_text st)), PrefixDir [(run_sha (stage_text st), Regular (stage_text st))])"

definition interrupted_world :: world where
  "interrupted_world =
     \<lparr>w_db = sample_store\<lparr>runs := [sample_run ''r1'' RunInterrupted 7 []], approvals := [],
        attempts := [stored_stage ''a1'' StagePlan, stored_stage ''a2'' StageCollect, stored_stage ''a3'' StageSynthesize, stored_stage ''a4'' StageReview],
        artifacts := [stored_output ''a1'' StagePlan ''research.plan'', stored_output ''a2'' StageCollect ''research.evidence'',
          stored_output ''a3'' StageSynthesize ''research.report'', stored_output ''a4'' StageReview ''research.review'']\<rparr>,
      w_cas = \<lparr>cas_read_only = False, cas_prefixes = map stored_object [StagePlan, StageCollect, StageSynthesize, StageReview],
        cas_tmp = []\<rparr>, w_active = {}, w_tick = 0\<rparr>"

definition small_execution :: "verdict_document \<Rightarrow> (world \<times> run_row option \<times> engine_error option) option" where
  "small_execution v = execute quiet (small_tools v) zero_build (\<lambda>s c r. None) ''r1'' interrupted_world"

end
