(* ===== verification/Engine_Properties.thy ===== *)
theory Engine_Properties
  imports Engine_Samples Ledger_Log
begin

section \<open>What an execution does\<close>

subsection \<open>The loop ends\<close>

text \<open>The remediations of a run are only ever appended.\<close>

lemma remediations_counted: "world_history w v \<Longrightarrow> cycle_count (w_db w) rid \<le> cycle_count (w_db v) rid"
proof -
  assume "world_history w v"
  then have "rows_evolve (=) (remediations (w_db w)) (remediations (w_db v))"
    using history_logs by (auto simp: world_history_def logs_def)
  then have "remediations (w_db w) = take (length (remediations (w_db w))) (remediations (w_db v))"
    by (simp add: rows_evolve_def list_all2_eq)
  then obtain ms where "remediations (w_db v) = remediations (w_db w) @ ms" by (metis append_take_drop_id)
  then show ?thesis by (simp add: cycle_count_def affected_def)
qed

lemma remediation_counts:
  assumes "prepare_research_remediation rid ex n v now s = (t, Inr x)"
  shows "cycle_count s rid < MaxResearchRemediations \<and> cycle_count s rid < cycle_count t rid"
proof -
  obtain r m where x: "x = (r, m)" by fastforce
  obtain current a where room: "cycle_count s rid < MaxResearchRemediations"
    and m: "m = remediation_of rid (int (cycle_count s rid) + 1) a v now"
    and q: "seal_and_restart current m now (s\<lparr>remediations := remediations s @ [m]\<rparr>) = (t, Inr (r, m))"
    using prepare_remediation_result assms x by blast
  have "remediations t = remediations s @ [m]"
    using frame_seal_and_restart [of "s\<lparr>remediations := remediations s @ [m]\<rparr>" current m now] q by (simp add: frame_def)
  then show ?thesis using room m by (simp add: cycle_count_def affected_def remediation_of_def)
qed

lemma settle_Reviewing:
  "settle E run m f w = (v, Reviewing st) \<longleftrightarrow> (\<exists>u x. m w = (u, Inr x) \<and> f x u = (v, Reviewing st))"
  by (auto simp: settle_def aborted_def Let_def split: prod.splits sum.splits)

lemma settle_run_Reviewing:
  "settle_run E m f w = (v, Reviewing st) \<longleftrightarrow> (\<exists>u r. m w = (u, r, None) \<and> f r u = (v, Reviewing st))"
  "settle_kept E run m f w = (v, Reviewing st) \<longleftrightarrow> (\<exists>u r. m w = (u, r, None) \<and> f r u = (v, Reviewing st))"
  by (auto simp: settle_run_def settle_kept_def aborted_def Let_def split: prod.splits option.splits)

lemma aborted_Reviewing [simp]: "aborted E run e w \<noteq> (v, Reviewing st)"
  by (auto simp: aborted_def Let_def split: prod.splits)

lemma completed_Reviewing [simp]: "completed r w \<noteq> (v, Reviewing st)"
  by (simp add: completed_def)

lemma remediate_counts:
  assumes E: "orderly E" and T: "trusty T" and id: "r_id (rs_run st) = rid"
    and s: "remediate E T st x w = (v, Reviewing st1)"
  shows "cycle_count (w_db w) rid < MaxResearchRemediations \<and> cycle_count (w_db w) rid < cycle_count (w_db v) rid"
proof -
  obtain u run where u: "reviewing E (rs_run st) w = (u, run, None)"
    and r: "(case prepare E st x run u of
      (w1, Inl e) \<Rightarrow>
         if error_is (\<lambda>x. x = StoreFailure ErrResearchRemediationLimit) e
         then (case move_run E run RunQualityFailed w1 of
             (w2, r, None) \<Rightarrow> (w2, Finished r None)
           | (w2, r, Some d) \<Rightarrow> aborted E run (Joined e d) w2)
         else aborted E run (Wrapped ''prepare research remediation'' e) w1
     | (w1, Inr (next, m)) \<Rightarrow> replan E T next w1) = (v, Reviewing st1)"
    using s by (auto simp: remediate_def settle_run_Reviewing)
  have id: "r_id run = rid" using moves_reviewing [of "rs_run st" E] u id by (auto simp: moves_def same_run_def)
  obtain w1 nx m where p: "prepare E st x run u = (w1, Inr (nx, m))" and g: "replan E T nx w1 = (v, Reviewing st1)"
    using r by (auto split: prod.splits sum.splits if_splits option.splits)
  from p obtain k where k: "prepare_research_remediation rid (r_revision run) (rs_cycle st) x k (w_db (pass E u)) = (w_db w1, Inr (nx, m))"
    by (auto simp: on_db_Inr id)
  have "r_id nx = rid" by (rule remediation_row [OF k])
  then have "world_history w1 v" by (rule leads_history [OF replan_progresses [OF E T] g])
  moreover have "world_history w (pass E u)"
    using extendsD [OF extends_writes(2) [OF E] u] pass_history [OF E] by (rule world_history_trans)
  ultimately show ?thesis
    using remediation_counts [OF k] remediations_counted [of w "pass E u" rid] remediations_counted [of w1 v rid] by linarith
qed

text \<open>Every round of the loop makes the state smaller.\<close>

definition rank :: "string \<Rightarrow> review_state \<times> world \<Rightarrow> nat \<times> nat" where
  "rank rid q = (MaxResearchRemediations - cycle_count (w_db (snd q)) rid, nat (MaxRevisions - rs_cycle (fst q)))"

abbreviation lower :: "((nat \<times> nat) \<times> (nat \<times> nat)) set" where
  "lower \<equiv> less_than <*lex*> less_than"

lemma trans_lower: "trans lower"
  by (intro trans_lex_prod trans_less_than)

lemma lower_cycle:
  assumes "cycle_count (w_db w) rid \<le> cycle_count (w_db v) rid" and "rs_cycle st1 = rs_cycle st + 1" "rs_cycle st < MaxRevisions"
  shows "(rank rid (st1, v), rank rid (st, w)) \<in> lower"
  using assms by (auto simp: rank_def)

lemma lower_count:
  assumes "cycle_count (w_db w) rid < cycle_count (w_db v) rid" and "cycle_count (w_db w) rid < MaxResearchRemediations"
  shows "(rank rid (st1, v), rank rid (st, w)) \<in> lower"
  using assms by (auto simp: rank_def)

lemma verdict_lowers:
  assumes E: "orderly E" and T: "trusty T" and st: "loop_state T rid st"
    and s: "after_verdict E T st d w = (v, Reviewing st1)"
  shows "(rank rid (st1, v), rank rid (st, w)) \<in> lower"
proof (cases "restarts_research (effective_remediation_action (vd_verdict d))")
  case True
  then have "remediate E T st (vd_verdict d) w = (v, Reviewing st1)"
    using s by (auto simp: after_verdict_def settle_run_Reviewing split: sum.splits bool.splits)
  then show ?thesis using remediate_counts [OF E T] st by (auto simp: loop_state_def intro: lower_count)
next
  case False
  then have "rs_cycle st \<noteq> MaxRevisions" "revise_next E T st d w = (v, Reviewing st1)"
    using s by (auto simp: after_verdict_def quality_failed_def settle_run_Reviewing split: sum.splits bool.splits if_splits)
  then show ?thesis
    using leads_reviewing [OF revise_progresses [OF E st]] leads_history [OF revise_progresses [OF E st]]
      remediations_counted st
    by (intro lower_cycle) (auto simp: loop_state_def)
qed

lemma step_lowers:
  assumes E: "orderly E" and T: "trusty T" and st: "loop_state T rid st"
    and s: "review_step E T st w = (v, Reviewing st1)"
  shows "(rank rid (st1, v), rank rid (st, w)) \<in> lower"
proof (cases "map_of (rs_reviews st) (rs_cycle st)")
  case (Some d)
  then show ?thesis using s by (intro verdict_lowers [OF E T st]) (simp add: review_step_def)
next
  case None
  obtain w1 w2 w3 run d where p: "peek E (\<lambda>s c. told (checked (report_still_valid E T s c st))) w = (w1, Inr ())"
    and r: "reviewing E (rs_run st) w1 = (w2, run, None)"
    and d: "review E T run (rs_plan st) (rs_evidence st) (rs_report st) (rs_cycle st) w2 = (w3, Inr d)"
    and a: "after_verdict E T (st\<lparr>rs_run := run, rs_reviews := (rs_cycle st, d) # rs_reviews st\<rparr>) d w3 = (v, Reviewing st1)"
    using s by (auto simp: review_step_def None settle_Reviewing settle_run_Reviewing)
  let ?st = "st\<lparr>rs_run := run, rs_reviews := (rs_cycle st, d) # rs_reviews st\<rparr>"
  have ok: "loop_state T rid ?st"
    using gives_review [of "rs_report st" E T run "rs_plan st" "rs_evidence st" "rs_cycle st"] d st
      moves_reviewing [of "rs_run st" E] r
    by (auto simp: loop_state_def gives_def moves_def same_run_def)
  have "world_history w w3"
    using extendsD [OF extends_peek [OF E] p] extendsD [OF extends_writes(2) [OF E] r] extendsD [OF extends_review [OF E] d]
    by (meson world_history_trans)
  then have "(rank rid (?st, w3), rank rid (st, w)) \<in> lower \<union> Id"
    using remediations_counted [of w w3 rid] by (auto simp: rank_def)
  then show ?thesis using verdict_lowers [OF E T ok a] by (metis UnE pair_in_Id_conv transD [OF trans_lower])
qed

subsection \<open>The whole loop\<close>

lemma loop_returns:
  assumes E: "orderly E" and T: "trusty T"
  shows "loop_state T rid st \<Longrightarrow> \<exists>v r e. review_cycles E T st w = Some (v, r, e) \<and> world_history w v \<and>
    (e = None \<longrightarrow> ends_well T (u_sha E) rid r v)"
proof (induction "(st, w)" arbitrary: st w rule: wf_induct_rule [OF wf_inv_image [OF wf_lex_prod [OF wf_less_than wf_less_than], of "rank rid"]])
  case (1 st w)
  obtain u p where s: "review_step E T st w = (u, p)" by fastforce
  note d = leadsD [OF step_progresses [OF E T "1.prems"] s]
  show ?case
  proof (cases p)
    case (Finished r e)
    then show ?thesis using s d by (subst review_cycles.simps) simp
  next
    case (Reviewing st1)
    then have "(rank rid (st1, u), rank rid (st, w)) \<in> lower" using step_lowers [OF E T "1.prems"] s by simp
    then obtain v r e where "review_cycles E T st1 u = Some (v, r, e)" "world_history u v"
        "e = None \<longrightarrow> ends_well T (u_sha E) rid r v"
      using "1.hyps" [of st1 u] d Reviewing by (auto simp: in_inv_image)
    then show ?thesis using s d Reviewing by (subst review_cycles.simps) (auto intro: world_history_trans)
  qed
qed

lemma execute_returns:
  assumes E: "orderly E" and T: "trusty T"
  shows "\<exists>v r e. execute E T build snapshot rid w = Some (v, r, e) \<and> world_history w v \<and>
    (e = None \<longrightarrow> (\<exists>row. r = Some row \<and> ends_well T (u_sha E) rid row v))"
proof (cases "blank rid")
  case False
  obtain w1 x where p: "peek E (\<lambda>s c. case find_run s rid of None \<Rightarrow> Inl (StoreFailure NoRows) | Some r \<Rightarrow> Inr r) w = (w1, x)"
    by fastforce
  have h: "world_history w w1" by (rule extendsD [OF extends_peek [OF E] p])
  show ?thesis
  proof (cases x)
    case (Inl d)
    then show ?thesis using p False h by (simp add: execute_def)
  next
    case (Inr run)
    then have id: "r_id run = rid" using p find_run_in by (fastforce simp: peek_Inr split: option.splits)
    obtain w2 q where s: "execute_step E T build snapshot run w1 = (w2, q)" by fastforce
    note d = leadsD [OF execute_progresses [OF E T id] s]
    show ?thesis
    proof (cases q)
      case (Finished r e)
      then show ?thesis using p False Inr s d h by (auto simp: execute_def intro: world_history_trans)
    next
      case (Reviewing st)
      then obtain v r e where "review_cycles E T st w2 = Some (v, r, e)" "world_history w2 v"
          "e = None \<longrightarrow> ends_well T (u_sha E) rid r v"
        using loop_returns [OF E T, of rid st w2] d by auto
      then show ?thesis using p False Inr s Reviewing d h by (auto simp: execute_def intro: world_history_trans)
    qed
  qed
qed (simp add: execute_def)

subsection \<open>The claims\<close>

text \<open>
  C31. \<open>Execute\<close> returns. Whatever the other writers, the disk, the clock and the models do (the
  others only make histories of the store and remove no object), the loop of reviews, revisions
  and remediations is left: every round either leaves it, or raises the number of recorded
  remediations of the run, which the store bounds by three, or moves to the next revision, which
  is bounded by \<open>MaxRevisions\<close>.
\<close>

theorem execute_terminates:
  assumes "orderly E" and "trusty T"
  shows "\<exists>v r e. execute E T build snapshot rid w = Some (v, r, e)"
  using execute_returns [OF assms] by blast

text \<open>
  C32. What \<open>Execute\<close> returns without an error. The run has ended, as succeeded or as failed on
  quality, and the store and the objects of before are still there. When it has succeeded, a
  report that was validated against the collected evidence and a verdict that was validated for
  that report and passes its gate exist, and the document the run adopted is the rendering of
  exactly that report and that verdict, stored and readable in the content-addressed store. This
  holds for a queued run as for one resumed from any checkpoint, after any number of revisions
  and remediations.
\<close>

theorem execute_outcome:
  assumes "orderly E" and "trusty T" and "execute E T build snapshot rid w = Some (v, Some r, None)"
  shows "world_history w v \<and> r_id r = rid \<and>
    (r_status r = RunQualityFailed \<or> r_status r = RunSucceeded \<and> approved_success T (u_sha E) r v)"
  using execute_returns [OF assms(1,2), of build snapshot rid w] assms(3) by (auto simp: ends_well_def)

lemma quiet_orderly: "orderly quiet"
proof -
  have h: "\<forall>c \<in> set ''0123456789''. is_lower_hex c" by code_simp
  have "is_lower_hex (''0123456789'' ! (n mod 10))" for n :: nat
    by (rule h [rule_format], rule nth_mem) simp
  then have "valid_hash (run_sha d)" for d by (simp add: run_sha_def valid_hash_def list_all_iff)
  then show ?thesis by (auto simp: orderly_def quiet_def keeps_objects_def)
qed

lemma small_trusty: "trusty (small_tools d)"
  by (simp add: trusty_def small_tools_def extends_give quiet_orderly)

lemma small_execution_succeeds:
  "case small_execution (small_verdict 100 RemNone) of Some (v, Some r, None) \<Rightarrow> r_status r = RunSucceeded | _ \<Rightarrow> False"
  by code_simp

theorem execute_terminates_witness:
  "\<exists>v r e. small_execution (small_verdict 90 RemReportRevision) = Some (v, r, e)"
  unfolding small_execution_def by (rule execute_terminates [OF quiet_orderly small_trusty])

theorem execute_outcome_witness:
  "\<exists>v r. small_execution (small_verdict 100 RemNone) = Some (v, Some r, None) \<and> r_status r = RunSucceeded \<and>
     approved_success (small_tools (small_verdict 100 RemNone)) run_sha r v"
proof -
  obtain v r where x: "small_execution (small_verdict 100 RemNone) = Some (v, Some r, None)" and r: "r_status r = RunSucceeded"
    using small_execution_succeeds by (auto split: option.splits)
  show ?thesis
    using execute_outcome [OF quiet_orderly small_trusty x [unfolded small_execution_def]] x r by (simp add: quiet_def)
qed

end
