(* ===== verification/Resume_Properties.thy ===== *)
theory Resume_Properties
  imports Engine_Samples
begin

section \<open>Resuming an interrupted run\<close>

subsection \<open>Where it goes on\<close>

text \<open>
  The history of reviews a checkpoint may hold: the reports \<open>rs\<close> of the cycles from \<open>c\<close> on and the
  verdicts \<open>vs\<close> on them, the last report perhaps without one, and nothing else from \<open>c\<close> on. Every
  report but the last has been reviewed and was not approved.
\<close>

definition stored_at :: "(int \<times> 'a) list \<Rightarrow> int \<Rightarrow> 'a list \<Rightarrow> bool" where
  "stored_at items c xs \<longleftrightarrow> (\<forall>i. map_of items (c + int i) = (if i < length xs then Some (xs ! i) else None))"

definition review_history :: "checkpoint \<Rightarrow> int \<Rightarrow> report_manifest list \<Rightarrow> verdict_document list \<Rightarrow> bool" where
  "review_history k c rs vs \<longleftrightarrow>
     rs \<noteq> [] \<and> c + int (length rs) \<le> MaxRevisions + 1 \<and> (length vs = length rs \<or> length vs + 1 = length rs) \<and>
     stored_at (kc_reports k) c rs \<and> stored_at (kc_reviews k) c vs \<and>
     (\<forall>i < length vs. \<exists>b. report_passes (vd_verdict (vs ! i)) (rs ! i) = Inr b \<and> (b \<longrightarrow> i + 1 = length rs))"

text \<open>What the live loop does next after that history.\<close>

definition next_point :: "int \<Rightarrow> report_manifest list \<Rightarrow> verdict_document list \<Rightarrow> resume_point" where
  "next_point c rs vs =
     (let n = c + int (length rs) - 1 in
      if length vs < length rs then ResumeReview (last rs) n
      else if report_passes (vd_verdict (last vs)) (last rs) = Inr True then ResumeSucceed (last rs) n
      else if n = MaxRevisions then ResumeQualityFailed (last rs) n
      else ResumeRevise (last rs) n)"

lemma first_and_rest: "All Q = (Q (0::nat) \<and> (\<forall>n. Q (Suc n)))"
  by (metis not0_implies_Suc)

lemma stored_at_Cons: "stored_at items c (x # xs) \<longleftrightarrow> map_of items c = Some x \<and> stored_at items (c + 1) xs"
proof -
  from first_and_rest [of "\<lambda>i. map_of items (c + int i) = (if i < length (x # xs) then Some ((x # xs) ! i) else None)"]
  show ?thesis by (simp add: stored_at_def algebra_simps)
qed

lemma stored_at_Nil: "stored_at items c [] \<longleftrightarrow> map_of items c = None \<and> stored_at items (c + 1) []"
proof -
  from first_and_rest [of "\<lambda>i. map_of items (c + int i) = None"]
  show ?thesis by (simp add: stored_at_def algebra_simps)
qed

lemma nothing_beyond: "\<not> has_checkpoint_beyond items c \<longleftrightarrow> stored_at items (c + 1) []"
proof
  assume "stored_at items (c + 1) []"
  then have none: "map_of items (c + 1 + int i) = None" for i by (simp add: stored_at_def)
  have "k \<le> c" if "(k, x) \<in> set items" for k x
  proof (rule ccontr)
    assume "\<not> k \<le> c"
    then have "k = c + 1 + int (nat (k - c - 1))" by simp
    then have "map_of items k = None" using none by metis
    then show False using that by (metis map_of_eq_None_iff fst_conv image_eqI)
  qed
  then show "\<not> has_checkpoint_beyond items c" by (force simp: has_checkpoint_beyond_def list_ex_iff)
qed (force simp: has_checkpoint_beyond_def stored_at_def list_ex_iff map_of_eq_None_iff)

lemma not_beyond: "\<not> beyond k c \<longleftrightarrow> stored_at (kc_reports k) (c + 1) [] \<and> stored_at (kc_reviews k) (c + 1) []"
  by (simp add: beyond_def nothing_beyond)

lemma history_Cons:
  "review_history k c (r # rs) vs \<longleftrightarrow> map_of (kc_reports k) c = Some r \<and> c \<le> MaxRevisions \<and>
     (if vs = [] then rs = [] \<and> map_of (kc_reviews k) c = None \<and> \<not> beyond k c
      else map_of (kc_reviews k) c = Some (hd vs) \<and>
        (\<exists>b. report_passes (vd_verdict (hd vs)) r = Inr b \<and> (b \<longrightarrow> rs = [])) \<and>
        (if rs = [] then tl vs = [] \<and> \<not> beyond k c else review_history k (c + 1) rs (tl vs)))"
proof (cases vs)
  case Nil
  then show ?thesis
    using stored_at_Nil [of "kc_reviews k" c] by (auto simp: review_history_def stored_at_Cons not_beyond)
next
  case (Cons v vs')
  have i: "(\<forall>i < Suc n. P i) \<longleftrightarrow> P 0 \<and> (\<forall>i < n. P (Suc i))" for n and P :: "nat \<Rightarrow> bool"
    by (metis less_Suc_eq_0_disj)
  show ?thesis
    by (cases rs) (auto simp: Cons review_history_def stored_at_Cons not_beyond i algebra_simps)
qed

lemma next_point_Cons: "rs \<noteq> [] \<Longrightarrow> length vs \<le> length rs \<Longrightarrow> next_point c (r # rs) (v # vs) = next_point (c + 1) rs vs"
  by (cases vs) (auto simp: next_point_def Let_def algebra_simps)

lemma history_length: "review_history k c rs vs \<Longrightarrow> length vs \<le> length rs \<and> rs \<noteq> []"
  by (auto simp: review_history_def)

lemma resume_from_exact:
  "map_of (kc_reports k) c = Some r \<Longrightarrow> c \<le> MaxRevisions \<Longrightarrow>
     resume_from k r c = Inr p \<longleftrightarrow> (\<exists>rs vs. review_history k c (r # rs) vs \<and> p = next_point c (r # rs) vs)"
proof (induction k r c rule: resume_from.induct)
  case (1 k r c)
  note h = history_Cons [of k c r]
  note step = resume_from.simps [of k r c]
  show ?case
  proof (cases "map_of (kc_reviews k) c")
    case None
    then have "review_history k c (r # rs) vs \<longleftrightarrow> rs = [] \<and> vs = [] \<and> \<not> beyond k c" for rs vs
      using h [of rs vs] "1.prems" by auto
    then show ?thesis using None by (auto simp: step next_point_def)
  next
    case (Some d)
    show ?thesis
    proof (cases "report_passes (vd_verdict d) r")
      case (Inl e)
      then have "\<not> review_history k c (r # rs) vs" for rs vs using h [of rs vs] Some by auto
      then show ?thesis using Some Inl by (simp add: step)
    next
      case (Inr b)
      have stop: "review_history k c (r # rs) vs \<longleftrightarrow> rs = [] \<and> vs = [d] \<and> \<not> beyond k c" if "b \<or> map_of (kc_reports k) (c + 1) = None \<or> c = MaxRevisions" for rs vs
      proof -
        have "\<not> review_history k (c + 1) rs w" if "map_of (kc_reports k) (c + 1) = None \<or> c = MaxRevisions" for w
          using that history_Cons [of k "c + 1" "hd rs" "tl rs" w] history_length [of k "c + 1" rs w] by auto
        then show ?thesis using h [of rs vs] Some Inr "1.prems" that by (cases vs) auto
      qed
      consider "b \<or> c = MaxRevisions" | "\<not> b" "c \<noteq> MaxRevisions" "map_of (kc_reports k) (c + 1) = None"
        | r' where "\<not> b" "c \<noteq> MaxRevisions" "map_of (kc_reports k) (c + 1) = Some r'"
        by (cases "map_of (kc_reports k) (c + 1)") auto
      then show ?thesis
      proof cases
        case 1
        then show ?thesis unfolding step using Some Inr stop by (cases b) (auto simp: next_point_def Let_def)
      next
        case 2
        then show ?thesis unfolding step using Some Inr stop by (auto simp: next_point_def Let_def)
      next
        case 3
        have go: "review_history k c (r # rs) vs \<longleftrightarrow> (\<exists>rs' vs'. rs = r' # rs' \<and> vs = d # vs' \<and> review_history k (c + 1) (r' # rs') vs')" for rs vs
        proof -
          have "hd rs = r'" if "review_history k (c + 1) rs w" for w
            using that 3(3) history_Cons [of k "c + 1" "hd rs" "tl rs" w] history_length [OF that] by auto
          moreover have "beyond k c"
            using 3(3) by (force simp: beyond_def has_checkpoint_beyond_def list_ex_iff dest: map_of_SomeD)
          ultimately show ?thesis
            using h [of rs vs] Some Inr 3 "1.prems" history_length [of k "c + 1" rs "tl vs"] by (cases rs; cases vs) auto
        qed
        have "resume_from k r c = resume_from k r' (c + 1)" using Some Inr 3 by (simp add: step)
        then have "resume_from k r c = Inr p \<longleftrightarrow>
            (\<exists>rs vs. review_history k (c + 1) (r' # rs) vs \<and> p = next_point (c + 1) (r' # rs) vs)"
          using "1.IH" [OF Some Inr] 3 "1.prems" by simp
        also have "\<dots> \<longleftrightarrow> (\<exists>rs vs. review_history k c (r # rs) vs \<and> p = next_point c (r # rs) vs)"
          unfolding go using next_point_Cons history_length by (metis list.distinct(1))
        finally show ?thesis .
      qed
    qed
  qed
qed


definition half_reviewed :: checkpoint where
  "half_reviewed = new_workflow_checkpoint
     \<lparr>kc_plan := Some small_plan, kc_reports := [(1, small_report ''[2]''), (0, small_report ''[1]'')],
      kc_reviews := [(0, small_verdict 90 RemReportRevision)]\<rparr>"


text \<open>
  The last remediation is lost by an interruption. When the verdict on the report of the last
  cycle asks for a new research cycle, the live loop starts the remediation. The same checkpoint
  read back after an interruption is resumed to a failure on quality instead, with the request of
  the verdict ignored.
\<close>

theorem last_remediation_lost:
  assumes plan: "kc_plan k \<noteq> None" and h: "review_history k 0 rs vs" "length vs = length rs" "int (length rs) = MaxRevisions + 1"
    and v: "report_passes (vd_verdict (last vs)) (last rs) = Inr False" "restarts_research (effective_remediation_action (vd_verdict (last vs)))"
  shows "resume_point_of k = Inr (ResumeQualityFailed (last rs) MaxRevisions) \<and>
    (rs_cycle st = MaxRevisions \<and> rs_report st = last rs \<longrightarrow> after_verdict E T st (last vs) = remediate E T st (vd_verdict (last vs)))"
proof -
  obtain r rest where rs: "rs = r # rest" using history_length [OF h(1)] by (cases rs) auto
  have r: "map_of (kc_reports k) 0 = Some r" using h(1) rs history_Cons [of k 0 r rest vs] by simp
  have "next_point 0 rs vs = ResumeQualityFailed (last rs) MaxRevisions" using h v by (simp add: next_point_def)
  have "\<exists>rest vs. review_history k 0 (r # rest) vs \<and> ResumeQualityFailed (last rs) MaxRevisions = next_point 0 (r # rest) vs"
    using h(1) rs \<open>next_point 0 rs vs = _\<close> by metis
  then have "resume_from k r 0 = Inr (ResumeQualityFailed (last rs) MaxRevisions)"
    by (rule iffD2 [OF resume_from_exact [OF r], rotated]) (simp add: MaxRevisions_def)
  then show ?thesis using plan r v by (auto simp: resume_point_of_def after_verdict_def)
qed

definition fully_reviewed :: checkpoint where
  "fully_reviewed = new_workflow_checkpoint
     \<lparr>kc_plan := Some small_plan, kc_reports := map (\<lambda>n. (n, small_report ''[1]'')) [0, 1, 2, 3],
      kc_reviews := map (\<lambda>n. (n, small_verdict 90 RemReplan)) [0, 1, 2, 3]\<rparr>"

subsection \<open>What is never resumed\<close>

lemma load_refuses:
  "a \<in> set as \<Longrightarrow> a_status a \<noteq> Superseded \<Longrightarrow> read a = Inl m \<Longrightarrow> \<exists>m. load_attempts D read q as k = Inl m"
  by (induction "as" arbitrary: k) (auto split: sum.split)

lemma archive_keeps:
  "a \<in> set (attempts s) \<Longrightarrow> \<not> incomplete_attempt rid a \<Longrightarrow> a \<in> set (attempts (fst (archive_each rid now as s)))"
proof (induction rid now "as" s rule: archive_each.induct)
  case (2 rid now b bs s)
  let ?p = "\<lambda>q. a_id q = a_id b \<and> incomplete_attempt rid q \<and> \<not> a_external q"
  let ?m = "update_one_attempt ?p (\<lambda>q. supersede_attempt (archived_ordinal (min_ordinal s rid (a_stage b))) (archive_note (a_error q)) now q)
           (Errorf ''interrupted attempt changed while preparing resume'') s"
  obtain u r where u: "?m = (u, r)" by fastforce
  have "a \<in> set (attempts u)"
    using u "2.prems" by (auto simp: update_one_attempt_def Let_def set_update_where split: if_splits)
  then show ?case using "2.IH" "2.prems" u by (cases r) auto
qed simp

text \<open>
  C36. A failed stage keeps its run from ever resuming. When an attempt of an interrupted run is
  recorded as failed, which is what \<open>failStage\<close> records for every turn that ends with an error, an
  interruption (\<open>ErrTurnInterrupted\<close>) included, preparing the run for a resume leaves that attempt
  as it is, and the loader of the checkpoint refuses the run with \<open>ErrUnsafeResume\<close>, whatever the
  decoders, the readbacks and the content-addressed store are.
\<close>

theorem failed_stage_never_resumes:
  assumes a: "a \<in> set (attempts s)" "a_run a = r_id run" "a_status a = AttemptFailed"
  shows "\<exists>m. load_checkpoint D B sha (fst (prepare_interrupted_run_for_resume (r_id run) now s)) c run = Inl (Wrapped m UnsafeResume)"
proof -
  let ?t = "fst (prepare_interrupted_run_for_resume (r_id run) now s)"
  have "\<not> incomplete_attempt (r_id run) a" using a(3) by (simp add: incomplete_attempt_def)
  then have "a \<in> set (attempts (fst (transaction s (archive_each (r_id run) now as s))))" for "as"
    using a(1) archive_keeps [of a s "r_id run" now "as"]
    by (cases "archive_each (r_id run) now as s"; cases "snd (archive_each (r_id run) now as s)") auto
  then have "a \<in> set (attempts ?t)" using a(1) by (auto simp: prepare_interrupted_run_for_resume_def split: option.split)
  then have l: "a \<in> set (list_stage_attempts ?t (r_id run))" using a(2) by (simp add: list_stage_attempts_def)
  have "attempt_output sha None ?t c run a = Inl ''stage is not completed''"
    using a(3) by (simp add: attempt_output_def and_check_def)
  then obtain m where "load_attempts D (attempt_output sha None ?t c run) (r_question run)
      (list_stage_attempts ?t (r_id run)) new_workflow_checkpoint = Inl m"
    using load_refuses [OF l] a(3) by force
  then show ?thesis by (simp add: load_checkpoint_def)
qed

theorem failed_stage_never_resumes_witness:
  "\<forall>d B c. \<exists>m. load_checkpoint (tk_decode (small_tools d)) B run_sha
     (fst (prepare_interrupted_run_for_resume ''r1'' midnight (sample_store\<lparr>runs := [sample_run ''r1'' RunInterrupted 7 []],
        attempts := [sample_attempt ''a1'' ''r1'' StagePlan 0 AttemptFailed False]\<rparr>))) c
     (sample_run ''r1'' RunInterrupted 7 []) = Inl (Wrapped m UnsafeResume)"
proof (intro allI)
  fix d B c
  let ?run = "sample_run ''r1'' RunInterrupted 7 []"
  let ?a = "sample_attempt ''a1'' ''r1'' StagePlan 0 AttemptFailed False"
  have a: "?a \<in> set (attempts (sample_store\<lparr>runs := [?run], attempts := [?a]\<rparr>))" "a_run ?a = r_id ?run" "a_status ?a = AttemptFailed"
    by (simp_all add: sample_attempt_def sample_run_def)
  show "\<exists>m. load_checkpoint (tk_decode (small_tools d)) B run_sha
     (fst (prepare_interrupted_run_for_resume ''r1'' midnight (sample_store\<lparr>runs := [?run], attempts := [?a]\<rparr>))) c ?run =
      Inl (Wrapped m UnsafeResume)"
    using failed_stage_never_resumes [OF a] by (simp add: sample_run_def)
qed

text \<open>Surroundings that let the engine alone.\<close>

definition undisturbed :: "surroundings \<Rightarrow> bool" where
  "undisturbed E \<longleftrightarrow> (\<forall>k. u_ctx E k = None \<and> u_db_fault E k = None \<and> (\<forall>s. u_db E k s = s) \<and> (\<forall>c. u_disk E k c = c))"

lemma undisturbed_pass: "undisturbed E \<Longrightarrow> pass E w = w\<lparr>w_tick := Suc (w_tick w)\<rparr>"
  by (simp add: undisturbed_def pass_def)

lemma undisturbed_look: "undisturbed E \<Longrightarrow> look E w = (w\<lparr>w_tick := Suc (w_tick w)\<rparr>, Inr ())"
  using undisturbed_pass [of E w] by (simp add: undisturbed_def look_def)

lemma undisturbed_peek:
  "undisturbed E \<Longrightarrow> f (w_db w) (w_cas w) = Inr x \<Longrightarrow> peek E f w = (w\<lparr>w_tick := Suc (w_tick w)\<rparr>, Inr x)"
  using undisturbed_pass [of E w] by (simp add: undisturbed_def peek_def)

text \<open>
  C37. A run of a screening matrix that was interrupted after its report is never resumed. For a plan
  with operating points the engine never collects the independent verification: it goes on with
  the evidence of the collectors as it is. Yet the resume of such a run, once two screening jobs
  have succeeded and a report is stored, demands the bundle of that verification and refuses with
  \<open>ErrUnsafeResume\<close>, without changing the store.
\<close>

theorem matrix_run_never_resumes:
  assumes E: "undisturbed E" and profile: "validate_research_profile_version (r_profile run) = None"
    and thread: "require_main_thread (w_db w) run = Inr ()"
    and k: "load_checkpoint (tk_decode T) (readback_of T (w_db w) (w_cas w) (u_sha E) run) (u_sha E) (w_db w) (w_cas w) run = Inr k"
    and plan: "kc_plan k = Some p" "rp_screening p = Some x" "xp_points x \<noteq> []" "missing_workstreams p (kc_evidence k) = []"
    and jobs: "xfoil_screening_job_ids T (w_db w) (r_id run) = Inr (ids, n)" "2 \<le> n" "2 \<le> length ids"
    and stored: "map_of (kc_evidence k) verification_workstream = None" "kc_reports k \<noteq> []"
  shows "(\<forall>bs existing u v ev. ensure_engineering_verification E T run p bs existing u = (v, Inr ev) \<longrightarrow> ev = bs) \<and>
    (\<exists>m v. resume_interrupted E T run w = (v, Finished run (Some (Wrapped m UnsafeResume))) \<and> w_db v = w_db w)"
proof
  show "\<forall>bs existing u v ev. ensure_engineering_verification E T run p bs existing u = (v, Inr ev) \<longrightarrow> ev = bs"
  proof (intro allI impI)
    fix bs existing u v ev assume "ensure_engineering_verification E T run p bs existing u = (v, Inr ev)"
    then show "ev = bs"
      using plan by (cases bs) (auto simp: ensure_engineering_verification_def act_results)
  qed
  have d: "profile_check run = give ()" using profile by (simp add: profile_check_def)
  show "\<exists>m v. resume_interrupted E T run w = (v, Finished run (Some (Wrapped m UnsafeResume))) \<and> w_db v = w_db w"
    using plan jobs stored thread k
    by (simp add: resume_interrupted_def settle_def attempt_to_def undisturbed_look [OF E] d give_def run_checkpoint_def
        undisturbed_peek [OF E] resume_collection_def no_review_def raise_def unsafe_def)
qed

definition matrix_screening :: screening_plan where
  "matrix_screening =
     \<lparr>xp_naca = ''0012'', xp_reynolds = Number 1000000, xp_mach = Number 0, xp_alpha_start = Number 0, xp_alpha_end = Number 1,
      xp_alpha_step = Number 1, xp_chord = Number (1 / 4), xp_hinge_x = Number (3 / 4), xp_hinge_y = Number 0,
      xp_deflections = [Number 0], xp_ncrit = Number 9, xp_iterations = 100, xp_panels = 160,
      xp_objective = ''minimize_cd_at_target_cl'', xp_target_cl = Number 0, xp_minimum_cm = Number 0,
      xp_points = [\<lparr>op_id = ''a'', op_reynolds = Number 1000000, op_mach = Number 0, op_ncrit = Number 9, op_target_cl = Number 0, op_minimum_cm = Number 0\<rparr>,
        \<lparr>op_id = ''b'', op_reynolds = Number 2000000, op_mach = Number 0, op_ncrit = Number 9, op_target_cl = Number 0, op_minimum_cm = Number 0\<rparr>]\<rparr>"

definition matrix_plan :: research_plan where
  "matrix_plan = small_plan\<lparr>rp_mode := ''engineering'', rp_screening := Some matrix_screening\<rparr>"

definition matrix_tools :: toolkit where
  "matrix_tools = (small_tools (small_verdict 100 RemNone))
     \<lparr>tk_decode := (tk_decode (small_tools (small_verdict 100 RemNone)))\<lparr>dc_plan := \<lambda>d. Inr matrix_plan\<rparr>,
      tk_purpose := \<lambda>spec. Inr (''screening'', [])\<rparr>"

definition matrix_job :: "string \<Rightarrow> job_row" where
  "matrix_job jid =
     \<lparr>j_id = jid, j_project = ''p'', j_run = ''r1'', j_attempt = ''a2'', j_operation = ''xfoil_polar'',
      j_spec = ''{}'', j_spec_sha = jid, j_tool = ''xfoil'', j_tool_version = ''6'', j_approval = ''p2'',
      j_scope = ''h'', j_status = JobSucceeded, j_receipt = ''k'', j_error = [], j_created = ''t'', j_started = Some ''t'',
      j_completed = Some ''t'', j_updated = ''t''\<rparr>"

definition matrix_world :: world where
  "matrix_world = interrupted_world\<lparr>w_db := (w_db interrupted_world)\<lparr>eng := (eng (w_db interrupted_world))
     \<lparr>jobs := [matrix_job ''j1'', matrix_job ''j2'']\<rparr>\<rparr>\<rparr>"

definition matrix_run :: run_row where
  "matrix_run = sample_run ''r1'' RunInterrupted 7 []"

lemma matrix_plan_valid: "validate_research_plan matrix_plan = None"
proof -
  have n: "0 \<le> binary64 (7 / 10)" "0 \<le> binary64 (1 / 10 ^ 8)" "0 \<le> binary64 (binary64 (1 / 10 ^ 8))"
    by (intro binary64_nonneg; simp)+
  have half: "\<lfloor>3 / 2 :: rat\<rfloor> = 1" by (simp add: floor_eq_iff)
  have w: "elems (rp_workstreams matrix_plan) = [\<lparr>ws_id = ''w1'', ws_question = ''q1'', ws_kinds = [], ws_required = []\<rparr>]"
    by (simp add: matrix_plan_def small_plan_def)
  have "plan_identifier ''a''" "plan_identifier ''b''" "list_all is_digit ''0012''" by code_simp+
  then have "validate_screening matrix_screening = None"
    using n binary64_samples(3) half
    by (simp add: not_less binary64_samples(1,2) float_finite_def validate_screening_def matrix_screening_def operating_envelope_def in_range_def alpha_grid_ok_def math_round_def
        effective_operating_points_def operating_condition_def)
  then show ?thesis
    by (simp add: validate_research_plan_def validate_plan_def w) (simp add: matrix_plan_def small_plan_def MaxCollectors_def)
qed

lemma matrix_outputs:
  "map (attempt_output run_sha None (w_db matrix_world) (w_cas matrix_world) matrix_run)
     [stored_stage ''a1'' StagePlan, stored_stage ''a2'' StageCollect, stored_stage ''a3'' StageSynthesize, stored_stage ''a4'' StageReview] =
   map Inr [''plan'', ''collect'', ''synthesize'', ''review''] \<and>
   list_stage_attempts (w_db matrix_world) ''r1'' =
     [stored_stage ''a1'' StagePlan, stored_stage ''a2'' StageCollect, stored_stage ''a3'' StageSynthesize, stored_stage ''a4'' StageReview]"
  by code_simp

lemma small_checks:
  "validate_evidence_bundle (\<lambda>u. True) [] small_bundle = None \<and> validate_evidence_bundle (\<lambda>u. True) ''w1'' small_bundle = None \<and>
   validate_global_evidence_identity (\<lambda>u. True) [small_bundle] = None \<and> eb_workstream small_bundle = ''w1'' \<and>
   validate_report_manifest (\<lambda>t. None) (small_report ''[1]'') = None \<and>
   report_validate (\<lambda>t. None) (small_report ''[1]'') [small_bundle] = None \<and>
   verify_report_artifacts run_sha (w_db matrix_world) (w_cas matrix_world) ''r1'' (small_report ''[1]'') = None \<and>
   validate_review_verdict (small_verdict 100 RemNone) = None \<and>
   validate_review_verdict_for_report (small_verdict 100 RemNone) (small_report ''[1]'') = None"
  by code_simp

definition matrix_checkpoint :: checkpoint where
  "matrix_checkpoint = \<lparr>kc_attempts = True, kc_plan = Some matrix_plan, kc_evidence = [(''w1'', small_bundle)],
     kc_ordinals = [(''w1'', 0)], kc_reports = [(0, small_report ''[1]'')], kc_reviews = [(0, small_verdict 100 RemNone)]\<rparr>"

lemma matrix_loaded:
  "load_checkpoint (tk_decode matrix_tools) (readback_of matrix_tools (w_db matrix_world) (w_cas matrix_world) (u_sha quiet) matrix_run)
     (u_sha quiet) (w_db matrix_world) (w_cas matrix_world) matrix_run = Inr matrix_checkpoint"
proof -
  have r: "r_id matrix_run = ''r1''" "r_question matrix_run = ''q''" "rp_question matrix_plan = ''q''" "u_sha quiet = run_sha"
    by (simp_all add: matrix_run_def sample_run_def matrix_plan_def small_plan_def quiet_def)
  have w: "elems (rp_workstreams matrix_plan) = [\<lparr>ws_id = ''w1'', ws_question = ''q1'', ws_kinds = [], ws_required = []\<rparr>]"
    by (simp add: matrix_plan_def small_plan_def)
  have s: "a_status (stored_stage x st) = Completed" "a_stage (stored_stage x st) = st" "a_logical (stored_stage x st) = 0" for x st
    by (simp_all add: stored_stage_def sample_attempt_def)
  have t: "tk_decode matrix_tools = \<lparr>dc_plan = \<lambda>d. Inr matrix_plan, dc_bundle = \<lambda>d. Inr small_bundle, dc_report = \<lambda>d. Inr (small_report ''[1]''),
        dc_verdict = \<lambda>d. Inr (small_verdict 100 RemNone), dc_public = \<lambda>u. True, dc_instant = \<lambda>t. None\<rparr>"
    "tk_sources matrix_tools = (\<lambda>s c rid n b. None)" "tk_coverage matrix_tools = (\<lambda>s c rid p b. None)"
    "tk_knowledge matrix_tools = (\<lambda>s c rid r. None)"
    by (simp_all add: matrix_tools_def small_tools_def)
  have l: "load_attempts (tk_decode matrix_tools) (attempt_output run_sha None (w_db matrix_world) (w_cas matrix_world) matrix_run) ''q''
      (list_stage_attempts (w_db matrix_world) ''r1'') new_workflow_checkpoint = Inr matrix_checkpoint"
    using matrix_outputs small_checks matrix_plan_valid r(3)
    by (simp add: s t accept_def accept_plan_def accept_evidence_def accept_report_def accept_review_def new_workflow_checkpoint_def
        matrix_checkpoint_def EngineeringVerificationOrdinal_def MaxCollectors_def verification_workstream_def MaxRevisions_def and_check_def)
  have "check_checkpoint (tk_decode matrix_tools) (readback_of matrix_tools (w_db matrix_world) (w_cas matrix_world) run_sha matrix_run) ''q'' matrix_checkpoint = None"
    using small_checks matrix_plan_valid
    by (simp add: check_checkpoint_def matrix_checkpoint_def r w t check_bundle_def readback_of_def workstream_ordinals_def
        verification_workstream_def ordered_evidence_def check_reports_def and_check_def)
  then show ?thesis using l by (simp add: load_checkpoint_def r)
qed

theorem matrix_run_never_resumes_witness:
  "\<exists>m v. resume_interrupted quiet matrix_tools matrix_run matrix_world = (v, Finished matrix_run (Some (Wrapped m UnsafeResume))) \<and>
     w_db v = w_db matrix_world"
proof -
  have E: "undisturbed quiet" by (simp add: undisturbed_def quiet_def)
  have p: "validate_research_profile_version (r_profile matrix_run) = None" "require_main_thread (w_db matrix_world) matrix_run = Inr ()"
    by code_simp+
  have j: "xfoil_screening_job_ids matrix_tools (w_db matrix_world) (r_id matrix_run) = Inr ([''j1'', ''j2''], 2)"
    by code_simp
  have k: "kc_plan matrix_checkpoint = Some matrix_plan" "rp_screening matrix_plan = Some matrix_screening" "xp_points matrix_screening \<noteq> []"
    "missing_workstreams matrix_plan (kc_evidence matrix_checkpoint) = []"
    "map_of (kc_evidence matrix_checkpoint) verification_workstream = None" "kc_reports matrix_checkpoint \<noteq> []"
    by (simp_all add: matrix_checkpoint_def matrix_plan_def matrix_screening_def small_plan_def missing_workstreams_def verification_workstream_def)
  show ?thesis using matrix_run_never_resumes [OF E p matrix_loaded k(1-4) j _ _ k(5,6)] by simp
qed

end
