(* ===== verification/Knowledge_Projection.thy ===== *)
theory Knowledge_Projection
  imports Go_Time Complex_Main "HOL-Library.Product_Lexorder"
begin

section \<open>The projection of a knowledge generation\<close>

text \<open>
  \<^verbatim>\<open>src/internal/knowledge/projection_reasoner.go\<close>: what an ontology entails over the asserted
  statements of a knowledge generation. Property axioms are applied in rounds until nothing new
  appears, every conclusion keeps its premises and inherits their evidence, classes of entities
  follow from domains, ranges and subclasses, and statements of a functional property that
  exclude each other are reported. SHA-256 (in hexadecimal) is the argument \<open>sha\<close>; a confidence
  is the rational value of its double.
\<close>

subsection \<open>Data\<close>

record projection_rule =
  pr_ontology :: string
  pr_axiom :: string
  pr_kind :: string
  pr_from :: string
  pr_to :: string
  pr_reverse :: bool

record statement =
  ps_id :: string
  ps_subject :: string
  ps_predicate :: string
  ps_object :: string
  ps_literal :: string
  ps_qualifiers :: string
  ps_polarity :: string
  ps_status :: string
  ps_from :: "gotime option"
  ps_to :: "gotime option"
  ps_confidence :: rat

record entity_class =
  ec_entity :: string
  ec_class :: string
  ec_inference :: string

record assertion_evidence =
  ae_assertion :: string
  ae_kind :: string
  ae_blob :: string
  ae_chunk :: string
  ae_claim :: string
  ae_source :: string
  ae_start :: "int option"
  ae_end :: "int option"
  ae_locator :: string
  ae_sha :: string

record assertion_record =
  as_id :: string
  as_subject :: string
  as_predicate :: string
  as_object :: string
  as_literal :: "string option"
  as_qualifiers :: string
  as_polarity :: string
  as_from :: "gotime option"
  as_to :: "gotime option"
  as_status :: string
  as_confidence :: rat
  as_key :: string

record conflict_record =
  cf_id :: string
  cf_left :: string
  cf_right :: string
  cf_reason :: string
  cf_status :: string

record inference_record =
  if_id :: string
  if_conclusion :: string
  if_ontology :: string
  if_axiom :: string
  if_status :: string

record proof_record =
  pf_inference :: string
  pf_ordinal :: nat
  pf_premise :: string

record type_inference =
  ti_id :: string
  ti_entity :: string
  ti_class :: string
  ti_ontology :: string
  ti_axiom :: string
  ti_status :: string

datatype type_premise =
  ByAssertion string
| ByEntityClass string string
| ByTypeInference string

record type_proof =
  tp_inference :: string
  tp_ordinal :: nat
  tp_premise :: type_premise

record projection =
  pj_assertions :: "assertion_record list"
  pj_evidence :: "assertion_evidence list"
  pj_conflicts :: "conflict_record list"
  pj_inferences :: "inference_record list"
  pj_proofs :: "proof_record list"
  pj_types :: "type_inference list"
  pj_type_proofs :: "type_proof list"

definition empty_projection :: projection where
  "empty_projection =
     \<lparr>pj_assertions = [], pj_evidence = [], pj_conflicts = [], pj_inferences = [], pj_proofs = [],
      pj_types = [], pj_type_proofs = []\<rparr>"

subsection \<open>Keys\<close>

abbreviation NUL :: char where "NUL \<equiv> CHR 0x00"

fun join_nul :: "string list \<Rightarrow> string" where
  "join_nul [] = []"
| "join_nul [x] = x"
| "join_nul (x # y # ys) = x @ NUL # join_nul (y # ys)"

definition optional_time :: "gotime option \<Rightarrow> string" where
  "optional_time t = (case t of None \<Rightarrow> [] | Some u \<Rightarrow> canonical_knowledge_time u)"

definition statement_key :: "statement \<Rightarrow> string" where
  "statement_key v =
     join_nul [ps_subject v, ps_predicate v, ps_object v, ps_literal v, ps_qualifiers v,
               optional_time (ps_from v), optional_time (ps_to v)]"

definition object_key :: "statement \<Rightarrow> string" where
  "object_key v =
     (if ps_object v \<noteq> [] then ''entity'' @ NUL # ps_object v else ''literal'' @ NUL # ps_literal v)"

definition class_key :: "entity_class \<Rightarrow> string" where
  "class_key c = ec_entity c @ NUL # ec_class c"

definition deterministic_inference_id ::
    "(string \<Rightarrow> string) \<Rightarrow> string \<Rightarrow> string \<Rightarrow> string list \<Rightarrow> string" where
  "deterministic_inference_id sha rule key parents =
     ''kinf_'' @ take 32 (sha (rule @ NUL # key @ NUL # join_nul (sort parents)))"

subsection \<open>Validity intervals\<close>

definition max_start :: "gotime option \<Rightarrow> gotime option \<Rightarrow> gotime option" where
  "max_start left right =
     (case left of None \<Rightarrow> right
      | Some l \<Rightarrow> (case right of None \<Rightarrow> left | Some r \<Rightarrow> if time_before r l then left else right))"

definition min_end :: "gotime option \<Rightarrow> gotime option \<Rightarrow> gotime option" where
  "min_end left right =
     (case left of None \<Rightarrow> right
      | Some l \<Rightarrow> (case right of None \<Rightarrow> left | Some r \<Rightarrow> if time_before l r then left else right))"

definition interval_ok :: "gotime option \<Rightarrow> gotime option \<Rightarrow> bool" where
  "interval_ok from to =
     (case from of None \<Rightarrow> True | Some f \<Rightarrow> (case to of None \<Rightarrow> True | Some t \<Rightarrow> \<not> time_before t f))"

definition intervals_overlap :: "statement \<Rightarrow> statement \<Rightarrow> bool" where
  "intervals_overlap l r = interval_ok (max_start (ps_from l) (ps_from r)) (min_end (ps_to l) (ps_to r))"

definition min_confidence :: "rat \<Rightarrow> rat \<Rightarrow> rat" where
  "min_confidence l r = (if l < r then l else r)"

subsection \<open>The evidence of a conclusion\<close>

text \<open>The evidence of the premises in their order, once per kind, object and digest.\<close>

definition evidence_key :: "assertion_evidence \<Rightarrow> string" where
  "evidence_key e = ae_kind e @ NUL # ae_blob e @ NUL # ae_sha e"

fun first_by_key :: "string list \<Rightarrow> assertion_evidence list \<Rightarrow> assertion_evidence list" where
  "first_by_key seen [] = []"
| "first_by_key seen (e # es) =
     (if evidence_key e \<in> set seen then first_by_key seen es
      else e # first_by_key (evidence_key e # seen) es)"

definition inherit_evidence ::
    "string \<Rightarrow> string list \<Rightarrow> (string \<Rightarrow> assertion_evidence list) \<Rightarrow> assertion_evidence list" where
  "inherit_evidence aid parents evidence =
     map (\<lambda>e. e\<lparr>ae_assertion := aid\<rparr>) (first_by_key [] (concat (map evidence parents)))"

subsection \<open>Adding a conclusion\<close>

record derivation =
  dv_known :: "string list"
  dv_by_id :: "statement list"
  dv_evidence :: "string \<Rightarrow> assertion_evidence list"
  dv_out :: projection

definition active :: "statement \<Rightarrow> bool" where
  "active v \<longleftrightarrow> ps_status v = ''accepted'' \<and> ps_polarity v = ''affirmed''"

definition conclusion_record :: "(string \<Rightarrow> string) \<Rightarrow> statement \<Rightarrow> assertion_record" where
  "conclusion_record sha c =
     \<lparr>as_id = ps_id c, as_subject = ps_subject c, as_predicate = ps_predicate c,
      as_object = ps_object c, as_literal = (if ps_literal c = [] then None else Some (ps_literal c)),
      as_qualifiers = ps_qualifiers c, as_polarity = ps_polarity c, as_from = ps_from c,
      as_to = ps_to c, as_status = ps_status c, as_confidence = ps_confidence c,
      as_key = sha (statement_key c)\<rparr>"

definition premise_records :: "string \<Rightarrow> string list \<Rightarrow> proof_record list" where
  "premise_records iid parents =
     map (\<lambda>(n, p). \<lparr>pf_inference = iid, pf_ordinal = n, pf_premise = p\<rparr>) (enumerate 0 parents)"

definition record_conclusion ::
    "(string \<Rightarrow> string) \<Rightarrow> statement \<Rightarrow> projection_rule \<Rightarrow> string list \<Rightarrow> assertion_evidence list \<Rightarrow>
     projection \<Rightarrow> projection" where
  "record_conclusion sha c rule parents ev p =
     p\<lparr>pj_assertions := pj_assertions p @ [conclusion_record sha c],
       pj_evidence := pj_evidence p @ ev,
       pj_inferences := pj_inferences p @
         [\<lparr>if_id = ps_id c, if_conclusion = ps_id c, if_ontology = pr_ontology rule,
           if_axiom = pr_axiom rule, if_status = ''accepted''\<rparr>],
       pj_proofs := pj_proofs p @ premise_records (ps_id c) parents\<rparr>"

definition add_conclusion ::
    "(string \<Rightarrow> string) \<Rightarrow> int \<Rightarrow> statement \<Rightarrow> projection_rule \<Rightarrow> string list \<Rightarrow> derivation \<Rightarrow>
     string + derivation \<times> bool" where
  "add_conclusion sha limit candidate rule parents d =
     (let key = statement_key candidate in
      if key \<in> set (dv_known d) then Inr (d, False)
      else if int (length (pj_inferences (dv_out d))) \<ge> limit
      then Inl ''ontology inference limit exceeded''
      else let ps = sort parents; iid = deterministic_inference_id sha (pr_axiom rule) key ps in
        if iid \<in> ps_id ` set (dv_by_id d) then Inl ''deterministic inference id collision''
        else let c = candidate\<lparr>ps_id := iid, ps_status := ''accepted'', ps_polarity := ''affirmed''\<rparr>;
                 ev = inherit_evidence iid ps (dv_evidence d) in
          if ev = [] then Inl ''inference has no inherited evidence''
          else Inr (\<lparr>dv_known = key # dv_known d, dv_by_id = dv_by_id d @ [c],
                     dv_evidence = (dv_evidence d)(iid := ev),
                     dv_out = record_conclusion sha c rule ps ev (dv_out d)\<rparr>, True))"

subsection \<open>Rounds\<close>

text \<open>A loop whose body may return an error; its state carries whether something was added.\<close>

fun each :: "('a \<Rightarrow> 's \<Rightarrow> 'e + 's) \<Rightarrow> 'a list \<Rightarrow> 's \<Rightarrow> 'e + 's" where
  "each f [] s = Inr s"
| "each f (x # xs) s = (case f x s of Inl e \<Rightarrow> Inl e | Inr t \<Rightarrow> each f xs t)"

fun attempt_add ::
    "(string \<Rightarrow> string) \<Rightarrow> int \<Rightarrow> statement \<Rightarrow> projection_rule \<Rightarrow> string list \<Rightarrow> derivation \<times> bool \<Rightarrow>
     string + derivation \<times> bool" where
  "attempt_add sha limit candidate rule parents (d, changed) =
     (case add_conclusion sha limit candidate rule parents d of
        Inl e \<Rightarrow> Inl e
      | Inr (d', added) \<Rightarrow> Inr (d', changed \<or> added))"

definition sorted_statements :: "derivation \<Rightarrow> statement list" where
  "sorted_statements d = sort_key ps_id (dv_by_id d)"

text \<open>Subproperties, inverses and symmetry, which take one premise.\<close>

definition rule_applies :: "projection_rule \<Rightarrow> statement \<Rightarrow> bool" where
  "rule_applies r v \<longleftrightarrow>
     (pr_kind r = ''subproperty_of'' \<or> pr_kind r = ''inverse_of'' \<or> pr_kind r = ''symmetric'') \<and>
     pr_from r = ps_predicate v \<and> (pr_kind r = ''subproperty_of'' \<or> ps_object v \<noteq> [])"

definition rule_conclusion :: "projection_rule \<Rightarrow> statement \<Rightarrow> statement" where
  "rule_conclusion r v =
     (let c = v\<lparr>ps_id := [], ps_predicate := pr_to r\<rparr> in
      if pr_reverse r then c\<lparr>ps_subject := ps_object v, ps_object := ps_subject v\<rparr> else c)"

definition one_premise_pass ::
    "(string \<Rightarrow> string) \<Rightarrow> int \<Rightarrow> projection_rule list \<Rightarrow> statement list \<Rightarrow> derivation \<times> bool \<Rightarrow>
     string + derivation \<times> bool" where
  "one_premise_pass sha limit rules =
     each (\<lambda>v s. if \<not> active v then Inr s
       else each (\<lambda>r s. if \<not> rule_applies r v then Inr s
                        else attempt_add sha limit (rule_conclusion r v) r [ps_id v] s) rules s)"

text \<open>Transitivity, over two premises with the same qualifiers.\<close>

definition link_left :: "projection_rule \<Rightarrow> statement \<Rightarrow> bool" where
  "link_left r l \<longleftrightarrow> active l \<and> ps_predicate l = pr_from r \<and> ps_object l \<noteq> []"

definition link_right :: "projection_rule \<Rightarrow> statement \<Rightarrow> statement \<Rightarrow> bool" where
  "link_right r l x \<longleftrightarrow> active x \<and> ps_predicate x = pr_from r \<and> ps_subject x = ps_object l \<and>
     ps_object x \<noteq> [] \<and> ps_qualifiers x = ps_qualifiers l \<and> intervals_overlap l x"

definition link_conclusion :: "statement \<Rightarrow> statement \<Rightarrow> statement" where
  "link_conclusion l x =
     l\<lparr>ps_id := [], ps_object := ps_object x, ps_from := max_start (ps_from l) (ps_from x),
       ps_to := min_end (ps_to l) (ps_to x),
       ps_confidence := min_confidence (ps_confidence l) (ps_confidence x)\<rparr>"

definition transitive_pass ::
    "(string \<Rightarrow> string) \<Rightarrow> int \<Rightarrow> projection_rule list \<Rightarrow> statement list \<Rightarrow> derivation \<times> bool \<Rightarrow>
     string + derivation \<times> bool" where
  "transitive_pass sha limit rules current =
     each (\<lambda>r s. if pr_kind r \<noteq> ''transitive'' then Inr s
       else each (\<lambda>l s. if \<not> link_left r l then Inr s
         else each (\<lambda>x s. if \<not> link_right r l x then Inr s
           else attempt_add sha limit (link_conclusion l x) r [ps_id l, ps_id x] s) current s)
         current s) rules"

definition derive_round ::
    "(string \<Rightarrow> string) \<Rightarrow> int \<Rightarrow> projection_rule list \<Rightarrow> derivation \<Rightarrow> string + derivation \<times> bool" where
  "derive_round sha limit rules d =
     (case one_premise_pass sha limit rules (sorted_statements d) (d, False) of
        Inl e \<Rightarrow> Inl e
      | Inr (d1, changed) \<Rightarrow>
          transitive_pass sha limit rules (sorted_statements d1) (d1, changed))"

subsection \<open>Saturation\<close>

text \<open>What every addition, and so every loop over additions, does to the number of inferences.\<close>

definition inferred :: "derivation \<Rightarrow> nat" where
  "inferred d = length (pj_inferences (dv_out d))"

definition counted :: "int \<Rightarrow> nat \<Rightarrow> derivation \<times> bool \<Rightarrow> bool" where
  "counted limit n s \<longleftrightarrow> n \<le> inferred (fst s) \<and> (snd s \<longrightarrow> n < inferred (fst s) \<and> int n < limit)"

lemma each_keeps:
  assumes "each f xs s = Inr t" and "P s"
    and "\<And>x s t. x \<in> set xs \<Longrightarrow> P s \<Longrightarrow> f x s = Inr t \<Longrightarrow> P t"
  shows "P t"
  using assms
proof (induction xs arbitrary: s)
  case Nil
  then show ?case by simp
next
  case (Cons x xs)
  then obtain u where u: "f x s = Inr u" "each f xs u = Inr t" by (auto split: sum.splits)
  have "P u" by (rule Cons.prems(3) [OF _ Cons.prems(2) u(1)]) simp
  then show ?case by (rule Cons.IH [OF u(2)]) (rule Cons.prems(3), simp_all)
qed

lemma one_premise_keeps:
  assumes "one_premise_pass sha limit rules vs s = Inr t" and "P s"
    and "\<And>v r s t. v \<in> set vs \<Longrightarrow> active v \<Longrightarrow> r \<in> set rules \<Longrightarrow> rule_applies r v \<Longrightarrow> P s \<Longrightarrow>
      attempt_add sha limit (rule_conclusion r v) r [ps_id v] s = Inr t \<Longrightarrow> P t"
  shows "P t"
  using assms(1,2) unfolding one_premise_pass_def
proof (rule each_keeps)
  fix v s t
  assume v: "v \<in> set vs" and s: "P s" and t: "(if \<not> active v then Inr s
       else each (\<lambda>r s. if \<not> rule_applies r v then Inr s
                        else attempt_add sha limit (rule_conclusion r v) r [ps_id v] s) rules s) = Inr t"
  show "P t"
  proof (cases "active v")
    case True
    with t have "each (\<lambda>r s. if \<not> rule_applies r v then Inr s
        else attempt_add sha limit (rule_conclusion r v) r [ps_id v] s) rules s = Inr t" by simp
    then show ?thesis using s
      by (rule each_keeps) (auto split: if_splits intro: assms(3) [OF v True])
  qed (use t s in simp)
qed

lemma transitive_keeps:
  assumes "transitive_pass sha limit rules vs s = Inr t" and "P s"
    and "\<And>r l x s t. r \<in> set rules \<Longrightarrow> pr_kind r = ''transitive'' \<Longrightarrow> l \<in> set vs \<Longrightarrow> link_left r l \<Longrightarrow>
      x \<in> set vs \<Longrightarrow> link_right r l x \<Longrightarrow> P s \<Longrightarrow>
      attempt_add sha limit (link_conclusion l x) r [ps_id l, ps_id x] s = Inr t \<Longrightarrow> P t"
  shows "P t"
  using assms(1,2) unfolding transitive_pass_def
proof (rule each_keeps)
  let ?inner = "\<lambda>r l x s. if \<not> link_right r l x then Inr s
    else attempt_add sha limit (link_conclusion l x) r [ps_id l, ps_id x] s"
  fix r s t
  assume r: "r \<in> set rules" and s: "P s" and t: "(if pr_kind r \<noteq> ''transitive'' then Inr s
       else each (\<lambda>l s. if \<not> link_left r l then Inr s else each (?inner r l) vs s) vs s) = Inr t"
  show "P t"
  proof (cases "pr_kind r = ''transitive''")
    case True
    with t have "each (\<lambda>l s. if \<not> link_left r l then Inr s else each (?inner r l) vs s) vs s = Inr t"
      by simp
    then show ?thesis using s
    proof (rule each_keeps)
      fix l s t
      assume l: "l \<in> set vs" and s: "P s"
        and t: "(if \<not> link_left r l then Inr s else each (?inner r l) vs s) = Inr t"
      show "P t"
      proof (cases "link_left r l")
        case left: True
        with t have "each (?inner r l) vs s = Inr t" by simp
        then show ?thesis using s
          by (rule each_keeps) (auto split: if_splits intro: assms(3) [OF r True l left])
      qed (use t s in simp)
    qed
  qed (use t s in simp)
qed

lemma attempt_add_counted:
  "attempt_add sha limit c r ps s = Inr t \<Longrightarrow> counted limit n s \<Longrightarrow> counted limit n t"
  by (cases s) (auto simp: counted_def inferred_def add_conclusion_def record_conclusion_def Let_def
      split: sum.splits if_splits)

declare attempt_add.simps [simp del]

lemma one_premise_counted:
  "one_premise_pass sha limit rules vs s = Inr t \<Longrightarrow> counted limit n s \<Longrightarrow> counted limit n t"
  by (erule one_premise_keeps) (auto intro: attempt_add_counted)

lemma transitive_counted:
  "transitive_pass sha limit rules vs s = Inr t \<Longrightarrow> counted limit n s \<Longrightarrow> counted limit n t"
  by (erule transitive_keeps) (auto intro: attempt_add_counted)

lemma round_counted:
  assumes "derive_round sha limit rules d = Inr (d', True)"
  shows "inferred d < inferred d'" and "int (inferred d) < limit"
proof -
  obtain d1 b where one: "one_premise_pass sha limit rules (sorted_statements d) (d, False) = Inr (d1, b)"
    and tr: "transitive_pass sha limit rules (sorted_statements d1) (d1, b) = Inr (d', True)"
    using assms by (auto simp: derive_round_def split: sum.splits)
  have "counted limit (inferred d) (d, False)" by (simp add: counted_def)
  then have "counted limit (inferred d) (d', True)"
    by (rule transitive_counted [OF tr one_premise_counted [OF one]])
  then show "inferred d < inferred d'" "int (inferred d) < limit" by (simp_all add: counted_def)
qed

text \<open>Rounds are repeated while they add something; each adds at least one inference to a bounded list.\<close>

function saturate ::
    "(string \<Rightarrow> string) \<Rightarrow> int \<Rightarrow> projection_rule list \<Rightarrow> derivation \<Rightarrow> string + derivation" where
  "saturate sha limit rules d =
     (case derive_round sha limit rules d of
        Inl e \<Rightarrow> Inl e
      | Inr (d', changed) \<Rightarrow> if changed then saturate sha limit rules d' else Inr d')"
  by pat_completeness auto
termination
proof (relation "measure (\<lambda>(sha, limit, rules, d). nat (limit - int (inferred d)))", goal_cases)
  case (2 sha limit rules d r d' changed)
  then show ?case using round_counted [of sha limit rules d d'] by simp
qed simp

declare saturate.simps [simp del]

text \<open>The maps that the assertions fill: a later row with the same identity replaces an earlier one.\<close>

definition put_statement :: "statement \<Rightarrow> statement list \<Rightarrow> statement list" where
  "put_statement v vs =
     (if ps_id v \<in> ps_id ` set vs then map (\<lambda>u. if ps_id u = ps_id v then v else u) vs else vs @ [v])"

definition load_asserted ::
    "statement list \<Rightarrow> (string \<Rightarrow> assertion_evidence list) \<Rightarrow> string + derivation" where
  "load_asserted asserted evidence =
     (if list_ex (\<lambda>v. ps_id v = [] \<or> ps_subject v = [] \<or> ps_predicate v = []) asserted
      then Inl ''assertions require id, subject, and predicate''
      else Inr \<lparr>dv_known = map statement_key asserted, dv_by_id = fold put_statement asserted [],
                dv_evidence = evidence, dv_out = empty_projection\<rparr>)"

subsection \<open>Classes of entities\<close>

record class_derivation =
  cd_known :: "entity_class list"
  cd_types :: "type_inference list"
  cd_proofs :: "type_proof list"

fun premise_name :: "type_premise \<Rightarrow> string" where
  "premise_name (ByAssertion aid) = aid"
| "premise_name (ByEntityClass e c) = ''entity_class:'' @ e @ '':'' @ c"
| "premise_name (ByTypeInference iid) = iid"

definition add_class ::
    "(string \<Rightarrow> string) \<Rightarrow> int \<Rightarrow> string \<Rightarrow> string \<Rightarrow> projection_rule \<Rightarrow> type_premise \<Rightarrow>
     class_derivation \<Rightarrow> string + class_derivation \<times> bool" where
  "add_class sha limit entity cls rule premise d =
     (let candidate = \<lparr>ec_entity = entity, ec_class = cls, ec_inference = []\<rparr>;
          key = class_key candidate in
      if key \<in> class_key ` set (cd_known d) then Inr (d, False)
      else if int (length (cd_types d)) \<ge> limit then Inl ''ontology inference limit exceeded''
      else let iid = deterministic_inference_id sha (pr_axiom rule) (''rdf:type'' @ NUL # key)
                       [premise_name premise] in
        Inr (\<lparr>cd_known = cd_known d @ [candidate\<lparr>ec_inference := iid\<rparr>],
              cd_types = cd_types d @
                [\<lparr>ti_id = iid, ti_entity = entity, ti_class = cls, ti_ontology = pr_ontology rule,
                  ti_axiom = pr_axiom rule, ti_status = ''accepted''\<rparr>],
              cd_proofs = cd_proofs d @ [\<lparr>tp_inference = iid, tp_ordinal = 0, tp_premise = premise\<rparr>]\<rparr>,
             True))"

fun attempt_class ::
    "(string \<Rightarrow> string) \<Rightarrow> int \<Rightarrow> string \<Rightarrow> string \<Rightarrow> projection_rule \<Rightarrow> type_premise \<Rightarrow>
     class_derivation \<times> bool \<Rightarrow> string + class_derivation \<times> bool" where
  "attempt_class sha limit entity cls rule premise (d, changed) =
     (case add_class sha limit entity cls rule premise d of
        Inl e \<Rightarrow> Inl e
      | Inr (d', added) \<Rightarrow> Inr (d', changed \<or> added))"

definition typed_entity :: "projection_rule \<Rightarrow> statement \<Rightarrow> string option" where
  "typed_entity r v =
     (if pr_kind r = ''domain'' \<and> pr_from r = ps_predicate v then Some (ps_subject v)
      else if pr_kind r = ''range'' \<and> pr_from r = ps_predicate v \<and> ps_object v \<noteq> []
      then Some (ps_object v) else None)"

definition domain_range_pass ::
    "(string \<Rightarrow> string) \<Rightarrow> int \<Rightarrow> projection_rule list \<Rightarrow> statement list \<Rightarrow>
     class_derivation \<times> bool \<Rightarrow> string + class_derivation \<times> bool" where
  "domain_range_pass sha limit rules =
     each (\<lambda>v s. if \<not> active v then Inr s
       else each (\<lambda>r s. case typed_entity r v of None \<Rightarrow> Inr s
         | Some e \<Rightarrow> attempt_class sha limit e (pr_to r) r (ByAssertion (ps_id v)) s) rules s)"

definition class_premise :: "entity_class \<Rightarrow> type_premise" where
  "class_premise c =
     (if ec_inference c = [] then ByEntityClass (ec_entity c) (ec_class c)
      else ByTypeInference (ec_inference c))"

definition subclass_pass ::
    "(string \<Rightarrow> string) \<Rightarrow> int \<Rightarrow> projection_rule list \<Rightarrow> entity_class list \<Rightarrow>
     class_derivation \<times> bool \<Rightarrow> string + class_derivation \<times> bool" where
  "subclass_pass sha limit rules =
     each (\<lambda>c s. each (\<lambda>r s.
       if pr_kind r \<noteq> ''subclass_of'' \<or> pr_from r \<noteq> ec_class c then Inr s
       else attempt_class sha limit (ec_entity c) (pr_to r) r (class_premise c) s) rules s)"

definition sorted_classes :: "class_derivation \<Rightarrow> entity_class list" where
  "sorted_classes d = sort_key (\<lambda>c. (ec_entity c, ec_class c)) (cd_known d)"

definition subclass_round ::
    "(string \<Rightarrow> string) \<Rightarrow> int \<Rightarrow> projection_rule list \<Rightarrow> class_derivation \<Rightarrow>
     string + class_derivation \<times> bool" where
  "subclass_round sha limit rules d = subclass_pass sha limit rules (sorted_classes d) (d, False)"

lemma domain_range_keeps:
  assumes "domain_range_pass sha limit rules vs s = Inr t" and "P s"
    and "\<And>v r e s t. v \<in> set vs \<Longrightarrow> active v \<Longrightarrow> r \<in> set rules \<Longrightarrow> typed_entity r v = Some e \<Longrightarrow> P s \<Longrightarrow>
      attempt_class sha limit e (pr_to r) r (ByAssertion (ps_id v)) s = Inr t \<Longrightarrow> P t"
  shows "P t"
  using assms(1,2) unfolding domain_range_pass_def
proof (rule each_keeps)
  let ?body = "\<lambda>v r s. case typed_entity r v of None \<Rightarrow> Inr s
    | Some e \<Rightarrow> attempt_class sha limit e (pr_to r) r (ByAssertion (ps_id v)) s"
  fix v s t
  assume v: "v \<in> set vs" and s: "P s"
    and t: "(if \<not> active v then Inr s else each (?body v) rules s) = Inr t"
  show "P t"
  proof (cases "active v")
    case True
    with t have "each (?body v) rules s = Inr t" by simp
    then show ?thesis using s
      by (rule each_keeps) (auto split: option.splits intro: assms(3) [OF v True])
  qed (use t s in simp)
qed

lemma subclass_keeps:
  assumes "subclass_pass sha limit rules cs s = Inr t" and "P s"
    and "\<And>c r s t. c \<in> set cs \<Longrightarrow> r \<in> set rules \<Longrightarrow> pr_kind r = ''subclass_of'' \<Longrightarrow>
      pr_from r = ec_class c \<Longrightarrow> P s \<Longrightarrow>
      attempt_class sha limit (ec_entity c) (pr_to r) r (class_premise c) s = Inr t \<Longrightarrow> P t"
  shows "P t"
  using assms(1,2) unfolding subclass_pass_def
proof (rule each_keeps)
  let ?body = "\<lambda>c r s. if pr_kind r \<noteq> ''subclass_of'' \<or> pr_from r \<noteq> ec_class c then Inr s
    else attempt_class sha limit (ec_entity c) (pr_to r) r (class_premise c) s"
  fix c s t
  assume c: "c \<in> set cs" and s: "P s" and t: "each (?body c) rules s = Inr t"
  show "P t"
    using t s by (rule each_keeps) (auto split: if_splits intro: assms(3) [OF c])
qed

definition class_counted :: "int \<Rightarrow> nat \<Rightarrow> class_derivation \<times> bool \<Rightarrow> bool" where
  "class_counted limit n s \<longleftrightarrow> n \<le> length (cd_types (fst s)) \<and>
     (snd s \<longrightarrow> n < length (cd_types (fst s)) \<and> int n < limit)"

lemma attempt_class_counted:
  "attempt_class sha limit e c r p s = Inr t \<Longrightarrow> class_counted limit n s \<Longrightarrow> class_counted limit n t"
  by (cases s) (auto simp: class_counted_def add_class_def Let_def split: sum.splits if_splits)

declare attempt_class.simps [simp del]

lemma subclass_round_counted:
  assumes "subclass_round sha limit rules d = Inr (d', True)"
  shows "length (cd_types d) < length (cd_types d')" and "int (length (cd_types d)) < limit"
proof -
  have "class_counted limit (length (cd_types d)) (d', True)"
    using assms unfolding subclass_round_def
    by (rule subclass_keeps) (auto simp: class_counted_def [of _ _ "(d, False)"] intro: attempt_class_counted)
  then show "length (cd_types d) < length (cd_types d')" "int (length (cd_types d)) < limit"
    by (simp_all add: class_counted_def)
qed

function saturate_classes ::
    "(string \<Rightarrow> string) \<Rightarrow> int \<Rightarrow> projection_rule list \<Rightarrow> class_derivation \<Rightarrow> string + class_derivation" where
  "saturate_classes sha limit rules d =
     (case subclass_round sha limit rules d of
        Inl e \<Rightarrow> Inl e
      | Inr (d', changed) \<Rightarrow> if changed then saturate_classes sha limit rules d' else Inr d')"
  by pat_completeness auto
termination
proof (relation "measure (\<lambda>(sha, limit, rules, d). nat (limit - int (length (cd_types d))))", goal_cases)
  case (2 sha limit rules d r d' changed)
  then show ?case using subclass_round_counted [of sha limit rules d d'] by simp
qed simp

declare saturate_classes.simps [simp del]

definition put_class :: "entity_class \<Rightarrow> entity_class list \<Rightarrow> entity_class list" where
  "put_class v vs =
     (if class_key v \<in> class_key ` set vs
      then map (\<lambda>u. if class_key u = class_key v then v else u) vs else vs @ [v])"

definition derive_knowledge_type_projection ::
    "(string \<Rightarrow> string) \<Rightarrow> entity_class list \<Rightarrow> statement list \<Rightarrow> projection_rule list \<Rightarrow> int \<Rightarrow>
     string + type_inference list \<times> type_proof list" where
  "derive_knowledge_type_projection sha explicit statements rules limit =
     (if limit < 0 then Inl ''ontology inference limit exceeded''
      else if list_ex (\<lambda>c. ec_entity c = [] \<or> ec_class c = []) explicit
      then Inl ''entity classifications require entity and class''
      else case domain_range_pass sha limit rules statements
             (\<lparr>cd_known = fold put_class explicit [], cd_types = [], cd_proofs = []\<rparr>, False) of
        Inl e \<Rightarrow> Inl e
      | Inr (d, _) \<Rightarrow>
          (case saturate_classes sha limit rules d of
             Inl e \<Rightarrow> Inl e
           | Inr d' \<Rightarrow> Inr (sort_key ti_id (cd_types d'),
               sort_key (\<lambda>p. (tp_inference p, tp_ordinal p)) (cd_proofs d'))))"

subsection \<open>The projection\<close>

definition default_inference_limit :: int where
  "default_inference_limit = 10000"

definition derive_knowledge_projection ::
    "(string \<Rightarrow> string) \<Rightarrow> statement list \<Rightarrow> (string \<Rightarrow> assertion_evidence list) \<Rightarrow>
     entity_class list \<Rightarrow> projection_rule list \<Rightarrow> int \<Rightarrow> string + projection \<times> statement list" where
  "derive_knowledge_projection sha asserted evidence classes rules bound =
     (let limit = (if bound \<le> 0 then default_inference_limit else bound) in
      case load_asserted asserted evidence of
        Inl e \<Rightarrow> Inl e
      | Inr d0 \<Rightarrow>
          (case saturate sha limit rules d0 of
             Inl e \<Rightarrow> Inl e
           | Inr d \<Rightarrow>
               (case derive_knowledge_type_projection sha classes (sorted_statements d) rules
                       (limit - int (inferred d)) of
                  Inl e \<Rightarrow> Inl e
                | Inr (types, proofs) \<Rightarrow>
                    Inr ((dv_out d)\<lparr>pj_types := pj_types (dv_out d) @ types,
                                    pj_type_proofs := pj_type_proofs (dv_out d) @ proofs\<rparr>,
                         sorted_statements d))))"

subsection \<open>Conflicts of functional properties\<close>

fun ordered_pairs :: "'a list \<Rightarrow> ('a \<times> 'a) list" where
  "ordered_pairs [] = []"
| "ordered_pairs (x # xs) = map (Pair x) xs @ ordered_pairs xs"

definition functional_statement :: "(string \<Rightarrow> bool) \<Rightarrow> statement \<Rightarrow> bool" where
  "functional_statement functional v \<longleftrightarrow>
     functional (ps_predicate v) \<and> ps_polarity v = ''affirmed'' \<and>
     (ps_status v = ''accepted'' \<or> ps_status v = ''disputed'')"

definition group_key :: "statement \<Rightarrow> string" where
  "group_key v = ps_subject v @ NUL # ps_predicate v @ NUL # ps_qualifiers v"

definition conflict_of :: "(string \<Rightarrow> string) \<Rightarrow> statement \<Rightarrow> statement \<Rightarrow> conflict_record" where
  "conflict_of sha l r =
     \<lparr>cf_id = ''kconf_'' @ take 32
        (sha (ps_id l @ NUL # ps_id r @ NUL # ps_predicate l @ NUL # ps_qualifiers l)),
      cf_left = ps_id l, cf_right = ps_id r,
      cf_reason = ''functional property has different values under identical qualifiers and overlapping validity'',
      cf_status = ''open''\<rparr>"

definition excludes :: "statement \<times> statement \<Rightarrow> bool" where
  "excludes p \<longleftrightarrow> \<not> (object_key (fst p) = object_key (snd p) \<or> \<not> intervals_overlap (fst p) (snd p))"

definition detect_projection_conflicts ::
    "(string \<Rightarrow> string) \<Rightarrow> (string \<Rightarrow> bool) \<Rightarrow> statement list \<Rightarrow> conflict_record list" where
  "detect_projection_conflicts sha functional statements =
     (let vs = filter (functional_statement functional) statements;
          group = (\<lambda>k. sort_key ps_id (filter (\<lambda>v. group_key v = k) vs)) in
      sort_key cf_id (concat (map (\<lambda>k.
        map (\<lambda>(l, r). conflict_of sha l r) (filter excludes (ordered_pairs (group k))))
        (remdups (map group_key vs)))))"

definition conflict_pair :: "string \<Rightarrow> string \<Rightarrow> string" where
  "conflict_pair l r = (if r < l then r @ NUL # l else l @ NUL # r)"

abbreviation pair_of :: "conflict_record \<Rightarrow> string" where
  "pair_of c \<equiv> conflict_pair (cf_left c) (cf_right c)"

text \<open>A stored conflict stays when it is still found, once; the rest is to be written.\<close>

fun reconcile_each ::
    "conflict_record list \<Rightarrow> conflict_record list \<Rightarrow> conflict_record list \<times> conflict_record list" where
  "reconcile_each [] desired = ([], desired)"
| "reconcile_each (c # cs) desired =
     (if pair_of c \<in> pair_of ` set desired
      then let (kept, rest) = reconcile_each cs (filter (\<lambda>d. pair_of d \<noteq> pair_of c) desired) in
        (c # kept, rest)
      else reconcile_each cs desired)"

definition put_desired :: "conflict_record \<Rightarrow> conflict_record list \<Rightarrow> conflict_record list" where
  "put_desired c ds = filter (\<lambda>d. pair_of d \<noteq> pair_of c) ds @ [c]"

definition reconcile_projection_conflicts ::
    "conflict_record list \<Rightarrow> conflict_record list \<Rightarrow> conflict_record list \<times> conflict_record list" where
  "reconcile_projection_conflicts stored desired =
     (let (kept, rest) = reconcile_each stored (fold put_desired desired []) in
      (kept, sort_key cf_id rest))"

subsection \<open>Loading the ontology and the assertions\<close>

text \<open>
  The axioms and functional terms of an ontology and of the ontologies it imports, except where it
  declares a term of that name itself; and the assertions of a generation that are no conclusions.
  \<open>canonical\<close> re-encodes a JSON text and \<open>instant\<close> reads an RFC 3339 time.
\<close>

record axiom_row =
  ax_ontology :: string
  ax_id :: string
  ax_type :: string
  ax_subject :: string
  ax_object :: string

record term_row =
  tm_ontology :: string
  tm_key :: string
  tm_functional :: bool

record ontology_tables =
  on_axioms :: "axiom_row list"
  on_imports :: "(string \<times> string) list"
  on_terms :: "term_row list"

definition visible_from :: "ontology_tables \<Rightarrow> string \<Rightarrow> string \<Rightarrow> string \<Rightarrow> bool" where
  "visible_from t oid source key \<longleftrightarrow>
     source = oid \<or> (oid, source) \<in> set (on_imports t) \<and>
       \<not> list_ex (\<lambda>own. tm_ontology own = oid \<and> tm_key own = key) (on_terms t)"

definition rule_of :: "axiom_row \<Rightarrow> projection_rule" where
  "rule_of a = \<lparr>pr_ontology = ax_ontology a, pr_axiom = ax_id a, pr_kind = ax_type a,
     pr_from = ax_subject a, pr_to = ax_object a, pr_reverse = False\<rparr>"

definition expand_axiom :: "axiom_row \<Rightarrow> projection_rule list" where
  "expand_axiom a =
     (let r = rule_of a; complete = ax_subject a \<noteq> [] \<and> ax_object a \<noteq> [] in
      if ax_type a \<in> {''subclass_of'', ''domain'', ''range'', ''subproperty_of''}
      then (if complete then [r] else [])
      else if ax_type a = ''inverse_of''
      then (if complete
            then [r\<lparr>pr_reverse := True\<rparr>, r\<lparr>pr_from := ax_object a, pr_to := ax_subject a, pr_reverse := True\<rparr>]
            else [])
      else if ax_type a = ''symmetric'' then [r\<lparr>pr_to := ax_subject a, pr_reverse := True\<rparr>]
      else if ax_type a = ''transitive'' then [r\<lparr>pr_to := ax_subject a\<rparr>]
      else [])"

definition load_projection_rules :: "ontology_tables \<Rightarrow> string \<Rightarrow> projection_rule list" where
  "load_projection_rules t oid =
     sort_key (\<lambda>r. pr_axiom r @ NUL # pr_from r @ NUL # pr_to r)
       (concat (map expand_axiom
         (sort_key (\<lambda>a. (ax_ontology a \<noteq> oid, ax_id a))
           (filter (\<lambda>a. visible_from t oid (ax_ontology a) (ax_subject a)) (on_axioms t)))))"

definition load_functional :: "ontology_tables \<Rightarrow> string \<Rightarrow> string \<Rightarrow> bool" where
  "load_functional t oid key =
     list_ex (\<lambda>m. tm_key m = key \<and> tm_functional m \<and> visible_from t oid (tm_ontology m) key) (on_terms t)"

record assertion_row =
  kr_id :: string
  kr_subject :: string
  kr_predicate :: string
  kr_object :: "string option"
  kr_literal :: string
  kr_qualifiers :: string
  kr_polarity :: string
  kr_status :: string
  kr_from :: "string option"
  kr_to :: "string option"
  kr_confidence :: rat

definition read_boundary ::
    "(string \<Rightarrow> string + gotime) \<Rightarrow> string option \<Rightarrow> string + gotime option" where
  "read_boundary instant v =
     (case v of None \<Rightarrow> Inr None
      | Some t \<Rightarrow> if t = [] then Inr None
                  else (case instant t of Inl e \<Rightarrow> Inl e | Inr u \<Rightarrow> Inr (Some u)))"

definition read_statement ::
    "(string \<Rightarrow> string + string) \<Rightarrow> (string \<Rightarrow> string + gotime) \<Rightarrow> assertion_row \<Rightarrow> string + statement" where
  "read_statement canonical instant k =
     (case canonical (kr_qualifiers k) of Inl e \<Rightarrow> Inl (''assertion qualifiers: '' @ e)
      | Inr q \<Rightarrow> (case if kr_literal k = [] then Inr [] else canonical (kr_literal k) of
          Inl e \<Rightarrow> Inl (''assertion literal: '' @ e)
        | Inr lit \<Rightarrow> (case read_boundary instant (kr_from k) of Inl e \<Rightarrow> Inl e
          | Inr f \<Rightarrow> (case read_boundary instant (kr_to k) of Inl e \<Rightarrow> Inl e
            | Inr t \<Rightarrow> Inr \<lparr>ps_id = kr_id k, ps_subject = kr_subject k, ps_predicate = kr_predicate k,
                ps_object = (case kr_object k of None \<Rightarrow> [] | Some o' \<Rightarrow> o'), ps_literal = lit,
                ps_qualifiers = q, ps_polarity = kr_polarity k, ps_status = kr_status k,
                ps_from = f, ps_to = t, ps_confidence = kr_confidence k\<rparr>))))"

fun read_each :: "('a \<Rightarrow> 'e + 'b) \<Rightarrow> 'a list \<Rightarrow> 'e + 'b list" where
  "read_each f [] = Inr []"
| "read_each f (x # xs) =
     (case f x of Inl e \<Rightarrow> Inl e
      | Inr y \<Rightarrow> (case read_each f xs of Inl e \<Rightarrow> Inl e | Inr ys \<Rightarrow> Inr (y # ys)))"

definition load_projection_statements ::
    "(string \<Rightarrow> string + string) \<Rightarrow> (string \<Rightarrow> string + gotime) \<Rightarrow> assertion_row list \<Rightarrow>
     inference_record list \<Rightarrow> string + statement list" where
  "load_projection_statements canonical instant rows inferences =
     read_each (read_statement canonical instant)
       (sort_key kr_id (filter (\<lambda>k. kr_id k \<notin> if_conclusion ` set inferences) rows))"

text \<open>
  The whole step for a generation: the projection to append, if it holds anything, and the stored
  conflicts that stay. \<open>stored\<close> are the conflicts, \<open>inferences\<close> the inferences of the generation.
\<close>

definition materialize_ontology_projection ::
    "(string \<Rightarrow> string) \<Rightarrow> (string \<Rightarrow> string + string) \<Rightarrow> (string \<Rightarrow> string + gotime) \<Rightarrow> ontology_tables \<Rightarrow>
     string \<Rightarrow> assertion_row list \<Rightarrow> inference_record list \<Rightarrow> (string \<Rightarrow> assertion_evidence list) \<Rightarrow>
     entity_class list \<Rightarrow> conflict_record list \<Rightarrow> string + projection option \<times> conflict_record list" where
  "materialize_ontology_projection sha canonical instant t oid rows inferences evidence classes stored =
     (case load_projection_statements canonical instant rows inferences of
        Inl e \<Rightarrow> Inl e
      | Inr statements \<Rightarrow>
          (case derive_knowledge_projection sha statements evidence
                  (sort_key ec_entity classes) (load_projection_rules t oid) default_inference_limit of
             Inl e \<Rightarrow> Inl e
           | Inr (p, every) \<Rightarrow>
               (let (kept, remaining) = reconcile_projection_conflicts stored
                      (detect_projection_conflicts sha (load_functional t oid) every)
                in Inr (if pj_assertions p = [] \<and> remaining = [] \<and> pj_types p = [] then None
                        else Some (p\<lparr>pj_conflicts := remaining\<rparr>), kept))))"

end
