(* ===== verification/Projection_Closure.thy ===== *)
theory Projection_Closure
  imports Knowledge_Projection
begin

section \<open>What a projection entails\<close>

text \<open>
  The rounds of the reasoner against the least set of facts closed under the axioms: what was
  derived is entailed, and nothing entailed is missing. The keys of statements determine them
  when no text contains a NUL byte, so a repeated key is a repeated fact.
\<close>

subsection \<open>Keys determine facts\<close>

text \<open>What a statement says, without its identity, its status and its confidence.\<close>

definition fact :: "statement \<Rightarrow> statement" where
  "fact v = v\<lparr>ps_id := [], ps_polarity := ''affirmed'', ps_status := ''accepted'', ps_confidence := 0\<rparr>"

definition clean_time :: "gotime option \<Rightarrow> bool" where
  "clean_time t = (case t of None \<Rightarrow> True | Some u \<Rightarrow> valid_time u)"

definition clean_statement :: "statement \<Rightarrow> bool" where
  "clean_statement v \<longleftrightarrow> NUL \<notin> set (ps_subject v) \<and> NUL \<notin> set (ps_predicate v) \<and>
     NUL \<notin> set (ps_object v) \<and> NUL \<notin> set (ps_literal v) \<and> NUL \<notin> set (ps_qualifiers v) \<and>
     clean_time (ps_from v) \<and> clean_time (ps_to v)"

definition clean_rule :: "projection_rule \<Rightarrow> bool" where
  "clean_rule r \<longleftrightarrow> NUL \<notin> set (pr_to r)"

lemma NUL_split:
  "NUL \<notin> set a \<Longrightarrow> NUL \<notin> set b \<Longrightarrow> a @ NUL # x = b @ NUL # y \<longleftrightarrow> a = b \<and> x = y"
proof (induction a arbitrary: b)
  case Nil
  then show ?case by (cases b) auto
next
  case (Cons c a)
  then show ?case by (cases b) auto
qed

lemma digit_not_NUL: "n < 10 \<Longrightarrow> digit_char n \<noteq> NUL"
  using digit_char_inj [of n 0]
  by (cases "n = 0") (auto simp: digit_char_code nth_Cons' split: if_splits)

lemma pad_no_NUL [simp]: "NUL \<notin> set (pad w n)"
proof (induction w n rule: pad.induct)
  case (2 w n)
  have "digit_char (n mod 10) \<noteq> NUL" by (rule digit_not_NUL) simp
  then show ?case using 2 by (auto simp: pad.simps)
qed (simp add: pad.simps)

lemma time_no_NUL [simp]: "NUL \<notin> set (optional_time t)"
  by (auto simp: optional_time_def canonical_knowledge_time_def date_clock_def split: option.split)

lemma optional_time_inj:
  assumes "optional_time t = optional_time u" and "clean_time t" and "clean_time u" shows "t = u"
proof -
  have ne: "canonical_knowledge_time x \<noteq> []" "[] \<noteq> canonical_knowledge_time x" for x
    by (simp_all add: canonical_knowledge_time_def)
  show ?thesis
  proof (cases t)
    case None
    then show ?thesis using assms(1) ne by (cases u) (auto simp: optional_time_def)
  next
    case (Some a)
    then obtain b where b: "u = Some b" using assms(1) ne by (cases u) (auto simp: optional_time_def)
    have e: "canonical_knowledge_time a = canonical_knowledge_time b" and v: "valid_time a" "valid_time b"
      using assms Some b by (simp_all add: optional_time_def clean_time_def)
    have "\<not> time_before a b" "\<not> time_before b a"
      using canonical_time_order [OF v] canonical_time_order [OF v(2,1)] e by simp_all
    then show ?thesis using time_before_total [of a b] Some b by simp
  qed
qed

lemma key_fact [simp]: "statement_key (fact v) = statement_key v"
  by (simp add: statement_key_def fact_def)

lemma statement_key_inj:
  assumes "statement_key u = statement_key v" and "clean_statement u" and "clean_statement v"
  shows "fact u = fact v"
proof -
  have "ps_subject u = ps_subject v" "ps_predicate u = ps_predicate v" "ps_object u = ps_object v"
    "ps_literal u = ps_literal v" "ps_qualifiers u = ps_qualifiers v"
    "optional_time (ps_from u) = optional_time (ps_from v)"
    "optional_time (ps_to u) = optional_time (ps_to v)"
    using assms by (simp_all add: statement_key_def clean_statement_def NUL_split)
  moreover from this have "ps_from u = ps_from v" "ps_to u = ps_to v"
    using assms(2,3) by (auto simp: clean_statement_def intro: optional_time_inj)
  ultimately show ?thesis by (simp add: fact_def)
qed

lemma fact_conclusions [simp]:
  "fact (rule_conclusion r v) = rule_conclusion r (fact v)"
  "fact (link_conclusion l x) = link_conclusion (fact l) (fact x)"
  "rule_applies r (fact v) = rule_applies r v"
  "active (fact v)"
  "active v \<Longrightarrow> link_left r (fact v) = link_left r v"
  "active x \<Longrightarrow> link_right r (fact l) (fact x) = link_right r l x"
  "fact (v\<lparr>ps_id := i, ps_status := st, ps_polarity := po\<rparr>) = fact v"
  by (auto simp: fact_def rule_conclusion_def link_conclusion_def rule_applies_def active_def
      link_left_def link_right_def intervals_overlap_def min_confidence_def Let_def)

lemma clean_fact [simp]: "clean_statement (fact v) = clean_statement v"
  by (simp add: clean_statement_def fact_def)

lemma clean_conclusions:
  "clean_statement v \<Longrightarrow> clean_rule r \<Longrightarrow> clean_statement (rule_conclusion r v)"
  "clean_statement l \<Longrightarrow> clean_statement x \<Longrightarrow> clean_statement (link_conclusion l x)"
  by (auto simp: clean_statement_def clean_rule_def rule_conclusion_def link_conclusion_def Let_def
      max_start_def min_end_def split: option.split)

subsection \<open>Entailment\<close>

text \<open>
  The least set of facts that contains the accepted, affirmed assertions and is closed under the
  axioms, where a fact that an inactive assertion already states is not concluded.
\<close>

inductive entailed :: "projection_rule list \<Rightarrow> string set \<Rightarrow> statement set \<Rightarrow> statement \<Rightarrow> bool"
  for rules blocked given where
  asserted: "v \<in> given \<Longrightarrow> entailed rules blocked given v"
| one_premise: "entailed rules blocked given v \<Longrightarrow> r \<in> set rules \<Longrightarrow> rule_applies r v \<Longrightarrow>
    statement_key (rule_conclusion r v) \<notin> blocked \<Longrightarrow> entailed rules blocked given (rule_conclusion r v)"
| chain: "entailed rules blocked given l \<Longrightarrow> entailed rules blocked given x \<Longrightarrow> r \<in> set rules \<Longrightarrow>
    pr_kind r = ''transitive'' \<Longrightarrow> link_left r l \<Longrightarrow> link_right r l x \<Longrightarrow>
    statement_key (link_conclusion l x) \<notin> blocked \<Longrightarrow> entailed rules blocked given (link_conclusion l x)"

definition facts_of :: "statement list \<Rightarrow> statement set" where
  "facts_of vs = fact ` {v \<in> set vs. active v}"

definition blocked_keys :: "statement list \<Rightarrow> string set" where
  "blocked_keys vs = statement_key ` {v \<in> set vs. \<not> active v}"

abbreviation entailed_by :: "projection_rule list \<Rightarrow> statement list \<Rightarrow> statement \<Rightarrow> bool" where
  "entailed_by rules asserted \<equiv> entailed rules (blocked_keys asserted) (facts_of asserted)"

subsection \<open>Nothing is derived that is not entailed\<close>

definition sound_state :: "projection_rule list \<Rightarrow> statement list \<Rightarrow> derivation \<Rightarrow> bool" where
  "sound_state rules asserted d \<longleftrightarrow>
     set (dv_known d) = statement_key ` set (dv_by_id d) \<and> set asserted \<subseteq> set (dv_by_id d) \<and>
     distinct (map ps_id (dv_by_id d)) \<and>
     (\<forall>v \<in> set (dv_by_id d). clean_statement v \<and>
        (v \<in> set asserted \<or> active v \<and> entailed_by rules asserted (fact v)))"

definition vouched :: "projection_rule list \<Rightarrow> statement list \<Rightarrow> statement \<Rightarrow> bool" where
  "vouched rules asserted v \<longleftrightarrow> clean_statement v \<and> (active v \<longrightarrow> entailed_by rules asserted (fact v))"

lemma given_fact: "v \<in> set asserted \<Longrightarrow> active v \<Longrightarrow> fact v \<in> facts_of asserted"
  by (auto simp: facts_of_def)

lemma state_vouched: "sound_state rules asserted d \<Longrightarrow> v \<in> set (dv_by_id d) \<Longrightarrow> vouched rules asserted v"
  unfolding sound_state_def vouched_def by (blast intro: entailed.asserted given_fact)

lemma set_sorted_statements [simp]: "set (sorted_statements d) = set (dv_by_id d)"
  by (simp add: sorted_statements_def)

lemma add_conclusion_result:
  assumes "add_conclusion sha limit c r ps d = Inr (d', added)"
  shows "added = (statement_key c \<notin> set (dv_known d))" and "\<not> added \<Longrightarrow> d' = d"
    and "added \<Longrightarrow> \<exists>v. fact v = fact c \<and> active v \<and> (clean_statement v \<longleftrightarrow> clean_statement c) \<and>
      dv_by_id d' = dv_by_id d @ [v] \<and> dv_known d' = statement_key v # dv_known d \<and>
      ps_id v \<notin> ps_id ` set (dv_by_id d)"
proof -
  show "added = (statement_key c \<notin> set (dv_known d))" "\<not> added \<Longrightarrow> d' = d"
    using assms by (auto simp: add_conclusion_def Let_def split: if_splits)
  assume added
  then have new: "statement_key c \<notin> set (dv_known d)"
    using assms by (auto simp: add_conclusion_def Let_def split: if_splits)
  define i where "i = deterministic_inference_id sha (pr_axiom r) (statement_key c) (sort ps)"
  let ?v = "c\<lparr>ps_id := i, ps_status := ''accepted'', ps_polarity := ''affirmed''\<rparr>"
  have "i \<notin> ps_id ` set (dv_by_id d)" "dv_by_id d' = dv_by_id d @ [?v]"
    "dv_known d' = statement_key c # dv_known d"
    using assms new by (auto simp: add_conclusion_def Let_def i_def split: if_splits)
  moreover have "statement_key ?v = statement_key c" by (simp add: statement_key_def)
  moreover have "active ?v" "clean_statement ?v = clean_statement c"
    by (simp_all add: active_def clean_statement_def)
  ultimately show "\<exists>v. fact v = fact c \<and> active v \<and> (clean_statement v \<longleftrightarrow> clean_statement c) \<and>
      dv_by_id d' = dv_by_id d @ [v] \<and> dv_known d' = statement_key v # dv_known d \<and>
      ps_id v \<notin> ps_id ` set (dv_by_id d)"
    by (intro exI [of _ ?v]) simp
qed

lemma add_keeps_sound:
  assumes "add_conclusion sha limit c r ps d = Inr (d', added)" and s: "sound_state rules asserted d"
    and "clean_statement c"
    and e: "statement_key c \<notin> blocked_keys asserted \<Longrightarrow> entailed_by rules asserted (fact c)"
  shows "sound_state rules asserted d'"
proof (cases added)
  case True
  obtain v where v: "fact v = fact c" "active v" "clean_statement v"
    "dv_by_id d' = dv_by_id d @ [v]" "dv_known d' = statement_key v # dv_known d"
    "ps_id v \<notin> ps_id ` set (dv_by_id d)"
    using add_conclusion_result(3) [OF assms(1) True] assms(3) by auto
  have "statement_key c \<notin> set (dv_known d)" using add_conclusion_result(1) [OF assms(1)] True by simp
  then have "statement_key c \<notin> blocked_keys asserted"
    using s by (auto simp: sound_state_def blocked_keys_def)
  then have "entailed_by rules asserted (fact v)" using e v(1) by simp
  then show ?thesis using s v by (auto simp: sound_state_def)
next
  case False
  then show ?thesis using add_conclusion_result(2) [OF assms(1)] s by simp
qed

lemma attempt_keeps_sound:
  assumes "attempt_add sha limit c r ps s = Inr t" and "sound_state rules asserted (fst s)"
    and "clean_statement c"
    and "statement_key c \<notin> blocked_keys asserted \<Longrightarrow> entailed_by rules asserted (fact c)"
  shows "sound_state rules asserted (fst t)"
  using assms by (cases s) (auto simp: attempt_add.simps split: sum.splits intro: add_keeps_sound)

lemma one_premise_sound:
  assumes "one_premise_pass sha limit rules vs s = Inr t" and "sound_state rules asserted (fst s)"
    and vs: "\<And>v. v \<in> set vs \<Longrightarrow> vouched rules asserted v" and "\<And>r. r \<in> set rules \<Longrightarrow> clean_rule r"
  shows "sound_state rules asserted (fst t)"
  using assms(1,2)
proof (rule one_premise_keeps)
  fix v r s t
  assume v: "v \<in> set vs" "active v" and r: "r \<in> set rules" "rule_applies r v"
    and s: "sound_state rules asserted (fst s)"
    and t: "attempt_add sha limit (rule_conclusion r v) r [ps_id v] s = Inr t"
  show "sound_state rules asserted (fst t)"
    using t s
  proof (rule attempt_keeps_sound)
    show "clean_statement (rule_conclusion r v)"
      using vs [OF v(1)] assms(4) [OF r(1)] by (simp add: vouched_def clean_conclusions)
    assume "statement_key (rule_conclusion r v) \<notin> blocked_keys asserted"
    then have "statement_key (rule_conclusion r (fact v)) \<notin> blocked_keys asserted"
      by (metis key_fact fact_conclusions(1))
    then show "entailed_by rules asserted (fact (rule_conclusion r v))"
      using vs [OF v(1)] v(2) r by (simp add: vouched_def entailed.one_premise)
  qed
qed

lemma link_parts: "link_left r l \<Longrightarrow> active l" "link_right r l x \<Longrightarrow> active x"
  by (simp_all add: link_left_def link_right_def)

lemma transitive_sound:
  assumes "transitive_pass sha limit rules vs s = Inr t" and "sound_state rules asserted (fst s)"
    and vs: "\<And>v. v \<in> set vs \<Longrightarrow> vouched rules asserted v"
  shows "sound_state rules asserted (fst t)"
  using assms(1,2)
proof (rule transitive_keeps)
  fix r l x s t
  assume r: "r \<in> set rules" "pr_kind r = ''transitive''" and l: "l \<in> set vs" "link_left r l"
    and x: "x \<in> set vs" "link_right r l x" and s: "sound_state rules asserted (fst s)"
    and t: "attempt_add sha limit (link_conclusion l x) r [ps_id l, ps_id x] s = Inr t"
  have a: "active l" "active x" by (rule link_parts, rule l x)+
  show "sound_state rules asserted (fst t)"
    using t s
  proof (rule attempt_keeps_sound)
    show "clean_statement (link_conclusion l x)"
      using vs [OF l(1)] vs [OF x(1)] by (simp add: vouched_def clean_conclusions)
    assume "statement_key (link_conclusion l x) \<notin> blocked_keys asserted"
    then have "statement_key (link_conclusion (fact l) (fact x)) \<notin> blocked_keys asserted"
      by (metis key_fact fact_conclusions(2))
    then show "entailed_by rules asserted (fact (link_conclusion l x))"
      using vs [OF l(1)] vs [OF x(1)] a l x r by (simp add: vouched_def entailed.chain)
  qed
qed

lemma round_sound:
  assumes "derive_round sha limit rules d = Inr (d', changed)" and s: "sound_state rules asserted d"
    and "\<And>r. r \<in> set rules \<Longrightarrow> clean_rule r"
  shows "sound_state rules asserted d'"
proof -
  obtain d1 b where one: "one_premise_pass sha limit rules (sorted_statements d) (d, False) = Inr (d1, b)"
    and tr: "transitive_pass sha limit rules (sorted_statements d1) (d1, b) = Inr (d', changed)"
    using assms(1) by (auto simp: derive_round_def split: sum.splits)
  have d1: "sound_state rules asserted d1"
    using one_premise_sound [OF one] s assms(3) state_vouched [OF s] by simp
  show ?thesis using transitive_sound [OF tr] d1 state_vouched [OF d1] by simp
qed

subsection \<open>Nothing entailed is missing\<close>

text \<open>A loop that ends without a change has changed nothing on the way.\<close>

lemma each_still:
  assumes "each f xs s = Inr (d, False)"
    and "\<And>x s. x \<in> set xs \<Longrightarrow> f x s = Inr (d, False) \<Longrightarrow> s = (d, False) \<and> Q x"
  shows "s = (d, False) \<and> (\<forall>x \<in> set xs. Q x)"
  using assms
proof (induction xs arbitrary: s)
  case Nil
  then show ?case by simp
next
  case (Cons x xs)
  then obtain u where u: "f x s = Inr u" "each f xs u = Inr (d, False)" by (auto split: sum.splits)
  have r: "u = (d, False) \<and> (\<forall>x \<in> set xs. Q x)"
    using u(2) by (rule Cons.IH) (rule Cons.prems(2), simp_all)
  with u(1) have "s = (d, False) \<and> Q x" by (intro Cons.prems(2)) simp_all
  with r show ?case by simp
qed

lemma attempt_still:
  "attempt_add sha limit c r ps s = Inr (d, False) \<Longrightarrow> s = (d, False) \<and> statement_key c \<in> set (dv_known d)"
  by (cases s) (auto simp: attempt_add.simps split: sum.splits dest: add_conclusion_result)

definition closed_under :: "projection_rule list \<Rightarrow> statement list \<Rightarrow> string list \<Rightarrow> bool" where
  "closed_under rules vs keys \<longleftrightarrow>
     (\<forall>v \<in> set vs. active v \<longrightarrow> (\<forall>r \<in> set rules. rule_applies r v \<longrightarrow>
        statement_key (rule_conclusion r v) \<in> set keys)) \<and>
     (\<forall>r \<in> set rules. pr_kind r = ''transitive'' \<longrightarrow> (\<forall>l \<in> set vs. link_left r l \<longrightarrow>
        (\<forall>x \<in> set vs. link_right r l x \<longrightarrow> statement_key (link_conclusion l x) \<in> set keys)))"

lemma one_premise_still:
  assumes "one_premise_pass sha limit rules vs s = Inr (d, False)"
  shows "s = (d, False) \<and> (\<forall>v \<in> set vs. active v \<longrightarrow> (\<forall>r \<in> set rules. rule_applies r v \<longrightarrow>
    statement_key (rule_conclusion r v) \<in> set (dv_known d)))"
  using assms unfolding one_premise_pass_def
proof (rule each_still)
  fix v s
  assume "(if \<not> active v then Inr s
      else each (\<lambda>r s. if \<not> rule_applies r v then Inr s
                       else attempt_add sha limit (rule_conclusion r v) r [ps_id v] s) rules s) = Inr (d, False)"
  moreover have "each (\<lambda>r s. if \<not> rule_applies r v then Inr s
      else attempt_add sha limit (rule_conclusion r v) r [ps_id v] s) rules s = Inr (d, False) \<Longrightarrow>
      s = (d, False) \<and> (\<forall>r \<in> set rules. rule_applies r v \<longrightarrow>
        statement_key (rule_conclusion r v) \<in> set (dv_known d))"
    by (rule each_still, assumption) (auto split: if_splits dest: attempt_still)
  ultimately show "s = (d, False) \<and> (active v \<longrightarrow> (\<forall>r \<in> set rules. rule_applies r v \<longrightarrow>
      statement_key (rule_conclusion r v) \<in> set (dv_known d)))"
    by (auto split: if_splits)
qed

lemma transitive_still:
  assumes "transitive_pass sha limit rules vs s = Inr (d, False)"
  shows "s = (d, False) \<and> (\<forall>r \<in> set rules. pr_kind r = ''transitive'' \<longrightarrow> (\<forall>l \<in> set vs. link_left r l \<longrightarrow>
    (\<forall>x \<in> set vs. link_right r l x \<longrightarrow> statement_key (link_conclusion l x) \<in> set (dv_known d))))"
  using assms unfolding transitive_pass_def
proof (rule each_still)
  let ?inner = "\<lambda>r l x s. if \<not> link_right r l x then Inr s
    else attempt_add sha limit (link_conclusion l x) r [ps_id l, ps_id x] s"
  let ?linked = "\<lambda>r l x. link_right r l x \<longrightarrow> statement_key (link_conclusion l x) \<in> set (dv_known d)"
  have inner: "s = (d, False) \<and> (\<forall>x \<in> set vs. ?linked r l x)"
    if "each (?inner r l) vs s = Inr (d, False)" for r l s
    using that by (rule each_still) (auto split: if_splits dest: attempt_still)
  fix r s
  assume t: "(if pr_kind r \<noteq> ''transitive'' then Inr s
       else each (\<lambda>l s. if \<not> link_left r l then Inr s else each (?inner r l) vs s) vs s) = Inr (d, False)"
  have "each (\<lambda>l s. if \<not> link_left r l then Inr s else each (?inner r l) vs s) vs s = Inr (d, False) \<Longrightarrow>
      s = (d, False) \<and> (\<forall>l \<in> set vs. link_left r l \<longrightarrow> (\<forall>x \<in> set vs. ?linked r l x))"
    by (rule each_still, assumption) (use inner in \<open>auto split: if_splits\<close>)
  then show "s = (d, False) \<and> (pr_kind r = ''transitive'' \<longrightarrow> (\<forall>l \<in> set vs. link_left r l \<longrightarrow>
      (\<forall>x \<in> set vs. ?linked r l x)))"
    using t by (auto split: if_splits)
qed

lemma round_still:
  assumes "derive_round sha limit rules d = Inr (d', False)"
  shows "d' = d" and "closed_under rules (dv_by_id d') (dv_known d')"
proof -
  obtain d1 b where one: "one_premise_pass sha limit rules (sorted_statements d) (d, False) = Inr (d1, b)"
    and tr: "transitive_pass sha limit rules (sorted_statements d1) (d1, b) = Inr (d', False)"
    using assms by (auto simp: derive_round_def split: sum.splits)
  have eq: "d1 = d'" "b = False" using transitive_still [OF tr] by simp_all
  with one have one': "one_premise_pass sha limit rules (sorted_statements d) (d, False) = Inr (d', False)"
    by simp
  show "d' = d" using one_premise_still [OF one'] by simp
  then show "closed_under rules (dv_by_id d') (dv_known d')"
    using one_premise_still [OF one'] transitive_still [OF tr] eq by (simp add: closed_under_def)
qed

lemma saturate_closed:
  assumes "saturate sha limit rules d = Inr d'" and "sound_state rules asserted d"
    and "\<And>r. r \<in> set rules \<Longrightarrow> clean_rule r"
  shows "sound_state rules asserted d' \<and> closed_under rules (dv_by_id d') (dv_known d')"
  using assms
proof (induction sha limit rules d rule: saturate.induct)
  case (1 sha limit rules d)
  obtain t changed where r: "derive_round sha limit rules d = Inr (t, changed)"
    and t: "(if changed then saturate sha limit rules t else Inr t) = Inr d'"
    using "1.prems"(1) by (subst (asm) saturate.simps) (auto split: sum.splits)
  have st: "sound_state rules asserted t" by (rule round_sound [OF r "1.prems"(2,3)])
  show ?case
  proof (cases changed)
    case True
    then show ?thesis using "1.IH" [OF r refl True _ st "1.prems"(3)] t by simp
  next
    case False
    then show ?thesis using round_still(2) [of sha limit rules d t] r t st by simp
  qed
qed

lemma key_found:
  assumes s: "sound_state rules asserted d" and c: "clean_statement c"
    and "statement_key c \<in> set (dv_known d)" and n: "statement_key c \<notin> blocked_keys asserted"
  shows "fact c \<in> facts_of (dv_by_id d)"
proof -
  obtain u where u: "u \<in> set (dv_by_id d)" "statement_key u = statement_key c"
    using assms(1,3) by (auto simp: sound_state_def)
  have "active u"
  proof (rule ccontr)
    assume na: "\<not> active u"
    then have "u \<in> set asserted" using s u(1) by (auto simp: sound_state_def)
    then have "statement_key u \<in> blocked_keys asserted" using na by (simp add: blocked_keys_def)
    then show False using n u(2) by simp
  qed
  moreover have "fact u = fact c" using s u c by (intro statement_key_inj) (auto simp: sound_state_def)
  ultimately show ?thesis using u(1) by (metis given_fact)
qed

lemma entailed_found:
  assumes s: "sound_state rules asserted d" and cl: "closed_under rules (dv_by_id d) (dv_known d)"
    and rules: "\<And>r. r \<in> set rules \<Longrightarrow> clean_rule r"
  shows "entailed_by rules asserted f \<Longrightarrow> f \<in> facts_of (dv_by_id d)"
proof (induction rule: entailed.induct)
  case (asserted v)
  then show ?case using s by (auto simp: facts_of_def sound_state_def)
next
  case (one_premise v r)
  then obtain u where u: "u \<in> set (dv_by_id d)" "active u" "v = fact u" by (auto simp: facts_of_def)
  have "clean_statement (rule_conclusion r u)"
    using s u rules one_premise.hyps by (auto simp: sound_state_def intro: clean_conclusions)
  moreover have "statement_key (rule_conclusion r u) \<in> set (dv_known d)"
    using cl u one_premise.hyps by (auto simp: closed_under_def)
  moreover have "statement_key (rule_conclusion r u) \<notin> blocked_keys asserted"
    using one_premise.hyps u(3) by (metis key_fact fact_conclusions(1))
  ultimately have "fact (rule_conclusion r u) \<in> facts_of (dv_by_id d)" by (rule key_found [OF s])
  then show ?case using u(3) by simp
next
  case (chain l x r)
  then obtain u w where u: "u \<in> set (dv_by_id d)" "active u" "l = fact u"
    and w: "w \<in> set (dv_by_id d)" "active w" "x = fact w" by (auto simp: facts_of_def)
  have links: "link_left r u" "link_right r u w" using chain.hyps u w by simp_all
  have "clean_statement (link_conclusion u w)"
    using s u w by (auto simp: sound_state_def intro: clean_conclusions)
  moreover have "statement_key (link_conclusion u w) \<in> set (dv_known d)"
    using cl u w links chain.hyps by (auto simp: closed_under_def)
  moreover have "statement_key (link_conclusion u w) \<notin> blocked_keys asserted"
    using chain.hyps u(3) w(3) by (metis key_fact fact_conclusions(2))
  ultimately have "fact (link_conclusion u w) \<in> facts_of (dv_by_id d)" by (rule key_found [OF s])
  then show ?case using u(3) w(3) by simp
qed

end
