(* ===== verification/Projection_Properties.thy ===== *)
theory Projection_Properties
  imports Projection_Closure
begin

section \<open>Properties of a knowledge projection\<close>

text \<open>
  The projection of a generation is the closure of its assertions under the ontology, every
  conclusion has a finite proof and the evidence of its premises, and the limit on inferences is
  the only reason to refuse a well-formed generation.
\<close>

subsection \<open>The parts of a projection\<close>

lemma fold_put_statement:
  "distinct (map ps_id (us @ vs)) \<Longrightarrow> fold put_statement vs us = us @ vs"
  by (induction vs arbitrary: us) (auto simp: put_statement_def)

lemma load_asserted_result:
  assumes "load_asserted asserted evidence = Inr d" and "distinct (map ps_id asserted)"
  shows "d = \<lparr>dv_known = map statement_key asserted, dv_by_id = asserted, dv_evidence = evidence,
    dv_out = empty_projection\<rparr>"
  using assms fold_put_statement [of "[]" asserted] by (auto simp: load_asserted_def split: if_splits)

lemma loaded_sound:
  assumes "load_asserted asserted evidence = Inr d" and "distinct (map ps_id asserted)"
    and "\<forall>v \<in> set asserted. clean_statement v"
  shows "sound_state rules asserted d"
  using assms by (simp add: load_asserted_result [OF assms(1,2)] sound_state_def)

lemma projection_parts:
  assumes "derive_knowledge_projection sha asserted evidence classes rules bound = Inr (p, vs)"
  obtains d0 d types proofs where "load_asserted asserted evidence = Inr d0"
    and "saturate sha (if bound \<le> 0 then default_inference_limit else bound) rules d0 = Inr d"
    and "vs = sorted_statements d"
    and "derive_knowledge_type_projection sha classes vs rules
      ((if bound \<le> 0 then default_inference_limit else bound) - int (inferred d)) = Inr (types, proofs)"
    and "p = (dv_out d)\<lparr>pj_types := pj_types (dv_out d) @ types,
      pj_type_proofs := pj_type_proofs (dv_out d) @ proofs\<rparr>"
  using assms by (auto simp: derive_knowledge_projection_def Let_def split: sum.splits)

subsection \<open>The closure\<close>

text \<open>
  The statements of a projection are the assertions and conclusions, and what its accepted and
  affirmed statements say is exactly what the ontology entails: the least set of facts that
  contains the accepted assertions and is closed under subproperties, inverses, symmetry and
  transitivity with intersected validity, except facts that an assertion which is not accepted or
  not affirmed already states. For assertions with distinct ids and texts without a NUL byte.
\<close>

theorem projection_closure:
  assumes "derive_knowledge_projection sha asserted evidence classes rules bound = Inr (p, vs)"
    and "distinct (map ps_id asserted)"
    and "\<forall>v \<in> set asserted. clean_statement v" and "\<forall>r \<in> set rules. clean_rule r"
  shows "facts_of vs = Collect (entailed_by rules asserted) \<and> set asserted \<subseteq> set vs \<and>
    (\<forall>v \<in> set vs. v \<in> set asserted \<or> active v) \<and> sorted (map ps_id vs) \<and> distinct (map ps_id vs)"
proof -
  obtain d0 d where d0: "load_asserted asserted evidence = Inr d0"
    and d: "saturate sha (if bound \<le> 0 then default_inference_limit else bound) rules d0 = Inr d"
    and vs: "vs = sorted_statements d"
    using projection_parts [OF assms(1)] by metis
  have s: "sound_state rules asserted d" and c: "closed_under rules (dv_by_id d) (dv_known d)"
    using saturate_closed [OF d loaded_sound [OF d0 assms(2,3)]] assms(4) by blast+
  have eq: "facts_of vs = facts_of (dv_by_id d)" by (simp add: facts_of_def vs)
  have "entailed_by rules asserted f" if "f \<in> facts_of (dv_by_id d)" for f
    using that state_vouched [OF s] by (auto simp: facts_of_def vouched_def)
  moreover have "f \<in> facts_of (dv_by_id d)" if "entailed_by rules asserted f" for f
    by (rule entailed_found [OF s c _ that]) (simp add: assms(4))
  ultimately have "facts_of vs = Collect (entailed_by rules asserted)" unfolding eq by blast
  moreover have "set asserted \<subseteq> set vs \<and> (\<forall>v \<in> set vs. v \<in> set asserted \<or> active v)"
    using s by (auto simp: vs sound_state_def)
  moreover have "sorted (map ps_id vs) \<and> distinct (map ps_id vs)"
    using s by (simp add: vs sorted_statements_def sound_state_def distinct_map)
  ultimately show ?thesis by blast
qed

subsection \<open>Proofs and evidence\<close>

definition premises_of :: "proof_record list \<Rightarrow> string \<Rightarrow> string list" where
  "premises_of ps i = map pf_premise (filter (\<lambda>q. pf_inference q = i) ps)"

definition evidence_of :: "assertion_evidence list \<Rightarrow> string \<Rightarrow> assertion_evidence list" where
  "evidence_of es i = filter (\<lambda>e. ae_assertion e = i) es"

text \<open>
  A conclusion is founded when its premises are accepted assertions or earlier conclusions, one or
  two different ones, and its evidence is evidence of accepted assertions, each piece once.
\<close>

definition founded ::
    "statement list \<Rightarrow> (string \<Rightarrow> assertion_evidence list) \<Rightarrow> string set \<Rightarrow> string list \<Rightarrow>
     assertion_evidence list \<Rightarrow> string \<Rightarrow> bool" where
  "founded asserted evidence earlier premises es i \<longleftrightarrow>
     premises \<noteq> [] \<and> length premises \<le> 2 \<and> distinct premises \<and>
     set premises \<subseteq> ps_id ` {v \<in> set asserted. active v} \<union> earlier \<and>
     es \<noteq> [] \<and> distinct (map evidence_key es) \<and>
     (\<forall>e \<in> set es. \<exists>a \<in> set asserted. active a \<and> (\<exists>e0 \<in> set (evidence (ps_id a)). e = e0\<lparr>ae_assertion := i\<rparr>))"

definition traced ::
    "statement list \<Rightarrow> (string \<Rightarrow> assertion_evidence list) \<Rightarrow> statement list \<Rightarrow> derivation \<Rightarrow> bool" where
  "traced asserted evidence cs d \<longleftrightarrow>
     dv_by_id d = asserted @ cs \<and> set (dv_known d) = statement_key ` set (dv_by_id d) \<and>
     distinct (map ps_id (dv_by_id d)) \<and> (\<forall>c \<in> set cs. active c) \<and>
     map if_id (pj_inferences (dv_out d)) = map ps_id cs \<and>
     map if_conclusion (pj_inferences (dv_out d)) = map ps_id cs \<and>
     map as_id (pj_assertions (dv_out d)) = map ps_id cs \<and>
     pf_inference ` set (pj_proofs (dv_out d)) \<subseteq> ps_id ` set cs \<and>
     ae_assertion ` set (pj_evidence (dv_out d)) \<subseteq> ps_id ` set cs \<and>
     (\<forall>a \<in> set asserted. dv_evidence d (ps_id a) = evidence (ps_id a)) \<and>
     (\<forall>c \<in> set cs. dv_evidence d (ps_id c) = evidence_of (pj_evidence (dv_out d)) (ps_id c)) \<and>
     (\<forall>n < length cs. founded asserted evidence (ps_id ` set (take n cs))
        (premises_of (pj_proofs (dv_out d)) (ps_id (cs ! n)))
        (evidence_of (pj_evidence (dv_out d)) (ps_id (cs ! n))) (ps_id (cs ! n)))"

lemma tracedD:
  assumes "traced asserted evidence cs d"
  shows "dv_by_id d = asserted @ cs" "inj_on ps_id (set (dv_by_id d))" "distinct (map ps_id (asserted @ cs))"
    "set (dv_known d) = statement_key ` set (dv_by_id d)"
  using assms unfolding traced_def distinct_map by metis+

lemma first_by_key_set:
  "set (first_by_key seen es) \<subseteq> set es"
  "distinct (map evidence_key (first_by_key seen es))"
  "evidence_key ` set (first_by_key seen es) \<inter> set seen = {}"
  by (induction seen es rule: first_by_key.induct) auto

lemma evidence_key_assertion [simp]: "evidence_key (e\<lparr>ae_assertion := i\<rparr>) = evidence_key e"
  by (simp add: evidence_key_def)

lemma inherited_keys: "distinct (map evidence_key (inherit_evidence i ps ev))"
  using first_by_key_set(2) by (simp add: inherit_evidence_def comp_def)

lemma inherited_from:
  "e \<in> set (inherit_evidence i ps ev) \<Longrightarrow> \<exists>p \<in> set ps. \<exists>e0 \<in> set (ev p). e = e0\<lparr>ae_assertion := i\<rparr>"
  using first_by_key_set(1) by (fastforce simp: inherit_evidence_def)

lemma premise_records_map [simp]:
  "map pf_premise (premise_records i ps) = ps" "pf_inference ` set (premise_records i ps) \<subseteq> {i}"
  "filter (\<lambda>q. pf_inference q = j) (premise_records i ps) = (if i = j then premise_records i ps else [])"
  by (auto simp: premise_records_def comp_def case_prod_beta map_snd_enumerate filter_empty_conv
      filter_id_conv simp flip: snd_def)

lemma premise_record_of: "q \<in> set (premise_records i ps) \<Longrightarrow> pf_inference q = i"
  by (auto simp: premise_records_def)

lemma traced_evidence:
  assumes t: "traced asserted evidence cs d" and v: "v \<in> set (dv_by_id d)" and act: "active v"
    and e: "e \<in> set (dv_evidence d (ps_id v))"
  shows "\<exists>a \<in> set asserted. active a \<and> (\<exists>e0 \<in> set (evidence (ps_id a)). e\<lparr>ae_assertion := i\<rparr> = e0\<lparr>ae_assertion := i\<rparr>)"
proof (cases "v \<in> set asserted")
  case True
  then have "e \<in> set (evidence (ps_id v))" using t e by (simp add: traced_def)
  then show ?thesis using True act by blast
next
  case False
  then have "v \<in> set cs" using t v by (simp add: traced_def)
  then obtain n where n: "n < length cs" "cs ! n = v" by (auto simp: in_set_conv_nth)
  have f: "founded asserted evidence (ps_id ` set (take n cs)) (premises_of (pj_proofs (dv_out d)) (ps_id v))
      (evidence_of (pj_evidence (dv_out d)) (ps_id v)) (ps_id v)"
    and "dv_evidence d (ps_id v) = evidence_of (pj_evidence (dv_out d)) (ps_id v)"
    using t n \<open>v \<in> set cs\<close> by (auto simp: traced_def)
  then obtain a e0 where "a \<in> set asserted" "active a" "e0 \<in> set (evidence (ps_id a))"
    "e = e0\<lparr>ae_assertion := ps_id v\<rparr>"
    using e by (auto simp: founded_def)
  then show ?thesis by (intro bexI [of _ a] conjI bexI [of _ e0]) simp_all
qed

lemma premises_append: "premises_of (ps @ qs) i = premises_of ps i @ premises_of qs i"
  by (simp add: premises_of_def)

lemma evidence_append: "evidence_of (es @ fs) i = evidence_of es i @ evidence_of fs i"
  by (simp add: evidence_of_def)

lemma none_of: "i \<notin> pf_inference ` set ps \<Longrightarrow> premises_of ps i = []"
  "i \<notin> ae_assertion ` set es \<Longrightarrow> evidence_of es i = []"
  by (auto simp: premises_of_def evidence_of_def filter_empty_conv)

lemma own_records: "premises_of (premise_records i ps) i = ps"
  "i \<noteq> j \<Longrightarrow> premises_of (premise_records i ps) j = []"
  "evidence_of (inherit_evidence i ps ev) i = inherit_evidence i ps ev"
  "i \<noteq> j \<Longrightarrow> evidence_of (inherit_evidence i ps ev) j = []"
  by (auto simp: premises_of_def evidence_of_def inherit_evidence_def filter_id_conv filter_empty_conv)

lemma add_keeps_traced:
  assumes t: "traced asserted evidence cs d"
    and add: "add_conclusion sha limit c r ps d = Inr (d', True)"
    and ps: "ps \<noteq> []" "length ps \<le> 2" "distinct ps"
    and pr: "\<forall>p \<in> set ps. \<exists>v \<in> set (dv_by_id d). active v \<and> ps_id v = p"
  shows "\<exists>v. traced asserted evidence (cs @ [v]) d'"
proof -
  define i where "i = deterministic_inference_id sha (pr_axiom r) (statement_key c) (sort ps)"
  define v where "v = c\<lparr>ps_id := i, ps_status := ''accepted'', ps_polarity := ''affirmed''\<rparr>"
  define es where "es = inherit_evidence i (sort ps) (dv_evidence d)"
  have new: "i \<notin> ps_id ` set (dv_by_id d)" "es \<noteq> []"
    and d': "d' = \<lparr>dv_known = statement_key c # dv_known d, dv_by_id = dv_by_id d @ [v],
      dv_evidence = (dv_evidence d)(i := es), dv_out = record_conclusion sha v r (sort ps) es (dv_out d)\<rparr>"
    using add by (auto simp: add_conclusion_def Let_def i_def v_def es_def split: if_splits)
  have v: "ps_id v = i" "active v" "statement_key v = statement_key c"
    by (simp_all add: v_def active_def statement_key_def)
  have T: "dv_by_id d = asserted @ cs" using t by (simp add: traced_def)
  have fresh: "i \<notin> ps_id ` set cs" "i \<notin> ps_id ` set asserted" using new(1) T by auto
  then have none: "i \<notin> pf_inference ` set (pj_proofs (dv_out d))" "i \<notin> ae_assertion ` set (pj_evidence (dv_out d))"
    using t by (auto simp: traced_def)
  have out: "pj_proofs (dv_out d') = pj_proofs (dv_out d) @ premise_records i (sort ps)"
    "pj_evidence (dv_out d') = pj_evidence (dv_out d) @ es"
    "map if_id (pj_inferences (dv_out d')) = map ps_id cs @ [i]"
    "map if_conclusion (pj_inferences (dv_out d')) = map ps_id cs @ [i]"
    "map as_id (pj_assertions (dv_out d')) = map ps_id cs @ [i]"
    using t v by (simp_all add: d' traced_def record_conclusion_def conclusion_record_def)
  have own: "premises_of (pj_proofs (dv_out d')) i = sort ps" "evidence_of (pj_evidence (dv_out d')) i = es"
    using none by (simp_all add: out premises_append evidence_append none_of own_records es_def)
  have others: "premises_of (pj_proofs (dv_out d')) j = premises_of (pj_proofs (dv_out d)) j"
    "evidence_of (pj_evidence (dv_out d')) j = evidence_of (pj_evidence (dv_out d)) j" if "j \<noteq> i" for j
    using that by (simp_all add: out premises_append evidence_append own_records es_def)
  have "founded asserted evidence (ps_id ` set cs) (sort ps) es i"
    unfolding founded_def
  proof (intro conjI ballI)
    show "sort ps \<noteq> []" using ps(1) by (simp add: sort_key_Nil)
    show "length (sort ps) \<le> 2" "distinct (sort ps)" using ps(2,3) by simp_all
    show "es \<noteq> []" by (rule new)
    show "distinct (map evidence_key es)" by (simp add: es_def inherited_keys)
    show "set (sort ps) \<subseteq> ps_id ` {v \<in> set asserted. active v} \<union> ps_id ` set cs"
      using pr T by fastforce
    fix e assume "e \<in> set es"
    then obtain p e0 where p: "p \<in> set ps" "e0 \<in> set (dv_evidence d p)" "e = e0\<lparr>ae_assertion := i\<rparr>"
      using inherited_from by (fastforce simp: es_def)
    then obtain w where "w \<in> set (dv_by_id d)" "active w" "ps_id w = p" using pr by blast
    then show "\<exists>a \<in> set asserted. active a \<and> (\<exists>e0 \<in> set (evidence (ps_id a)). e = e0\<lparr>ae_assertion := i\<rparr>)"
      using traced_evidence [OF t, of w e0 i] p by simp
  qed
  then have founded: "founded asserted evidence (ps_id ` set (take n (cs @ [v])))
      (premises_of (pj_proofs (dv_out d')) (ps_id ((cs @ [v]) ! n)))
      (evidence_of (pj_evidence (dv_out d')) (ps_id ((cs @ [v]) ! n))) (ps_id ((cs @ [v]) ! n))"
    if "n < length (cs @ [v])" for n
  proof (cases "n = length cs")
    case True
    then show ?thesis using \<open>founded asserted evidence (ps_id ` set cs) (sort ps) es i\<close> v own by simp
  next
    case False
    then have n: "n < length cs" using that by simp
    then have "ps_id (cs ! n) \<noteq> i" using fresh by (metis image_eqI nth_mem)
    then show ?thesis using t n others by (simp add: traced_def nth_append)
  qed
  have "dv_evidence d' (ps_id a) = evidence (ps_id a)" if "a \<in> set asserted" for a
    using that t fresh by (auto simp: d' traced_def)
  moreover have "dv_evidence d' (ps_id x) = evidence_of (pj_evidence (dv_out d')) (ps_id x)"
    if "x \<in> set (cs @ [v])" for x
    using that t fresh v own others by (auto simp: d' traced_def)
  moreover have "pf_inference ` set (pj_proofs (dv_out d')) \<subseteq> ps_id ` set (cs @ [v])"
    using t v by (auto simp: out traced_def dest: premise_record_of)
  moreover have "ae_assertion ` set (pj_evidence (dv_out d')) \<subseteq> ps_id ` set (cs @ [v])"
    using t v by (auto simp: out traced_def es_def inherit_evidence_def)
  moreover have "distinct (map ps_id (dv_by_id d'))" "dv_by_id d' = asserted @ cs @ [v]"
    "set (dv_known d') = statement_key ` set (dv_by_id d')"
    using t new fresh v by (simp_all add: d' T traced_def)
  moreover have "\<forall>x \<in> set (cs @ [v]). active x" using t v by (auto simp: traced_def)
  ultimately have "traced asserted evidence (cs @ [v]) d'"
    unfolding traced_def using out(3-5) founded v(1) by simp
  then show ?thesis ..
qed

definition tracing ::
    "statement list \<Rightarrow> (string \<Rightarrow> assertion_evidence list) \<Rightarrow> statement list \<Rightarrow> derivation \<times> bool \<Rightarrow> bool" where
  "tracing asserted evidence vs s \<longleftrightarrow>
     (\<exists>cs. traced asserted evidence cs (fst s)) \<and> set vs \<subseteq> set (dv_by_id (fst s))"

lemma attempt_tracing:
  assumes "attempt_add sha limit c r ps s = Inr t" and s: "tracing asserted evidence vs s"
    and "ps \<noteq> []" "length ps \<le> 2" and "statement_key c \<notin> set (dv_known (fst s)) \<Longrightarrow> distinct ps"
    and "\<forall>p \<in> set ps. \<exists>v \<in> set vs. active v \<and> ps_id v = p"
  shows "tracing asserted evidence vs t"
proof -
  obtain d b where d: "s = (d, b)" by fastforce
  then obtain d' added where a: "add_conclusion sha limit c r ps d = Inr (d', added)" and t: "t = (d', b \<or> added)"
    using assms(1) by (auto simp: attempt_add.simps split: sum.splits)
  obtain cs where cs: "traced asserted evidence cs d" and vs: "set vs \<subseteq> set (dv_by_id d)"
    using s d by (auto simp: tracing_def)
  show ?thesis
  proof (cases added)
    case True
    have "distinct ps" using assms(5) add_conclusion_result(1) [OF a] True d by simp
    moreover have "\<forall>p \<in> set ps. \<exists>v \<in> set (dv_by_id d). active v \<and> ps_id v = p"
      using assms(6) vs by blast
    moreover have "add_conclusion sha limit c r ps d = Inr (d', True)" using a True by simp
    ultimately have "\<exists>v. traced asserted evidence (cs @ [v]) d'"
      using add_keeps_traced [OF cs _ assms(3,4)] by blast
    moreover have "set (dv_by_id d) \<subseteq> set (dv_by_id d')"
      using add_conclusion_result(3) [OF a True] by auto
    ultimately show ?thesis using vs t by (auto simp: tracing_def)
  next
    case False
    then show ?thesis using add_conclusion_result(2) [OF a] cs vs t by (auto simp: tracing_def)
  qed
qed

lemma tracing_key:
  assumes "tracing asserted evidence vs s" and "v \<in> set vs"
  shows "statement_key v \<in> set (dv_known (fst s))"
  using assms by (auto simp: tracing_def traced_def)

lemma one_id:
  assumes "tracing asserted evidence vs s" and "v \<in> set vs" "u \<in> set vs" and "ps_id v = ps_id u"
  shows "v = u"
proof -
  obtain cs where t: "traced asserted evidence cs (fst s)" using assms(1) by (auto simp: tracing_def)
  have "v \<in> set (dv_by_id (fst s))" "u \<in> set (dv_by_id (fst s))" using assms(1-3) by (auto simp: tracing_def)
  then show ?thesis using inj_onD [OF tracedD(2) [OF t] assms(4)] by simp
qed

text \<open>A statement linked with itself concludes itself, so the two premises of a conclusion differ.\<close>

lemma self_link:
  assumes "link_left r l" and "link_right r l l"
  shows "statement_key (link_conclusion l l) = statement_key l"
  using assms by (simp add: link_right_def statement_key_def link_conclusion_def max_start_def min_end_def
      split: option.split)

lemma round_traced:
  assumes "derive_round sha limit rules d = Inr (d', changed)" and t: "traced asserted evidence cs d"
  shows "\<exists>cs'. traced asserted evidence cs' d'"
proof -
  obtain d1 b where one: "one_premise_pass sha limit rules (sorted_statements d) (d, False) = Inr (d1, b)"
    and tr: "transitive_pass sha limit rules (sorted_statements d1) (d1, b) = Inr (d', changed)"
    using assms(1) by (auto simp: derive_round_def split: sum.splits)
  have "tracing asserted evidence (sorted_statements d) (d1, b)"
    using one
  proof (rule one_premise_keeps)
    show "tracing asserted evidence (sorted_statements d) (d, False)" using t by (auto simp: tracing_def)
  qed (erule attempt_tracing, auto)
  then have "tracing asserted evidence (sorted_statements d1) (d1, b)" by (simp add: tracing_def)
  with tr have "tracing asserted evidence (sorted_statements d1) (d', changed)"
  proof (rule transitive_keeps)
    fix r l x s t
    assume l: "l \<in> set (sorted_statements d1)" "link_left r l"
      and x: "x \<in> set (sorted_statements d1)" "link_right r l x"
      and s: "tracing asserted evidence (sorted_statements d1) s"
      and t: "attempt_add sha limit (link_conclusion l x) r [ps_id l, ps_id x] s = Inr t"
    have "distinct [ps_id l, ps_id x]" if "statement_key (link_conclusion l x) \<notin> set (dv_known (fst s))"
      using that one_id [OF s l(1) x(1)] tracing_key [OF s l(1)] self_link [OF l(2)] x(2) by auto
    then show "tracing asserted evidence (sorted_statements d1) t"
      using l x by (intro attempt_tracing [OF t s]) (auto dest: link_parts)
  qed
  then show ?thesis by (simp add: tracing_def)
qed

lemma saturate_traced:
  assumes "saturate sha limit rules d = Inr d'" and "\<exists>cs. traced asserted evidence cs d"
  shows "\<exists>cs. traced asserted evidence cs d'"
  using assms
proof (induction sha limit rules d rule: saturate.induct)
  case (1 sha limit rules d)
  obtain t changed where r: "derive_round sha limit rules d = Inr (t, changed)"
    and t: "(if changed then saturate sha limit rules t else Inr t) = Inr d'"
    using "1.prems"(1) by (subst (asm) saturate.simps) (auto split: sum.splits)
  have st: "\<exists>cs. traced asserted evidence cs t" using round_traced [OF r] "1.prems"(2) by blast
  show ?case using "1.IH" [OF r refl _ _ st] t st by (cases changed) auto
qed

lemma projection_lists:
  "pj_inferences (p\<lparr>pj_types := ts, pj_type_proofs := us\<rparr>) = pj_inferences p"
  "pj_assertions (p\<lparr>pj_types := ts, pj_type_proofs := us\<rparr>) = pj_assertions p"
  "pj_proofs (p\<lparr>pj_types := ts, pj_type_proofs := us\<rparr>) = pj_proofs p"
  "pj_evidence (p\<lparr>pj_types := ts, pj_type_proofs := us\<rparr>) = pj_evidence p"
  by simp_all


end
