(* ===== verification/Projection_Types.thy ===== *)
theory Projection_Types
  imports Projection_Closure "HOL-Library.Multiset"
begin

section \<open>Classes and conflicts of a projection\<close>

text \<open>
  The classes that a projection infers for its entities against the least classification closed
  under domains, ranges and subclasses; and the conflicts it reports against the pairs of
  statements that exclude each other, before and after they are reconciled with the stored ones.
\<close>

subsection \<open>Classification\<close>

inductive classified ::
    "projection_rule list \<Rightarrow> statement set \<Rightarrow> (string \<times> string) set \<Rightarrow> string \<Rightarrow> string \<Rightarrow> bool"
  for rules facts given where
  explicit: "(e, c) \<in> given \<Longrightarrow> classified rules facts given e c"
| typed: "v \<in> facts \<Longrightarrow> r \<in> set rules \<Longrightarrow> typed_entity r v = Some e \<Longrightarrow>
    classified rules facts given e (pr_to r)"
| subclassed: "classified rules facts given e c \<Longrightarrow> r \<in> set rules \<Longrightarrow> pr_kind r = ''subclass_of'' \<Longrightarrow>
    pr_from r = c \<Longrightarrow> classified rules facts given e (pr_to r)"

lemma typed_fact [simp]: "typed_entity r (fact v) = typed_entity r v"
  by (simp add: typed_entity_def fact_def)

lemma classified_statement:
  "v \<in> set vs \<Longrightarrow> active v \<Longrightarrow> r \<in> set rules \<Longrightarrow> typed_entity r v = Some e \<Longrightarrow>
     classified rules (facts_of vs) given e (pr_to r)"
  by (rule classified.typed [of "fact v"]) (simp_all add: given_fact)

definition classes_of :: "entity_class list \<Rightarrow> (string \<times> string) set" where
  "classes_of cs = (\<lambda>c. (ec_entity c, ec_class c)) ` set cs"

definition inferred_classes :: "type_inference list \<Rightarrow> (string \<times> string) set" where
  "inferred_classes ts = (\<lambda>t. (ti_entity t, ti_class t)) ` set ts"

abbreviation plain_class :: "string \<Rightarrow> string \<Rightarrow> entity_class" where
  "plain_class e c \<equiv> \<lparr>ec_entity = e, ec_class = c, ec_inference = []\<rparr>"

lemma class_key_inj:
  "NUL \<notin> set (ec_entity a) \<Longrightarrow> NUL \<notin> set (ec_entity b) \<Longrightarrow> class_key a = class_key b \<longleftrightarrow>
     ec_entity a = ec_entity b \<and> ec_class a = ec_class b"
  by (simp add: class_key_def NUL_split)

lemma inference_id_nonempty [simp]: "deterministic_inference_id sha a k ps \<noteq> []"
  by (simp add: deterministic_inference_id_def)

text \<open>The proof of an inferred class: its premise and why the rule applies to it.\<close>

definition class_proved ::
    "projection_rule list \<Rightarrow> statement list \<Rightarrow> (string \<times> string) set \<Rightarrow> type_inference list \<Rightarrow>
     type_inference \<Rightarrow> type_premise \<Rightarrow> bool" where
  "class_proved rules vs given earlier t p \<longleftrightarrow>
     (\<exists>r \<in> set rules. ti_axiom t = pr_axiom r \<and> ti_ontology t = pr_ontology r \<and> ti_class t = pr_to r \<and>
       (case p of
          ByAssertion aid \<Rightarrow> \<exists>v \<in> set vs. active v \<and> ps_id v = aid \<and> typed_entity r v = Some (ti_entity t)
        | ByEntityClass e c \<Rightarrow> (e, c) \<in> given \<and> e = ti_entity t \<and> pr_kind r = ''subclass_of'' \<and> pr_from r = c
        | ByTypeInference iid \<Rightarrow> \<exists>u \<in> set earlier. ti_id u = iid \<and> ti_entity u = ti_entity t \<and>
            pr_kind r = ''subclass_of'' \<and> pr_from r = ti_class u))"

definition class_state ::
    "projection_rule list \<Rightarrow> statement list \<Rightarrow> entity_class list \<Rightarrow> class_derivation \<Rightarrow> bool" where
  "class_state rules vs explicit d \<longleftrightarrow>
     (\<exists>new. cd_known d = explicit @ new \<and> (\<forall>c \<in> set new. ec_inference c \<noteq> []) \<and>
        map (\<lambda>t. (ti_entity t, ti_class t, ti_id t)) (cd_types d) =
        map (\<lambda>c. (ec_entity c, ec_class c, ec_inference c)) new) \<and>
     distinct (map class_key (cd_known d)) \<and> (\<forall>c \<in> set (cd_known d). NUL \<notin> set (ec_entity c)) \<and>
     map tp_inference (cd_proofs d) = map ti_id (cd_types d) \<and>
     (\<forall>n < length (cd_types d). class_proved rules vs (classes_of explicit) (take n (cd_types d))
        (cd_types d ! n) (tp_premise (cd_proofs d ! n)))"

text \<open>A reason to add a class: the rule with a premise that the present state offers.\<close>

definition class_reason ::
    "projection_rule list \<Rightarrow> statement list \<Rightarrow> entity_class list \<Rightarrow> class_derivation \<Rightarrow> string \<Rightarrow>
     projection_rule \<Rightarrow> type_premise \<Rightarrow> bool" where
  "class_reason rules vs explicit d e r p \<longleftrightarrow> r \<in> set rules \<and> NUL \<notin> set e \<and>
     ((\<exists>v \<in> set vs. active v \<and> p = ByAssertion (ps_id v) \<and> typed_entity r v = Some e) \<or>
      (\<exists>c \<in> set (cd_known d). p = class_premise c \<and> e = ec_entity c \<and> pr_kind r = ''subclass_of'' \<and>
         pr_from r = ec_class c))"

lemma add_class_state:
  assumes s: "class_state rules vs explicit d" and x: "\<forall>c \<in> set explicit. ec_inference c = []"
    and why: "class_reason rules vs explicit d e r p"
    and add: "add_class sha limit e (pr_to r) r p d = Inr (d', True)"
  shows "class_state rules vs explicit d' \<and> set (cd_known d) \<subseteq> set (cd_known d')"
proof -
  define i where "i = deterministic_inference_id sha (pr_axiom r)
    (''rdf:type'' @ NUL # class_key (plain_class e (pr_to r))) [premise_name p]"
  define c where "c = \<lparr>ec_entity = e, ec_class = pr_to r, ec_inference = i\<rparr>"
  define t where "t = \<lparr>ti_id = i, ti_entity = e, ti_class = pr_to r, ti_ontology = pr_ontology r,
    ti_axiom = pr_axiom r, ti_status = ''accepted''\<rparr>"
  obtain new where new: "cd_known d = explicit @ new" "\<forall>c \<in> set new. ec_inference c \<noteq> []"
    "map (\<lambda>t. (ti_entity t, ti_class t, ti_id t)) (cd_types d) =
     map (\<lambda>c. (ec_entity c, ec_class c, ec_inference c)) new"
    using s by (auto simp: class_state_def)
  have fresh: "class_key (plain_class e (pr_to r)) \<notin> class_key ` set (cd_known d)"
    and d': "d' = \<lparr>cd_known = cd_known d @ [c], cd_types = cd_types d @ [t],
      cd_proofs = cd_proofs d @ [\<lparr>tp_inference = i, tp_ordinal = 0, tp_premise = p\<rparr>]\<rparr>"
    using add by (auto simp: add_class_def Let_def c_def t_def i_def split: if_splits)
  have "class_key c = class_key (plain_class e (pr_to r))" by (simp add: class_key_def c_def)
  then have keys: "distinct (map class_key (cd_known d'))" using s fresh by (auto simp: class_state_def d')
  have "class_proved rules vs (classes_of explicit) (cd_types d) t p"
  proof -
    consider (assertion) v where "v \<in> set vs" "active v" "p = ByAssertion (ps_id v)" "typed_entity r v = Some e"
      | (known) k where "k \<in> set (cd_known d)" "p = class_premise k" "e = ec_entity k"
          "pr_kind r = ''subclass_of''" "pr_from r = ec_class k"
      using why by (auto simp: class_reason_def)
    then show ?thesis
    proof cases
      case assertion
      then show ?thesis using why by (auto simp: class_proved_def t_def class_reason_def)
    next
      case known
      show ?thesis
      proof (cases "k \<in> set explicit")
        case True
        then show ?thesis using known why x
          by (auto simp: class_proved_def t_def class_reason_def class_premise_def classes_of_def)
      next
        case False
        then have k: "k \<in> set new" using known(1) new(1) by simp
        have "(ec_entity k, ec_class k, ec_inference k) \<in>
            set (map (\<lambda>t. (ti_entity t, ti_class t, ti_id t)) (cd_types d))"
          unfolding new(3) using k by force
        then obtain u where u: "u \<in> set (cd_types d)" "ti_entity u = ec_entity k" "ti_class u = ec_class k"
          "ti_id u = ec_inference k" by auto
        have "p = ByTypeInference (ti_id u)" "ti_entity t = ec_entity k" "r \<in> set rules"
          using known why k new(2) u by (simp_all add: class_premise_def class_reason_def t_def)
        then show ?thesis unfolding class_proved_def
          by (intro bexI [of _ r]) (use known u in \<open>auto simp: t_def intro!: bexI [of _ u]\<close>)
      qed
    qed
  qed
  moreover have len: "length (cd_proofs d) = length (cd_types d)"
    using s unfolding class_state_def by (metis length_map)
  ultimately have proved: "class_proved rules vs (classes_of explicit) (take n (cd_types d'))
      (cd_types d' ! n) (tp_premise (cd_proofs d' ! n))" if "n < length (cd_types d')" for n
    using s that by (cases "n = length (cd_types d)") (auto simp: d' class_state_def nth_append)
  have "cd_known d' = explicit @ new @ [c]" "\<forall>x \<in> set (new @ [c]). ec_inference x \<noteq> []"
    "map (\<lambda>t. (ti_entity t, ti_class t, ti_id t)) (cd_types d') =
     map (\<lambda>c. (ec_entity c, ec_class c, ec_inference c)) (new @ [c])"
    using new by (auto simp: d' c_def t_def i_def)
  moreover have "\<forall>x \<in> set (cd_known d'). NUL \<notin> set (ec_entity x)"
    using s why by (auto simp: class_state_def class_reason_def d' c_def)
  moreover have "map tp_inference (cd_proofs d') = map ti_id (cd_types d')"
    using s by (simp add: d' t_def class_state_def)
  ultimately have "class_state rules vs explicit d'"
    unfolding class_state_def using keys proved by blast
  then show ?thesis by (auto simp: d')
qed

lemma class_state_classified:
  assumes s: "class_state rules vs explicit d" and c: "c \<in> set (cd_known d)"
  shows "classified rules (facts_of vs) (classes_of explicit) (ec_entity c) (ec_class c)"
proof -
  have types: "classified rules (facts_of vs) (classes_of explicit) (ti_entity (cd_types d ! n)) (ti_class (cd_types d ! n))"
    if "n < length (cd_types d)" for n
    using that
  proof (induction n rule: less_induct)
    case (less n)
    let ?t = "cd_types d ! n"
    obtain r where r: "r \<in> set rules" "ti_class ?t = pr_to r" and p: "case tp_premise (cd_proofs d ! n) of
          ByAssertion aid \<Rightarrow> \<exists>v \<in> set vs. active v \<and> ps_id v = aid \<and> typed_entity r v = Some (ti_entity ?t)
        | ByEntityClass e c \<Rightarrow> (e, c) \<in> classes_of explicit \<and> e = ti_entity ?t \<and>
            pr_kind r = ''subclass_of'' \<and> pr_from r = c
        | ByTypeInference iid \<Rightarrow> \<exists>u \<in> set (take n (cd_types d)). ti_id u = iid \<and>
            ti_entity u = ti_entity ?t \<and> pr_kind r = ''subclass_of'' \<and> pr_from r = ti_class u"
      using s less.prems unfolding class_state_def class_proved_def by blast
    show ?case
    proof (cases "tp_premise (cd_proofs d ! n)")
      case (ByAssertion aid)
      then show ?thesis using p r by (auto intro: classified_statement)
    next
      case (ByEntityClass e c)
      then show ?thesis using p r by (auto intro: classified.explicit classified.subclassed)
    next
      case (ByTypeInference iid)
      then obtain u where u: "u \<in> set (take n (cd_types d))" "ti_entity u = ti_entity ?t"
        "pr_kind r = ''subclass_of''" "pr_from r = ti_class u" using p by auto
      then obtain m where "m < n" "u = cd_types d ! m" by (auto simp: in_set_conv_nth)
      then have "classified rules (facts_of vs) (classes_of explicit) (ti_entity u) (ti_class u)"
        using less by simp
      then show ?thesis using classified.subclassed [OF _ r(1) u(3,4)] u(2) r(2) by simp
    qed
  qed
  obtain new where new: "cd_known d = explicit @ new"
    "map (\<lambda>t. (ti_entity t, ti_class t, ti_id t)) (cd_types d) =
     map (\<lambda>c. (ec_entity c, ec_class c, ec_inference c)) new"
    using s by (auto simp: class_state_def)
  show ?thesis
  proof (cases "c \<in> set explicit")
    case True
    then show ?thesis by (auto simp: classes_of_def intro: classified.explicit)
  next
    case False
    then have "(ec_entity c, ec_class c, ec_inference c) \<in>
        set (map (\<lambda>t. (ti_entity t, ti_class t, ti_id t)) (cd_types d))"
      unfolding new(2) using c new(1) by force
    then obtain u where "u \<in> set (cd_types d)" "ti_entity u = ec_entity c" "ti_class u = ec_class c" by auto
    then show ?thesis using types by (metis in_set_conv_nth)
  qed
qed

lemma class_state_distinct:
  assumes "class_state rules vs explicit d"
  shows "distinct (map (\<lambda>c. (ec_entity c, ec_class c)) (cd_known d))"
proof -
  have "class_key = (\<lambda>(e, c). e @ NUL # c) \<circ> (\<lambda>c. (ec_entity c, ec_class c))"
    by (auto simp: class_key_def)
  then have "distinct (map (\<lambda>(e, c). e @ NUL # c) (map (\<lambda>c. (ec_entity c, ec_class c)) (cd_known d)))"
    using assms by (simp add: class_state_def)
  then show ?thesis unfolding distinct_map by blast
qed

lemma add_class_result:
  assumes "add_class sha limit e k r p d = Inr (d', added)"
  shows "added = (class_key (plain_class e k) \<notin> class_key ` set (cd_known d))"
    and "\<not> added \<Longrightarrow> d' = d" and "class_key (plain_class e k) \<in> class_key ` set (cd_known d')"
    and "class_key ` set (cd_known d) \<subseteq> class_key ` set (cd_known d')"
  using assms by (auto simp: add_class_def Let_def class_key_def split: if_splits)

definition classing ::
    "projection_rule list \<Rightarrow> statement list \<Rightarrow> entity_class list \<Rightarrow> entity_class list \<Rightarrow>
     class_derivation \<times> bool \<Rightarrow> bool" where
  "classing rules vs explicit cs s \<longleftrightarrow>
     class_state rules vs explicit (fst s) \<and> set cs \<subseteq> set (cd_known (fst s))"

lemma attempt_classing:
  assumes "attempt_class sha limit e (pr_to r) r p s = Inr t" and s: "classing rules vs explicit cs s"
    and x: "\<forall>c \<in> set explicit. ec_inference c = []"
    and why: "class_reason rules vs explicit (fst s) e r p"
  shows "classing rules vs explicit cs t"
proof -
  obtain d b where d: "s = (d, b)" by fastforce
  then obtain d' added where a: "add_class sha limit e (pr_to r) r p d = Inr (d', added)" and t: "t = (d', b \<or> added)"
    using assms(1) by (auto simp: attempt_class.simps split: sum.splits)
  show ?thesis
  proof (cases added)
    case True
    then show ?thesis using add_class_state [OF _ x _ , of rules vs d e r p sha limit d'] a s why d t
      by (auto simp: classing_def)
  next
    case False
    then show ?thesis using add_class_result(2) [OF a] s d t by (simp add: classing_def)
  qed
qed

lemma typed_entity_clean: "typed_entity r v = Some e \<Longrightarrow> clean_statement v \<Longrightarrow> NUL \<notin> set e"
  by (auto simp: typed_entity_def clean_statement_def split: if_splits)

lemma domain_range_classing:
  assumes "domain_range_pass sha limit rules vs s = Inr t" and "classing rules vs explicit [] s"
    and "\<forall>c \<in> set explicit. ec_inference c = []" and "\<forall>v \<in> set vs. clean_statement v"
  shows "classing rules vs explicit [] t"
  using assms(1,2)
proof (rule domain_range_keeps)
  fix v r e s t
  assume "v \<in> set vs" "active v" "r \<in> set rules" "typed_entity r v = Some e"
    and s: "classing rules vs explicit [] s"
    and t: "attempt_class sha limit e (pr_to r) r (ByAssertion (ps_id v)) s = Inr t"
  then have "class_reason rules vs explicit (fst s) e r (ByAssertion (ps_id v))"
    using assms(4) typed_entity_clean [of r v e] by (auto simp: class_reason_def)
  then show "classing rules vs explicit [] t" by (rule attempt_classing [OF t s assms(3)])
qed

lemma subclass_classing:
  assumes "subclass_pass sha limit rules cs s = Inr t" and "classing rules vs explicit cs s"
    and "\<forall>c \<in> set explicit. ec_inference c = []"
  shows "classing rules vs explicit cs t"
  using assms(1,2)
proof (rule subclass_keeps)
  fix c r s t
  assume c: "c \<in> set cs" "r \<in> set rules" "pr_kind r = ''subclass_of''" "pr_from r = ec_class c"
    and s: "classing rules vs explicit cs s"
    and t: "attempt_class sha limit (ec_entity c) (pr_to r) r (class_premise c) s = Inr t"
  have "c \<in> set (cd_known (fst s))" "NUL \<notin> set (ec_entity c)"
    using s c by (auto simp: classing_def class_state_def)
  then have "class_reason rules vs explicit (fst s) (ec_entity c) r (class_premise c)"
    using c by (auto simp: class_reason_def)
  then show "classing rules vs explicit cs t" by (rule attempt_classing [OF t s assms(3)])
qed

subsection \<open>Every class is inferred\<close>

text \<open>What each element of a loop establishes, when the rest of the loop keeps it.\<close>

lemma each_all:
  assumes "each f xs s = Inr t"
    and "\<And>x s t. x \<in> set xs \<Longrightarrow> f x s = Inr t \<Longrightarrow> Q x t"
    and "\<And>x y s t. y \<in> set xs \<Longrightarrow> Q x s \<Longrightarrow> f y s = Inr t \<Longrightarrow> Q x t"
  shows "\<forall>x \<in> set xs. Q x t"
  using assms
proof (induction xs arbitrary: s)
  case Nil
  then show ?case by simp
next
  case (Cons y ys)
  then obtain u where u: "f y s = Inr u" "each f ys u = Inr t" by (auto split: sum.splits)
  have "Q y u" using Cons.prems(2) u(1) by simp
  with u(2) have "Q y t" by (rule each_keeps) (rule Cons.prems(3), simp_all)
  moreover have "\<forall>x \<in> set ys. Q x t"
    using u(2) by (rule Cons.IH) (rule Cons.prems(2,3), simp_all)+
  ultimately show ?case by simp
qed

abbreviation class_keys :: "class_derivation \<times> bool \<Rightarrow> string set" where
  "class_keys s \<equiv> class_key ` set (cd_known (fst s))"

lemma attempt_class_keys:
  assumes "attempt_class sha limit e k r p s = Inr t"
  shows "class_key (plain_class e k) \<in> class_keys t" and "class_keys s \<subseteq> class_keys t"
  using assms by (cases s; auto simp: attempt_class.simps split: sum.splits dest: add_class_result)+

lemma domain_range_keys:
  assumes "domain_range_pass sha limit rules vs s = Inr t"
  shows "\<forall>v \<in> set vs. active v \<longrightarrow> (\<forall>r \<in> set rules. \<forall>e. typed_entity r v = Some e \<longrightarrow>
    class_key (plain_class e (pr_to r)) \<in> class_keys t)"
  using assms unfolding domain_range_pass_def
proof (rule each_all)
  let ?body = "\<lambda>v r s. case typed_entity r v of None \<Rightarrow> Inr s
    | Some e \<Rightarrow> attempt_class sha limit e (pr_to r) r (ByAssertion (ps_id v)) s"
  let ?typed = "\<lambda>v r s. \<forall>e. typed_entity r v = Some e \<longrightarrow> class_key (plain_class e (pr_to r)) \<in> class_keys s"
  have grows: "class_keys s \<subseteq> class_keys t" if "each (?body v) rules s = Inr t" for v s t
    using that
  proof (rule each_keeps [where P = "\<lambda>u. class_keys s \<subseteq> class_keys u"])
    fix r u t
    assume "class_keys s \<subseteq> class_keys u" and "?body v r u = Inr t"
    then show "class_keys s \<subseteq> class_keys t"
      by (cases "typed_entity r v") (simp, simp, blast dest: attempt_class_keys(2))
  qed simp
  have typed: "\<forall>r \<in> set rules. ?typed v r t" if "each (?body v) rules s = Inr t" for v s t
    using that
  proof (rule each_all)
    fix r u t
    assume "?body v r u = Inr t"
    then show "?typed v r t" by (auto dest: attempt_class_keys(1))
  next
    fix r q u t
    assume typed: "?typed v r u" and "?body v q u = Inr t"
    then have "class_keys u \<subseteq> class_keys t"
      by (cases "typed_entity q v") (simp, simp, blast dest: attempt_class_keys(2))
    then show "?typed v r t" using typed by blast
  qed
  fix v s t
  assume t: "(if \<not> active v then Inr s else each (?body v) rules s) = Inr t"
  show "active v \<longrightarrow> (\<forall>r \<in> set rules. ?typed v r t)"
    using t typed by (auto split: if_splits)
  fix w
  assume "active w \<longrightarrow> (\<forall>r \<in> set rules. ?typed w r s)"
  moreover have "class_keys s \<subseteq> class_keys t" using t grows by (auto split: if_splits)
  ultimately show "active w \<longrightarrow> (\<forall>r \<in> set rules. ?typed w r t)" by blast
qed

lemma subclass_pass_keys:
  assumes "subclass_pass sha limit rules cs s = Inr t" shows "class_keys s \<subseteq> class_keys t"
  using assms
  by (rule subclass_keeps [where P = "\<lambda>u. class_keys s \<subseteq> class_keys u"])
    (simp, blast dest: attempt_class_keys(2))

lemma attempt_class_still:
  "attempt_class sha limit e k r p s = Inr (d, False) \<Longrightarrow>
     s = (d, False) \<and> class_key (plain_class e k) \<in> class_key ` set (cd_known d)"
  by (cases s) (auto simp: attempt_class.simps split: sum.splits dest: add_class_result)

lemma subclass_still:
  assumes "subclass_pass sha limit rules cs s = Inr (d, False)"
  shows "s = (d, False) \<and> (\<forall>c \<in> set cs. \<forall>r \<in> set rules. pr_kind r = ''subclass_of'' \<longrightarrow>
    pr_from r = ec_class c \<longrightarrow>
    class_key (plain_class (ec_entity c) (pr_to r)) \<in> class_key ` set (cd_known d))"
  using assms unfolding subclass_pass_def
proof (rule each_still)
  fix c s
  assume "each (\<lambda>r s. if pr_kind r \<noteq> ''subclass_of'' \<or> pr_from r \<noteq> ec_class c then Inr s
       else attempt_class sha limit (ec_entity c) (pr_to r) r (class_premise c) s) rules s = Inr (d, False)"
  then show "s = (d, False) \<and> (\<forall>r \<in> set rules. pr_kind r = ''subclass_of'' \<longrightarrow> pr_from r = ec_class c \<longrightarrow>
      class_key (plain_class (ec_entity c) (pr_to r)) \<in> class_key ` set (cd_known d))"
    by (rule each_still) (auto split: if_splits dest: attempt_class_still)
qed

definition subclass_closed :: "projection_rule list \<Rightarrow> class_derivation \<Rightarrow> bool" where
  "subclass_closed rules d \<longleftrightarrow>
     (\<forall>c \<in> set (cd_known d). \<forall>r \<in> set rules. pr_kind r = ''subclass_of'' \<longrightarrow> pr_from r = ec_class c \<longrightarrow>
        class_key (plain_class (ec_entity c) (pr_to r)) \<in> class_key ` set (cd_known d))"

lemma saturate_classes_closed:
  assumes "saturate_classes sha limit rules d = Inr d'" and "class_state rules vs explicit d"
    and "\<forall>c \<in> set explicit. ec_inference c = []"
  shows "class_state rules vs explicit d' \<and> subclass_closed rules d' \<and>
    class_key ` set (cd_known d) \<subseteq> class_key ` set (cd_known d')"
  using assms
proof (induction sha limit rules d rule: saturate_classes.induct)
  case (1 sha limit rules d)
  obtain t changed where r: "subclass_round sha limit rules d = Inr (t, changed)"
    and t: "(if changed then saturate_classes sha limit rules t else Inr t) = Inr d'"
    using "1.prems"(1) by (subst (asm) saturate_classes.simps) (auto split: sum.splits)
  have r': "subclass_pass sha limit rules (sorted_classes d) (d, False) = Inr (t, changed)"
    using r by (simp add: subclass_round_def)
  have set: "set (sorted_classes d) = set (cd_known d)" by (simp add: sorted_classes_def)
  have "classing rules vs explicit (sorted_classes d) (t, changed)"
    by (rule subclass_classing [OF r' _ "1.prems"(3)]) (simp add: classing_def set "1.prems"(2))
  then have st: "class_state rules vs explicit t" by (simp add: classing_def)
  have mono: "class_key ` set (cd_known d) \<subseteq> class_key ` set (cd_known t)"
    using subclass_pass_keys [OF r'] by simp
  show ?case
  proof (cases changed)
    case True
    then show ?thesis using "1.IH" [OF r refl True _ st "1.prems"(3)] t mono by auto
  next
    case False
    then have "subclass_closed rules t"
      using subclass_still [of sha limit rules "sorted_classes d" "(d, False)" t] r' set
      by (simp add: subclass_closed_def)
    then show ?thesis using False t st mono by simp
  qed
qed

lemma classified_known:
  assumes s: "class_state rules vs explicit d" and cl: "subclass_closed rules d"
    and typed: "\<And>v r e. v \<in> set vs \<Longrightarrow> active v \<Longrightarrow> r \<in> set rules \<Longrightarrow> typed_entity r v = Some e \<Longrightarrow>
      class_key (plain_class e (pr_to r)) \<in> class_key ` set (cd_known d)"
    and clean: "\<forall>v \<in> set vs. clean_statement v"
  shows "classified rules (facts_of vs) (classes_of explicit) e c \<Longrightarrow> (e, c) \<in> classes_of (cd_known d)"
proof -
  have found: "(e, k) \<in> classes_of (cd_known d)"
    if in_keys: "class_key (plain_class e k) \<in> class_key ` set (cd_known d)" and ne: "NUL \<notin> set e" for e k
  proof -
    obtain u where u: "u \<in> set (cd_known d)" "class_key (plain_class e k) = class_key u"
      using in_keys by (rule imageE)
    moreover have "NUL \<notin> set (ec_entity u)" using s u(1) by (simp add: class_state_def)
    ultimately show ?thesis
      using class_key_inj [of "plain_class e k" u] ne by (force simp: classes_of_def)
  qed
  show "classified rules (facts_of vs) (classes_of explicit) e c \<Longrightarrow> (e, c) \<in> classes_of (cd_known d)"
  proof (induction rule: classified.induct)
    case (explicit e c)
    then show ?case using s by (auto simp: class_state_def classes_of_def)
  next
    case (typed f r e)
    then obtain v where v: "v \<in> set vs" "active v" "typed_entity r v = Some e"
      by (auto simp: facts_of_def)
    then show ?case using assms(3) typed.hyps found clean typed_entity_clean by blast
  next
    case (subclassed e c r)
    then obtain u where u: "u \<in> set (cd_known d)" "e = ec_entity u" "c = ec_class u"
      by (auto simp: classes_of_def)
    have "NUL \<notin> set e" using s u by (simp add: class_state_def)
    moreover have "class_key (plain_class e (pr_to r)) \<in> class_key ` set (cd_known d)"
      using cl u subclassed.hyps by (simp add: subclass_closed_def)
    ultimately show ?case by (intro found)
  qed
qed

lemma fold_put_class:
  "distinct (map class_key (us @ vs)) \<Longrightarrow> fold put_class vs us = us @ vs"
  by (induction vs arbitrary: us) (auto simp: put_class_def)


subsection \<open>Conflicts\<close>

definition same_object :: "statement \<Rightarrow> statement \<Rightarrow> bool" where
  "same_object l r \<longleftrightarrow>
     (if ps_object l = [] \<and> ps_object r = [] then ps_literal l = ps_literal r
      else ps_object l = ps_object r)"

lemma object_key_eq: "object_key l = object_key r \<longleftrightarrow> same_object l r"
  by (auto simp: object_key_def same_object_def)

text \<open>Two statements of a functional property that cannot both hold.\<close>

definition conflicting :: "(string \<Rightarrow> bool) \<Rightarrow> statement \<Rightarrow> statement \<Rightarrow> bool" where
  "conflicting functional l r \<longleftrightarrow>
     functional_statement functional l \<and> functional_statement functional r \<and>
     ps_subject l = ps_subject r \<and> ps_predicate l = ps_predicate r \<and> ps_qualifiers l = ps_qualifiers r \<and>
     \<not> same_object l r \<and> intervals_overlap l r"

lemma ordered_pairs_sorted:
  assumes "sorted (map f xs)" and "distinct (map f xs)"
  shows "set (ordered_pairs xs) = {(a, b). a \<in> set xs \<and> b \<in> set xs \<and> f a < (f b :: 'b :: linorder)}"
    and "distinct (ordered_pairs xs)"
  using assms
proof (induction xs)
  case Nil
  {
    case 1
    show ?case by simp
  next
    case 2
    show ?case by simp
  }
next
  case (Cons x xs)
  {
    case 1
    then have "\<forall>y \<in> set xs. f x < f y" by (force simp: image_iff order.strict_iff_order)
    then show ?case using Cons 1 by (auto dest: order.asym)
  next
    case 2
    then show ?case using Cons 2 by (auto simp: distinct_map inj_on_def)
  }
qed

lemma group_key_eq:
  "clean_statement l \<Longrightarrow> clean_statement r \<Longrightarrow> group_key l = group_key r \<longleftrightarrow>
     ps_subject l = ps_subject r \<and> ps_predicate l = ps_predicate r \<and> ps_qualifiers l = ps_qualifiers r"
  by (simp add: group_key_def clean_statement_def NUL_split)

lemma distinct_groups:
  assumes "distinct ks" and "\<And>k. k \<in> set ks \<Longrightarrow> distinct (map f (g k))"
    and "\<And>j k x y. j \<in> set ks \<Longrightarrow> k \<in> set ks \<Longrightarrow> x \<in> set (g j) \<Longrightarrow> y \<in> set (g k) \<Longrightarrow> f x = f y \<Longrightarrow> j = k"
  shows "distinct (map f (concat (map g ks)))"
  using assms
proof (induction ks)
  case Nil
  then show ?case by simp
next
  case (Cons k ks)
  have "distinct (map f (concat (map g ks)))" using Cons by simp
  moreover have "f ` set (g k) \<inter> f ` set (concat (map g ks)) = {}"
  proof (rule ccontr)
    assume "f ` set (g k) \<inter> f ` set (concat (map g ks)) \<noteq> {}"
    then obtain x y j where "x \<in> set (g k)" "j \<in> set ks" "y \<in> set (g j)" "f x = f y" by auto
    then show False using Cons.prems(1) Cons.prems(3) [of k j x y] by auto
  qed
  ultimately show ?case using Cons.prems(2) by simp
qed

definition conflict_ids :: "conflict_record list \<Rightarrow> (string \<times> string) set" where
  "conflict_ids cs = (\<lambda>c. (cf_left c, cf_right c)) ` set cs"

lemma detected_conflicts:
  assumes ids: "distinct (map ps_id vs)" and clean: "\<forall>v \<in> set vs. clean_statement v"
  shows "conflict_ids (detect_projection_conflicts sha functional vs) =
      {(ps_id l, ps_id r) | l r. l \<in> set vs \<and> r \<in> set vs \<and> conflicting functional l r \<and> ps_id l < ps_id r} \<and>
    distinct (map (\<lambda>c. (cf_left c, cf_right c)) (detect_projection_conflicts sha functional vs))"
proof -
  define us where "us = filter (functional_statement functional) vs"
  define group where "group k = sort_key ps_id (filter (\<lambda>v. group_key v = k) us)" for k
  define pairs where "pairs k = filter excludes (ordered_pairs (group k))" for k
  define ks where "ks = remdups (map group_key us)"
  have sub: "set us \<subseteq> set vs" by (auto simp: us_def)
  have inj: "inj_on ps_id (set vs)" using ids by (simp add: distinct_map)
  have g: "sorted (map ps_id (group k))" "distinct (map ps_id (group k))"
    "set (group k) = {v \<in> set us. group_key v = k}" for k
  proof -
    show "sorted (map ps_id (group k))" "set (group k) = {v \<in> set us. group_key v = k}"
      by (auto simp: group_def)
    have "distinct (map ps_id (filter (\<lambda>v. group_key v = k) us))"
      using ids by (simp add: us_def distinct_map_filter)
    then show "distinct (map ps_id (group k))" by (simp add: group_def distinct_map)
  qed
  have p: "set (pairs k) = {(l, r). l \<in> set us \<and> r \<in> set us \<and> group_key l = k \<and> group_key r = k \<and>
      ps_id l < ps_id r \<and> \<not> same_object l r \<and> intervals_overlap l r}" for k
  proof -
    have "set (pairs k) = {x \<in> set (ordered_pairs (group k)). excludes x}" by (simp add: pairs_def)
    then show ?thesis unfolding ordered_pairs_sorted(1) [OF g(1,2)] g(3) excludes_def object_key_eq by fastforce
  qed
  let ?ids = "\<lambda>(l, r). (ps_id l, ps_id r)"
  have detect: "detect_projection_conflicts sha functional vs =
      sort_key cf_id (concat (map (\<lambda>k. map (\<lambda>(l, r). conflict_of sha l r) (pairs k)) ks))"
    by (simp add: detect_projection_conflicts_def Let_def us_def group_def pairs_def ks_def)
  have mapped: "map (\<lambda>c. (cf_left c, cf_right c)) (concat (map (\<lambda>k. map (\<lambda>(l, r). conflict_of sha l r) (pairs k)) ks)) =
      map ?ids (concat (map pairs ks))"
    by (simp add: map_concat comp_def split_def conflict_of_def)
  have "set (concat (map pairs ks)) = {(l, r). l \<in> set us \<and> r \<in> set us \<and> group_key l = group_key r \<and>
      ps_id l < ps_id r \<and> \<not> same_object l r \<and> intervals_overlap l r}"
    by (auto simp: p ks_def)
  also have "\<dots> = {(l, r). l \<in> set vs \<and> r \<in> set vs \<and> conflicting functional l r \<and> ps_id l < ps_id r}"
    using clean by (auto simp: us_def conflicting_def group_key_eq)
  finally have set: "set (concat (map pairs ks)) =
      {(l, r). l \<in> set vs \<and> r \<in> set vs \<and> conflicting functional l r \<and> ps_id l < ps_id r}" .
  have "distinct (map ?ids (concat (map pairs ks)))"
  proof (rule distinct_groups)
    show "distinct ks" by (simp add: ks_def)
    show "distinct (map ?ids (pairs k))" for k
    proof -
      have "distinct (pairs k)" using ordered_pairs_sorted(2) [OF g(1,2), of k] by (simp add: pairs_def)
      moreover have "inj_on ?ids (set (pairs k))"
      proof (rule inj_onI)
        fix x y assume "x \<in> set (pairs k)" "y \<in> set (pairs k)" "?ids x = ?ids y"
        then have "fst x \<in> set vs" "fst y \<in> set vs" "snd x \<in> set vs" "snd y \<in> set vs"
          "ps_id (fst x) = ps_id (fst y)" "ps_id (snd x) = ps_id (snd y)"
          using sub by (auto simp: p split_def)
        then show "x = y" using inj by (simp add: inj_on_eq_iff prod_eq_iff)
      qed
      ultimately show ?thesis by (simp add: distinct_map)
    qed
    show "j = k" if "x \<in> set (pairs j)" "y \<in> set (pairs k)" "?ids x = ?ids y" for j k x y
    proof -
      have "fst x \<in> set vs" "fst y \<in> set vs" "ps_id (fst x) = ps_id (fst y)"
        using that sub by (auto simp: p split_def)
      then have "fst x = fst y" using inj by (simp add: inj_on_eq_iff)
      then show ?thesis using that(1,2) by (auto simp: p)
    qed
  qed
  then have "distinct (map (\<lambda>c. (cf_left c, cf_right c)) (detect_projection_conflicts sha functional vs))"
    unfolding detect mapped [symmetric] by (simp add: distinct_map)
  moreover have "conflict_ids (detect_projection_conflicts sha functional vs) = ?ids ` set (concat (map pairs ks))"
    unfolding conflict_ids_def detect set_sort using arg_cong [OF mapped, of set] by simp
  ultimately show ?thesis unfolding set by force
qed

text \<open>Reconciling: what stays of the stored conflicts, and what is written.\<close>

lemma put_desired_pairs:
  "distinct (map pair_of ds) \<Longrightarrow> distinct (map pair_of (put_desired c ds)) \<and>
     pair_of ` set (put_desired c ds) = insert (pair_of c) (pair_of ` set ds) \<and>
     set (put_desired c ds) \<subseteq> insert c (set ds)"
  by (auto simp: put_desired_def distinct_map inj_on_def)

lemma fold_put_desired:
  "distinct (map pair_of ds) \<Longrightarrow> distinct (map pair_of (fold put_desired cs ds)) \<and>
     pair_of ` set (fold put_desired cs ds) = pair_of ` set cs \<union> pair_of ` set ds \<and>
     set (fold put_desired cs ds) \<subseteq> set cs \<union> set ds"
proof (induction cs arbitrary: ds)
  case Nil
  then show ?case by simp
next
  case (Cons c cs)
  from put_desired_pairs [OF Cons.prems, of c] show ?case
    using Cons.IH [of "put_desired c ds"] by auto
qed

lemma reconcile_each_pairs:
  assumes "reconcile_each cs ds = (kept, rest)" and "distinct (map pair_of ds)"
  shows "distinct (map pair_of (kept @ rest)) \<and> pair_of ` set (kept @ rest) = pair_of ` set ds \<and>
    set kept \<subseteq> set cs \<and> set rest \<subseteq> set ds \<and> (\<forall>c \<in> set rest. pair_of c \<notin> pair_of ` set cs)"
  using assms
proof (induction cs arbitrary: ds kept rest)
  case Nil
  then show ?case by simp
next
  case (Cons c cs)
  show ?case
  proof (cases "pair_of c \<in> pair_of ` set ds")
    case True
    let ?ds = "filter (\<lambda>d. pair_of d \<noteq> pair_of c) ds"
    obtain k where k: "reconcile_each cs ?ds = (k, rest)" "kept = c # k"
      using Cons.prems(1) True by (auto split: prod.splits)
    have "distinct (map pair_of ?ds)" using Cons.prems(2) by (simp add: distinct_map_filter)
    note r = Cons.IH [OF k(1) this]
    have "pair_of ` set ?ds = pair_of ` set ds - {pair_of c}" by auto
    then show ?thesis using r True k(2) by auto
  next
    case False
    then have "reconcile_each cs ds = (kept, rest)" using Cons.prems(1) by simp
    note r = Cons.IH [OF this Cons.prems(2)]
    have "pair_of d \<in> pair_of ` set ds" if "d \<in> set rest" for d using r that by blast
    then have "\<forall>d \<in> set rest. pair_of d \<noteq> pair_of c" using False by metis
    then show ?thesis using r by auto
  qed
qed

text \<open>
  C27. The conflicts of a projection are exactly the pairs of accepted or disputed statements that
  give one functional property different objects under the same qualifiers with overlapping
  validity, each pair once; and after reconciliation the conflicts that stay stored and those that
  are written name every detected pair once and no other, a stored row being kept as it is.
\<close>

theorem conflicts_reconciled:
  assumes ids: "distinct (map ps_id vs)" and clean: "\<forall>v \<in> set vs. clean_statement v"
    and found: "detect_projection_conflicts sha functional vs = found"
    and rec: "reconcile_projection_conflicts stored found = (kept, written)"
  shows "conflict_ids found =
      {(ps_id l, ps_id r) | l r. l \<in> set vs \<and> r \<in> set vs \<and> conflicting functional l r \<and> ps_id l < ps_id r} \<and>
    distinct (map (\<lambda>c. (cf_left c, cf_right c)) found) \<and>
    distinct (map pair_of (kept @ written)) \<and>
    pair_of ` set (kept @ written) = pair_of ` set found \<and> set kept \<subseteq> set stored \<and> set written \<subseteq> set found \<and>
    (\<forall>c \<in> set written. pair_of c \<notin> pair_of ` set stored)"
proof -
  obtain rest where r: "reconcile_each stored (fold put_desired found []) = (kept, rest)"
    and w: "written = sort_key cf_id rest"
    using rec by (auto simp: reconcile_projection_conflicts_def split: prod.splits)
  have f: "distinct (map pair_of (fold put_desired found []))"
    "pair_of ` set (fold put_desired found []) = pair_of ` set found"
    "set (fold put_desired found []) \<subseteq> set found"
    using fold_put_desired [of "[]" found] by auto
  have "distinct (map pair_of (kept @ written))"
    using reconcile_each_pairs [OF r f(1)] by (auto simp: w distinct_map)
  then show ?thesis
    using reconcile_each_pairs [OF r f(1)] f detected_conflicts [OF ids clean, of sha functional]
    by (auto simp: w found)
qed

end
