(* ===== verification/Projection_Limit.thy ===== *)
theory Projection_Limit
  imports Projection_Properties Projection_Types
begin

section \<open>The limit on inferences\<close>

text \<open>
  For a generation whose accepted assertions have evidence, and with digests that do not collide,
  a projection is refused exactly when the ontology entails more new facts and classes than the
  limit permits.
\<close>

subsection \<open>Where a loop stops\<close>

lemma each_error:
  assumes "each f xs s = Inl e" and "P s"
    and "\<And>x s t. x \<in> set xs \<Longrightarrow> P s \<Longrightarrow> f x s = Inr t \<Longrightarrow> P t"
  shows "\<exists>x \<in> set xs. \<exists>u. P u \<and> f x u = Inl e"
  using assms
proof (induction xs arbitrary: s)
  case Nil
  then show ?case by simp
next
  case (Cons x xs)
  show ?case
  proof (cases "f x s")
    case (Inl a)
    then show ?thesis using Cons.prems(1,2) by auto
  next
    case (Inr u)
    then have "each f xs u = Inl e" "P u" using Cons.prems by auto
    then have "\<exists>x \<in> set xs. \<exists>u. P u \<and> f x u = Inl e" by (rule Cons.IH) (rule Cons.prems(3), simp_all)
    then show ?thesis by simp
  qed
qed

lemma one_premise_error:
  assumes "one_premise_pass sha limit rules vs s = Inl e" and "P s"
    and "\<And>v r s t. v \<in> set vs \<Longrightarrow> active v \<Longrightarrow> r \<in> set rules \<Longrightarrow> rule_applies r v \<Longrightarrow> P s \<Longrightarrow>
      attempt_add sha limit (rule_conclusion r v) r [ps_id v] s = Inr t \<Longrightarrow> P t"
  obtains v r u where "v \<in> set vs" "active v" "r \<in> set rules" "rule_applies r v" "P u"
    "attempt_add sha limit (rule_conclusion r v) r [ps_id v] u = Inl e"
proof -
  let ?inner = "\<lambda>v r s. if \<not> rule_applies r v then Inr s
    else attempt_add sha limit (rule_conclusion r v) r [ps_id v] s"
  have keep: "P t" if v: "v \<in> set vs" "active v" and s: "P s" and t: "each (?inner v) rules s = Inr t" for v s t
    using t s by (rule each_keeps) (auto split: if_splits intro: assms(3) [OF v])
  have "\<exists>v \<in> set vs. \<exists>u. P u \<and> (if \<not> active v then Inr u else each (?inner v) rules u) = Inl e"
    using assms(1,2) unfolding one_premise_pass_def
    by (rule each_error) (auto split: if_splits intro: keep)
  then obtain v u where v: "v \<in> set vs" "active v" "P u" "each (?inner v) rules u = Inl e"
    by (auto split: if_splits)
  have "\<exists>r \<in> set rules. \<exists>w. P w \<and> ?inner v r w = Inl e"
    using v(4,3) by (rule each_error) (auto split: if_splits intro: assms(3) [OF v(1,2)])
  then show thesis using that v(1,2) by (auto split: if_splits)
qed

lemma transitive_error:
  assumes "transitive_pass sha limit rules vs s = Inl e" and "P s"
    and "\<And>r l x s t. r \<in> set rules \<Longrightarrow> pr_kind r = ''transitive'' \<Longrightarrow> l \<in> set vs \<Longrightarrow> link_left r l \<Longrightarrow>
      x \<in> set vs \<Longrightarrow> link_right r l x \<Longrightarrow> P s \<Longrightarrow>
      attempt_add sha limit (link_conclusion l x) r [ps_id l, ps_id x] s = Inr t \<Longrightarrow> P t"
  obtains r l x u where "r \<in> set rules" "pr_kind r = ''transitive''" "l \<in> set vs" "link_left r l"
    "x \<in> set vs" "link_right r l x" "P u"
    "attempt_add sha limit (link_conclusion l x) r [ps_id l, ps_id x] u = Inl e"
proof -
  let ?inner = "\<lambda>r l x s. if \<not> link_right r l x then Inr s
    else attempt_add sha limit (link_conclusion l x) r [ps_id l, ps_id x] s"
  let ?middle = "\<lambda>r l s. if \<not> link_left r l then Inr s else each (?inner r l) vs s"
  have keep: "P t" if r: "r \<in> set rules" "pr_kind r = ''transitive''" and l: "l \<in> set vs"
    and s: "P s" and t: "?middle r l s = Inr t" for r l s t
  proof (cases "link_left r l")
    case True
    with t have "each (?inner r l) vs s = Inr t" by simp
    then show ?thesis using s
      by (rule each_keeps) (auto split: if_splits intro: assms(3) [OF r l True])
  qed (use s t in simp)
  have keep': "P t" if r: "r \<in> set rules" "pr_kind r = ''transitive''" and s: "P s"
    and t: "each (?middle r) vs s = Inr t" for r s t
    using t s by (rule each_keeps) (rule keep [OF r])
  have "\<exists>r \<in> set rules. \<exists>u. P u \<and>
      (if pr_kind r \<noteq> ''transitive'' then Inr u else each (?middle r) vs u) = Inl e"
    using assms(1,2) unfolding transitive_pass_def
    by (rule each_error) (auto split: if_splits intro: keep')
  then obtain r u where r: "r \<in> set rules" "pr_kind r = ''transitive''" "P u" "each (?middle r) vs u = Inl e"
    by (auto split: if_splits)
  have "\<exists>l \<in> set vs. \<exists>w. P w \<and> ?middle r l w = Inl e"
    using r(4,3) by (rule each_error) (rule keep [OF r(1,2)])
  then obtain l w where l: "l \<in> set vs" "link_left r l" "P w" "each (?inner r l) vs w = Inl e"
    by (auto split: if_splits)
  have "\<exists>x \<in> set vs. \<exists>w. P w \<and> ?inner r l x w = Inl e"
    using l(4,3) by (rule each_error) (auto split: if_splits intro: assms(3) [OF r(1,2) l(1,2)])
  then show thesis using that r(1,2) l(1,2) by (auto split: if_splits)
qed

subsection \<open>Adding to a counted derivation\<close>

text \<open>
  The state of a derivation that is being counted: one inference per conclusion, each with a key
  of its own, and evidence for every accepted statement.
\<close>

definition numbered ::
    "projection_rule list \<Rightarrow> statement list \<Rightarrow> derivation \<Rightarrow> bool" where
  "numbered rules asserted d \<longleftrightarrow>
     (\<exists>cs. dv_by_id d = asserted @ cs \<and> length cs = inferred d \<and> distinct (map statement_key cs) \<and>
        statement_key ` set cs \<inter> statement_key ` set asserted = {}) \<and>
     (\<forall>v \<in> set (dv_by_id d). active v \<longrightarrow> dv_evidence d (ps_id v) \<noteq> []) \<and>
     sound_state rules asserted d"

definition admissible :: "projection_rule list \<Rightarrow> statement list \<Rightarrow> bool" where
  "admissible rules asserted \<longleftrightarrow>
     (\<forall>r \<in> set rules. clean_rule r) \<and> (\<forall>v \<in> set asserted. clean_statement v)"

abbreviation limit_error :: string where
  "limit_error \<equiv> ''ontology inference limit exceeded''"

abbreviation collision_error :: string where
  "collision_error \<equiv> ''deterministic inference id collision''"

lemma inherit_nonempty:
  "p \<in> set ps \<Longrightarrow> ev p \<noteq> [] \<Longrightarrow> inherit_evidence i ps ev \<noteq> []"
proof -
  assume "p \<in> set ps" "ev p \<noteq> []"
  then obtain e es where "concat (map ev ps) = e # es" by (cases "concat (map ev ps)") auto
  then show ?thesis by (simp add: inherit_evidence_def)
qed

lemma add_numbered:
  assumes d: "numbered rules asserted d" and c: "clean_statement c"
    and e: "statement_key c \<notin> blocked_keys asserted \<Longrightarrow> entailed_by rules asserted (fact c)"
    and ps: "p \<in> set ps" "\<exists>v \<in> set (dv_by_id d). active v \<and> ps_id v = p"
  shows "(\<exists>d' added. add_conclusion sha limit c r ps d = Inr (d', added) \<and> numbered rules asserted d') \<or>
    add_conclusion sha limit c r ps d = Inl collision_error \<or>
    add_conclusion sha limit c r ps d = Inl limit_error \<and>
      statement_key c \<notin> set (dv_known d) \<and> int (inferred d) \<ge> limit"
proof -
  define i where "i = deterministic_inference_id sha (pr_axiom r) (statement_key c) (sort ps)"
  show ?thesis
  proof (cases "statement_key c \<in> set (dv_known d) \<or> int (inferred d) \<ge> limit \<or> i \<in> ps_id ` set (dv_by_id d)")
    case True
    then show ?thesis using d by (auto simp: add_conclusion_def Let_def inferred_def i_def)
  next
    case False
    then have new: "statement_key c \<notin> set (dv_known d)" and lim: "\<not> int (inferred d) \<ge> limit"
      and fresh: "i \<notin> ps_id ` set (dv_by_id d)" by auto
    define v where "v = c\<lparr>ps_id := i, ps_status := ''accepted'', ps_polarity := ''affirmed''\<rparr>"
    define es where "es = inherit_evidence i (sort ps) (dv_evidence d)"
    obtain cs where cs: "dv_by_id d = asserted @ cs" "length cs = inferred d" "distinct (map statement_key cs)"
      "statement_key ` set cs \<inter> statement_key ` set asserted = {}"
      and ev: "\<forall>v \<in> set (dv_by_id d). active v \<longrightarrow> dv_evidence d (ps_id v) \<noteq> []"
      and s: "sound_state rules asserted d"
      using d by (auto simp: numbered_def)
    have known: "set (dv_known d) = statement_key ` set (dv_by_id d)" using s by (simp add: sound_state_def)
    have "dv_evidence d p \<noteq> []" using ps(2) ev by blast
    then have es: "es \<noteq> []" using ps(1) inherit_nonempty [of p "sort ps"] by (simp add: es_def)
    let ?d' = "\<lparr>dv_known = statement_key c # dv_known d, dv_by_id = dv_by_id d @ [v],
        dv_evidence = (dv_evidence d)(i := es), dv_out = record_conclusion sha v r (sort ps) es (dv_out d)\<rparr>"
    have add: "add_conclusion sha limit c r ps d = Inr (?d', True)"
      using new lim fresh es by (simp add: add_conclusion_def Let_def i_def v_def es_def inferred_def)
    have key: "statement_key v = statement_key c" "ps_id v = i" by (simp_all add: v_def statement_key_def)
    have "dv_by_id ?d' = asserted @ (cs @ [v])" "length (cs @ [v]) = inferred ?d'"
      using cs by (simp_all add: inferred_def record_conclusion_def)
    moreover have "distinct (map statement_key (cs @ [v]))"
      "statement_key ` set (cs @ [v]) \<inter> statement_key ` set asserted = {}"
      using cs(1,3,4) new known by (auto simp: key)
    moreover have "\<forall>u \<in> set (dv_by_id ?d'). active u \<longrightarrow> dv_evidence ?d' (ps_id u) \<noteq> []"
      using ev es fresh by (auto simp: key)
    moreover have "sound_state rules asserted ?d'" by (rule add_keeps_sound [OF add s c e])
    ultimately have "numbered rules asserted ?d'" unfolding numbered_def by blast
    then show ?thesis using add by blast
  qed
qed

subsection \<open>Conclusions against the limit\<close>

definition new_facts :: "projection_rule list \<Rightarrow> statement list \<Rightarrow> statement set" where
  "new_facts rules asserted = Collect (entailed_by rules asserted) - facts_of asserted"

text \<open>A derivation at its limit with one more conclusion to draw.\<close>

definition exceeded :: "int \<Rightarrow> projection_rule list \<Rightarrow> statement list \<Rightarrow> bool" where
  "exceeded limit rules asserted \<longleftrightarrow>
     (\<exists>d c. numbered rules asserted d \<and> clean_statement c \<and> int (inferred d) \<ge> limit \<and>
        statement_key c \<notin> set (dv_known d) \<and> entailed_by rules asserted (fact c))"

lemma numbered_sound: "numbered rules asserted d \<Longrightarrow> sound_state rules asserted d"
  by (simp add: numbered_def)

lemma conclusion_facts:
  assumes "numbered rules asserted d"
  shows "facts_of (dv_by_id d) - facts_of asserted \<subseteq> new_facts rules asserted"
    and "finite (facts_of (dv_by_id d) - facts_of asserted)"
    and "card (facts_of (dv_by_id d) - facts_of asserted) = inferred d"
proof -
  obtain cs where cs: "dv_by_id d = asserted @ cs" "length cs = inferred d" "distinct (map statement_key cs)"
    "statement_key ` set cs \<inter> statement_key ` set asserted = {}"
    using assms by (auto simp: numbered_def)
  have s: "sound_state rules asserted d" by (rule numbered_sound [OF assms])
  show "facts_of (dv_by_id d) - facts_of asserted \<subseteq> new_facts rules asserted"
    using state_vouched [OF s] by (auto simp: new_facts_def facts_of_def vouched_def)
  have keys: "statement_key u = statement_key v" if "fact u = fact v" for u v using that by (metis key_fact)
  have act: "\<forall>c \<in> set cs. active c"
  proof
    fix c assume c: "c \<in> set cs"
    then have "c \<notin> set asserted" using cs(4) by auto
    then show "active c" using s c cs(1) by (auto simp: sound_state_def)
  qed
  have "facts_of (dv_by_id d) - facts_of asserted = fact ` set cs"
  proof (intro equalityI subsetI)
    fix f assume "f \<in> facts_of (dv_by_id d) - facts_of asserted"
    then show "f \<in> fact ` set cs" by (auto simp: facts_of_def cs(1))
  next
    fix f assume "f \<in> fact ` set cs"
    then obtain c where c: "c \<in> set cs" "f = fact c" by auto
    then have "f \<in> facts_of (dv_by_id d)" using act by (auto simp: facts_of_def cs(1))
    moreover have "f \<notin> facts_of asserted"
    proof
      assume "f \<in> facts_of asserted"
      then obtain a where "a \<in> set asserted" "fact a = fact c" using c(2) by (auto simp: facts_of_def)
      then show False using keys [of a c] c(1) cs(4) by auto
    qed
    ultimately show "f \<in> facts_of (dv_by_id d) - facts_of asserted" by simp
  qed
  moreover have "inj_on fact (set cs)"
  proof (rule inj_onI)
    fix x y assume "x \<in> set cs" "y \<in> set cs" "fact x = fact y"
    then show "x = y" using keys cs(3) by (auto simp: distinct_map dest: inj_onD)
  qed
  ultimately show "finite (facts_of (dv_by_id d) - facts_of asserted)"
    "card (facts_of (dv_by_id d) - facts_of asserted) = inferred d"
    using cs(2,3) by (simp_all add: card_image distinct_map distinct_card)
qed

lemma exceeded_facts:
  assumes "exceeded limit rules asserted" and "finite (new_facts rules asserted)"
  shows "int (card (new_facts rules asserted)) > limit"
proof -
  obtain d c where d: "numbered rules asserted d" and c: "clean_statement c" "int (inferred d) \<ge> limit"
    "statement_key c \<notin> set (dv_known d)" "entailed_by rules asserted (fact c)"
    using assms(1) by (auto simp: exceeded_def)
  let ?F = "facts_of (dv_by_id d) - facts_of asserted"
  have s: "sound_state rules asserted d" by (rule numbered_sound [OF d])
  have "fact c \<notin> facts_of (dv_by_id d)"
  proof
    assume "fact c \<in> facts_of (dv_by_id d)"
    then obtain u where "u \<in> set (dv_by_id d)" "fact u = fact c" by (auto simp: facts_of_def)
    then have "statement_key c \<in> set (dv_known d)" using s key_fact unfolding sound_state_def by (metis imageI)
    then show False using c(3) by simp
  qed
  moreover have "facts_of asserted \<subseteq> facts_of (dv_by_id d)" using s by (auto simp: facts_of_def sound_state_def)
  ultimately have "insert (fact c) ?F \<subseteq> new_facts rules asserted" "fact c \<notin> ?F"
    using conclusion_facts(1) [OF d] c(4) by (auto simp: new_facts_def)
  then have "card (insert (fact c) ?F) \<le> card (new_facts rules asserted)"
    by (intro card_mono assms(2))
  then show ?thesis using conclusion_facts(2,3) [OF d] \<open>fact c \<notin> ?F\<close> c(2) by simp
qed

text \<open>A round counts on, or stops at the limit or because two digests collide.\<close>

definition stopped :: "int \<Rightarrow> projection_rule list \<Rightarrow> statement list \<Rightarrow> string \<Rightarrow> bool" where
  "stopped limit rules asserted m \<longleftrightarrow>
     m = collision_error \<or> m = limit_error \<and> exceeded limit rules asserted"

definition counting ::
    "projection_rule list \<Rightarrow> statement list \<Rightarrow> statement list \<Rightarrow> derivation \<times> bool \<Rightarrow> bool" where
  "counting rules asserted vs s \<longleftrightarrow>
     numbered rules asserted (fst s) \<and> set vs \<subseteq> set (dv_by_id (fst s))"

lemma attempt_counting:
  assumes s: "counting rules asserted vs s" and c: "clean_statement c"
    and e: "statement_key c \<notin> blocked_keys asserted \<Longrightarrow> entailed_by rules asserted (fact c)"
    and ps: "p \<in> set ps" "\<exists>v \<in> set vs. active v \<and> ps_id v = p"
  shows "attempt_add sha limit c r ps s = Inr t \<Longrightarrow> counting rules asserted vs t"
    and "attempt_add sha limit c r ps s = Inl m \<Longrightarrow> stopped limit rules asserted m"
proof -
  obtain d b where d: "s = (d, b)" by fastforce
  have n: "numbered rules asserted d" and vs: "set vs \<subseteq> set (dv_by_id d)"
    using s d by (simp_all add: counting_def)
  have p: "\<exists>v \<in> set (dv_by_id d). active v \<and> ps_id v = p" using ps(2) vs by blast
  note add = add_numbered [OF n c e ps(1) p, of sha limit r]
  {
    assume "attempt_add sha limit c r ps s = Inr t"
    then obtain d' added where a: "add_conclusion sha limit c r ps d = Inr (d', added)" "fst t = d'"
      by (auto simp: d attempt_add.simps split: sum.splits)
    have "set (dv_by_id d) \<subseteq> set (dv_by_id d')"
      using add_conclusion_result(2,3) [OF a(1)] by (cases added) auto
    then show "counting rules asserted vs t" using add a vs by (auto simp: counting_def)
  next
    assume "attempt_add sha limit c r ps s = Inl m"
    then have a: "add_conclusion sha limit c r ps d = Inl m"
      by (auto simp: d attempt_add.simps split: sum.splits)
    then consider "m = collision_error" | "m = limit_error" "statement_key c \<notin> set (dv_known d)"
      "int (inferred d) \<ge> limit" using add by auto
    then show "stopped limit rules asserted m"
    proof cases
      case 2
      then have "statement_key c \<notin> blocked_keys asserted"
        using numbered_sound [OF n] by (auto simp: sound_state_def blocked_keys_def)
      then show ?thesis unfolding stopped_def exceeded_def using n c 2 e by blast
    qed (simp add: stopped_def)
  }
qed

lemma counting_vouched:
  "counting rules asserted vs s \<Longrightarrow> v \<in> set vs \<Longrightarrow> vouched rules asserted v"
  by (auto simp: counting_def intro: state_vouched numbered_sound)

lemma one_premise_counting:
  assumes adm: "admissible rules asserted" and s: "counting rules asserted vs s"
  shows "one_premise_pass sha limit rules vs s = Inr t \<Longrightarrow> counting rules asserted vs t"
    and "one_premise_pass sha limit rules vs s = Inl m \<Longrightarrow> stopped limit rules asserted m"
proof -
  have premise: "clean_statement (rule_conclusion r v)"
    "statement_key (rule_conclusion r v) \<notin> blocked_keys asserted \<Longrightarrow>
       entailed_by rules asserted (fact (rule_conclusion r v))"
    if v: "v \<in> set vs" "active v" and r: "r \<in> set rules" "rule_applies r v" for v r
  proof -
    have vv: "vouched rules asserted v" by (rule counting_vouched [OF s v(1)])
    show "clean_statement (rule_conclusion r v)"
      using vv adm r(1) by (simp add: vouched_def clean_conclusions admissible_def)
    assume "statement_key (rule_conclusion r v) \<notin> blocked_keys asserted"
    then have "statement_key (rule_conclusion r (fact v)) \<notin> blocked_keys asserted"
      by (metis key_fact fact_conclusions(1))
    then show "entailed_by rules asserted (fact (rule_conclusion r v))"
      using vv v(2) r by (simp add: vouched_def entailed.one_premise)
  qed
  have step: "counting rules asserted vs t"
    if v: "v \<in> set vs" "active v" and r: "r \<in> set rules" "rule_applies r v"
      and s: "counting rules asserted vs s"
      and t: "attempt_add sha limit (rule_conclusion r v) r [ps_id v] s = Inr t" for v r s t
    by (rule attempt_counting(1) [OF s premise [OF v r] _ _ t, of "ps_id v"])
      (use v in auto)
  show "one_premise_pass sha limit rules vs s = Inr t \<Longrightarrow> counting rules asserted vs t"
    by (erule one_premise_keeps [where P = "counting rules asserted vs"]) (use s step in auto)
  assume "one_premise_pass sha limit rules vs s = Inl m"
  then obtain v r u where v: "v \<in> set vs" "active v" and r: "r \<in> set rules" "rule_applies r v"
    and u: "counting rules asserted vs u"
    and m: "attempt_add sha limit (rule_conclusion r v) r [ps_id v] u = Inl m"
    using s step by (rule one_premise_error)
  show "stopped limit rules asserted m"
    by (rule attempt_counting(2) [OF u premise [OF v r] _ _ m, of "ps_id v"]) (use v in auto)
qed

lemma transitive_counting:
  assumes adm: "admissible rules asserted" and s: "counting rules asserted vs s"
  shows "transitive_pass sha limit rules vs s = Inr t \<Longrightarrow> counting rules asserted vs t"
    and "transitive_pass sha limit rules vs s = Inl m \<Longrightarrow> stopped limit rules asserted m"
proof -
  have premise: "clean_statement (link_conclusion l x)"
    "statement_key (link_conclusion l x) \<notin> blocked_keys asserted \<Longrightarrow>
       entailed_by rules asserted (fact (link_conclusion l x))"
    if r: "r \<in> set rules" "pr_kind r = ''transitive''" and l: "l \<in> set vs" "link_left r l"
      and x: "x \<in> set vs" "link_right r l x" for r l x
  proof -
    have vv: "vouched rules asserted l" "vouched rules asserted x" and a: "active l" "active x"
      using counting_vouched [OF s] l x link_parts by blast+
    show "clean_statement (link_conclusion l x)" using vv by (simp add: vouched_def clean_conclusions)
    assume "statement_key (link_conclusion l x) \<notin> blocked_keys asserted"
    then have "statement_key (link_conclusion (fact l) (fact x)) \<notin> blocked_keys asserted"
      by (metis key_fact fact_conclusions(2))
    then show "entailed_by rules asserted (fact (link_conclusion l x))"
      using vv a l x r by (simp add: vouched_def entailed.chain)
  qed
  have step: "counting rules asserted vs t"
    if r: "r \<in> set rules" "pr_kind r = ''transitive''" and l: "l \<in> set vs" "link_left r l"
      and x: "x \<in> set vs" "link_right r l x" and s: "counting rules asserted vs s"
      and t: "attempt_add sha limit (link_conclusion l x) r [ps_id l, ps_id x] s = Inr t" for r l x s t
    by (rule attempt_counting(1) [OF s premise [OF r l x] _ _ t, of "ps_id l"])
      (use l link_parts in auto)
  show "transitive_pass sha limit rules vs s = Inr t \<Longrightarrow> counting rules asserted vs t"
    by (erule transitive_keeps [where P = "counting rules asserted vs"]) (use s step in auto)
  assume "transitive_pass sha limit rules vs s = Inl m"
  then obtain r l x u where r: "r \<in> set rules" "pr_kind r = ''transitive''" and l: "l \<in> set vs" "link_left r l"
    and x: "x \<in> set vs" "link_right r l x" and u: "counting rules asserted vs u"
    and m: "attempt_add sha limit (link_conclusion l x) r [ps_id l, ps_id x] u = Inl m"
    using s step by (rule transitive_error)
  show "stopped limit rules asserted m"
    by (rule attempt_counting(2) [OF u premise [OF r l x] _ _ m, of "ps_id l"])
      (use l link_parts in auto)
qed

lemma saturate_counting:
  assumes adm: "admissible rules asserted" and "numbered rules asserted d"
  shows "(\<exists>d'. saturate sha limit rules d = Inr d' \<and> numbered rules asserted d') \<or>
    (\<exists>m. saturate sha limit rules d = Inl m \<and> stopped limit rules asserted m)"
  using assms
proof (induction sha limit rules d rule: saturate.induct)
  case (1 sha limit rules d)
  have start: "counting rules asserted (sorted_statements d) (d, False)"
    using "1.prems"(2) by (simp add: counting_def)
  note one = one_premise_counting [OF "1.prems"(1) start, where limit = limit]
  show ?case
  proof (cases "one_premise_pass sha limit rules (sorted_statements d) (d, False)")
    case (Inl m)
    then show ?thesis using one(2) [OF Inl] by (simp add: saturate.simps [of _ _ _ d] derive_round_def)
  next
    case (Inr p)
    obtain d1 b where p: "p = (d1, b)" by fastforce
    have s1: "counting rules asserted (sorted_statements d1) (d1, b)"
      using one(1) [OF Inr] by (simp add: counting_def p)
    note tr = transitive_counting [OF "1.prems"(1) s1, where limit = limit]
    show ?thesis
    proof (cases "transitive_pass sha limit rules (sorted_statements d1) (d1, b)")
      case l: (Inl m)
      then show ?thesis using tr(2) [OF l] Inr p
        by (simp add: saturate.simps [of _ _ _ d] derive_round_def)
    next
      case r: (Inr q)
      obtain d2 changed where q: "q = (d2, changed)" by fastforce
      have n: "numbered rules asserted d2" using tr(1) [OF r] by (simp add: counting_def q)
      have round: "derive_round sha limit rules d = Inr (d2, changed)"
        using Inr r p q by (simp add: derive_round_def)
      show ?thesis
      proof (cases changed)
        case True
        then show ?thesis using "1.IH" [OF round refl True "1.prems"(1) n] round
          by (simp add: saturate.simps [of _ _ _ d])
      next
        case False
        then show ?thesis using n round by (simp add: saturate.simps [of _ _ _ d])
      qed
    qed
  qed
qed

subsection \<open>Classes against the limit\<close>

definition new_classes ::
    "projection_rule list \<Rightarrow> statement set \<Rightarrow> entity_class list \<Rightarrow> (string \<times> string) set" where
  "new_classes rules facts explicit =
     {(e, c). classified rules facts (classes_of explicit) e c} - classes_of explicit"

definition class_exceeded ::
    "int \<Rightarrow> projection_rule list \<Rightarrow> statement list \<Rightarrow> entity_class list \<Rightarrow> bool" where
  "class_exceeded limit rules vs explicit \<longleftrightarrow>
     (\<exists>d e c. class_state rules vs explicit d \<and> int (length (cd_types d)) \<ge> limit \<and>
        (e, c) \<notin> classes_of (cd_known d) \<and> classified rules (facts_of vs) (classes_of explicit) e c)"

lemma state_classes:
  assumes "class_state rules vs explicit d"
  shows "classes_of (cd_known d) - classes_of explicit \<subseteq> new_classes rules (facts_of vs) explicit"
    and "classes_of explicit \<subseteq> classes_of (cd_known d)"
    and "finite (classes_of (cd_known d) - classes_of explicit)"
    and "card (classes_of (cd_known d) - classes_of explicit) = length (cd_types d)"
proof -
  obtain new where new: "cd_known d = explicit @ new"
    "map (\<lambda>t. (ti_entity t, ti_class t, ti_id t)) (cd_types d) =
     map (\<lambda>c. (ec_entity c, ec_class c, ec_inference c)) new"
    using assms by (auto simp: class_state_def)
  let ?pair = "\<lambda>c. (ec_entity c, ec_class c)"
  have dist: "distinct (map ?pair (explicit @ new))"
    using class_state_distinct [OF assms] by (simp only: new(1))
  then have diff: "classes_of (cd_known d) - classes_of explicit = ?pair ` set new"
    by (auto simp: classes_of_def new(1))
  show "classes_of (cd_known d) - classes_of explicit \<subseteq> new_classes rules (facts_of vs) explicit"
    using class_state_classified [OF assms] by (auto simp: new_classes_def classes_of_def)
  show "classes_of explicit \<subseteq> classes_of (cd_known d)" by (auto simp: classes_of_def new(1))
  show "finite (classes_of (cd_known d) - classes_of explicit)" by (simp add: classes_of_def)
  have "card (?pair ` set new) = length new" using dist by (simp add: card_image distinct_map distinct_card)
  then show "card (classes_of (cd_known d) - classes_of explicit) = length (cd_types d)"
    unfolding diff using arg_cong [OF new(2), of length] by simp
qed

lemma exceeded_classes:
  assumes "class_exceeded limit rules vs explicit" and "finite (new_classes rules (facts_of vs) explicit)"
  shows "int (card (new_classes rules (facts_of vs) explicit)) > limit"
proof -
  obtain d e c where d: "class_state rules vs explicit d" "int (length (cd_types d)) \<ge> limit"
    and c: "(e, c) \<notin> classes_of (cd_known d)" "classified rules (facts_of vs) (classes_of explicit) e c"
    using assms(1) by (auto simp: class_exceeded_def)
  let ?C = "classes_of (cd_known d) - classes_of explicit"
  have "insert (e, c) ?C \<subseteq> new_classes rules (facts_of vs) explicit"
    using state_classes(1,2) [OF d(1)] c by (auto simp: new_classes_def)
  then have "card (insert (e, c) ?C) \<le> card (new_classes rules (facts_of vs) explicit)" by (intro card_mono assms(2))
  then show ?thesis using state_classes(3,4) [OF d(1)] c(1) d(2) by simp
qed

lemma attempt_class_limit:
  assumes "attempt_class sha limit e (pr_to r) r p s = Inl m"
    and s: "classing rules vs explicit cs s" and why: "class_reason rules vs explicit (fst s) e r p"
  shows "m = limit_error \<and> class_exceeded limit rules vs explicit"
proof -
  obtain d b where d: "s = (d, b)" by fastforce
  have st: "class_state rules vs explicit d" using s d by (simp add: classing_def)
  have "add_class sha limit e (pr_to r) r p d = Inl m"
    using assms(1) by (auto simp: d attempt_class.simps split: sum.splits)
  then have m: "m = limit_error" "int (length (cd_types d)) \<ge> limit"
    "class_key (plain_class e (pr_to r)) \<notin> class_key ` set (cd_known d)"
    by (auto simp: add_class_def Let_def split: if_splits)
  have "(e, pr_to r) \<notin> classes_of (cd_known d)"
    using m(3) by (force simp: classes_of_def class_key_def)
  moreover have "classified rules (facts_of vs) (classes_of explicit) e (pr_to r)"
    using why class_state_classified [OF st]
    by (auto simp: class_reason_def d intro: classified_statement classified.subclassed)
  ultimately show ?thesis using m st by (auto simp: class_exceeded_def)
qed

lemma domain_range_limit:
  assumes "domain_range_pass sha limit rules vs s = Inl m" and s: "classing rules vs explicit [] s"
    and x: "\<forall>c \<in> set explicit. ec_inference c = []" and clean: "\<forall>v \<in> set vs. clean_statement v"
  shows "m = limit_error \<and> class_exceeded limit rules vs explicit"
proof -
  let ?body = "\<lambda>v r s. case typed_entity r v of None \<Rightarrow> Inr s
    | Some e \<Rightarrow> attempt_class sha limit e (pr_to r) r (ByAssertion (ps_id v)) s"
  have why: "class_reason rules vs explicit d e r (ByAssertion (ps_id v))"
    if "v \<in> set vs" "active v" "r \<in> set rules" "typed_entity r v = Some e" for v r e d
    using that clean typed_entity_clean [of r v e] by (auto simp: class_reason_def)
  have step: "classing rules vs explicit [] t"
    if "v \<in> set vs" "active v" "r \<in> set rules" "classing rules vs explicit [] s" "?body v r s = Inr t" for v r s t
    using that by (auto split: option.splits intro: attempt_classing [OF _ _ x] why)
  have keep: "classing rules vs explicit [] t"
    if v: "v \<in> set vs" "active v" and s: "classing rules vs explicit [] s" and t: "each (?body v) rules s = Inr t" for v s t
    using t s by (rule each_keeps) (rule step [OF v])
  have "\<exists>v \<in> set vs. \<exists>u. classing rules vs explicit [] u \<and>
      (if \<not> active v then Inr u else each (?body v) rules u) = Inl m"
    using assms(1) s unfolding domain_range_pass_def
    by (rule each_error) (auto split: if_splits intro: keep)
  then obtain v u where v: "v \<in> set vs" "active v" and u: "classing rules vs explicit [] u"
    "each (?body v) rules u = Inl m" by (auto split: if_splits)
  have "\<exists>r \<in> set rules. \<exists>w. classing rules vs explicit [] w \<and> ?body v r w = Inl m"
    using u(2,1) by (rule each_error) (rule step [OF v])
  then obtain r w e where r: "r \<in> set rules" "typed_entity r v = Some e" and w: "classing rules vs explicit [] w"
    and l: "attempt_class sha limit e (pr_to r) r (ByAssertion (ps_id v)) w = Inl m"
    by (auto split: option.splits)
  show ?thesis by (rule attempt_class_limit [OF l w why [OF v r]])
qed

lemma subclass_limit:
  assumes "subclass_pass sha limit rules cs s = Inl m" and s: "classing rules vs explicit cs s"
    and x: "\<forall>c \<in> set explicit. ec_inference c = []"
  shows "m = limit_error \<and> class_exceeded limit rules vs explicit"
proof -
  let ?body = "\<lambda>c r s. if pr_kind r \<noteq> ''subclass_of'' \<or> pr_from r \<noteq> ec_class c then Inr s
    else attempt_class sha limit (ec_entity c) (pr_to r) r (class_premise c) s"
  have why: "class_reason rules vs explicit (fst s) (ec_entity c) r (class_premise c)"
    if "c \<in> set cs" "r \<in> set rules" "pr_kind r = ''subclass_of''" "pr_from r = ec_class c"
      "classing rules vs explicit cs s" for c r s
    using that by (auto simp: class_reason_def classing_def class_state_def)
  have step: "classing rules vs explicit cs t"
    if "c \<in> set cs" "r \<in> set rules" "classing rules vs explicit cs s" "?body c r s = Inr t" for c r s t
    using that by (auto split: if_splits intro: attempt_classing [OF _ _ x] why)
  have keep: "classing rules vs explicit cs t"
    if "c \<in> set cs" "classing rules vs explicit cs s" "each (?body c) rules s = Inr t" for c s t
    using that(3,2) by (rule each_keeps) (rule step [OF that(1)])
  have "\<exists>c \<in> set cs. \<exists>u. classing rules vs explicit cs u \<and> each (?body c) rules u = Inl m"
    using assms(1) s unfolding subclass_pass_def by (rule each_error) (rule keep)
  then obtain c u where c: "c \<in> set cs" and u: "classing rules vs explicit cs u" "each (?body c) rules u = Inl m"
    by blast
  have "\<exists>r \<in> set rules. \<exists>w. classing rules vs explicit cs w \<and> ?body c r w = Inl m"
    using u(2,1) by (rule each_error) (rule step [OF c])
  then obtain r w where r: "r \<in> set rules" "pr_kind r = ''subclass_of''" "pr_from r = ec_class c"
    and w: "classing rules vs explicit cs w"
    and l: "attempt_class sha limit (ec_entity c) (pr_to r) r (class_premise c) w = Inl m"
    by (auto split: if_splits)
  show ?thesis by (rule attempt_class_limit [OF l w why [OF c r w]])
qed

lemma saturate_classes_limit:
  assumes "class_state rules vs explicit d" and "\<forall>c \<in> set explicit. ec_inference c = []"
  shows "(\<exists>d'. saturate_classes sha limit rules d = Inr d') \<or>
    saturate_classes sha limit rules d = Inl limit_error \<and>
      class_exceeded limit rules vs explicit"
  using assms
proof (induction sha limit rules d rule: saturate_classes.induct)
  case (1 sha limit rules d)
  have start: "classing rules vs explicit (sorted_classes d) (d, False)"
    using "1.prems"(1) by (simp add: classing_def sorted_classes_def)
  show ?case
  proof (cases "subclass_pass sha limit rules (sorted_classes d) (d, False)")
    case (Inl m)
    then show ?thesis using subclass_limit [OF Inl start "1.prems"(2)]
      by (simp add: saturate_classes.simps [of _ _ _ d] subclass_round_def)
  next
    case (Inr p)
    obtain t changed where p: "p = (t, changed)" by fastforce
    have r: "subclass_round sha limit rules d = Inr (t, changed)" using Inr p by (simp add: subclass_round_def)
    have st: "class_state rules vs explicit t"
      using subclass_classing [OF Inr start "1.prems"(2)] p by (simp add: classing_def)
    show ?thesis
    proof (cases changed)
      case True
      then show ?thesis using "1.IH" [OF r refl True st "1.prems"(2)] r
        by (simp add: saturate_classes.simps [of _ _ _ d])
    next
      case False
      then show ?thesis using r by (simp add: saturate_classes.simps [of _ _ _ d])
    qed
  qed
qed

text \<open>Conclusions leave the list of classes alone.\<close>

lemma round_no_types:
  assumes "derive_round sha limit rules d = Inr (d', changed)"
  shows "pj_types (dv_out d') = pj_types (dv_out d)"
proof -
  have add: "attempt_add sha limit c r ps s = Inr t \<Longrightarrow> pj_types (dv_out (fst s)) = ts \<Longrightarrow>
      pj_types (dv_out (fst t)) = ts" for c r ps s t ts
    by (cases s) (auto simp: attempt_add.simps add_conclusion_def record_conclusion_def Let_def
        split: sum.splits if_splits)
  obtain d1 b where one: "one_premise_pass sha limit rules (sorted_statements d) (d, False) = Inr (d1, b)"
    and tr: "transitive_pass sha limit rules (sorted_statements d1) (d1, b) = Inr (d', changed)"
    using assms by (auto simp: derive_round_def split: sum.splits)
  have "pj_types (dv_out (fst (d1, b))) = pj_types (dv_out d)"
    using one by (rule one_premise_keeps) (auto intro: add)
  with tr have "pj_types (dv_out (fst (d', changed))) = pj_types (dv_out d)"
    by (rule transitive_keeps) (auto intro: add)
  then show ?thesis by simp
qed

lemma saturate_no_types:
  assumes "saturate sha limit rules d = Inr d'"
  shows "pj_types (dv_out d') = pj_types (dv_out d)"
  using assms
proof (induction sha limit rules d rule: saturate.induct)
  case (1 sha limit rules d)
  obtain t changed where r: "derive_round sha limit rules d = Inr (t, changed)"
    and t: "(if changed then saturate sha limit rules t else Inr t) = Inr d'"
    using "1.prems" by (subst (asm) saturate.simps) (auto split: sum.splits)
  show ?case using "1.IH" [OF r refl] t round_no_types [OF r] by (cases changed) auto
qed

lemma domain_range_bound:
  assumes "domain_range_pass sha limit rules vs s = Inr t" and "int (length (cd_types (fst s))) \<le> limit"
  shows "int (length (cd_types (fst t))) \<le> limit"
  using assms
proof (rule domain_range_keeps)
  fix v r e s t
  assume "int (length (cd_types (fst s))) \<le> limit"
    and "attempt_class sha limit e (pr_to r) r (ByAssertion (ps_id v)) s = Inr t"
  then show "int (length (cd_types (fst t))) \<le> limit"
    by (cases s) (auto simp: attempt_class.simps add_class_def Let_def split: sum.splits if_splits)
qed

lemma subclass_bound:
  assumes "subclass_pass sha limit rules cs s = Inr t" and "int (length (cd_types (fst s))) \<le> limit"
  shows "int (length (cd_types (fst t))) \<le> limit"
  using assms
proof (rule subclass_keeps)
  fix c r s t
  assume "int (length (cd_types (fst s))) \<le> limit"
    and "attempt_class sha limit (ec_entity c) (pr_to r) r (class_premise c) s = Inr t"
  then show "int (length (cd_types (fst t))) \<le> limit"
    by (cases s) (auto simp: attempt_class.simps add_class_def Let_def split: sum.splits if_splits)
qed

lemma saturate_classes_bound:
  assumes "saturate_classes sha limit rules d = Inr d'" and "int (length (cd_types d)) \<le> limit"
  shows "int (length (cd_types d')) \<le> limit"
  using assms
proof (induction sha limit rules d rule: saturate_classes.induct)
  case (1 sha limit rules d)
  obtain t changed where r: "subclass_round sha limit rules d = Inr (t, changed)"
    and t: "(if changed then saturate_classes sha limit rules t else Inr t) = Inr d'"
    using "1.prems"(1) by (subst (asm) saturate_classes.simps) (auto split: sum.splits)
  have "int (length (cd_types t)) \<le> limit"
    using r subclass_bound [of sha limit rules "sorted_classes d" "(d, False)"] "1.prems"(2)
    by (auto simp: subclass_round_def)
  then show ?case using "1.IH" [OF r refl] t by (cases changed) auto
qed

definition plain_classes :: "entity_class list \<Rightarrow> bool" where
  "plain_classes explicit \<longleftrightarrow>
     (\<forall>c \<in> set explicit. ec_entity c \<noteq> [] \<and> ec_class c \<noteq> [] \<and> ec_inference c = [] \<and>
        NUL \<notin> set (ec_entity c)) \<and>
     distinct (map (\<lambda>c. (ec_entity c, ec_class c)) explicit)"

lemma types_limit:
  fixes rules :: "projection_rule list"
  assumes explicit: "plain_classes explicit" and clean: "\<forall>v \<in> set vs. clean_statement v"
  defines "C \<equiv> new_classes rules (facts_of vs) explicit"
  shows "(\<exists>types proofs. derive_knowledge_type_projection sha explicit vs rules limit = Inr (types, proofs) \<and>
      length types = card C \<and> finite C \<and> int (card C) \<le> limit) \<or>
    derive_knowledge_type_projection sha explicit vs rules limit = Inl limit_error \<and>
      (finite C \<longrightarrow> int (card C) > limit)"
proof (cases "limit < 0")
  case True
  then show ?thesis by (simp add: derive_knowledge_type_projection_def)
next
  case False
  let ?d0 = "\<lparr>cd_known = fold put_class explicit [], cd_types = [], cd_proofs = []\<rparr>"
  have ok: "\<not> list_ex (\<lambda>c. ec_entity c = [] \<or> ec_class c = []) explicit"
    and x: "\<forall>c \<in> set explicit. ec_inference c = []"
    using explicit by (auto simp: plain_classes_def list_ex_iff)
  have "inj_on class_key (set explicit)" "distinct explicit"
    using explicit by (auto simp: plain_classes_def inj_on_def class_key_inj distinct_map)
  then have keys: "distinct (map class_key explicit)" by (simp add: distinct_map)
  then have put: "fold put_class explicit [] = explicit" using fold_put_class [of "[]" explicit] by simp
  have start: "classing rules vs explicit [] (?d0, False)"
    using keys explicit put by (simp add: classing_def class_state_def plain_classes_def)
  have refused: "derive_knowledge_type_projection sha explicit vs rules limit =
      Inl limit_error \<and> (finite C \<longrightarrow> int (card C) > limit)"
    if "class_exceeded limit rules vs explicit"
      "derive_knowledge_type_projection sha explicit vs rules limit = Inl limit_error"
    using that exceeded_classes [OF that(1)] by (simp add: C_def)
  show ?thesis
  proof (cases "domain_range_pass sha limit rules vs (?d0, False)")
    case (Inl m)
    then show ?thesis
      using refused domain_range_limit [OF Inl start x clean] False ok
      by (simp add: derive_knowledge_type_projection_def)
  next
    case (Inr p)
    obtain d1 b where p: "p = (d1, b)" by fastforce
    have d1: "class_state rules vs explicit d1"
      using domain_range_classing [OF Inr start x clean] p by (simp add: classing_def)
    have bd: "int (length (cd_types d1)) \<le> limit"
      using domain_range_bound [OF Inr] False p by simp
    show ?thesis
    proof (cases "saturate_classes sha limit rules d1")
      case l: (Inl m)
      then show ?thesis
        using refused saturate_classes_limit [OF d1 x, of sha limit] False ok Inr p
        by (simp add: derive_knowledge_type_projection_def)
    next
      case r: (Inr d)
      from saturate_classes_closed [OF r d1 x]
      have s: "class_state rules vs explicit d" and cl: "subclass_closed rules d"
        and mono: "class_key ` set (cd_known d1) \<subseteq> class_key ` set (cd_known d)" by auto
      have typed: "class_key (plain_class e (pr_to r)) \<in> class_key ` set (cd_known d)"
        if "v \<in> set vs" "active v" "r \<in> set rules" "typed_entity r v = Some e" for v r e
        using domain_range_keys [OF Inr] that mono p by auto
      have "C = classes_of (cd_known d) - classes_of explicit"
        using classified_known [OF s cl typed clean] state_classes(1) [OF s]
        by (auto simp: C_def new_classes_def)
      then have "length (cd_types d) = card C" "finite C" using state_classes(3,4) [OF s] by simp_all
      moreover have "int (length (cd_types d)) \<le> limit" by (rule saturate_classes_bound [OF r bd])
      ultimately show ?thesis using False ok Inr p r
        by (simp add: derive_knowledge_type_projection_def)
    qed
  qed
qed

subsection \<open>Refused exactly at the limit\<close>

text \<open>A generation the reasoner can work on: identified assertions and classes, each accepted assertion with evidence.\<close>

definition well_formed_generation ::
    "statement list \<Rightarrow> (string \<Rightarrow> assertion_evidence list) \<Rightarrow> entity_class list \<Rightarrow>
     projection_rule list \<Rightarrow> bool" where
  "well_formed_generation asserted evidence classes rules \<longleftrightarrow>
     admissible rules asserted \<and> distinct (map ps_id asserted) \<and>
     (\<forall>v \<in> set asserted. ps_id v \<noteq> [] \<and> ps_subject v \<noteq> [] \<and> ps_predicate v \<noteq> [] \<and>
        (active v \<longrightarrow> evidence (ps_id v) \<noteq> [])) \<and>
     plain_classes classes"

lemma loaded_numbered:
  assumes "well_formed_generation asserted evidence classes rules"
  obtains d where "load_asserted asserted evidence = Inr d" and "numbered rules asserted d"
proof -
  have "\<not> list_ex (\<lambda>v. ps_id v = [] \<or> ps_subject v = [] \<or> ps_predicate v = []) asserted"
    and ids: "distinct (map ps_id asserted)"
    using assms by (auto simp: well_formed_generation_def list_ex_iff)
  then obtain d where d: "load_asserted asserted evidence = Inr d" by (auto simp: load_asserted_def)
  have "sound_state rules asserted d"
    using loaded_sound [OF d ids] assms by (simp add: well_formed_generation_def admissible_def)
  then have "numbered rules asserted d"
    using assms by (simp add: numbered_def load_asserted_result [OF d ids] inferred_def empty_projection_def
        well_formed_generation_def)
  then show thesis using that d by blast
qed

text \<open>
  C28. A well-formed generation is projected exactly when the ontology entails at most the limit of
  new facts and classes together, 10000 when none is given; then the projection holds one inference
  for each of them, and otherwise the error is that the limit is exceeded. The one other error is
  that two inferences have the same digest. Well formed: ids and classes without duplicates,
  evidence for every accepted assertion, and texts without a NUL byte.
\<close>

theorem projection_limit:
  assumes "well_formed_generation asserted evidence classes rules"
    and "derive_knowledge_projection sha asserted evidence classes rules bound \<noteq> Inl collision_error"
  shows "let limit = (if bound \<le> 0 then default_inference_limit else bound);
      facts = new_facts rules asserted;
      types = new_classes rules (Collect (entailed_by rules asserted)) classes in
    if finite facts \<and> finite types \<and> int (card facts + card types) \<le> limit
    then \<exists>p vs. derive_knowledge_projection sha asserted evidence classes rules bound = Inr (p, vs) \<and>
      length (pj_inferences p) = card facts \<and> length (pj_types p) = card types
    else derive_knowledge_projection sha asserted evidence classes rules bound =
      Inl limit_error"
proof -
  define limit where "limit = (if bound \<le> 0 then default_inference_limit else bound)"
  define N where "N = new_facts rules asserted"
  define C where "C = new_classes rules (Collect (entailed_by rules asserted)) classes"
  obtain d0 where d0: "load_asserted asserted evidence = Inr d0" and n0: "numbered rules asserted d0"
    using loaded_numbered [OF assms(1)] .
  have adm: "admissible rules asserted" and classes: "plain_classes classes"
    and ids: "distinct (map ps_id asserted)"
    using assms(1) by (simp_all add: well_formed_generation_def)
  have rules: "\<forall>r \<in> set rules. clean_rule r" using adm by (simp add: admissible_def)
  have derive: "derive_knowledge_projection sha asserted evidence classes rules bound =
      (case saturate sha limit rules d0 of Inl e \<Rightarrow> Inl e
       | Inr d \<Rightarrow> (case derive_knowledge_type_projection sha classes (sorted_statements d) rules
            (limit - int (inferred d)) of Inl e \<Rightarrow> Inl e
          | Inr (types, proofs) \<Rightarrow> Inr ((dv_out d)\<lparr>pj_types := pj_types (dv_out d) @ types,
              pj_type_proofs := pj_type_proofs (dv_out d) @ proofs\<rparr>, sorted_statements d)))"
    unfolding derive_knowledge_projection_def Let_def limit_def [symmetric] d0 by simp
  show ?thesis
  proof (cases "saturate sha limit rules d0")
    case (Inl m)
    then have "stopped limit rules asserted m"
      using saturate_counting [OF adm n0, of sha limit] by auto
    then have "m = limit_error" "exceeded limit rules asserted"
      using assms(2) Inl derive by (auto simp: stopped_def)
    then show ?thesis
      using exceeded_facts [of limit rules asserted] Inl derive
      by (auto simp: Let_def limit_def [symmetric])
  next
    case (Inr d)
    have n: "numbered rules asserted d" using saturate_counting [OF adm n0, of sha limit] Inr by auto
    have s: "sound_state rules asserted d" and c: "closed_under rules (dv_by_id d) (dv_known d)"
      using saturate_closed [OF Inr numbered_sound [OF n0]] rules by blast+
    have "facts_of (dv_by_id d) = Collect (entailed_by rules asserted)"
      using entailed_found [OF s c] rules state_vouched [OF s] by (auto simp: facts_of_def vouched_def)
    then have facts: "facts_of (sorted_statements d) = Collect (entailed_by rules asserted)"
      by (simp add: facts_of_def)
    have N: "N = facts_of (dv_by_id d) - facts_of asserted"
      using \<open>facts_of (dv_by_id d) = Collect (entailed_by rules asserted)\<close> by (simp add: N_def new_facts_def)
    have card: "finite N" "card N = inferred d" using conclusion_facts(2,3) [OF n] by (simp_all add: N)
    have clean: "\<forall>v \<in> set (sorted_statements d). clean_statement v" using s by (simp add: sound_state_def)
    have no_types: "pj_types (dv_out d) = []"
      using saturate_no_types [OF Inr] by (simp add: load_asserted_result [OF d0 ids] empty_projection_def)
    show ?thesis
      using types_limit [OF classes clean, where rules = rules and sha = sha and limit = "limit - int (inferred d)"]
      unfolding facts C_def [symmetric] Let_def limit_def [symmetric] N_def [symmetric]
      by (auto simp: derive Inr card no_types inferred_def)
  qed
qed

end
