(* ===== verification/Projection_Meaning.thy ===== *)
theory Projection_Meaning
  imports Projection_Properties
begin

section \<open>What the axioms of an ontology mean\<close>

text \<open>
  The reasoner works on rules, into which \<open>load_projection_rules\<close> expands the axioms that an ontology
  states or imports. Here the same facts are described without rules, by what each kind of axiom
  says of two entities, and the reasoner is shown to find exactly those.
\<close>

definition states_axiom :: "ontology_tables \<Rightarrow> string \<Rightarrow> string \<Rightarrow> string \<Rightarrow> string \<Rightarrow> bool" where
  "states_axiom t oid kind p q \<longleftrightarrow>
     (\<exists>a \<in> set (on_axioms t). ax_type a = kind \<and> ax_subject a = p \<and> ax_object a = q \<and>
        visible_from t oid (ax_ontology a) p)"

definition swapped :: "string \<Rightarrow> statement \<Rightarrow> statement" where
  "swapped p v = v\<lparr>ps_predicate := p, ps_subject := ps_object v, ps_object := ps_subject v\<rparr>"

definition joined :: "statement \<Rightarrow> statement \<Rightarrow> statement" where
  "joined l x = l\<lparr>ps_object := ps_object x, ps_from := max_start (ps_from l) (ps_from x),
     ps_to := min_end (ps_to l) (ps_to x)\<rparr>"

text \<open>
  A subproperty holds wherever its narrower property does; an inverse and a symmetric property hold
  with subject and object exchanged; a transitive property holds along two statements with the
  same qualifiers while both are valid. A fact that an inactive assertion already states is not concluded.
\<close>

inductive meant :: "ontology_tables \<Rightarrow> string \<Rightarrow> string set \<Rightarrow> statement set \<Rightarrow> statement \<Rightarrow> bool"
  for t oid blocked given where
  asserted: "v \<in> given \<Longrightarrow> meant t oid blocked given v"
| subproperty: "meant t oid blocked given v \<Longrightarrow> states_axiom t oid ''subproperty_of'' (ps_predicate v) q \<Longrightarrow>
    ps_predicate v \<noteq> [] \<Longrightarrow> q \<noteq> [] \<Longrightarrow> statement_key (v\<lparr>ps_predicate := q\<rparr>) \<notin> blocked \<Longrightarrow>
    meant t oid blocked given (v\<lparr>ps_predicate := q\<rparr>)"
| inverse: "meant t oid blocked given v \<Longrightarrow>
    states_axiom t oid ''inverse_of'' (ps_predicate v) q \<or> states_axiom t oid ''inverse_of'' q (ps_predicate v) \<Longrightarrow>
    ps_predicate v \<noteq> [] \<Longrightarrow> q \<noteq> [] \<Longrightarrow> ps_object v \<noteq> [] \<Longrightarrow> statement_key (swapped q v) \<notin> blocked \<Longrightarrow>
    meant t oid blocked given (swapped q v)"
| symmetric: "meant t oid blocked given v \<Longrightarrow> states_axiom t oid ''symmetric'' (ps_predicate v) q \<Longrightarrow>
    ps_object v \<noteq> [] \<Longrightarrow> statement_key (swapped (ps_predicate v) v) \<notin> blocked \<Longrightarrow>
    meant t oid blocked given (swapped (ps_predicate v) v)"
| transitive: "meant t oid blocked given l \<Longrightarrow> meant t oid blocked given x \<Longrightarrow>
    states_axiom t oid ''transitive'' (ps_predicate l) q \<Longrightarrow> ps_predicate x = ps_predicate l \<Longrightarrow>
    ps_subject x = ps_object l \<Longrightarrow> ps_object l \<noteq> [] \<Longrightarrow> ps_object x \<noteq> [] \<Longrightarrow>
    ps_qualifiers x = ps_qualifiers l \<Longrightarrow> intervals_overlap l x \<Longrightarrow>
    statement_key (joined l x) \<notin> blocked \<Longrightarrow> meant t oid blocked given (joined l x)"

lemma loaded_rules:
  "r \<in> set (load_projection_rules t oid) \<longleftrightarrow>
     (\<exists>a \<in> set (on_axioms t). visible_from t oid (ax_ontology a) (ax_subject a) \<and> r \<in> set (expand_axiom a))"
  by (auto simp: load_projection_rules_def)

lemma loaded_ruleI:
  "a \<in> set (on_axioms t) \<Longrightarrow> visible_from t oid (ax_ontology a) (ax_subject a) \<Longrightarrow> r \<in> set (expand_axiom a) \<Longrightarrow>
     r \<in> set (load_projection_rules t oid)"
  by (auto simp: loaded_rules)

subsection \<open>Facts stay facts\<close>

lemma fact_parts [simp]: "fact (v\<lparr>ps_predicate := q\<rparr>) = (fact v)\<lparr>ps_predicate := q\<rparr>"
  "fact (swapped q v) = swapped q (fact v)" "fact (joined l x) = joined (fact l) (fact x)"
  by (simp_all add: fact_def swapped_def joined_def)

lemma entailed_fact: "entailed rules blocked given v \<Longrightarrow> (\<And>u. u \<in> given \<Longrightarrow> fact u = u) \<Longrightarrow> fact v = v"
proof (induction rule: entailed.induct)
  case (one_premise v r)
  then show ?case by (simp)
next
  case (chain l x r)
  then show ?case by simp
qed simp

lemma meant_fact: "meant t oid blocked given v \<Longrightarrow> (\<And>u. u \<in> given \<Longrightarrow> fact u = u) \<Longrightarrow> fact v = v"
  by (induction rule: meant.induct) simp_all

lemma fact_fields: "fact v = v \<Longrightarrow> ps_id v = [] \<and> ps_confidence v = 0 \<and> active v"
proof -
  assume f: "fact v = v"
  have "ps_id (fact v) = [] \<and> ps_confidence (fact v) = 0 \<and> active (fact v)" by (simp add: fact_def active_def)
  then show ?thesis unfolding f .
qed

lemma fact_conclusion:
  assumes "fact v = v"
  shows "rule_conclusion r v = (if pr_reverse r then swapped (pr_to r) v else v\<lparr>ps_predicate := pr_to r\<rparr>)"
  using fact_fields [OF assms] by (simp add: rule_conclusion_def swapped_def)

lemma fact_link:
  assumes "fact l = l" and "fact x = x" shows "link_conclusion l x = joined l x"
  using fact_fields [OF assms(1)] fact_fields [OF assms(2)]
  by (simp add: link_conclusion_def joined_def min_confidence_def)

subsection \<open>Rules and axioms\<close>

lemma subproperty_rule:
  assumes "states_axiom t oid ''subproperty_of'' p q" and "p \<noteq> []" and "q \<noteq> []"
  obtains r where "r \<in> set (load_projection_rules t oid)" and "pr_kind r = ''subproperty_of''"
    and "pr_from r = p" and "pr_to r = q" and "\<not> pr_reverse r"
proof -
  obtain a where a: "a \<in> set (on_axioms t)" "visible_from t oid (ax_ontology a) (ax_subject a)"
    "ax_type a = ''subproperty_of''" "ax_subject a = p" "ax_object a = q"
    using assms(1) by (auto simp: states_axiom_def)
  show ?thesis
    by (rule that [of "rule_of a"]) (rule loaded_ruleI [OF a(1,2)], use a assms(2,3) in \<open>auto simp: expand_axiom_def rule_of_def Let_def\<close>)
qed

lemma inverse_rule:
  assumes "states_axiom t oid ''inverse_of'' p q \<or> states_axiom t oid ''inverse_of'' q p" and "p \<noteq> []" and "q \<noteq> []"
  obtains r where "r \<in> set (load_projection_rules t oid)" and "pr_kind r = ''inverse_of''"
    and "pr_from r = p" and "pr_to r = q" and "pr_reverse r"
proof -
  obtain a where a: "a \<in> set (on_axioms t)" "visible_from t oid (ax_ontology a) (ax_subject a)"
    "ax_type a = ''inverse_of''"
    and pq: "ax_subject a = p \<and> ax_object a = q \<or> ax_subject a = q \<and> ax_object a = p"
    using assms(1) by (auto simp: states_axiom_def)
  show ?thesis
  proof (cases "ax_subject a = p \<and> ax_object a = q")
    case True
    show ?thesis
      by (rule that [of "(rule_of a)\<lparr>pr_reverse := True\<rparr>"])
        (rule loaded_ruleI [OF a(1,2)], use a True assms(2,3) in \<open>auto simp: expand_axiom_def rule_of_def Let_def\<close>)
  next
    case False
    show ?thesis
      by (rule that [of "(rule_of a)\<lparr>pr_from := ax_object a, pr_to := ax_subject a, pr_reverse := True\<rparr>"])
        (rule loaded_ruleI [OF a(1,2)], use a pq False assms(2,3) in \<open>auto simp: expand_axiom_def rule_of_def Let_def\<close>)
  qed
qed

lemma one_end_rule:
  assumes "states_axiom t oid k p q" and "k = ''symmetric'' \<or> k = ''transitive''"
  obtains r where "r \<in> set (load_projection_rules t oid)" and "pr_kind r = k" and "pr_from r = p"
    and "pr_to r = p" and "pr_reverse r = (k = ''symmetric'')"
proof -
  obtain a where a: "a \<in> set (on_axioms t)" "visible_from t oid (ax_ontology a) (ax_subject a)"
    "ax_type a = k" "ax_subject a = p"
    using assms(1) by (auto simp: states_axiom_def)
  show ?thesis
    by (rule that [of "(rule_of a)\<lparr>pr_to := ax_subject a, pr_reverse := k = ''symmetric''\<rparr>"])
      (rule loaded_ruleI [OF a(1,2)], use a assms(2) in \<open>auto simp: expand_axiom_def rule_of_def Let_def\<close>)
qed

lemma states_some:
  "(\<exists>q. states_axiom t oid k p q) \<longleftrightarrow>
     (\<exists>a \<in> set (on_axioms t). ax_type a = k \<and> ax_subject a = p \<and> visible_from t oid (ax_ontology a) p)"
  by (auto simp: states_axiom_def)

text \<open>And every loaded rule is one of these.\<close>

lemma rule_origin:
  assumes "r \<in> set (load_projection_rules t oid)"
  shows "pr_kind r = ''subproperty_of'' \<Longrightarrow> \<not> pr_reverse r \<and> pr_from r \<noteq> [] \<and> pr_to r \<noteq> [] \<and>
      states_axiom t oid ''subproperty_of'' (pr_from r) (pr_to r)"
    and "pr_kind r = ''inverse_of'' \<Longrightarrow> pr_reverse r \<and> pr_from r \<noteq> [] \<and> pr_to r \<noteq> [] \<and>
      (states_axiom t oid ''inverse_of'' (pr_from r) (pr_to r) \<or>
       states_axiom t oid ''inverse_of'' (pr_to r) (pr_from r))"
    and "pr_kind r = ''symmetric'' \<Longrightarrow> pr_reverse r \<and> pr_to r = pr_from r \<and>
      (\<exists>q. states_axiom t oid ''symmetric'' (pr_from r) q)"
    and "pr_kind r = ''transitive'' \<Longrightarrow> \<exists>q. states_axiom t oid ''transitive'' (pr_from r) q"
proof -
  obtain a where a: "a \<in> set (on_axioms t)" "visible_from t oid (ax_ontology a) (ax_subject a)"
    "r \<in> set (expand_axiom a)"
    using assms by (auto simp: loaded_rules)
  note parts = expand_axiom_def rule_of_def Let_def
  show "pr_kind r = ''subproperty_of'' \<Longrightarrow> \<not> pr_reverse r \<and> pr_from r \<noteq> [] \<and> pr_to r \<noteq> [] \<and>
      states_axiom t oid ''subproperty_of'' (pr_from r) (pr_to r)"
    using a by (auto simp: parts states_axiom_def split: if_splits)
  show "pr_kind r = ''inverse_of'' \<Longrightarrow> pr_reverse r \<and> pr_from r \<noteq> [] \<and> pr_to r \<noteq> [] \<and>
      (states_axiom t oid ''inverse_of'' (pr_from r) (pr_to r) \<or>
       states_axiom t oid ''inverse_of'' (pr_to r) (pr_from r))"
    using a by (auto simp: parts states_axiom_def split: if_splits)
  show "pr_kind r = ''symmetric'' \<Longrightarrow> pr_reverse r \<and> pr_to r = pr_from r \<and>
      (\<exists>q. states_axiom t oid ''symmetric'' (pr_from r) q)"
    using a by (auto simp: parts states_some split: if_splits)
  show "pr_kind r = ''transitive'' \<Longrightarrow> \<exists>q. states_axiom t oid ''transitive'' (pr_from r) q"
    using a by (auto simp: parts states_some split: if_splits)
qed

subsection \<open>The two descriptions agree\<close>

lemma meant_entailed:
  assumes "meant t oid blocked given v" and "\<And>u. u \<in> given \<Longrightarrow> fact u = u"
  shows "entailed (load_projection_rules t oid) blocked given v"
  using assms(1)
proof induction
  case (asserted v)
  then show ?case by (rule entailed.asserted)
next
  case (subproperty v q)
  obtain r where r: "r \<in> set (load_projection_rules t oid)" "pr_kind r = ''subproperty_of''"
    "pr_from r = ps_predicate v" "pr_to r = q" "\<not> pr_reverse r"
    using subproperty_rule [OF subproperty(2,3,4)] .
  have c: "rule_conclusion r v = v\<lparr>ps_predicate := q\<rparr>"
    using fact_conclusion [OF meant_fact [OF subproperty(1) assms(2)]] r by simp
  have "entailed (load_projection_rules t oid) blocked given (rule_conclusion r v)"
    by (rule entailed.one_premise [OF subproperty.IH r(1)]) (use r c subproperty in \<open>simp_all add: rule_applies_def\<close>)
  then show ?case by (simp add: c)
next
  case (inverse v q)
  obtain r where r: "r \<in> set (load_projection_rules t oid)" "pr_kind r = ''inverse_of''"
    "pr_from r = ps_predicate v" "pr_to r = q" "pr_reverse r"
    using inverse_rule [OF inverse(2,3,4)] .
  have c: "rule_conclusion r v = swapped q v"
    using fact_conclusion [OF meant_fact [OF inverse(1) assms(2)]] r by simp
  have "entailed (load_projection_rules t oid) blocked given (rule_conclusion r v)"
    by (rule entailed.one_premise [OF inverse.IH r(1)]) (use r c inverse in \<open>simp_all add: rule_applies_def\<close>)
  then show ?case by (simp add: c)
next
  case (symmetric v q)
  obtain r where r: "r \<in> set (load_projection_rules t oid)" "pr_kind r = ''symmetric''"
    "pr_from r = ps_predicate v" "pr_to r = ps_predicate v" "pr_reverse r"
    using one_end_rule [OF symmetric(2)] by auto
  have c: "rule_conclusion r v = swapped (ps_predicate v) v"
    using fact_conclusion [OF meant_fact [OF symmetric(1) assms(2)]] r by simp
  have "entailed (load_projection_rules t oid) blocked given (rule_conclusion r v)"
    by (rule entailed.one_premise [OF symmetric.IH r(1)]) (use r c symmetric in \<open>simp_all add: rule_applies_def\<close>)
  then show ?case by (simp add: c)
next
  case (transitive l x q)
  obtain r where r: "r \<in> set (load_projection_rules t oid)" "pr_kind r = ''transitive''"
    "pr_from r = ps_predicate l"
    using one_end_rule [OF transitive(3)] by auto
  have f: "fact l = l" "fact x = x" using meant_fact [OF _ assms(2)] transitive(1,2) by blast+
  have c: "link_conclusion l x = joined l x" by (rule fact_link [OF f])
  have "entailed (load_projection_rules t oid) blocked given (link_conclusion l x)"
    by (rule entailed.chain [OF transitive.IH r(1,2)])
      (use r c transitive fact_fields [OF f(1)] fact_fields [OF f(2)] in \<open>simp_all add: link_left_def link_right_def\<close>)
  then show ?case by (simp add: c)
qed

lemma entailed_meant:
  assumes "entailed (load_projection_rules t oid) blocked given v" and "\<And>u. u \<in> given \<Longrightarrow> fact u = u"
  shows "meant t oid blocked given v"
  using assms(1)
proof induction
  case (asserted v)
  then show ?case by (rule meant.asserted)
next
  case (one_premise v r)
  note o = rule_origin [OF one_premise(2)]
  have c: "rule_conclusion r v = (if pr_reverse r then swapped (pr_to r) v else v\<lparr>ps_predicate := pr_to r\<rparr>)"
    by (rule fact_conclusion [OF entailed_fact [OF one_premise(1) assms(2)]])
  consider "pr_kind r = ''subproperty_of''" | "pr_kind r = ''inverse_of''" | "pr_kind r = ''symmetric''"
    using one_premise(3) by (auto simp: rule_applies_def)
  then show ?case
  proof cases
    case 1
    with o(1) c show ?thesis using one_premise meant.subproperty [OF one_premise.IH, of "pr_to r"]
      by (simp add: rule_applies_def)
  next
    case 2
    with o(2) c show ?thesis using one_premise meant.inverse [OF one_premise.IH, of "pr_to r"]
      by (simp add: rule_applies_def)
  next
    case 3
    with o(3) c show ?thesis using one_premise meant.symmetric [OF one_premise.IH]
      by (auto simp: rule_applies_def)
  qed
next
  case (chain l x r)
  have f: "fact l = l" "fact x = x" using entailed_fact [OF _ assms(2)] chain(1,2) by blast+
  obtain q where "states_axiom t oid ''transitive'' (pr_from r) q" using rule_origin(4) [OF chain(3,4)] by blast
  then show ?case
    using chain meant.transitive [OF chain.IH] by (auto simp: fact_link [OF f] link_left_def link_right_def)
qed

text \<open>
  C24. The reasoner, run on the rules of an ontology, finds exactly what its axioms and those it
  imports mean: an accepted, affirmed fact is among the statements of the projection if and only
  if it is asserted or follows by subproperties, inverse properties in either direction, symmetric
  properties or transitive properties along statements with equal qualifiers that are valid at
  the same time, facts already stated by an inactive assertion excepted. An imported axiom counts
  unless the ontology declares a term of its own with the name of its subject. Every assertion
  stays, and whatever is not asserted is an accepted conclusion, once per id. For assertions with
  distinct ids and texts without a NUL byte.
\<close>

theorem projection_meaning:
  assumes "derive_knowledge_projection sha asserted evidence classes (load_projection_rules t oid) bound = Inr (p, vs)"
    and "distinct (map ps_id asserted)" and "\<forall>v \<in> set asserted. clean_statement v"
    and "\<forall>a \<in> set (on_axioms t). NUL \<notin> set (ax_subject a) \<and> NUL \<notin> set (ax_object a)"
  shows "{fact v |v. v \<in> set vs \<and> active v} =
    {f. meant t oid (statement_key ` {v \<in> set asserted. \<not> active v})
          {fact v |v. v \<in> set asserted \<and> active v} f} \<and>
    set asserted \<subseteq> set vs \<and> (\<forall>v \<in> set vs. v \<in> set asserted \<or> active v) \<and>
    sorted (map ps_id vs) \<and> distinct (map ps_id vs)"
proof -
  have "\<forall>r \<in> set (load_projection_rules t oid). clean_rule r"
    using assms(4) by (auto simp: loaded_rules expand_axiom_def rule_of_def clean_rule_def Let_def split: if_splits)
  note closure = projection_closure [OF assms(1-3) this]
  then have "facts_of vs = Collect (entailed_by (load_projection_rules t oid) asserted)" by blast
  moreover have facts: "{fact v |v. v \<in> set us \<and> active v} = facts_of us" for us
    by (auto simp: facts_of_def)
  moreover have "entailed_by (load_projection_rules t oid) asserted =
      meant t oid (blocked_keys asserted) (facts_of asserted)"
  proof (rule ext)
    fix f
    have "\<And>u. u \<in> facts_of asserted \<Longrightarrow> fact u = u" by (auto simp: facts_of_def fact_def)
    then show "entailed_by (load_projection_rules t oid) asserted f =
        meant t oid (blocked_keys asserted) (facts_of asserted) f"
      using meant_entailed entailed_meant by metis
  qed
  ultimately show ?thesis unfolding facts using closure by (simp add: blocked_keys_def)
qed

end
