(* ===== verification/Projection_Samples.thy ===== *)
theory Projection_Samples
  imports Projection_Limit Projection_Meaning
begin

section \<open>A small knowledge generation\<close>

text \<open>
  Parts of parts, with a class for parts and two widths of one part, at which the properties of the
  projection are applied.
\<close>

definition plain_statement :: "string \<Rightarrow> string \<Rightarrow> string \<Rightarrow> string \<Rightarrow> string \<Rightarrow> statement" where
  "plain_statement i s p ob lit =
     \<lparr>ps_id = i, ps_subject = s, ps_predicate = p, ps_object = ob, ps_literal = lit, ps_qualifiers = ''{}'',
      ps_polarity = ''affirmed'', ps_status = ''accepted'', ps_from = None, ps_to = None, ps_confidence = 1\<rparr>"

definition parts :: "statement list" where
  "parts = [plain_statement ''a1'' ''wing'' ''partOf'' ''plane'' [],
            plain_statement ''a2'' ''rib'' ''partOf'' ''wing'' [],
            plain_statement ''a3'' ''rib'' ''width'' [] ''1'',
            plain_statement ''a4'' ''rib'' ''width'' [] ''2'']"

definition part_evidence :: "string \<Rightarrow> assertion_evidence list" where
  "part_evidence i =
     [\<lparr>ae_assertion = i, ae_kind = ''text_span'', ae_blob = ''b'', ae_chunk = ''c'', ae_claim = [],
       ae_source = [], ae_start = Some 0, ae_end = Some 3, ae_locator = ''{}'', ae_sha = i\<rparr>]"

definition part_rule :: "string \<Rightarrow> string \<Rightarrow> string \<Rightarrow> string \<Rightarrow> projection_rule" where
  "part_rule i k f t =
     \<lparr>pr_ontology = ''o'', pr_axiom = i, pr_kind = k, pr_from = f, pr_to = t, pr_reverse = False\<rparr>"

definition part_rules :: "projection_rule list" where
  "part_rules = [part_rule ''x1'' ''transitive'' ''partOf'' ''partOf'',
                 part_rule ''x2'' ''domain'' ''partOf'' ''Part'',
                 part_rule ''x3'' ''subclass_of'' ''Part'' ''Thing'']"

definition part_projection :: "string + projection \<times> statement list" where
  "part_projection = derive_knowledge_projection id parts part_evidence [] part_rules 0"

lemma part_projection_ok:
  "(case part_projection of Inl _ \<Rightarrow> False
    | Inr (p, vs) \<Rightarrow> length (pj_inferences p) = 1 \<and> length vs = 5 \<and> length (pj_types p) = 4)"
  by code_simp

lemma parts_clean:
  "distinct (map ps_id parts)" "\<forall>v \<in> set parts. clean_statement v" "\<forall>r \<in> set part_rules. clean_rule r"
  by code_simp+

text \<open>
  An ontology with these rules. It imports an inverse of \<open>partOf\<close>, which it hides because it declares
  a term \<open>partOf\<close> of its own.
\<close>

definition part_axiom :: "string \<Rightarrow> string \<Rightarrow> string \<Rightarrow> string \<Rightarrow> string \<Rightarrow> axiom_row" where
  "part_axiom oid i k s ob = \<lparr>ax_ontology = oid, ax_id = i, ax_type = k, ax_subject = s, ax_object = ob\<rparr>"

definition part_ontology :: ontology_tables where
  "part_ontology = \<lparr>on_axioms =
      [part_axiom ''u'' ''u1'' ''inverse_of'' ''partOf'' ''hasPart'',
       part_axiom ''o'' ''x3'' ''subclass_of'' ''Part'' ''Thing'',
       part_axiom ''o'' ''x1'' ''transitive'' ''partOf'' [],
       part_axiom ''o'' ''x2'' ''domain'' ''partOf'' ''Part''],
    on_imports = [(''o'', ''u'')],
    on_terms = [\<lparr>tm_ontology = ''o'', tm_key = ''partOf'', tm_functional = False\<rparr>]\<rparr>"

lemma part_ontology_rules: "load_projection_rules part_ontology ''o'' = part_rules"
  by code_simp

theorem projection_meaning_witness:
  "\<exists>p vs. part_projection = Inr (p, vs) \<and> length vs = 5 \<and>
     {fact v |v. v \<in> set vs \<and> active v} = {f. meant part_ontology ''o'' {} (fact ` set parts) f}"
proof -
  obtain p vs where ok: "part_projection = Inr (p, vs)" "length vs = 5"
    using part_projection_ok by (auto split: sum.splits prod.splits)
  have act: "\<forall>v \<in> set parts. active v" by code_simp
  then have none: "{v \<in> set parts. \<not> active v} = {}" and given: "{fact v |v. v \<in> set parts \<and> active v} = fact ` set parts"
    by auto
  have "\<forall>a \<in> set (on_axioms part_ontology). NUL \<notin> set (ax_subject a) \<and> NUL \<notin> set (ax_object a)" by code_simp
  from projection_meaning [OF ok(1) [unfolded part_projection_def part_ontology_rules [symmetric]] parts_clean(1,2) this]
  have "{fact v |v. v \<in> set vs \<and> active v} = {f. meant part_ontology ''o'' {} (fact ` set parts) f}"
    unfolding none given by simp
  then show ?thesis using ok by blast
qed


definition part_classes :: "entity_class list" where
  "part_classes = [plain_class ''plane'' ''Part'', plain_class ''wing'' ''Part'']"

definition part_types :: "string + type_inference list \<times> type_proof list" where
  "part_types = derive_knowledge_type_projection id part_classes parts part_rules 10"


theorem conflicts_reconciled_witness:
  "\<exists>found. detect_projection_conflicts id (\<lambda>p. p = ''width'') parts = found \<and>
     conflict_ids found = {(''a3'', ''a4'')} \<and>
     pair_of ` set (snd (reconcile_projection_conflicts [] found)) = {pair_of (hd found)}"
proof -
  define found where "found = detect_projection_conflicts id (\<lambda>p. p = ''width'') parts"
  have one: "map (\<lambda>c. (cf_left c, cf_right c)) found = [(''a3'', ''a4'')]"
    unfolding found_def by code_simp
  then obtain c where c: "found = [c]" by (cases found) auto
  obtain kept rest where rec: "reconcile_projection_conflicts [] found = (kept, rest)" by fastforce
  have ids: "conflict_ids found = {(''a3'', ''a4'')}"
    using arg_cong [OF one, of set] by (simp add: conflict_ids_def)
  have "pair_of ` set (kept @ rest) = pair_of ` set found" "set kept \<subseteq> set []"
    using conflicts_reconciled [OF parts_clean(1,2) found_def [symmetric] rec] by blast+
  then have "pair_of ` set rest = {pair_of (hd found)}" by (simp add: c)
  then show ?thesis unfolding found_def [symmetric] using ids rec by (intro exI [of _ found]) simp
qed

lemma parts_well_formed: "well_formed_generation parts part_evidence [] part_rules"
  using parts_clean
  by (simp add: well_formed_generation_def admissible_def plain_classes_def)
    (simp add: parts_def plain_statement_def part_evidence_def)

theorem projection_limit_witness:
  "card (new_facts part_rules parts) = 1 \<and>
   card (new_classes part_rules (Collect (entailed_by part_rules parts)) []) = 4 \<and>
   derive_knowledge_projection id parts part_evidence [] part_rules 4 = Inl limit_error"
proof -
  obtain p vs where ok: "part_projection = Inr (p, vs)" and n: "length (pj_inferences p) = 1" "length (pj_types p) = 4"
    using part_projection_ok by (auto split: sum.splits prod.splits)
  have a: "card (new_facts part_rules parts) = 1"
    "card (new_classes part_rules (Collect (entailed_by part_rules parts)) []) = 4"
    using projection_limit [OF parts_well_formed, of id 0] ok n
    by (auto simp: part_projection_def Let_def split: if_splits)
  have "derive_knowledge_projection id parts part_evidence [] part_rules 4 \<noteq> Inl collision_error"
    by code_simp
  from projection_limit [OF parts_well_formed this] show ?thesis using a by (simp add: Let_def)
qed

end
