(* ===== verification/Spec2Isabelle.thy ===== *)
theory Spec2Isabelle
  imports Run_Properties Run_Success Recovery_Properties Approval_Properties Ledger_Properties Archive_Properties
    Dispatch_Properties Cas_Store Guard_Properties Contract_Properties Stage_Failures Engine_Properties Resume_Properties
    Projection_Samples
begin

text \<open>The development of the run lifecycle of the store and of the research engine.\<close>

end
